(* ===== verification/Prelude.thy ===== *)
theory Prelude
  imports Main "HOL-Library.Sublist"
begin

text \<open>
  Shared vocabulary of the development: the types that stand for Rust's own
  (\<open>str\<close> as its UTF-8 bytes, \<open>Result<T, String>\<close> as a sum), the string
  functions of the Rust standard library the server calls, and the list lemmas
  the components share.  The collection \<open>str_simps\<close> holds the rewrite rules
  of the string functions, \<open>ok_simps\<close> those of the result type.
\<close>

named_theorems str_simps
named_theorems ok_simps

section \<open>Results\<close>

text \<open>\<open>Result<T, String>\<close>: \<open>Inl\<close> is \<open>Err\<close>, \<open>Inr\<close> is \<open>Ok\<close>.\<close>

type_synonym 'a res = "string + 'a"

definition and_then :: "'a res \<Rightarrow> ('a \<Rightarrow> 'b res) \<Rightarrow> 'b res" where
  "and_then r f = (case r of Inl e \<Rightarrow> Inl e | Inr a \<Rightarrow> f a)"

lemma and_then_simps [simp, ok_simps]:
  "and_then (Inl e) f = Inl e" "and_then (Inr a) f = f a"
  by (simp_all add: and_then_def)

lemma and_then_Inr_iff [ok_simps]:
  "and_then r f = Inr b \<longleftrightarrow> (\<exists>a. r = Inr a \<and> f a = Inr b)"
  by (cases r) simp_all

lemma and_then_Inl_iff:
  "and_then r f = Inl e \<longleftrightarrow> r = Inl e \<or> (\<exists>a. r = Inr a \<and> f a = Inl e)"
  by (cases r) simp_all

definition ensure :: "bool \<Rightarrow> string \<Rightarrow> unit res" where
  "ensure ok e = (if ok then Inr () else Inl e)"

lemma ensure_Inr_iff [simp, ok_simps]: "ensure ok e = Inr u \<longleftrightarrow> ok"
  by (simp add: ensure_def)

lemma ensure_Inl_iff [simp]: "ensure ok e = Inl e' \<longleftrightarrow> \<not> ok \<and> e' = e"
  by (auto simp: ensure_def)

lemma ensure_simps [simp]: "ensure True e = Inr ()" "ensure False e = Inl e"
  by (simp_all add: ensure_def)

section \<open>Bytes and characters\<close>

text \<open>
  A Rust \<open>str\<close> is a sequence of UTF-8 bytes and \<open>len()\<close> counts bytes, so a
  string is a \<^typ>\<open>char list\<close> whose elements are the bytes.  \<open>chars()\<close> walks it
  by lead byte; one Unicode scalar value is the list of its bytes.
\<close>

definition byte :: "char \<Rightarrow> nat" where
  "byte c = of_char c"

lemma byte_less_256 [simp]: "byte c < 256"
  unfolding byte_def by (cases c) (simp add: of_char_def)

definition utf8_width :: "char \<Rightarrow> nat" where
  "utf8_width c = (if byte c < 128 then 1 else if byte c < 224 then 2
                   else if byte c < 240 then 3 else 4)"

lemma utf8_width_pos [simp]: "0 < utf8_width c"
  by (simp add: utf8_width_def)

function str_chars :: "string \<Rightarrow> string list" where
  "str_chars [] = []"
| "str_chars (c # cs) = take (utf8_width c) (c # cs) # str_chars (drop (utf8_width c) (c # cs))"
  by pat_completeness auto
termination
  by (relation "measure length") (auto simp: utf8_width_def)

lemma concat_str_chars [simp]: "concat (str_chars s) = s"
  by (induction s rule: str_chars.induct) (simp_all only: str_chars.simps concat.simps append_take_drop_id)

definition cont_bits :: "char \<Rightarrow> nat" where
  "cont_bits c = byte c mod 64"

text \<open>\<open>c as u32\<close> of one character, from its bytes.\<close>

fun char_code :: "string \<Rightarrow> nat" where
  "char_code [a] = byte a"
| "char_code [a, b] = (byte a mod 32) * 64 + cont_bits b"
| "char_code [a, b, c] = (byte a mod 16) * 4096 + cont_bits b * 64 + cont_bits c"
| "char_code [a, b, c, d] = (byte a mod 8) * 262144 + cont_bits b * 4096 + cont_bits c * 64 + cont_bits d"
| "char_code _ = 0"

definition is_control_code :: "nat \<Rightarrow> bool" where
  "is_control_code n \<longleftrightarrow> n < 32 \<or> (127 \<le> n \<and> n < 160)"

definition is_whitespace_code :: "nat \<Rightarrow> bool" where
  "is_whitespace_code n \<longleftrightarrow> (9 \<le> n \<and> n \<le> 13) \<or> n = 32 \<or> n = 133 \<or> n = 160 \<or> n = 5760
     \<or> (8192 \<le> n \<and> n \<le> 8202) \<or> n = 8232 \<or> n = 8233 \<or> n = 8239 \<or> n = 8287 \<or> n = 12288"

definition is_ws :: "string \<Rightarrow> bool" where
  "is_ws c = is_whitespace_code (char_code c)"

definition ascii_digit :: "char \<Rightarrow> bool" where
  "ascii_digit c \<longleftrightarrow> 48 \<le> byte c \<and> byte c \<le> 57"

definition ascii_upper :: "char \<Rightarrow> bool" where
  "ascii_upper c \<longleftrightarrow> 65 \<le> byte c \<and> byte c \<le> 90"

definition ascii_lower :: "char \<Rightarrow> bool" where
  "ascii_lower c \<longleftrightarrow> 97 \<le> byte c \<and> byte c \<le> 122"

definition ascii_alpha :: "char \<Rightarrow> bool" where
  "ascii_alpha c \<longleftrightarrow> ascii_upper c \<or> ascii_lower c"

definition to_ascii_lower :: "char \<Rightarrow> char" where
  "to_ascii_lower c = (if ascii_upper c then char_of (byte c + 32) else c)"

section \<open>String functions of the standard library\<close>

definition starts_with :: "string \<Rightarrow> string \<Rightarrow> bool" where
  "starts_with s p \<longleftrightarrow> take (length p) s = p"

definition ends_with :: "string \<Rightarrow> string \<Rightarrow> bool" where
  "ends_with s p \<longleftrightarrow> length p \<le> length s \<and> drop (length s - length p) s = p"

definition strip_prefix :: "string \<Rightarrow> string \<Rightarrow> string option" where
  "strip_prefix s p = (if starts_with s p then Some (drop (length p) s) else None)"

definition strip_suffix :: "string \<Rightarrow> string \<Rightarrow> string option" where
  "strip_suffix s p = (if ends_with s p then Some (take (length s - length p) s) else None)"

fun find_sub :: "string \<Rightarrow> string \<Rightarrow> nat option" where
  "find_sub [] p = (if p = [] then Some 0 else None)"
| "find_sub (c # cs) p = (if starts_with (c # cs) p then Some 0 else map_option Suc (find_sub cs p))"

definition contains :: "string \<Rightarrow> string \<Rightarrow> bool" where
  "contains s p \<longleftrightarrow> find_sub s p \<noteq> None"

fun find_char :: "string \<Rightarrow> (char \<Rightarrow> bool) \<Rightarrow> nat option" where
  "find_char [] P = None"
| "find_char (c # cs) P = (if P c then Some 0 else map_option Suc (find_char cs P))"

text \<open>\<open>str::rfind\<close> of one ASCII character.\<close>

fun rfind_char :: "string \<Rightarrow> char \<Rightarrow> nat option" where
  "rfind_char [] x = None"
| "rfind_char (c # cs) x = (case rfind_char cs x of Some i \<Rightarrow> Some (Suc i)
     | None \<Rightarrow> if c = x then Some 0 else None)"

text \<open>\<open>str::split(char)\<close>: always at least one piece.\<close>

fun split_on :: "char \<Rightarrow> string \<Rightarrow> string list" where
  "split_on x [] = [[]]"
| "split_on x (c # cs) = (if c = x then [] # split_on x cs
     else case split_on x cs of [] \<Rightarrow> [[c]] | p # ps \<Rightarrow> (c # p) # ps)"

fun join_with :: "string \<Rightarrow> string list \<Rightarrow> string" where
  "join_with sep [] = []"
| "join_with sep [x] = x"
| "join_with sep (x # y # ys) = x @ sep @ join_with sep (y # ys)"

definition split_once :: "char \<Rightarrow> string \<Rightarrow> (string \<times> string) option" where
  "split_once x s = (case find_char s (\<lambda>c. c = x) of None \<Rightarrow> None
     | Some i \<Rightarrow> Some (take i s, drop (Suc i) s))"

definition rsplit_once :: "char \<Rightarrow> string \<Rightarrow> (string \<times> string) option" where
  "rsplit_once x s = (case rfind_char s x of None \<Rightarrow> None
     | Some i \<Rightarrow> Some (take i s, drop (Suc i) s))"

definition trim_start :: "string \<Rightarrow> string" where
  "trim_start s = concat (dropWhile is_ws (str_chars s))"

definition trim_end :: "string \<Rightarrow> string" where
  "trim_end s = concat (rev (dropWhile is_ws (rev (str_chars s))))"

definition trim :: "string \<Rightarrow> string" where
  "trim s = trim_end (trim_start s)"

text \<open>\<open>str::eq_ignore_ascii_case\<close>.\<close>

definition eq_ignore_case :: "string \<Rightarrow> string \<Rightarrow> bool" where
  "eq_ignore_case a b \<longleftrightarrow> map to_ascii_lower a = map to_ascii_lower b"

section \<open>Numbers as text\<close>

definition digit_char :: "nat \<Rightarrow> char" where
  "digit_char d = char_of (48 + d)"

function show_nat :: "nat \<Rightarrow> string" where
  "show_nat n = (if n < 10 then [digit_char n] else show_nat (n div 10) @ [digit_char (n mod 10)])"
  by pat_completeness auto
termination
  by (relation "measure id") auto

declare show_nat.simps [simp del]

definition digit_val :: "char \<Rightarrow> nat" where
  "digit_val c = byte c - 48"

fun read_digits :: "nat \<Rightarrow> string \<Rightarrow> nat" where
  "read_digits acc [] = acc"
| "read_digits acc (c # cs) = read_digits (acc * 10 + digit_val c) cs"

text \<open>
  \<open>str::parse\<close> into an unsigned integer of \<open>w\<close> bits: digits only, an optional
  leading plus sign, at least one digit, and no overflow.
\<close>

definition parse_unsigned :: "nat \<Rightarrow> string \<Rightarrow> nat option" where
  "parse_unsigned w s =
     (let ds = (case s of c # cs \<Rightarrow> if c = CHR ''+'' then cs else s | [] \<Rightarrow> s)
      in if ds \<noteq> [] \<and> list_all ascii_digit ds \<and> read_digits 0 ds < 2 ^ w
         then Some (read_digits 0 ds) else None)"

section \<open>Lemmas on strings and lists\<close>

lemma starts_with_append [simp, str_simps]: "starts_with (p @ s) p"
  by (simp add: starts_with_def)

lemma starts_with_prefix: "starts_with s p \<longleftrightarrow> (\<exists>t. s = p @ t)"
  by (metis append_eq_conv_conj starts_with_def append_take_drop_id)

lemma strip_prefix_Some: "strip_prefix s p = Some t \<longleftrightarrow> s = p @ t"
  by (auto simp: strip_prefix_def starts_with_prefix)

lemma split_on_nonempty [simp]: "split_on x s \<noteq> []"
  by (induction s) (auto split: list.splits)

lemma split_on_no_sep: "p \<in> set (split_on x s) \<Longrightarrow> x \<notin> set p"
proof (induction s arbitrary: p)
  case (Cons c cs)
  then show ?case
    by (cases "split_on x cs") (auto split: if_splits)
qed simp

lemma join_split_on: "join_with [x] (split_on x s) = s"
proof (induction s)
  case (Cons c cs)
  obtain p ps where ps: "split_on x cs = p # ps"
    by (meson list.exhaust split_on_nonempty)
  with Cons show ?case by (cases ps) auto
qed simp

lemma length_join_with:
  "length (join_with sep xs) = (\<Sum>x\<leftarrow>xs. length x) + (length xs - 1) * length sep"
  by (induction sep xs rule: join_with.induct) auto

lemma find_char_Some:
  "find_char s P = Some i \<Longrightarrow> i < length s \<and> P (s ! i) \<and> (\<forall>j<i. \<not> P (s ! j))"
proof (induction s arbitrary: i)
  case (Cons c cs)
  then show ?case
    by (auto split: if_splits simp: nth_Cons less_Suc_eq_0_disj split: nat.splits)
qed simp

lemma find_char_None: "find_char s P = None \<longleftrightarrow> (\<forall>c\<in>set s. \<not> P c)"
  by (induction s) auto

lemma rfind_char_Some:
  "rfind_char s x = Some i \<Longrightarrow> i < length s \<and> s ! i = x \<and> x \<notin> set (drop (Suc i) s)"
proof (induction s arbitrary: i)
  case (Cons c cs)
  then show ?case
  proof (cases "rfind_char cs x")
    case None
    then have "x \<notin> set cs"
    proof (induction cs)
      case (Cons d ds)
      then show ?case by (auto split: option.splits if_splits)
    qed simp
    with None Cons.prems show ?thesis by (auto split: if_splits)
  qed (auto)
qed simp

lemma rfind_char_None: "rfind_char s x = None \<longleftrightarrow> x \<notin> set s"
  by (induction s) (auto split: option.splits if_splits)

lemma find_sub_Some:
  "find_sub s p = Some i \<Longrightarrow> i \<le> length s \<and> starts_with (drop i s) p"
proof (induction s arbitrary: i)
  case (Cons c cs)
  then show ?case by (auto split: if_splits)
qed (auto simp: starts_with_def split: if_splits)

lemma contains_iff: "contains s p \<longleftrightarrow> (\<exists>u v. s = u @ p @ v)"
proof (induction s)
  case Nil
  then show ?case by (auto simp: contains_def)
next
  case (Cons c cs)
  show ?case
  proof
    assume "contains (c # cs) p"
    then consider "starts_with (c # cs) p" | "contains cs p"
      by (auto simp: contains_def split: if_splits)
    then show "\<exists>u v. c # cs = u @ p @ v"
    proof cases
      case 1
      then show ?thesis by (metis append_Nil starts_with_prefix)
    next
      case 2
      with Cons show ?thesis by (metis append_Cons)
    qed
  next
    assume "\<exists>u v. c # cs = u @ p @ v"
    then obtain u v where uv: "c # cs = u @ p @ v" by blast
    show "contains (c # cs) p"
    proof (cases u)
      case Nil
      with uv have "starts_with (c # cs) p" by simp
      then show ?thesis by (simp add: contains_def)
    next
      case (Cons d ds)
      with uv have "cs = ds @ p @ v" by simp
      with Cons.IH show ?thesis
        by (metis contains_def find_sub.simps(2) option.distinct(1) option.map_disc_iff)
    qed
  qed
qed

lemma digit_char_byte: "d < 10 \<Longrightarrow> byte (digit_char d) = 48 + d"
  by (simp add: byte_def digit_char_def)

lemma show_nat_nonempty [simp]: "show_nat n \<noteq> []"
  by (subst show_nat.simps) simp

lemma read_digits_append: "read_digits a (xs @ ys) = read_digits (read_digits a xs) ys"
  by (induction xs arbitrary: a) auto

lemma show_nat_digits: "list_all ascii_digit (show_nat n)"
proof (induction n rule: show_nat.induct)
  case (1 n)
  then show ?case
    by (subst show_nat.simps) (auto simp: ascii_digit_def [of "digit_char _"] digit_char_byte)
qed

lemma read_show_nat: "read_digits 0 (show_nat n) = n"
proof (induction n rule: show_nat.induct)
  case (1 n)
  then show ?case
    by (subst show_nat.simps) (auto simp: read_digits_append digit_val_def digit_char_byte)
qed

lemma parse_show_nat: "n < 2 ^ w \<Longrightarrow> parse_unsigned w (show_nat n) = Some n"
proof -
  assume n: "n < 2 ^ w"
  obtain c cs where s: "show_nat n = c # cs" by (meson list.exhaust show_nat_nonempty)
  have "ascii_digit c" using show_nat_digits [of n] s by simp
  then have "c \<noteq> CHR ''+''" by (auto simp: ascii_digit_def byte_def)
  then show ?thesis
    using n show_nat_digits [of n] read_show_nat [of n] s by (simp add: parse_unsigned_def)
qed

lemma show_nat_inject [simp]: "show_nat a = show_nat b \<longleftrightarrow> a = b"
  by (metis read_show_nat)

section \<open>Text of ASCII characters\<close>

definition plain :: "string \<Rightarrow> bool" where
  "plain s = list_all (\<lambda>c. byte c < 128) s"

definition ascii_ws :: "char \<Rightarrow> bool" where
  "ascii_ws c \<longleftrightarrow> 9 \<le> byte c \<and> byte c \<le> 13 \<or> byte c = 32"

lemma str_chars_plain: "plain s \<Longrightarrow> str_chars s = map (\<lambda>c. [c]) s"
  by (induction s) (auto simp: plain_def utf8_width_def)

lemma is_ws_plain: "byte c < 128 \<Longrightarrow> is_ws [c] = ascii_ws c"
  by (auto simp: is_ws_def is_whitespace_code_def ascii_ws_def)

lemma dropWhile_map_single: "dropWhile P (map (\<lambda>c. [c]) s) = map (\<lambda>c. [c]) (dropWhile (\<lambda>c. P [c]) s)"
  by (induction s) auto

lemma concat_map_single: "concat (map (\<lambda>c. [c]) s) = s"
  by (induction s) auto

lemma dropWhile_cong_plain: "plain s \<Longrightarrow> dropWhile (\<lambda>c. is_ws [c]) s = dropWhile ascii_ws s"
  by (induction s) (auto simp: plain_def is_ws_plain)

lemma plain_dropWhile: "plain s \<Longrightarrow> plain (dropWhile P s)"
  by (induction s) (auto simp: plain_def)

lemma plain_rev [simp]: "plain (rev s) = plain s"
  by (auto simp: plain_def list_all_iff)

lemma plain_append [simp]: "plain (s @ t) \<longleftrightarrow> plain s \<and> plain t"
  by (simp add: plain_def)

lemma trim_plain:
  assumes "plain s"
  shows "trim s = rev (dropWhile ascii_ws (rev (dropWhile ascii_ws s)))"
proof -
  have start: "trim_start s = dropWhile ascii_ws s"
    using assms by (simp add: trim_start_def str_chars_plain dropWhile_map_single concat_map_single dropWhile_cong_plain)
  have "plain (dropWhile ascii_ws s)" using assms by (rule plain_dropWhile)
  then show ?thesis
    by (simp add: trim_def start trim_end_def str_chars_plain rev_map dropWhile_map_single
        concat_map_single dropWhile_cong_plain)
qed

lemma trim_indented:
  assumes "plain s" "s \<noteq> []" "\<not> ascii_ws (hd s)" "\<not> ascii_ws (last s)"
  shows "trim (replicate n (CHR '' '') @ s) = s"
proof -
  have sp: "ascii_ws (CHR '' '')" by (simp add: ascii_ws_def byte_def)
  have "plain (replicate n (CHR '' ''))" by (induction n) (simp_all add: plain_def byte_def)
  then have p: "plain (replicate n (CHR '' '') @ s)" using assms(1) by simp
  have "dropWhile ascii_ws (replicate n (CHR '' '') @ s) = s"
    using assms(2,3) sp by (induction n) (cases s; auto)+
  moreover have "dropWhile ascii_ws (rev s) = rev s"
    using assms(2,4) by (cases "rev s") (auto simp: hd_rev [symmetric])
  ultimately show ?thesis by (simp add: trim_plain [OF p])
qed

lemma plain_digits: "list_all ascii_digit s \<Longrightarrow> plain s"
  by (auto simp: plain_def list_all_iff ascii_digit_def)

lemma trim_digits: "list_all ascii_digit s \<Longrightarrow> s \<noteq> [] \<Longrightarrow> trim (CHR '' '' # s) = s"
proof -
  assume s: "list_all ascii_digit s" "s \<noteq> []"
  have nws: "\<not> ascii_ws c" if "c \<in> set s" for c
    using s(1) that by (auto simp: list_all_iff ascii_digit_def ascii_ws_def)
  show ?thesis
    using trim_indented [OF plain_digits [OF s(1)] s(2), of 1] s(2) nws [of "hd s"] nws [of "last s"] by simp
qed

lemma show_nat_length: "n < 10 ^ k \<Longrightarrow> 0 < k \<Longrightarrow> length (show_nat n) \<le> k"
proof (induction n arbitrary: k rule: show_nat.induct)
  case (1 n)
  show ?case
  proof (cases "n < 10")
    case False
    then obtain k' where k: "k = Suc k'" "0 < k'"
      using "1.prems" by (metis One_nat_def Suc_pred bot_nat_0.not_eq_extremum power_one_right)
    have "n div 10 < 10 ^ k'" using "1.prems"(1) k by (simp add: less_mult_imp_div_less mult.commute)
    then have "length (show_nat (n div 10)) \<le> k'" using "1.IH" False k by blast
    then show ?thesis using False k by (subst show_nat.simps) simp
  qed (use "1.prems" in \<open>subst show_nat.simps, simp\<close>)
qed

end
