(* ===== verification/Utf8.thy ===== *)
theory Utf8
  imports Prelude
begin

text \<open>
  \<open>Utf8Carry\<close> of src/apps/server-rs/src/util.rs: decoding a byte stream chunk
  by chunk.  The standard library's \<open>from_utf8\<close> (with \<open>valid_up_to\<close> and
  \<open>error_len\<close>) and \<open>from_utf8_lossy\<close> are modelled first, since the carry is
  written against their error values.  The locale \<open>chunk_decoder\<close> states what
  a consumer of chunks may rely on; \<open>Utf8Carry\<close> is its interpretation.
\<close>

section \<open>UTF-8 validation in the standard library\<close>

text \<open>The first sequence of a byte string: well formed, ill formed after some
  bytes (\<open>error_len\<close>), or cut off by the end of the input.\<close>

datatype head = Whole nat | Bad nat | Short

definition cont :: "char \<Rightarrow> bool" where
  "cont c \<longleftrightarrow> 128 \<le> byte c \<and> byte c \<le> 191"

definition second3 :: "char \<Rightarrow> char \<Rightarrow> bool" where
  "second3 a b \<longleftrightarrow> (if byte a = 224 then 160 \<le> byte b \<and> byte b \<le> 191
     else if byte a = 237 then 128 \<le> byte b \<and> byte b \<le> 159 else cont b)"

definition second4 :: "char \<Rightarrow> char \<Rightarrow> bool" where
  "second4 a b \<longleftrightarrow> (if byte a = 240 then 144 \<le> byte b \<and> byte b \<le> 191
     else if byte a = 244 then 128 \<le> byte b \<and> byte b \<le> 143 else cont b)"

definition tail2 :: "string \<Rightarrow> head" where
  "tail2 r = (case r of [] \<Rightarrow> Short | b # _ \<Rightarrow> if cont b then Whole 2 else Bad 1)"

definition tail3 :: "char \<Rightarrow> string \<Rightarrow> head" where
  "tail3 a r = (case r of [] \<Rightarrow> Short
     | b # r' \<Rightarrow> if \<not> second3 a b then Bad 1
         else (case r' of [] \<Rightarrow> Short | c # _ \<Rightarrow> if cont c then Whole 3 else Bad 2))"

definition tail4 :: "char \<Rightarrow> string \<Rightarrow> head" where
  "tail4 a r = (case r of [] \<Rightarrow> Short
     | b # r' \<Rightarrow> if \<not> second4 a b then Bad 1
         else (case r' of [] \<Rightarrow> Short
           | c # r'' \<Rightarrow> if \<not> cont c then Bad 2
               else (case r'' of [] \<Rightarrow> Short | d # _ \<Rightarrow> if cont d then Whole 4 else Bad 3)))"

fun head_step :: "string \<Rightarrow> head" where
  "head_step [] = Short"
| "head_step (a # r) =
     (if byte a < 128 then Whole 1
      else if 194 \<le> byte a \<and> byte a \<le> 223 then tail2 r
      else if 224 \<le> byte a \<and> byte a \<le> 239 then tail3 a r
      else if 240 \<le> byte a \<and> byte a \<le> 244 then tail4 a r
      else Bad 1)"

lemmas tail_defs = tail2_def tail3_def tail4_def

lemma head_step_Whole_pos: "head_step bs = Whole n \<Longrightarrow> 0 < n \<and> n \<le> length bs"
  by (cases bs) (auto simp: tail_defs split: if_splits list.splits)

lemma head_step_Bad_pos: "head_step bs = Bad n \<Longrightarrow> 0 < n \<and> n \<le> length bs"
  by (cases bs) (auto simp: tail_defs split: if_splits list.splits)

lemma head_step_Short_length: "head_step bs = Short \<Longrightarrow> length bs \<le> 3"
  by (cases bs) (auto simp: tail_defs split: if_splits list.splits)

lemma head_step_append:
  assumes "head_step bs \<noteq> Short"
  shows "head_step (bs @ ys) = head_step bs"
proof (cases bs)
  case (Cons a r)
  with assms show ?thesis
    by (cases r; cases "tl r"; cases "tl (tl r)") (auto simp: tail_defs)
qed (use assms in simp)

lemma head_step_take:
  assumes "head_step bs = Whole n"
  shows "head_step (take n bs @ ys) = Whole n"
proof (cases bs)
  case (Cons a r)
  with assms show ?thesis
    by (auto simp: tail_defs numeral_eq_Suc split: if_splits list.splits)
qed (use assms in simp)

text \<open>\<open>std::str::from_utf8\<close>: \<open>None\<close> for \<open>Ok\<close>, otherwise the error's
  \<open>valid_up_to\<close> and \<open>error_len\<close>.\<close>

function from_utf8 :: "string \<Rightarrow> (nat \<times> nat option) option" where
  "from_utf8 bs =
     (if bs = [] then None
      else case head_step bs of
        Whole n \<Rightarrow> (case from_utf8 (drop n bs) of None \<Rightarrow> None
                    | Some (v, e) \<Rightarrow> Some (n + v, e))
      | Bad n \<Rightarrow> Some (0, Some n)
      | Short \<Rightarrow> Some (0, None))"
  by pat_completeness auto
termination
  by (relation "measure length") (auto dest: head_step_Whole_pos)

declare from_utf8.simps [simp del]

lemma from_utf8_Nil [simp]: "from_utf8 [] = None"
  by (subst from_utf8.simps) simp

text \<open>U+FFFD and \<open>String::from_utf8_lossy\<close>: one replacement per ill-formed part.\<close>

definition replacement :: string where
  "replacement = [CHR 0xEF, CHR 0xBF, CHR 0xBD]"

function from_utf8_lossy :: "string \<Rightarrow> string" where
  "from_utf8_lossy bs =
     (if bs = [] then []
      else case head_step bs of
        Whole n \<Rightarrow> take n bs @ from_utf8_lossy (drop n bs)
      | Bad n \<Rightarrow> replacement @ from_utf8_lossy (drop n bs)
      | Short \<Rightarrow> replacement)"
  by pat_completeness auto
termination
  by (relation "measure length") (auto dest: head_step_Whole_pos head_step_Bad_pos)

declare from_utf8_lossy.simps [simp del]

definition valid_utf8 :: "string \<Rightarrow> bool" where
  "valid_utf8 bs \<longleftrightarrow> from_utf8 bs = None"

lemma valid_utf8_Nil [simp]: "valid_utf8 []"
  by (simp add: valid_utf8_def)

lemma valid_utf8_Cons:
  "bs \<noteq> [] \<Longrightarrow> valid_utf8 bs \<longleftrightarrow> (\<exists>n. head_step bs = Whole n \<and> valid_utf8 (drop n bs))"
  by (subst valid_utf8_def, subst from_utf8.simps)
    (auto simp: valid_utf8_def split: head.splits option.splits)

lemma from_utf8_bounds:
  "from_utf8 bs = Some (v, e) \<Longrightarrow> v \<le> length bs \<and> (e = None \<longrightarrow> length bs - v \<le> 3)"
proof (induction bs arbitrary: v rule: from_utf8.induct)
  case (1 bs)
  show ?case
  proof (cases "head_step bs")
    case (Whole n)
    with "1.prems" obtain w where w: "from_utf8 (drop n bs) = Some (w, e)" "v = n + w" "bs \<noteq> []"
      by (subst (asm) from_utf8.simps) (auto split: if_splits option.splits)
    from "1.IH" [OF w(3) Whole w(1)] head_step_Whole_pos [OF Whole] w(2) show ?thesis by auto
  next
    case Short
    with "1.prems" head_step_Short_length [OF Short] show ?thesis
      by (subst (asm) from_utf8.simps) (auto split: if_splits)
  qed (use "1.prems" in \<open>subst (asm) from_utf8.simps, auto split: if_splits\<close>)
qed

text \<open>Where a valid text is cut, the first part ends in at most an incomplete
  sequence, and what is whole before it is valid.\<close>

lemma valid_utf8_split:
  "valid_utf8 (xs @ ys) \<Longrightarrow>
   (case from_utf8 xs of None \<Rightarrow> valid_utf8 ys
    | Some (v, e) \<Rightarrow> e = None \<and> valid_utf8 (take v xs) \<and> valid_utf8 (drop v xs @ ys))"
proof (induction xs rule: from_utf8.induct)
  case (1 xs)
  show ?case
  proof (cases "xs = []")
    case True
    with "1.prems" show ?thesis by simp
  next
    case False
    with "1.prems" obtain n where n: "head_step (xs @ ys) = Whole n" "valid_utf8 (drop n (xs @ ys))"
      by (auto simp: valid_utf8_Cons)
    show ?thesis
    proof (cases "head_step xs")
      case (Whole m)
      with n have nm: "n = m" by (simp add: head_step_append)
      have le: "m \<le> length xs" using head_step_Whole_pos [OF Whole] by simp
      with n nm have "valid_utf8 (drop m xs @ ys)" by simp
      note IH = "1.IH" [OF False Whole this]
      have unfold: "from_utf8 xs = (case from_utf8 (drop m xs) of None \<Rightarrow> None
          | Some (v, e) \<Rightarrow> Some (m + v, e))"
        using False Whole by (subst from_utf8.simps) simp
      show ?thesis
      proof (cases "from_utf8 (drop m xs)")
        case None
        with IH unfold show ?thesis by simp
      next
        case (Some p)
        obtain v e where p: "p = (v, e)" by (cases p)
        have "valid_utf8 (take (m + v) xs)"
        proof -
          have eq: "take (m + v) xs = take m xs @ take v (drop m xs)" by (simp add: take_add)
          have "head_step (take (m + v) xs) = Whole m"
            unfolding eq by (rule head_step_take [OF Whole])
          moreover have "drop m (take (m + v) xs) = take v (drop m xs)"
            by (simp add: take_drop add.commute)
          ultimately show ?thesis
            using IH Some p False le head_step_Whole_pos [OF Whole] by (subst valid_utf8_Cons) auto
        qed
        with IH unfold Some p show ?thesis by (simp add: add.commute)
      qed
    next
      case (Bad m)
      with n show ?thesis by (simp add: head_step_append)
    next
      case Short
      with False have "from_utf8 xs = Some (0, None)" by (subst from_utf8.simps) simp
      with "1.prems" show ?thesis by simp
    qed
  qed
qed

lemma lossy_valid: "valid_utf8 bs \<Longrightarrow> from_utf8_lossy bs = bs"
proof (induction bs rule: from_utf8.induct)
  case (1 bs)
  show ?case
  proof (cases "bs = []")
    case True
    then show ?thesis by (simp add: from_utf8_lossy.simps)
  next
    case False
    with "1.prems" obtain n where n: "head_step bs = Whole n" "valid_utf8 (drop n bs)"
      by (auto simp: valid_utf8_Cons)
    with "1.IH" [OF False n(1) n(2)] False show ?thesis
      by (subst from_utf8_lossy.simps) simp
  qed
qed

lemma valid_utf8_prepend:
  assumes "head_step bs = Whole n" and "valid_utf8 ys"
  shows "valid_utf8 (take n bs @ ys)"
proof -
  from head_step_Whole_pos [OF assms(1)] have "take n bs \<noteq> []" and "length (take n bs) = n" by auto
  with assms head_step_take [OF assms(1), of ys] show ?thesis
    by (subst valid_utf8_Cons) auto
qed

lemma valid_replacement_append: "valid_utf8 ys \<Longrightarrow> valid_utf8 (replacement @ ys)"
  by (subst valid_utf8_Cons)
    (simp_all add: replacement_def tail3_def second3_def cont_def byte_def)

lemma valid_lossy: "valid_utf8 (from_utf8_lossy bs)"
proof (induction bs rule: from_utf8_lossy.induct)
  case (1 bs)
  show ?case
  proof (cases "bs = []")
    case False
    with 1 show ?thesis
      using valid_replacement_append [of "[]"]
      by (subst from_utf8_lossy.simps)
        (auto split: head.splits intro: valid_utf8_prepend valid_replacement_append)
  qed (simp add: from_utf8_lossy.simps)
qed

section \<open>Utf8Carry\<close>

record utf8_carry =
  pending :: string

definition carry_new :: utf8_carry where
  "carry_new = \<lparr>pending = []\<rparr>"

definition decode :: "utf8_carry \<Rightarrow> string \<Rightarrow> string \<times> utf8_carry" where
  "decode d chunk =
     (let bytes = pending d @ chunk; d0 = d\<lparr>pending := []\<rparr>
      in case from_utf8 bytes of
           None \<Rightarrow> (bytes, d0)
         | Some (v, Some _) \<Rightarrow> (from_utf8_lossy bytes, d0)
         | Some (v, None) \<Rightarrow> (from_utf8_lossy (take v bytes), d\<lparr>pending := drop v bytes\<rparr>))"

definition finish :: "utf8_carry \<Rightarrow> string \<times> utf8_carry" where
  "finish d = (if pending d = [] then [] else from_utf8_lossy (pending d), d\<lparr>pending := []\<rparr>)"

text \<open>The loop of every reader: each chunk in turn, the texts joined.\<close>

fun decode_all :: "('d \<Rightarrow> string \<Rightarrow> string \<times> 'd) \<Rightarrow> 'd \<Rightarrow> string list \<Rightarrow> string \<times> 'd" where
  "decode_all step d [] = ([], d)"
| "decode_all step d (c # cs) =
     (let (t, d1) = step d c; (u, d2) = decode_all step d1 cs in (t @ u, d2))"

text \<open>What a consumer of chunks relies on: for a stream that is well formed as
  a whole, each step hands over what is complete and keeps the rest.\<close>

locale chunk_decoder =
  fixes fresh :: 'd
    and step :: "'d \<Rightarrow> string \<Rightarrow> string \<times> 'd"
    and flush :: "'d \<Rightarrow> string \<times> 'd"
    and held :: "'d \<Rightarrow> string"
    and ok :: "string \<Rightarrow> bool"
  assumes held_fresh: "held fresh = []"
    and step_split: "ok (held d @ c @ rest) \<Longrightarrow> step d c = (t, d') \<Longrightarrow>
      held d @ c = t @ held d' \<and> ok (held d' @ rest)"
    and flush_rest: "ok (held d) \<Longrightarrow> fst (flush d) = held d"
begin

lemma decode_all_rest:
  "ok (held d @ concat cs) \<Longrightarrow> decode_all step d cs = (t, d') \<Longrightarrow>
   held d @ concat cs = t @ held d' \<and> ok (held d')"
proof (induction cs arbitrary: d t d')
  case Nil
  then show ?case by simp
next
  case (Cons c cs)
  obtain t1 d1 where s: "step d c = (t1, d1)" by fastforce
  obtain u d2 where r: "decode_all step d1 cs = (u, d2)" by fastforce
  from step_split [OF _ s, of "concat cs"] Cons.prems
  have h: "held d @ c = t1 @ held d1" "ok (held d1 @ concat cs)" by auto
  from Cons.IH [OF h(2) r] have "held d1 @ concat cs = u @ held d2" "ok (held d2)" by auto
  moreover from h(1) have "held d @ c @ concat cs = t1 @ held d1 @ concat cs"
    by (metis append_assoc)
  ultimately show ?case using Cons.prems s r by auto
qed

theorem whole_stream:
  assumes "ok (concat cs)"
  shows "fst (decode_all step fresh cs) @ fst (flush (snd (decode_all step fresh cs))) = concat cs"
proof -
  obtain t d where td: "decode_all step fresh cs = (t, d)" by fastforce
  from decode_all_rest [OF _ td] assms have "concat cs = t @ held d" "ok (held d)"
    by (simp_all add: held_fresh)
  with td show ?thesis by (simp add: flush_rest)
qed

end

lemma decode_split:
  assumes "valid_utf8 (pending d @ c @ rest)" and "decode d c = (t, d')"
  shows "pending d @ c = t @ pending d' \<and> valid_utf8 (pending d' @ rest)"
proof -
  have v: "valid_utf8 ((pending d @ c) @ rest)" using assms(1) by simp
  show ?thesis
  proof (cases "from_utf8 (pending d @ c)")
    case None
    with assms valid_utf8_split [OF v] show ?thesis by (auto simp: decode_def Let_def)
  next
    case (Some p)
    obtain w e where p: "p = (w, e)" by (cases p)
    from valid_utf8_split [OF v] Some p
    have "e = None" "valid_utf8 (take w (pending d @ c))" "valid_utf8 (drop w (pending d @ c) @ rest)"
      by auto
    with assms Some p show ?thesis
      using lossy_valid [of "take w (pending d @ c)"]
      by (auto simp: decode_def Let_def simp del: take_append drop_append)
  qed
qed

interpretation carry: chunk_decoder carry_new decode finish pending valid_utf8
proof unfold_locales
  show "pending carry_new = []" by (simp add: carry_new_def)
next
  fix d :: utf8_carry and c rest t d'
  assume "valid_utf8 (pending d @ c @ rest)" "decode d c = (t, d')"
  then show "pending d @ c = t @ pending d' \<and> valid_utf8 (pending d' @ rest)"
    by (rule decode_split)
next
  fix d :: utf8_carry
  assume "valid_utf8 (pending d)"
  then show "fst (finish d) = pending d" by (simp add: finish_def lossy_valid)
qed

lemma decode_valid_text:
  assumes "decode d c = (t, d')"
  shows "valid_utf8 t"
proof (cases "from_utf8 (pending d @ c)")
  case None
  with assms show ?thesis by (simp add: decode_def Let_def valid_utf8_def)
next
  case (Some p)
  with assms show ?thesis
    by (cases p; cases "snd p") (auto simp: decode_def Let_def intro: valid_lossy)
qed

lemma decode_pending_bound:
  assumes "decode d c = (t, d')"
  shows "length (pending d') \<le> 3"
proof -
  define bs where "bs = pending d @ c"
  show ?thesis
    using assms from_utf8_bounds [of bs]
    unfolding decode_def Let_def bs_def [symmetric]
    by (auto split: option.splits)
qed

end
