(* ===== verification/Order.thy ===== *)
theory Order
  imports Utf8
begin

text \<open>
  \<open>std::cmp::Ordering\<close>, \<open>Iterator::cmp\<close> and the stable \<open>sort_by\<close> of the
  standard library, and \<open>locale_compare\<close> of src/apps/server-rs/src/util.rs, by
  which the project files are sorted.  The locale \<open>total_cmp\<close> is the contract a
  comparison owes to \<open>sort_by\<close>.
\<close>

section \<open>Orderings and sort_by\<close>

datatype ordering = Less | Equal | Greater

fun flip :: "ordering \<Rightarrow> ordering" where
  "flip Less = Greater" | "flip Equal = Equal" | "flip Greater = Less"

lemma flip_flip [simp]: "flip (flip c) = c"
  by (cases c) auto

fun iter_cmp :: "'a::linorder list \<Rightarrow> 'a list \<Rightarrow> ordering" where
  "iter_cmp [] [] = Equal"
| "iter_cmp [] (y # ys) = Less"
| "iter_cmp (x # xs) [] = Greater"
| "iter_cmp (x # xs) (y # ys) = (if x < y then Less else if y < x then Greater else iter_cmp xs ys)"

lemma iter_cmp_Equal [simp]: "iter_cmp xs ys = Equal \<longleftrightarrow> xs = ys"
  by (induction xs ys rule: iter_cmp.induct) auto

lemma iter_cmp_refl [simp]: "iter_cmp xs xs = Equal"
  by simp

lemma iter_cmp_flip: "iter_cmp ys xs = flip (iter_cmp xs ys)"
  by (induction xs ys rule: iter_cmp.induct) auto

lemma iter_cmp_Less_trans: "iter_cmp xs ys = Less \<Longrightarrow> iter_cmp ys zs = Less \<Longrightarrow> iter_cmp xs zs = Less"
proof (induction xs ys arbitrary: zs rule: iter_cmp.induct)
  case (2 y ys)
  then show ?case by (cases zs) auto
next
  case (4 x xs y ys)
  then show ?case by (cases zs) (auto split: if_splits)
qed auto

fun insert_by :: "('a \<Rightarrow> 'a \<Rightarrow> ordering) \<Rightarrow> 'a \<Rightarrow> 'a list \<Rightarrow> 'a list" where
  "insert_by cmp x [] = [x]"
| "insert_by cmp x (y # ys) = (if cmp x y = Greater then y # insert_by cmp x ys else x # y # ys)"

text \<open>A stable sort: equal elements keep their order.\<close>

definition sort_by :: "('a \<Rightarrow> 'a \<Rightarrow> ordering) \<Rightarrow> 'a list \<Rightarrow> 'a list" where
  "sort_by cmp xs = foldr (insert_by cmp) xs []"

lemma set_insert_by [simp]: "set (insert_by cmp x ys) = insert x (set ys)"
  by (induction ys) auto

lemma length_insert_by [simp]: "length (insert_by cmp x ys) = Suc (length ys)"
  by (induction ys) auto

lemma set_sort_by [simp]: "set (sort_by cmp xs) = set xs"
  by (induction xs) (auto simp: sort_by_def)

lemma length_sort_by [simp]: "length (sort_by cmp xs) = length xs"
  by (induction xs) (auto simp: sort_by_def)

lemma sum_insert_by: "(\<Sum>x\<leftarrow>insert_by cmp y xs. f x) = f y + (\<Sum>x\<leftarrow>xs. f x :: nat)"
  by (induction xs) auto

lemma sum_sort_by: "(\<Sum>x\<leftarrow>sort_by cmp xs. f x) = (\<Sum>x\<leftarrow>xs. f x :: nat)"
  by (induction xs) (auto simp: sort_by_def sum_insert_by)

lemma distinct_map_insert_by:
  "distinct (map f (insert_by cmp x ys)) \<longleftrightarrow> f x \<notin> f ` set ys \<and> distinct (map f ys)"
  by (induction ys) auto

lemma distinct_map_sort_by: "distinct (map f (sort_by cmp xs)) \<longleftrightarrow> distinct (map f xs)"
proof (induction xs)
  case (Cons x xs)
  have "set (foldr (insert_by cmp) xs []) = set xs"
    using set_sort_by [of cmp xs] by (simp only: sort_by_def)
  with Cons show ?case by (auto simp: sort_by_def distinct_map_insert_by)
qed (simp add: sort_by_def)

locale total_cmp =
  fixes cmp :: "'k \<Rightarrow> 'k \<Rightarrow> ordering"
  assumes cmp_flip: "cmp b a = flip (cmp a b)"
    and cmp_trans: "cmp a b \<noteq> Greater \<Longrightarrow> cmp b c \<noteq> Greater \<Longrightarrow> cmp a c \<noteq> Greater"
begin

lemma insert_by_sorted:
  assumes "sorted_wrt (\<lambda>a b. cmp (key a) (key b) \<noteq> Greater) ys"
  shows "sorted_wrt (\<lambda>a b. cmp (key a) (key b) \<noteq> Greater) (insert_by (\<lambda>a b. cmp (key a) (key b)) x ys)"
  using assms
proof (induction ys)
  case (Cons y ys)
  show ?case
  proof (cases "cmp (key x) (key y) = Greater")
    case True
    then have "cmp (key y) (key x) \<noteq> Greater" using cmp_flip [of "key y" "key x"] by auto
    with True Cons show ?thesis by auto
  next
    case False
    with Cons show ?thesis using cmp_trans [of "key x" "key y"] by auto
  qed
qed simp

lemma sort_by_sorted:
  "sorted_wrt (\<lambda>a b. cmp (key a) (key b) \<noteq> Greater) (sort_by (\<lambda>a b. cmp (key a) (key b)) xs)"
  by (induction xs) (auto simp: sort_by_def insert_by_sorted)

lemma insert_by_id:
  "\<forall>y\<in>set ys. cmp (key x) (key y) \<noteq> Greater \<Longrightarrow> insert_by (\<lambda>a b. cmp (key a) (key b)) x ys = x # ys"
  by (cases ys) auto

lemma sort_by_id:
  "sorted_wrt (\<lambda>a b. cmp (key a) (key b) \<noteq> Greater) xs \<Longrightarrow> sort_by (\<lambda>a b. cmp (key a) (key b)) xs = xs"
  by (induction xs) (auto simp: sort_by_def insert_by_id)

end

section \<open>locale_compare\<close>

text \<open>The pair \<open>(u8, u32)\<close> of a character's primary weight; the order on pairs
  is lexicographic, which \<open>primary_key\<close> folds into one number (the second
  component is below \<open>2 ^ 32\<close>).\<close>

definition primary_weight :: "nat \<Rightarrow> nat \<times> nat" where
  "primary_weight c =
    (if c = 32 then (0, 0) else if c = 95 then (0, 1) else if c = 45 then (0, 2)
     else if c = 46 then (0, 3) else if c = 47 then (0, 4)
     else if 48 \<le> c \<and> c \<le> 57 then (1, c)
     else if 97 \<le> c \<and> c \<le> 122 then (2, c - 97)
     else if 65 \<le> c \<and> c \<le> 90 then (2, c - 65)
     else (3, c))"

definition primary :: "string \<Rightarrow> nat \<times> nat" where
  "primary ch = primary_weight (char_code ch)"

definition pair_key :: "nat \<times> nat \<Rightarrow> nat" where
  "pair_key p = fst p * 2 ^ 32 + snd p"

definition tertiary :: "string \<Rightarrow> nat" where
  "tertiary ch = (if 65 \<le> char_code ch \<and> char_code ch \<le> 90 then 1 else 0)"

definition locale_compare :: "string \<Rightarrow> string \<Rightarrow> ordering" where
  "locale_compare l r =
     (let by_primary = iter_cmp (map (pair_key \<circ> primary) (str_chars l)) (map (pair_key \<circ> primary) (str_chars r))
      in if by_primary \<noteq> Equal then by_primary
         else iter_cmp (map tertiary (str_chars l)) (map tertiary (str_chars r)))"

definition primaries :: "string \<Rightarrow> nat list" where
  "primaries s = map (pair_key \<circ> primary) (str_chars s)"

definition tertiaries :: "string \<Rightarrow> nat list" where
  "tertiaries s = map tertiary (str_chars s)"

lemma locale_compare_alt:
  "locale_compare l r = (if primaries l \<noteq> primaries r then iter_cmp (primaries l) (primaries r)
     else iter_cmp (tertiaries l) (tertiaries r))"
  unfolding locale_compare_def Let_def primaries_def [symmetric] tertiaries_def [symmetric] by simp

lemma locale_compare_flip: "locale_compare r l = flip (locale_compare l r)"
  unfolding locale_compare_alt
  using iter_cmp_flip [of "primaries r" "primaries l"] iter_cmp_flip [of "tertiaries r" "tertiaries l"]
  by simp

lemma iter_cmp_trans_neq: "iter_cmp a b \<noteq> Greater \<Longrightarrow> iter_cmp b c \<noteq> Greater \<Longrightarrow> iter_cmp a c \<noteq> Greater"
  by (metis iter_cmp_Equal iter_cmp_Less_trans ordering.exhaust ordering.distinct(3))

lemma locale_compare_trans:
  assumes ab: "locale_compare a b \<noteq> Greater" and bc: "locale_compare b c \<noteq> Greater"
  shows "locale_compare a c \<noteq> Greater"
proof (cases "primaries a = primaries b \<and> primaries b = primaries c")
  case True
  with ab bc iter_cmp_trans_neq [of "tertiaries a" "tertiaries b" "tertiaries c"] show ?thesis
    by (simp add: locale_compare_alt)
next
  case False
  have P: "iter_cmp (primaries x) (primaries y) \<noteq> Greater" if "locale_compare x y \<noteq> Greater" for x y
  proof (cases "primaries x = primaries y")
    case True
    then show ?thesis by (metis iter_cmp_refl ordering.distinct(5))
  qed (use that in \<open>simp add: locale_compare_alt\<close>)
  have le: "iter_cmp (primaries a) (primaries c) \<noteq> Greater"
    using P [OF ab] P [OF bc] by (rule iter_cmp_trans_neq)
  have "primaries a \<noteq> primaries c"
  proof
    assume "primaries a = primaries c"
    with P [OF ab] P [OF bc] iter_cmp_flip [of "primaries b" "primaries a"]
    have "iter_cmp (primaries a) (primaries b) = Equal"
      by (cases "iter_cmp (primaries a) (primaries b)") auto
    with False \<open>primaries a = primaries c\<close> show False by simp
  qed
  with le show ?thesis by (simp add: locale_compare_alt)
qed

interpretation path_order: total_cmp locale_compare
  by unfold_locales (rule locale_compare_flip, rule locale_compare_trans)

text \<open>On well-formed text, equal under the comparison means equal.\<close>

lemma char_eq_byte: "byte a = byte b \<longleftrightarrow> a = b"
  by (simp add: byte_def)

definition scalar :: "string \<Rightarrow> bool" where
  "scalar ch \<longleftrightarrow> head_step ch = Whole (length ch)"

lemma scalar_cases:
  assumes "scalar ch"
  obtains (one) a where "ch = [a]" "byte a < 128"
  | (two) a b where "ch = [a, b]" "194 \<le> byte a" "byte a \<le> 223" "cont b"
  | (three) a b c where "ch = [a, b, c]" "224 \<le> byte a" "byte a \<le> 239" "second3 a b" "cont c"
  | (four) a b c d where "ch = [a, b, c, d]" "240 \<le> byte a" "byte a \<le> 244" "second4 a b" "cont c" "cont d"
proof -
  from assms obtain a r where ch: "ch = a # r" by (cases ch) (auto simp: scalar_def)
  from assms consider "byte a < 128" "length r = 0"
    | "194 \<le> byte a" "byte a \<le> 223" "tail2 r = Whole (Suc (length r))"
    | "224 \<le> byte a" "byte a \<le> 239" "tail3 a r = Whole (Suc (length r))"
    | "240 \<le> byte a" "byte a \<le> 244" "tail4 a r = Whole (Suc (length r))"
    by (auto simp: ch scalar_def split: if_splits)
  then show thesis
  proof cases
    case 1
    then show thesis using one ch by simp
  next
    case 2
    then show thesis using two ch by (auto simp: tail2_def split: list.splits if_splits)
  next
    case 3
    then show thesis using three ch by (auto simp: tail3_def split: list.splits if_splits)
  next
    case 4
    then show thesis using four ch by (auto simp: tail4_def split: list.splits if_splits)
  qed
qed

lemma mod_window: "m * q \<le> n \<Longrightarrow> n < m * q + m \<Longrightarrow> n mod m = n - m * (q::nat)"
  by (rule mod_nat_eqI) auto

lemma lead_mods:
  "194 \<le> n \<Longrightarrow> n \<le> 223 \<Longrightarrow> n mod 32 = n - (192::nat)"
  "224 \<le> n \<Longrightarrow> n \<le> 239 \<Longrightarrow> n mod 16 = n - (224::nat)"
  "240 \<le> n \<Longrightarrow> n \<le> 244 \<Longrightarrow> n mod 8 = n - (240::nat)"
  "128 \<le> n \<Longrightarrow> n \<le> 191 \<Longrightarrow> n mod 64 = n - (128::nat)"
  using mod_window [of 32 6 n] mod_window [of 16 14 n] mod_window [of 8 30 n] mod_window [of 64 2 n]
  by simp_all

lemma second_cont: "second3 a b \<Longrightarrow> cont b" "second4 a b \<Longrightarrow> cont b"
  by (auto simp: second3_def second4_def cont_def split: if_splits)

lemma cont_bits_cont: "cont b \<Longrightarrow> cont_bits b = byte b - 128"
  by (simp add: cont_bits_def cont_def lead_mods)

lemma scalar_code:
  assumes "scalar ch"
  shows "char_code ch = (case ch of [a] \<Rightarrow> byte a
     | [a, b] \<Rightarrow> (byte a - 192) * 64 + (byte b - 128)
     | [a, b, c] \<Rightarrow> (byte a - 224) * 4096 + (byte b - 128) * 64 + (byte c - 128)
     | [a, b, c, d] \<Rightarrow> (byte a - 240) * 262144 + (byte b - 128) * 4096 + (byte c - 128) * 64 + (byte d - 128)
     | _ \<Rightarrow> 0)"
  using assms by (cases rule: scalar_cases) (simp_all add: cont_bits_cont second_cont lead_mods)

lemma scalar_code_range:
  assumes "scalar ch"
  shows "(length ch = 1 \<and> char_code ch < 128) \<or> (length ch = 2 \<and> 128 \<le> char_code ch \<and> char_code ch < 2048)
    \<or> (length ch = 3 \<and> 2048 \<le> char_code ch \<and> char_code ch < 65536)
    \<or> (length ch = 4 \<and> 65536 \<le> char_code ch \<and> char_code ch < 2000000)"
  using assms
proof (cases rule: scalar_cases)
  case (one a)
  then show ?thesis by simp
next
  case (two a b)
  with scalar_code [OF assms] have "char_code ch = (byte a - 192) * 64 + (byte b - 128)" by simp
  then show ?thesis using two unfolding cont_def by simp linarith
next
  case (three a b c)
  with scalar_code [OF assms]
  have "char_code ch = (byte a - 224) * 4096 + (byte b - 128) * 64 + (byte c - 128)" by simp
  moreover have "byte a = 224 \<longrightarrow> 160 \<le> byte b" "128 \<le> byte b" "byte b \<le> 191"
    using three by (auto simp: second3_def cont_def split: if_splits)
  ultimately show ?thesis using three unfolding cont_def by simp linarith
next
  case (four a b c d)
  with scalar_code [OF assms]
  have "char_code ch = (byte a - 240) * 262144 + (byte b - 128) * 4096 + (byte c - 128) * 64 + (byte d - 128)"
    by simp
  moreover have "byte a = 240 \<longrightarrow> 144 \<le> byte b" "128 \<le> byte b" "byte b \<le> 191"
    using four by (auto simp: second4_def cont_def split: if_splits)
  ultimately show ?thesis using four unfolding cont_def by simp linarith
qed

lemma digits_inj:
  assumes "a * k + b = a' * k + b'" "b < k" "b' < (k::nat)"
  shows "a = a'" "b = b'"
proof -
  have "(a * k + b) div k = (a' * k + b') div k" "(a * k + b) mod k = (a' * k + b') mod k"
    using assms(1) by simp_all
  with assms(2,3) show "a = a'" "b = b'" by simp_all
qed

lemma scalar_code_inj:
  assumes x: "scalar x" and y: "scalar y" and eq: "char_code x = char_code y"
  shows "x = y"
proof -
  have len: "length x = length y"
    using scalar_code_range [OF x] scalar_code_range [OF y] eq by auto
  have low: "byte b - 128 < 64" if "cont b" for b using that unfolding cont_def by linarith
  have ceq: "b = b'" if "cont b" "cont b'" "byte b - 128 = byte b' - 128" for b b'
    using that unfolding cont_def char_eq_byte [symmetric] by linarith
  from x show ?thesis
  proof (cases rule: scalar_cases)
    case (one a)
    with len y obtain a' where "y = [a']" by (cases y) auto
    with one eq show ?thesis by (simp add: char_eq_byte)
  next
    case (two a b)
    from y len two obtain a' b' where y2: "y = [a', b']" "194 \<le> byte a'" "cont b'"
      by (cases rule: scalar_cases) auto
    have "(byte a - 192) * 64 + (byte b - 128) = (byte a' - 192) * 64 + (byte b' - 128)"
      using eq scalar_code [OF x] scalar_code [OF y] two y2 by simp
    note ab = digits_inj [OF this low low]
    from ab two y2 have "byte a = byte a'" by linarith
    with ab two y2 ceq show ?thesis by (auto simp: char_eq_byte)
  next
    case (three a b c)
    from y len three obtain a' b' c' where y3: "y = [a', b', c']" "224 \<le> byte a'" "second3 a' b'" "cont c'"
      by (cases rule: scalar_cases) auto
    have "((byte a - 224) * 64 + (byte b - 128)) * 64 + (byte c - 128)
        = ((byte a' - 224) * 64 + (byte b' - 128)) * 64 + (byte c' - 128)"
      using eq scalar_code [OF x] scalar_code [OF y] three y3 by simp
    note c = digits_inj [OF this low low]
    note b = digits_inj [OF c(1) low low]
    from b c three y3 second_cont have "byte a = byte a'" by (meson diff_add_inverse2 le_add_diff_inverse2 eq_diff_iff)
    with b c three y3 ceq second_cont show ?thesis by (auto simp: char_eq_byte)
  next
    case (four a b c d)
    from y len four obtain a' b' c' d' where y4: "y = [a', b', c', d']" "240 \<le> byte a'"
        "second4 a' b'" "cont c'" "cont d'"
      by (cases rule: scalar_cases) auto
    have "(((byte a - 240) * 64 + (byte b - 128)) * 64 + (byte c - 128)) * 64 + (byte d - 128)
        = (((byte a' - 240) * 64 + (byte b' - 128)) * 64 + (byte c' - 128)) * 64 + (byte d' - 128)"
      using eq scalar_code [OF x] scalar_code [OF y] four y4 by simp
    note d = digits_inj [OF this low low]
    note c = digits_inj [OF d(1) low low]
    note b = digits_inj [OF c(1) low low]
    from b c d four y4 second_cont have "byte a = byte a'" by (meson eq_diff_iff)
    with b c d four y4 ceq second_cont show ?thesis by (auto simp: char_eq_byte)
  qed
qed

lemma utf8_width_Whole: "head_step (a # r) = Whole n \<Longrightarrow> utf8_width a = n"
  by (auto simp: utf8_width_def tail_defs split: if_splits list.splits)

lemma str_chars_scalar: "valid_utf8 s \<Longrightarrow> \<forall>ch\<in>set (str_chars s). scalar ch"
proof (induction s rule: str_chars.induct)
  case (2 c cs)
  then obtain n where n: "head_step (c # cs) = Whole n" "valid_utf8 (drop n (c # cs))"
    by (auto simp: valid_utf8_Cons)
  moreover have "scalar (take n (c # cs))"
    using head_step_take [OF n(1), of "[]"] head_step_Whole_pos [OF n(1)]
    by (simp add: scalar_def min_def)
  ultimately show ?case using 2 utf8_width_Whole [OF n(1)] by simp
qed simp

lemma weight_class:
  "fst (primary_weight c) = 0 \<longleftrightarrow> c \<in> {32, 95, 45, 46, 47}"
  "fst (primary_weight c) = 1 \<longleftrightarrow> 48 \<le> c \<and> c \<le> 57"
  "fst (primary_weight c) = 2 \<longleftrightarrow> (97 \<le> c \<and> c \<le> 122) \<or> (65 \<le> c \<and> c \<le> 90)"
  by (simp_all add: primary_weight_def)

lemma primary_weight_other:
  assumes "fst (primary_weight c) \<noteq> 0" "fst (primary_weight c) \<noteq> 1" "fst (primary_weight c) \<noteq> 2"
  shows "primary_weight c = (3, c)"
proof -
  have m: "c \<notin> {32, 95, 45, 46, 47}" "\<not> (48 \<le> c \<and> c \<le> 57)"
    "\<not> ((97 \<le> c \<and> c \<le> 122) \<or> (65 \<le> c \<and> c \<le> 90))"
    using assms weight_class [of c] by metis+
  have n: "(c = 32) = False" "(c = 95) = False" "(c = 45) = False" "(c = 46) = False" "(c = 47) = False"
    "(48 \<le> c \<and> c \<le> 57) = False" "(97 \<le> c \<and> c \<le> 122) = False" "(65 \<le> c \<and> c \<le> 90) = False"
    using m by blast+
  show ?thesis by (simp only: primary_weight_def n if_False)
qed

lemma primary_weight_bound: "snd (primary_weight c) \<le> c + 4"
proof -
  consider "fst (primary_weight c) = 0" | "fst (primary_weight c) = 1" | "fst (primary_weight c) = 2"
    | "primary_weight c = (3, c)"
    using primary_weight_other by blast
  then show ?thesis
  proof cases
    case 1
    then show ?thesis using weight_class(1) [of c] by (auto simp: primary_weight_def)
  next
    case 2
    then have "48 \<le> c \<and> c \<le> 57" using weight_class(2) by blast
    then show ?thesis by (simp add: primary_weight_def)
  next
    case 3
    then consider "97 \<le> c \<and> c \<le> 122" | "65 \<le> c \<and> c \<le> 90" using weight_class(3) by blast
    then show ?thesis by cases (simp_all add: primary_weight_def)
  qed simp
qed

lemma primary_weight_inj:
  assumes eq: "primary_weight c = primary_weight d"
    and case_eq: "(65 \<le> c \<and> c \<le> 90) = (65 \<le> d \<and> d \<le> 90)"
  shows "c = d"
proof -
  consider "fst (primary_weight c) = 0" | "fst (primary_weight c) = 1" | "fst (primary_weight c) = 2"
    | "primary_weight c = (3, c)"
    using primary_weight_other by blast
  then show ?thesis
  proof cases
    case 1
    then have "c \<in> {32, 95, 45, 46, 47}" "d \<in> {32, 95, 45, 46, 47}"
      using eq weight_class(1) by metis+
    with eq show ?thesis by (auto simp: primary_weight_def)
  next
    case 2
    then have "48 \<le> c \<and> c \<le> 57" "48 \<le> d \<and> d \<le> 57" using eq weight_class(2) by metis+
    with eq show ?thesis by (simp add: primary_weight_def)
  next
    case 3
    then have cd: "(97 \<le> c \<and> c \<le> 122) \<or> (65 \<le> c \<and> c \<le> 90)" "(97 \<le> d \<and> d \<le> 122) \<or> (65 \<le> d \<and> d \<le> 90)"
      using eq weight_class(3) by metis+
    show ?thesis
    proof (cases "65 \<le> c \<and> c \<le> 90")
      case True
      with case_eq eq have "65 \<le> c" "65 \<le> d" "c - 65 = d - 65" by (simp_all add: primary_weight_def)
      then show ?thesis by linarith
    next
      case False
      with case_eq cd have "97 \<le> c \<and> c \<le> 122" "97 \<le> d \<and> d \<le> 122" by blast+
      moreover from this eq have "c - 97 = d - 97" by (simp add: primary_weight_def)
      ultimately show ?thesis by linarith
    qed
  next
    case 4
    then have "fst (primary_weight d) = 3" using eq by simp
    then have "primary_weight d = (3, d)" by (intro primary_weight_other) simp_all
    with 4 eq show ?thesis by simp
  qed
qed

lemma weights_code:
  assumes "scalar x" "scalar y" "pair_key (primary x) = pair_key (primary y)" "tertiary x = tertiary y"
  shows "char_code x = char_code y"
proof -
  have bound: "snd (primary z) < 2 ^ 32" if "scalar z" for z
  proof -
    have "char_code z < 2000000" using scalar_code_range [OF that] by linarith
    with primary_weight_bound [of "char_code z"] show ?thesis
      unfolding primary_def by simp
  qed
  from digits_inj [OF assms(3) [unfolded pair_key_def] bound [OF assms(1)] bound [OF assms(2)]]
  have "primary x = primary y" by (simp add: prod_eq_iff)
  moreover have "(65 \<le> char_code x \<and> char_code x \<le> 90) = (65 \<le> char_code y \<and> char_code y \<le> 90)"
    using assms(4) unfolding tertiary_def by presburger
  ultimately show ?thesis using primary_weight_inj by (simp add: primary_def)
qed

lemma map_weights_inj:
  "\<forall>c\<in>set xs. scalar c \<Longrightarrow> \<forall>c\<in>set ys. scalar c \<Longrightarrow>
   map (pair_key \<circ> primary) xs = map (pair_key \<circ> primary) ys \<Longrightarrow> map tertiary xs = map tertiary ys \<Longrightarrow> xs = ys"
proof (induction xs arbitrary: ys)
  case (Cons x xs)
  then obtain y ys' where ys: "ys = y # ys'" by (cases ys) auto
  have sc: "scalar x" "scalar y" using Cons.prems(1,2) ys by simp_all
  have "pair_key (primary x) = pair_key (primary y)" "tertiary x = tertiary y"
    using Cons.prems(3,4) unfolding ys list.map comp_apply by simp_all
  then have "x = y" by (intro scalar_code_inj weights_code sc)
  moreover have "xs = ys'"
    by (rule Cons.IH) (use Cons.prems ys in \<open>simp_all only: list.map list.inject list.set ball_simps, blast+\<close>)
  ultimately show ?case using ys by simp
qed simp

lemma locale_compare_Equal:
  assumes "valid_utf8 l" "valid_utf8 r"
  shows "locale_compare l r = Equal \<longleftrightarrow> l = r"
proof
  assume "locale_compare l r = Equal"
  then have "primaries l = primaries r" "tertiaries l = tertiaries r"
    by (auto simp: locale_compare_alt split: if_splits)
  then have "str_chars l = str_chars r"
    using assms str_chars_scalar map_weights_inj by (simp add: primaries_def tertiaries_def)
  then show "l = r" by (metis concat_str_chars)
qed (simp add: locale_compare_alt)

end
