(* ===== verification/Util.thy ===== *)
theory Util
  imports Order "HOL-Library.Word"
begin

text \<open>
  The helpers of src/apps/server-rs/src/util.rs: the Origin and Host guards, the
  access token, the exposure check at startup, file URLs, and the generated ids
  and tokens with their constant-time comparison.  The environment variables
  and the random bytes the code reads are arguments.
\<close>

section \<open>Constant-time comparison\<close>

unbundle bit_operations_syntax

definition byte_word :: "char \<Rightarrow> 8 word" where
  "byte_word c = word_of_nat (byte c)"

definition timing_safe_eq :: "string \<Rightarrow> string \<Rightarrow> bool" where
  "timing_safe_eq l r =
     (if length l \<noteq> length r then False
      else fold (\<lambda>(a, b) acc. acc OR (byte_word a XOR byte_word b)) (zip l r) (0 :: 8 word) = 0)"

lemma byte_word_inject [simp]: "byte_word a = byte_word b \<longleftrightarrow> a = b"
proof
  assume "byte_word a = byte_word b"
  then have "unat (byte_word a) = unat (byte_word b)" by simp
  then have "byte a = byte b" using byte_less_256 [of a] byte_less_256 [of b]
    by (simp add: byte_word_def unat_of_nat)
  then show "a = b" by (simp add: char_eq_byte)
qed simp

lemma word_or_zero: "(a OR b = 0) = (a = 0 \<and> b = (0 :: 8 word))"
  by (metis or_eq_0_iff)

lemma word_xor_zero: "(a XOR b = 0) = (a = (b :: 8 word))"
proof
  assume "a XOR b = 0"
  then have "(a XOR b) XOR b = 0 XOR b" by simp
  then show "a = b" by (simp only: xor.assoc xor_self_eq xor.right_neutral xor.left_neutral)
qed simp

lemma fold_or_zero:
  "fold (\<lambda>(a, b) acc. acc OR (byte_word a XOR byte_word b)) ps (acc :: 8 word) = 0
    \<longleftrightarrow> acc = 0 \<and> (\<forall>(a, b)\<in>set ps. a = b)"
  by (induction ps arbitrary: acc) (auto simp: word_or_zero word_xor_zero split: prod.splits)

lemma zip_all_eq: "length l = length r \<Longrightarrow> (\<forall>(a, b)\<in>set (zip l r). a = b) \<longleftrightarrow> l = r"
  by (induction l r rule: list_induct2) auto

lemma timing_safe_eq_iff [simp]: "timing_safe_eq l r \<longleftrightarrow> l = r"
  by (auto simp: timing_safe_eq_def fold_or_zero zip_all_eq)

section \<open>Origin and Host guards\<close>

definition loopback_hosts :: "string list" where
  "loopback_hosts = [''127.0.0.1'', ''localhost'', ''[::1]'']"

text \<open>Comma-separated allowlist membership; blank entries never match.\<close>

definition listed :: "string \<Rightarrow> string \<Rightarrow> bool" where
  "listed allowlist origin =
     list_ex (\<lambda>allowed. allowed \<noteq> [] \<and> allowed = origin) (map trim (split_on (CHR '','') allowlist))"

definition local_origin :: "string \<Rightarrow> nat \<Rightarrow> string" where
  "local_origin host port = ''http://'' @ host @ '':'' @ show_nat port"

definition valid_origin_with :: "string option \<Rightarrow> nat \<Rightarrow> bool \<Rightarrow> string \<Rightarrow> string \<Rightarrow> bool" where
  "valid_origin_with origin server_port production remote_allowlist dev_allowlist =
     (case origin of
        None \<Rightarrow> False
      | Some origin \<Rightarrow>
          if list_ex (\<lambda>host. origin = local_origin host server_port) loopback_hosts then True
          else if listed remote_allowlist origin then True
          else if \<not> production \<and> list_ex (\<lambda>host. origin = local_origin host 5173) loopback_hosts then True
          else if \<not> production \<and> listed dev_allowlist origin then True
          else False)"

text \<open>The variables the guards read from the environment.\<close>

record env_vars =
  node_env :: "string option"
  allowed_origins :: "string option"
  dev_origin :: "string option"

definition unwrap_or_default :: "string option \<Rightarrow> string" where
  "unwrap_or_default v = (case v of None \<Rightarrow> [] | Some s \<Rightarrow> s)"

definition valid_origin :: "env_vars \<Rightarrow> string option \<Rightarrow> nat \<Rightarrow> bool" where
  "valid_origin env origin server_port =
     valid_origin_with origin server_port (node_env env = Some ''production'')
       (unwrap_or_default (allowed_origins env)) (unwrap_or_default (dev_origin env))"

definition host_without_port :: "string \<Rightarrow> string" where
  "host_without_port host =
     (case (if starts_with host ''['' then find_char host (\<lambda>c. c = CHR '']'') else None) of
        Some e \<Rightarrow> take (Suc e) host
      | None \<Rightarrow> (case rsplit_once (CHR '':'') host of None \<Rightarrow> host | Some (name, _) \<Rightarrow> name))"

definition entry_host :: "string \<Rightarrow> string" where
  "entry_host entry =
     (case strip_prefix entry ''https://'' of Some r \<Rightarrow> r
      | None \<Rightarrow> (case strip_prefix entry ''http://'' of Some r \<Rightarrow> r | None \<Rightarrow> entry))"

definition entry_admits :: "string \<Rightarrow> string \<Rightarrow> bool" where
  "entry_admits host entry =
     (let entry = trim entry in
      if entry = [] then False
      else let allowed = entry_host entry in
        allowed \<noteq> [] \<and> (eq_ignore_case host allowed
          \<or> eq_ignore_case (host_without_port host) (host_without_port allowed)))"

definition valid_host :: "string option \<Rightarrow> string \<Rightarrow> string \<Rightarrow> bool" where
  "valid_host host remote_allowlist dev_allowlist =
     (case host of
        None \<Rightarrow> False
      | Some h \<Rightarrow>
          let host = trim h; name = host_without_port host in
          if list_ex (\<lambda>loopback. eq_ignore_case name loopback) loopback_hosts then True
          else list_ex (\<lambda>allowlist. list_ex (entry_admits host) (split_on (CHR '','') allowlist))
                 [remote_allowlist, dev_allowlist])"

lemma listed_nonblank: "listed allowlist origin \<Longrightarrow> origin \<noteq> []"
  by (auto simp: listed_def list_ex_iff)

lemma listed_iff:
  "listed allowlist origin \<longleftrightarrow> origin \<noteq> [] \<and> origin \<in> set (map trim (split_on (CHR '','') allowlist))"
  by (auto simp: listed_def list_ex_iff)

lemma trim_Nil [simp]: "trim [] = []"
  by (simp add: trim_def trim_start_def trim_end_def)

lemma listed_empty [simp]: "\<not> listed [] origin"
  by (simp add: listed_def)

section \<open>Access token and exposure\<close>

definition configured_access_token :: "string option \<Rightarrow> string option" where
  "configured_access_token var =
     (case map_option trim var of None \<Rightarrow> None | Some token \<Rightarrow> if token \<noteq> [] then Some token else None)"

definition token_ok :: "string option \<Rightarrow> string option \<Rightarrow> string option \<Rightarrow> bool" where
  "token_ok expected authorization query_token =
     (case expected of
        None \<Rightarrow> True
      | Some expected \<Rightarrow>
          let bearer = Option.bind authorization (\<lambda>value. strip_prefix value ''Bearer '') in
          (case (case bearer of Some b \<Rightarrow> Some b | None \<Rightarrow> query_token) of
             None \<Rightarrow> False
           | Some presented \<Rightarrow> timing_safe_eq presented expected))"

text \<open>\<open>std::net::IpAddr\<close> with \<open>is_loopback\<close>; how an address prints is the
  standard library's and is an argument of the messages below.\<close>

datatype ip_addr = V4 nat nat nat nat | V6 "nat list"

fun is_loopback :: "ip_addr \<Rightarrow> bool" where
  "is_loopback (V4 a b c d) \<longleftrightarrow> a = 127"
| "is_loopback (V6 segs) \<longleftrightarrow> segs = [0, 0, 0, 0, 0, 0, 0, 1]"

definition configured_host :: "(string \<Rightarrow> ip_addr option) \<Rightarrow> string option \<Rightarrow> ip_addr res" where
  "configured_host parse_ip var =
     (case var of
        None \<Rightarrow> Inr (V4 127 0 0 1)
      | Some raw0 \<Rightarrow> let raw = trim raw0 in
          (case parse_ip raw of Some ip \<Rightarrow> Inr ip
           | None \<Rightarrow> Inl (''ATOMIS_HOST is not an IP address: '' @ raw)))"

definition newline :: string where
  "newline = [CHR 0x0A]"

text \<open>The message's ellipsis is the three bytes of U+2026.\<close>

definition refuse_exposure :: "string \<Rightarrow> string" where
  "refuse_exposure host =
     ''Refusing to listen on '' @ host @ '' without ATOMIS_TOKEN.'' @ newline
     @ ''Anything that reaches this port can run code on this machine, so a'' @ newline
     @ ''non-loopback address needs a secret. Either set one:'' @ newline
     @ newline @ ''    ATOMIS_TOKEN=$(openssl rand -hex 24) ATOMIS_HOST='' @ host @ '' ''
     @ [CHR 0xE2, CHR 0x80, CHR 0xA6] @ newline
     @ newline @ ''or leave the default 127.0.0.1 and put a proxy that authenticates'' @ newline
     @ ''in front of it (Tailscale, a reverse proxy with auth).''"

definition check_exposure :: "(ip_addr \<Rightarrow> string) \<Rightarrow> ip_addr \<Rightarrow> string option \<Rightarrow> unit res" where
  "check_exposure show_ip host token =
     (if is_loopback host \<or> token \<noteq> None then Inr () else Inl (refuse_exposure (show_ip host)))"

definition origin_advice :: "(ip_addr \<Rightarrow> string) \<Rightarrow> ip_addr \<Rightarrow> string \<Rightarrow> bool \<Rightarrow> string option" where
  "origin_advice show_ip host allowlist production =
     (if is_loopback host \<or> \<not> production then None
      else if list_ex (\<lambda>entry. trim entry \<noteq> []) (split_on (CHR '','') allowlist) then None
      else Some (''Warning: listening on '' @ show_ip host @ '' with no ATOMIS_ALLOWED_ORIGINS.'' @ newline
        @ ''The page will load and every write on it will be refused, because the'' @ newline
        @ ''only origin trusted so far is this process's own. List the address'' @ newline
        @ ''people actually type, scheme and port included:'' @ newline
        @ newline @ ''    ATOMIS_ALLOWED_ORIGINS=https://atomis.example.com'' @ newline))"

section \<open>File URLs\<close>

definition url_safe :: "char \<Rightarrow> bool" where
  "url_safe c \<longleftrightarrow> ascii_alpha c \<or> ascii_digit c \<or> c \<in> set ''/-._~!$&()*+,;=:@'' \<or> c = CHR 0x27"

definition hex_upper :: "nat \<Rightarrow> char" where
  "hex_upper d = (if d < 10 then char_of (48 + d) else char_of (55 + d))"

definition hex_lower :: "nat \<Rightarrow> char" where
  "hex_lower d = (if d < 10 then char_of (48 + d) else char_of (87 + d))"

definition url_byte :: "char \<Rightarrow> string" where
  "url_byte c = (if url_safe c then [c] else [CHR ''%'', hex_upper (byte c div 16), hex_upper (byte c mod 16)])"

definition path_to_file_url :: "string \<Rightarrow> string" where
  "path_to_file_url path = ''file://'' @ concat (map url_byte path)"

text \<open>The decoder the encoding is checked against: percent escapes back to bytes.\<close>

definition unhex :: "char \<Rightarrow> nat" where
  "unhex c = (if ascii_digit c then byte c - 48 else byte c - 55)"

fun url_decode :: "string \<Rightarrow> string" where
  "url_decode [] = []"
| "url_decode (c # cs) = (if c = CHR ''%'' then
     (case cs of h # l # rest \<Rightarrow> char_of (unhex h * 16 + unhex l) # url_decode rest | _ \<Rightarrow> [])
     else c # url_decode cs)"

lemma byte_char_of [simp]: "n < 256 \<Longrightarrow> byte (char_of n) = n"
  by (simp add: byte_def)

lemma char_of_byte [simp]: "char_of (byte c) = c"
  by (simp add: byte_def)

lemma unhex_hex_upper: "d < 16 \<Longrightarrow> unhex (hex_upper d) = d"
  by (simp add: unhex_def hex_upper_def ascii_digit_def)

lemma url_safe_not_percent: "url_safe c \<Longrightarrow> c \<noteq> CHR ''%''"
  by (auto simp: url_safe_def ascii_alpha_def ascii_upper_def ascii_lower_def ascii_digit_def byte_def)

lemma url_decode_byte: "url_decode (url_byte c @ rest) = c # url_decode rest"
proof (cases "url_safe c")
  case True
  then show ?thesis by (simp add: url_byte_def url_safe_not_percent)
next
  case False
  have "byte c div 16 < 16" "byte c mod 16 < 16" using byte_less_256 [of c] by linarith+
  with False show ?thesis by (simp add: url_byte_def unhex_hex_upper)
qed

lemma url_decode_path: "url_decode (concat (map url_byte path)) = path"
  by (induction path) (simp_all add: url_decode_byte)

lemma path_to_file_url_inject: "path_to_file_url p = path_to_file_url q \<longleftrightarrow> p = q"
  by (metis path_to_file_url_def same_append_eq url_decode_path)

section \<open>Generated ids and tokens\<close>

text \<open>The arguments are the random bytes \<open>fill_bytes\<close> delivered.\<close>

definition hex_byte :: "char \<Rightarrow> string" where
  "hex_byte b = [hex_lower (byte b div 16), hex_lower (byte b mod 16)]"

definition random_hex :: "string \<Rightarrow> string" where
  "random_hex buffer = concat (map hex_byte buffer)"

definition alphabet :: string where
  "alphabet = ''ABCDEFGHIJKLMNOPQRSTUVWXYZabcdefghijklmnopqrstuvwxyz0123456789-_''"

definition letter :: "nat \<Rightarrow> char" where
  "letter n = alphabet ! (n mod 64)"

definition base64_chunk :: "nat \<Rightarrow> nat \<Rightarrow> nat \<Rightarrow> nat" where
  "base64_chunk a b c = a * 65536 + b * 256 + c"

fun random_base64url :: "string \<Rightarrow> string" where
  "random_base64url [] = []"
| "random_base64url [a] = (let n = base64_chunk (byte a) 0 0 in
     [letter (n div 262144), letter (n div 4096)])"
| "random_base64url [a, b] = (let n = base64_chunk (byte a) (byte b) 0 in
     [letter (n div 262144), letter (n div 4096), letter (n div 64)])"
| "random_base64url (a # b # c # rest) = (let n = base64_chunk (byte a) (byte b) (byte c) in
     [letter (n div 262144), letter (n div 4096), letter (n div 64), letter n] @ random_base64url rest)"

text \<open>The version and variant bits of RFC 4122, set on bytes 6 and 8.\<close>

definition mask_byte :: "nat \<Rightarrow> nat \<Rightarrow> char \<Rightarrow> char" where
  "mask_byte keep set_bits b = char_of (byte b mod keep + set_bits)"

definition uuid_bytes :: "string \<Rightarrow> string" where
  "uuid_bytes b = (b[6 := mask_byte 16 64 (b ! 6)])[8 := mask_byte 64 128 (b ! 8)]"

definition random_uuid :: "string \<Rightarrow> string" where
  "random_uuid buffer =
     (let b = uuid_bytes buffer; h = \<lambda>i j. concat (map hex_byte (take (j - i) (drop i b)))
      in h 0 4 @ ''-'' @ h 4 6 @ ''-'' @ h 6 8 @ ''-'' @ h 8 10 @ ''-'' @ h 10 16)"

definition lower_hex :: "char \<Rightarrow> bool" where
  "lower_hex c \<longleftrightarrow> ascii_digit c \<or> (97 \<le> byte c \<and> byte c \<le> 102)"

lemma lower_hex_digit: "d < 16 \<Longrightarrow> lower_hex (hex_lower d)"
  by (simp add: lower_hex_def hex_lower_def ascii_digit_def)

lemma random_hex_props:
  "length (random_hex buffer) = 2 * length buffer \<and> list_all lower_hex (random_hex buffer)"
proof (induction buffer)
  case (Cons b bs)
  have "byte b div 16 < 16" "byte b mod 16 < 16" using byte_less_256 [of b] by linarith+
  with Cons show ?case by (simp add: random_hex_def hex_byte_def lower_hex_digit)
qed (simp add: random_hex_def)

lemma length_base64url: "length (random_base64url bs) = (4 * length bs + 2) div 3"
  by (induction bs rule: random_base64url.induct) (simp_all add: Let_def)

end
