(* ===== verification/Protocol.thy ===== *)
theory Protocol
  imports Util
begin

text \<open>
  The wire types of src/apps/server-rs/src/protocol.rs and the validation of
  client messages.  Unsigned integers are \<^typ>\<open>nat\<close> (the width is written out
  where it matters), a \<open>f64\<close> duration is an \<^typ>\<open>int\<close> that is only carried, and
  a JSON value of \<open>serde_json\<close> is the datatype \<open>json\<close>; reading and printing
  JSON text is the library's and enters as an argument elsewhere.
\<close>

section \<open>Constants\<close>

definition protocol_version :: nat where "protocol_version = 1"
definition max_source_bytes :: nat where "max_source_bytes = 1024 * 1024"
definition max_project_files :: nat where "max_project_files = 64"
definition max_project_bytes :: nat where "max_project_bytes = 8 * 1024 * 1024"
definition max_runtime_message_bytes :: nat where
  "max_runtime_message_bytes = max_source_bytes + 64 * 1024"
definition max_input_bytes :: nat where "max_input_bytes = 512 * 1024"
definition max_typed_input_bytes :: nat where "max_typed_input_bytes = 64 * 1024"
definition max_session_dependencies :: nat where "max_session_dependencies = 16"

section \<open>Data\<close>

type_synonym millis = int

datatype json_number = PosInt nat | NegInt int | Float string

datatype json = JNull | JBool bool | JNum json_number | JStr string
  | JArr "json list" | JObj "(string \<times> json) list"

fun json_get :: "json \<Rightarrow> string \<Rightarrow> json option" where
  "json_get (JObj kvs) k = map_of kvs k"
| "json_get _ k = None"

fun as_str :: "json \<Rightarrow> string option" where
  "as_str (JStr s) = Some s"
| "as_str _ = None"

fun as_u64 :: "json \<Rightarrow> nat option" where
  "as_u64 (JNum (PosInt n)) = Some n"
| "as_u64 _ = None"

fun as_array :: "json \<Rightarrow> json list option" where
  "as_array (JArr xs) = Some xs"
| "as_array _ = None"

datatype language = Zig | Rust | Go | Ts | Py | C | Cpp

definition languages :: "language list" where
  "languages = [Zig, Rust, Go, Ts, Py, C, Cpp]"

fun as_str_language :: "language \<Rightarrow> string" where
  "as_str_language Zig = ''zig''"
| "as_str_language Rust = ''rust''"
| "as_str_language Go = ''go''"
| "as_str_language Ts = ''ts''"
| "as_str_language Py = ''py''"
| "as_str_language C = ''c''"
| "as_str_language Cpp = ''cpp''"

definition parse_language :: "string \<Rightarrow> language option" where
  "parse_language v = find (\<lambda>l. as_str_language l = v) languages"

lemma parse_as_str_language: "parse_language (as_str_language l) = Some l"
  by (cases l) (simp_all add: parse_language_def languages_def)

lemma parse_language_Some: "parse_language v = Some l \<longleftrightarrow> v = as_str_language l"
proof
  assume "parse_language v = Some l"
  then show "v = as_str_language l" by (auto simp: parse_language_def find_Some_iff)
qed (simp add: parse_as_str_language)

datatype run_state = Idle | Debouncing | Instrumenting | Compiling | Running | Testing
  | Succeeded | CompileError | RuntimeError | TimedOut | Cancelled

record source_range =
  start_line :: nat
  start_column :: nat
  end_line :: nat
  end_column :: nat
  start_byte :: nat
  end_byte :: nat

datatype probe_mode = Auto | Manual

record probe_descriptor =
  pd_probe_id :: string
  pd_path :: "string option"
  pd_name :: string
  pd_supported :: bool
  pd_reason :: "string option"
  pd_original_range :: source_range
  pd_insertion_byte :: "nat option"
  pd_mode :: probe_mode

record test_case =
  tc_test_id :: string
  tc_path :: string
  tc_name :: string
  tc_line :: nat
  tc_column :: nat

datatype test_status = Passed | Failed | Skipped | Leaked | TestTimedOut

datatype severity = SevError | SevWarning | SevInformation | SevHint

record app_diagnostic =
  ad_message :: string
  ad_path :: "string option"
  ad_severity :: severity
  ad_line :: nat
  ad_column :: nat
  ad_end_line :: "nat option"
  ad_end_column :: "nat option"
  ad_code :: "json option"
  ad_source :: "string option"

record project_file =
  pf_path :: string
  pf_uri :: string
  pf_source :: string

record workspace_meta =
  wm_id :: string
  wm_name :: string
  wm_language :: language
  wm_created_at :: nat
  wm_updated_at :: nat

record create_session_response =
  cr_session_id :: string
  cr_auth_token :: string
  cr_language :: language
  cr_document_uri :: string
  cr_zig_version :: string
  cr_zls_version :: string
  cr_rustc_version :: string
  cr_cargo_version :: string
  cr_rust_analyzer_version :: string
  cr_toolchains :: "(string \<times> json) list"
  cr_initial_source :: string
  cr_files :: "project_file list"
  cr_degraded :: "(string \<times> json) list"
  cr_sandbox_support :: string
  cr_sandbox :: bool
  cr_workspace :: "workspace_meta option"
  cr_input :: string
  cr_http_port :: nat

datatype workspace_scaffold = Demo | Minimal

record source_file =
  sf_path :: string
  sf_source :: string

record create_session_request =
  rq_language :: "language option"
  rq_scaffold :: "workspace_scaffold option"
  rq_workspace :: "string option"
  rq_files :: "source_file list option"
  rq_input :: "string option"
  rq_dependencies :: "string list option"

record probe_field_layout =
  fl_name :: string
  fl_type_name :: string
  fl_offset :: nat
  fl_size :: nat
  fl_preview :: string

record loop_info =
  li_line :: nat
  li_column :: nat
  li_variable :: string
  li_value :: string

record log_source_location =
  ll_path :: "string option"
  ll_line :: nat
  ll_column :: nat
  ll_execution_index :: nat
  ll_loop_info :: "loop_info option"

record run_result =
  instrumentation_ms :: millis
  compilation_ms :: millis
  execution_ms :: millis
  rr_exit_code :: "int option"
  rr_signal :: "string option"
  rr_timed_out :: bool
  rr_cancelled :: bool
  rr_reason :: "string option"

definition run_result_default :: run_result where
  "run_result_default = \<lparr>instrumentation_ms = 0, compilation_ms = 0, execution_ms = 0,
     rr_exit_code = None, rr_signal = None, rr_timed_out = False, rr_cancelled = False,
     rr_reason = None\<rparr>"

datatype run_reason = ManualRun | AutoRun

datatype deps_state = DepsIdle | Installing | Removing | DepsFailed

record dependency =
  dep_name :: string
  dep_version :: string

section \<open>Client messages\<close>

definition default_entry_path :: string where
  "default_entry_path = ''main.zig''"

record settings_update =
  su_auto_run :: bool
  su_auto_inspect :: bool
  su_debounce_ms :: nat
  su_timeout_ms :: nat
  su_manual_probe_ids :: "string list"
  su_sandbox :: "bool option"
  su_network :: "bool option"
  su_serve :: "bool option"

datatype runtime_client_message =
    DocumentUpdate (msg_session: string) nat string string "nat option"
      \<comment> \<open>session, version, path, source, base revision\<close>
  | FileCreate (msg_session: string) nat string string "nat option"
  | FileRename (msg_session: string) nat string string "nat option"
      \<comment> \<open>session, version, path, new path, base revision\<close>
  | FileDelete (msg_session: string) nat string "nat option"
  | WorkspaceReset (msg_session: string) nat workspace_scaffold "nat option"
  | InputUpdate (msg_session: string) string
  | RunRequest (msg_session: string) nat run_reason "language option" "bool option"
  | StdinWrite (msg_session: string) string "bool option"
  | RunCancel (msg_session: string)
  | SettingsUpdate (msg_session: string) settings_update
  | DepsList (msg_session: string)
  | DepsAdd (msg_session: string) string
  | DepsRemove (msg_session: string) string

definition session_id :: "runtime_client_message \<Rightarrow> string" where
  "session_id m = msg_session m"

section \<open>Server events\<close>

datatype stream = Stdout | Stderr

datatype output_category = Program | ErrorOutput

record probe_value =
  pv_protocol_version :: nat
  pv_kind :: string
  pv_session_id :: string
  pv_run_id :: string
  pv_document_version :: nat
  pv_probe_id :: string
  pv_path :: "string option"
  pv_name :: string
  pv_line :: nat
  pv_column :: nat
  pv_type_name :: string
  pv_preview :: string
  pv_truncated :: bool
  pv_sequence :: nat
  pv_timestamp :: nat
  pv_count :: nat
  pv_bits :: "nat option"
  pv_size_bytes :: "nat option"
  pv_align_bytes :: "nat option"
  pv_fields :: "probe_field_layout list option"

type_synonym preferences_patch = "(string \<times> string option) list"

datatype server_event =
    DocumentSaved nat
  | ProjectChanged "project_file list" nat
  | RunStateEvent nat "string option" run_state
  | WorkspacePeers nat
  | DocumentChanged string string nat
  | DocumentConflict string nat
  | PreferencesChanged preferences_patch
  | ProjectFiles nat "project_file list"
  | DepsCatalog language bool "string option" "string option" bool "dependency list"
  | DepsState deps_state "string option" "string option"
  | DepsOutput stream string
  | ProbeCatalog nat "probe_descriptor list"
  | TestCatalog nat "test_case list"
  | TestResult nat string "string option" string test_status millis "string option"
  | TestSummary nat string nat nat nat nat millis
  | ProbeValue probe_value
  | Output nat string stream output_category string "log_source_location option"
  | Diagnostics nat string "app_diagnostic list"
  | StdinOpen nat string
  | RunFinished nat string run_result
  | ServerError bool string "string option"

section \<open>Validation\<close>

definition bad_name_chars :: string where
  "bad_name_chars = [CHR 0x22, CHR 0x27] @ ''`$;&|<>()''"

definition validate_dependency_name :: "string \<Rightarrow> unit res" where
  "validate_dependency_name name0 =
     (let name = trim name0 in
      if name = [] \<or> length name > 214 then Inl ''dependency name length''
      else if starts_with name ''-'' then Inl (''dependency name may not start with '' @ [CHR 0x27, CHR ''-'', CHR 0x27])
      else if list_ex (\<lambda>c. is_control_code (char_code c) \<or> is_ws c
                \<or> (length c = 1 \<and> hd c \<in> set bad_name_chars)) (str_chars name)
        then Inl ''dependency name has invalid characters''
      else Inr ())"

definition check_version :: "nat \<Rightarrow> unit res" where
  "check_version version = (if version = 0 then Inl ''version must be positive'' else Inr ())"

definition valid_project_path :: "string \<Rightarrow> unit res" where
  "valid_project_path value =
     (if value \<noteq> []
        \<and> length value \<le> 240
        \<and> \<not> starts_with value ''/''
        \<and> CHR 0x5C \<notin> set value
        \<and> \<not> list_ex (\<lambda>c. char_code c < 32) (str_chars value)
        \<and> list_all (\<lambda>part. part \<noteq> [] \<and> part \<noteq> ''.'' \<and> part \<noteq> ''..'') (split_on (CHR ''/'') value)
      then Inr () else Inl ''Invalid project-relative path'')"

text \<open>The loop over the files: \<open>seen\<close> and \<open>bytes\<close> are its two variables.\<close>

fun check_files :: "string set \<Rightarrow> nat \<Rightarrow> source_file list \<Rightarrow> nat res" where
  "check_files seen bytes [] = Inr bytes"
| "check_files seen bytes (f # fs) =
     and_then (valid_project_path (sf_path f)) (\<lambda>_.
       if sf_path f \<in> seen then Inl ''Duplicate file path''
       else if length (sf_source f) > max_source_bytes then Inl ''Source exceeds 1 MiB''
       else check_files (insert (sf_path f) seen) (bytes + length (sf_source f)) fs)"

definition validate_source_files :: "source_file list \<Rightarrow> unit res" where
  "validate_source_files files =
     (if files = [] \<or> length files > max_project_files then Inl ''A project must contain 1..64 files''
      else and_then (check_files {} 0 files) (\<lambda>bytes.
        if bytes > max_project_bytes then Inl ''Project source exceeds 8 MiB''
        else if list_ex (\<lambda>f. list_ex (\<lambda>other. starts_with (sf_path other) (sf_path f @ ''/'')) files) files
          then Inl ''A file cannot also be a directory''
        else Inr ()))"

fun validate :: "runtime_client_message \<Rightarrow> unit res" where
  "validate (DepsAdd _ name) = validate_dependency_name name"
| "validate (DepsRemove _ name) = validate_dependency_name name"
| "validate (DepsList _) = Inr ()"
| "validate (DocumentUpdate _ version path source _) =
     and_then (check_version version) (\<lambda>_. and_then (valid_project_path path) (\<lambda>_.
       if length source > max_source_bytes then Inl ''Source exceeds 1 MiB'' else Inr ()))"
| "validate (FileCreate _ version path source _) =
     and_then (check_version version) (\<lambda>_. and_then (valid_project_path path) (\<lambda>_.
       if length source > max_source_bytes then Inl ''Source exceeds 1 MiB'' else Inr ()))"
| "validate (FileRename _ version path new_path _) =
     and_then (check_version version) (\<lambda>_. and_then (valid_project_path path) (\<lambda>_.
       valid_project_path new_path))"
| "validate (FileDelete _ version path _) =
     and_then (check_version version) (\<lambda>_. valid_project_path path)"
| "validate (RunRequest _ version _ _ _) = check_version version"
| "validate (WorkspaceReset _ version _ _) = check_version version"
| "validate (RunCancel _) = Inr ()"
| "validate (InputUpdate _ text) =
     (if length text > max_input_bytes then Inl ''Input exceeds 512 KiB'' else Inr ())"
| "validate (StdinWrite _ data _) =
     (if length data > max_typed_input_bytes then Inl ''Typed input exceeds 64 KiB'' else Inr ())"
| "validate (SettingsUpdate _ s) =
     (if \<not> (100 \<le> su_debounce_ms s \<and> su_debounce_ms s \<le> 500) then Inl ''debounceMs outside 100..500''
      else if \<not> (100 \<le> su_timeout_ms s \<and> su_timeout_ms s \<le> 10000) then Inl ''timeoutMs outside 100..10000''
      else if length (su_manual_probe_ids s) > 1000
          \<or> list_ex (\<lambda>i. i = [] \<or> length i > 128) (su_manual_probe_ids s) then Inl ''invalid manualProbeIds''
      else Inr ())"

section \<open>What the validation gives\<close>

text \<open>Resolving a relative path against a directory, as the file system does.\<close>

fun walk :: "string list \<Rightarrow> string list \<Rightarrow> string list" where
  "walk dir [] = dir"
| "walk dir (p # ps) =
     (if p = [] \<or> p = ''.'' then walk dir ps
      else if p = ''..'' then walk (butlast dir) ps
      else walk (dir @ [p]) ps)"

lemma walk_plain:
  "list_all (\<lambda>part. part \<noteq> [] \<and> part \<noteq> ''.'' \<and> part \<noteq> ''..'') ps \<Longrightarrow> walk dir ps = dir @ ps"
  by (induction ps arbitrary: dir) auto

lemma valid_project_path_parts:
  "valid_project_path p = Inr u \<Longrightarrow>
   list_all (\<lambda>part. part \<noteq> [] \<and> part \<noteq> ''.'' \<and> part \<noteq> ''..'') (split_on (CHR ''/'') p)"
  by (simp add: valid_project_path_def split: if_splits)

lemma check_files_Inr:
  "check_files seen bytes fs = Inr n \<longleftrightarrow>
     list_all (\<lambda>f. valid_project_path (sf_path f) = Inr () \<and> length (sf_source f) \<le> max_source_bytes) fs
     \<and> distinct (map sf_path fs) \<and> seen \<inter> sf_path ` set fs = {}
     \<and> n = bytes + sum_list (map (length \<circ> sf_source) fs)"
proof (induction fs arbitrary: seen bytes)
  case (Cons f fs)
  show ?case
    by (cases "valid_project_path (sf_path f)") (auto simp: Cons not_less)
qed auto

lemma validate_source_files_Inr:
  "validate_source_files fs = Inr () \<longleftrightarrow>
     fs \<noteq> [] \<and> length fs \<le> max_project_files
     \<and> list_all (\<lambda>f. valid_project_path (sf_path f) = Inr () \<and> length (sf_source f) \<le> max_source_bytes) fs
     \<and> distinct (map sf_path fs) \<and> sum_list (map (length \<circ> sf_source) fs) \<le> max_project_bytes
     \<and> (\<forall>f\<in>set fs. \<forall>g\<in>set fs. \<not> starts_with (sf_path g) (sf_path f @ ''/''))"
  (is "?lhs \<longleftrightarrow> ?rhs")
proof -
  have "?lhs \<longleftrightarrow> fs \<noteq> [] \<and> length fs \<le> max_project_files \<and>
    (\<exists>n. check_files {} 0 fs = Inr n \<and> n \<le> max_project_bytes \<and>
     \<not> list_ex (\<lambda>f. list_ex (\<lambda>other. starts_with (sf_path other) (sf_path f @ ''/'')) fs) fs)"
    unfolding validate_source_files_def
    by (cases "check_files {} 0 fs") (auto simp: not_less)
  then show ?thesis by (simp add: check_files_Inr list_ex_iff)
qed

end
