(* ===== verification/Sandbox.thy ===== *)
theory Sandbox
  imports Protocol
begin

text \<open>
  src/apps/server-rs/src/exec/sandbox.rs: the allowlist of a session, the ways it
  is widened, the environment of a sandboxed child, and the ruleset \<open>prepare\<close>
  hands to the kernel.  A path is its list of components (\<open>[]\<close> is the root), so
  \<open>Path::starts_with\<close>, which compares components, is a list prefix.  What the
  file system and the environment answer (which paths exist, where a program
  resolves, whether the cache directory could be made) are arguments.
\<close>

section \<open>Paths\<close>

type_synonym path = "string list"

definition path_of :: "string \<Rightarrow> path" where
  "path_of s = filter (\<lambda>c. c \<noteq> [] \<and> c \<noteq> ''.'') (split_on (CHR ''/'') s)"

definition show_path :: "path \<Rightarrow> string" where
  "show_path p = (if p = [] then ''/'' else concat (map (\<lambda>c. ''/'' @ c) p))"

definition path_join :: "path \<Rightarrow> string \<Rightarrow> path" where
  "path_join p rel = (if starts_with rel ''/'' then path_of rel else p @ path_of rel)"

text \<open>\<open>components().count()\<close>: the root and a leading \<open>.\<close> are components too.\<close>

definition component_count :: "string \<Rightarrow> nat" where
  "component_count s = (if starts_with s ''/'' then 1 else 0)
     + (if hd (split_on (CHR ''/'') s) = ''.'' then 1 else 0) + length (path_of s)"

definition path_parent :: "path \<Rightarrow> path option" where
  "path_parent p = (if p = [] then None else Some (butlast p))"

definition path_under :: "path \<Rightarrow> path \<Rightarrow> bool" where
  "path_under p base \<longleftrightarrow> take (length base) p = base"

lemma path_under_iff: "path_under p base \<longleftrightarrow> (\<exists>rest. p = base @ rest)"
  by (metis append_eq_conv_conj append_take_drop_id path_under_def)

lemma path_under_refl [simp]: "path_under p p"
  by (simp add: path_under_def)

lemma path_under_append [simp]: "path_under (p @ q) p"
  by (simp add: path_under_def)

section \<open>Support\<close>

datatype sandbox_support = FilesAndNetwork | FilesOnly | Unsupported

fun support_as_str :: "sandbox_support \<Rightarrow> string" where
  "support_as_str FilesAndNetwork = ''files+network''"
| "support_as_str FilesOnly = ''files''"
| "support_as_str Unsupported = ''unsupported''"

definition available :: "sandbox_support \<Rightarrow> bool" where
  "available s \<longleftrightarrow> s \<noteq> Unsupported"

text \<open>The kernel's answer (an \<open>i64\<close>), clamped at zero.\<close>

definition detect_support :: "int \<Rightarrow> sandbox_support" where
  "detect_support landlock_abi =
     (let abi = max landlock_abi 0 in
      if abi = 0 then Unsupported else if abi \<le> 3 then FilesOnly else FilesAndNetwork)"

section \<open>Policy\<close>

datatype network_access = NoNetwork | Ports "nat list" | Outbound

record sandbox_policy =
  sp_workspace :: path
  sp_read_write :: "path list"
  sp_read_only :: "path list"
  sp_devices :: "path list"
  sp_home :: "path option"
  sp_network :: network_access
  sp_listen :: "nat option"

definition system_read_only :: "string list" where
  "system_read_only = [''/usr'', ''/bin'', ''/sbin'', ''/lib'', ''/lib64'', ''/opt'', ''/etc'',
     ''/nix'', ''/var/lib'', ''/proc'', ''/sys'']"

definition devices :: "string list" where
  "devices = [''/dev/null'', ''/dev/zero'', ''/dev/full'', ''/dev/random'', ''/dev/urandom'', ''/dev/tty'']"

definition home_read_only :: "string list" where
  "home_read_only = [''.cargo'', ''.rustup'', ''.zvm'', ''.zig'', ''go'', ''.local'', ''.pyenv'',
     ''.nvm'', ''.volta'', ''.asdf'', ''.cache'']"

definition toolchain_cache_root :: "string option \<Rightarrow> string option \<Rightarrow> string option \<Rightarrow> path \<Rightarrow> path" where
  "toolchain_cache_root explicit xdg home temp_dir =
     (case explicit of
        Some e \<Rightarrow> path_of e
      | None \<Rightarrow> path_join
          (case xdg of Some x \<Rightarrow> path_of x
           | None \<Rightarrow> (case home of Some h \<Rightarrow> path_join (path_of h) ''.cache'' | None \<Rightarrow> temp_dir))
          ''atomis/toolchains'')"

text \<open>\<open>cache\<close> is \<open>toolchain_cache_root()\<close>; \<open>made\<close> says whether it could be created.\<close>

definition policy_for :: "path \<Rightarrow> bool \<Rightarrow> path \<Rightarrow> path \<Rightarrow> path option \<Rightarrow> sandbox_policy" where
  "policy_for cache made workspace project_root home =
     \<lparr>sp_workspace = workspace,
      sp_read_write = [workspace] @ (if made then [cache] else []),
      sp_read_only = map path_of system_read_only @ [project_root]
        @ (case home of None \<Rightarrow> [] | Some h \<Rightarrow> map (path_join h) home_read_only),
      sp_devices = map path_of devices,
      sp_home = home,
      sp_network = NoNetwork,
      sp_listen = None\<rparr>"

text \<open>\<open>resolve_program\<close>: a program named with a directory is resolved as given,
  a bare name through PATH; \<open>canonicalize\<close> is the file system's.\<close>

definition resolve_program :: "(path \<Rightarrow> path option) \<Rightarrow> path \<Rightarrow> string list option \<Rightarrow> string \<Rightarrow> path option" where
  "resolve_program canonicalize cwd path_dirs program =
     (if component_count program > 1 then canonicalize (path_join cwd program)
      else Option.bind path_dirs (\<lambda>dirs.
        (case filter (\<lambda>c. canonicalize c \<noteq> None) (map (\<lambda>d. path_join (path_of d) program) dirs) of
           [] \<Rightarrow> None | c # _ \<Rightarrow> canonicalize c)))"

definition program_grant :: "path option \<Rightarrow> path \<Rightarrow> path" where
  "program_grant home directory =
     (if directory \<noteq> [] \<and> last directory = ''bin''
      then (case path_parent directory of
              Some pfx \<Rightarrow> if path_parent pfx \<noteq> None \<and> home \<noteq> Some pfx then pfx else directory
            | None \<Rightarrow> directory)
      else directory)"

text \<open>\<open>resolved\<close> is the answer of \<open>resolve_program\<close>.\<close>

definition with_program :: "sandbox_policy \<Rightarrow> path option \<Rightarrow> sandbox_policy" where
  "with_program policy resolved =
     (case Option.bind resolved path_parent of
        None \<Rightarrow> policy
      | Some directory \<Rightarrow>
          let grant = program_grant (sp_home policy) directory in
          if list_ex (\<lambda>allowed. path_under grant allowed) (sp_read_only policy) then policy
          else policy\<lparr>sp_read_only := sp_read_only policy @ [grant]\<rparr>)"

definition resolver_paths :: "string list" where
  "resolver_paths = [''/run/systemd/resolve'', ''/run/resolvconf'', ''/run/nscd'',
     ''/run/dbus/system_bus_socket'']"

definition with_resolver :: "sandbox_policy \<Rightarrow> sandbox_policy" where
  "with_resolver policy = policy\<lparr>sp_read_write := sp_read_write policy @ map path_of resolver_paths\<rparr>"

definition fetch_ports :: "nat list" where
  "fetch_ports = [443, 80]"

definition with_fetch_network :: "sandbox_policy \<Rightarrow> sandbox_policy" where
  "with_fetch_network policy = with_resolver (policy\<lparr>sp_network := Ports fetch_ports\<rparr>)"

definition with_outbound_network :: "sandbox_policy \<Rightarrow> sandbox_policy" where
  "with_outbound_network policy = with_resolver (policy\<lparr>sp_network := Outbound\<rparr>)"

definition with_listen_port :: "sandbox_policy \<Rightarrow> nat \<Rightarrow> sandbox_policy" where
  "with_listen_port policy port = policy\<lparr>sp_listen := Some port\<rparr>"

section \<open>Environment of a child\<close>

definition rustup_home :: "path option \<Rightarrow> string option \<Rightarrow> string option" where
  "rustup_home home configured =
     (if (case configured of None \<Rightarrow> False | Some v \<Rightarrow> v \<noteq> []) then None
      else map_option (\<lambda>h. show_path (path_join h ''.rustup'')) home)"

definition in_workspace :: "sandbox_policy \<Rightarrow> string \<Rightarrow> string" where
  "in_workspace policy name = show_path (sp_workspace policy) @ ''/'' @ name"

definition child_env :: "path \<Rightarrow> string option \<Rightarrow> sandbox_policy \<Rightarrow> (string \<times> string) list" where
  "child_env cache rustup_var policy =
     (let at = in_workspace policy;
          shared = (if list_ex (\<lambda>allowed. path_under cache allowed) (sp_read_write policy)
                    then Some cache else None)
      in [(''HOME'', at []),
          (''XDG_CACHE_HOME'', at ''.cache''),
          (''TMPDIR'', at ''.tmp''),
          (''ZIG_GLOBAL_CACHE_DIR'',
             (case shared of Some root \<Rightarrow> show_path (path_join root ''zig'')
              | None \<Rightarrow> at ''.zig-global-cache'')),
          (''ZIG_LOCAL_CACHE_DIR'', at ''.zig-cache''),
          (''CARGO_HOME'', at ''.cargo-home''),
          (''GOPATH'', at ''.gopath''),
          (''GOMODCACHE'', at ''.gomodcache''),
          (''PYTHONPYCACHEPREFIX'', at ''.pycache''),
          (''UV_CACHE_DIR'', at ''.cache/uv''),
          (''GOCACHE'', at ''.cache/go-build''),
          (''npm_config_cache'', at ''.npm'')]
         @ (case rustup_home (sp_home policy) rustup_var of
              None \<Rightarrow> [] | Some r \<Rightarrow> [(''RUSTUP_HOME'', r)]))"

section \<open>The ruleset\<close>

text \<open>What \<open>prepare\<close> asks of Landlock: which network accesses are handled (an
  access that is handled and has no rule is denied), and the rules added.\<close>

datatype access_net = BindTcp | ConnectTcp

datatype access_fs = AllFs | ReadFs | DeviceFs

record ruleset =
  rs_handled_net :: "access_net list"
  rs_fs_rules :: "(path \<times> access_fs) list"
  rs_net_rules :: "(nat \<times> access_net) list"

definition net_from_all :: "access_net list" where
  "net_from_all = [BindTcp, ConnectTcp]"

definition prepare :: "(path \<Rightarrow> bool) \<Rightarrow> sandbox_policy \<Rightarrow> sandbox_support \<Rightarrow> ruleset option" where
  "prepare exists_path policy support =
     (if \<not> available support then None
      else
        let existing = filter exists_path;
            (handled, connect_ports) =
              (if support = FilesAndNetwork
               then (case sp_network policy of
                       Outbound \<Rightarrow> ([BindTcp], [])
                     | Ports ports \<Rightarrow> (net_from_all, ports)
                     | NoNetwork \<Rightarrow> (net_from_all, []))
               else ([], []))
        in Some \<lparr>rs_handled_net = handled,
             rs_fs_rules = map (\<lambda>p. (p, AllFs)) (existing (sp_read_write policy))
               @ map (\<lambda>p. (p, ReadFs)) (existing (sp_read_only policy))
               @ map (\<lambda>p. (p, DeviceFs)) (existing (sp_devices policy)),
             rs_net_rules = map (\<lambda>port. (port, ConnectTcp)) connect_ports
               @ (case sp_listen policy of
                    Some port \<Rightarrow> if support = FilesAndNetwork then [(port, BindTcp)] else []
                  | None \<Rightarrow> [])\<rparr>)"

lemma prepare_bind:
  assumes "prepare ex policy FilesAndNetwork = Some rs"
  shows "BindTcp \<in> set (rs_handled_net rs)
    \<and> (\<forall>port. (port, BindTcp) \<in> set (rs_net_rules rs) \<longleftrightarrow> sp_listen policy = Some port)"
  using assms
  by (cases "sp_network policy"; cases "sp_listen policy")
    (auto simp: prepare_def Let_def available_def net_from_all_def)

lemma prepare_connect:
  assumes "prepare ex policy FilesAndNetwork = Some rs"
  shows "(ConnectTcp \<in> set (rs_handled_net rs) \<longleftrightarrow> sp_network policy \<noteq> Outbound)
    \<and> {port. (port, ConnectTcp) \<in> set (rs_net_rules rs)} =
        (case sp_network policy of Ports ports \<Rightarrow> set ports | _ \<Rightarrow> {})"
  using assms
  by (cases "sp_network policy"; cases "sp_listen policy")
    (auto simp: prepare_def Let_def available_def net_from_all_def)

lemma prepare_fs:
  assumes "prepare ex policy support = Some rs"
  shows "{p. (p, AllFs) \<in> set (rs_fs_rules rs)} = {p \<in> set (sp_read_write policy). ex p}"
    and "{p. (p, ReadFs) \<in> set (rs_fs_rules rs)} = {p \<in> set (sp_read_only policy). ex p}"
    and "{p. (p, DeviceFs) \<in> set (rs_fs_rules rs)} = {p \<in> set (sp_devices policy). ex p}"
  using assms by (auto simp: prepare_def Let_def split: if_splits prod.splits)

end
