(* ===== verification/Defaults.thy ===== *)
theory Defaults
  imports Util
begin

text \<open>
  The default sources of src/apps/server-rs/src/protocol.rs: the entry file and
  the example tests each language's scaffold starts with, line by line.
\<close>

definition DEFAULT_ZIG_SOURCE :: string where
  "DEFAULT_ZIG_SOURCE = join_with newline
    [''const std = @import('' @ [CHR 0x22] @ ''std'' @ [CHR 0x22] @ '');'',
     [],
     ''pub fn main() void {'',
     ''    const price: i32 = 40;'',
     ''    const tax: i32 = 3;'',
     ''    const total = price + tax;'',
     ''    const values = [_]i32{ price, tax, total };'',
     [],
     ''    _ = values;'',
     ''}'',
     [],
     ''fn applyTax(price: i32, tax: i32) i32 {'',
     ''    return price + tax;'',
     ''}'',
     [],
     ''// Test blocks run after main(): check the tests panel '' @ [CHR 0xE2] @ [CHR 0x86] @ [CHR 0x92],
     ''test '' @ [CHR 0x22] @ ''applyTax adds the tax'' @ [CHR 0x22] @ '' {'',
     ''    try std.testing.expectEqual(@as(i32, 43), applyTax(40, 3));'',
     ''}'',
     [],
     ''test '' @ [CHR 0x22] @ ''applyTax with zero tax'' @ [CHR 0x22] @ '' {'',
     ''    try std.testing.expectEqual(@as(i32, 40), applyTax(40, 0));'',
     ''}'',
     []]"

definition DEFAULT_RUST_SOURCE :: string where
  "DEFAULT_RUST_SOURCE = join_with newline
    [''fn main() {'',
     ''    let price: i32 = 40;'',
     ''    let tax: i32 = 3;'',
     ''    let total = apply_tax(price, tax);'',
     ''    let values = [price, tax, total];'',
     [],
     ''    let _ = values;'',
     ''}'',
     [],
     ''fn apply_tax(price: i32, tax: i32) -> i32 {'',
     ''    price + tax'',
     ''}'',
     [],
     ''// #[test] blocks run after main(): check the tests panel '' @ [CHR 0xE2] @ [CHR 0x86] @ [CHR 0x92],
     ''#[test]'',
     ''fn apply_tax_adds_the_tax() {'',
     ''    assert_eq!(43, apply_tax(40, 3));'',
     ''}'',
     [],
     ''#[test]'',
     ''fn apply_tax_with_zero_tax() {'',
     ''    assert_eq!(40, apply_tax(40, 0));'',
     ''}'',
     []]"

definition DEFAULT_GO_SOURCE :: string where
  "DEFAULT_GO_SOURCE = join_with newline
    [''package main'',
     [],
     ''import '' @ [CHR 0x22] @ ''fmt'' @ [CHR 0x22],
     [],
     ''func main() {'',
     [CHR 0x09] @ ''price := 40'',
     [CHR 0x09] @ ''tax := 3'',
     [CHR 0x09] @ ''total := applyTax(price, tax)'',
     [CHR 0x09] @ ''values := []int{price, tax, total}'',
     [],
     [CHR 0x09] @ ''fmt.Println('' @ [CHR 0x22] @ ''total:'' @ [CHR 0x22] @ '', values[2])'',
     ''}'',
     [],
     ''func applyTax(price int, tax int) int {'',
     [CHR 0x09] @ ''return price + tax'',
     ''}'',
     []]"

definition DEFAULT_GO_TEST_SOURCE :: string where
  "DEFAULT_GO_TEST_SOURCE = join_with newline
    [''package main'',
     [],
     ''import '' @ [CHR 0x22] @ ''testing'' @ [CHR 0x22],
     [],
     ''// TestXxx functions run after main(): check the tests panel '' @ [CHR 0xE2] @ [CHR 0x86] @ [CHR 0x92],
     ''func TestApplyTaxAddsTheTax(t *testing.T) {'',
     [CHR 0x09] @ ''if applyTax(40, 3) != 43 {'',
     [CHR 0x09] @ [CHR 0x09] @ ''t.Fatalf('' @ [CHR 0x22] @ ''esperado 43, recibido %d'' @ [CHR 0x22] @ '', applyTax(40, 3))'',
     [CHR 0x09] @ ''}'',
     ''}'',
     [],
     ''func TestApplyTaxWithZeroTax(t *testing.T) {'',
     [CHR 0x09] @ ''if applyTax(40, 0) != 40 {'',
     [CHR 0x09] @ [CHR 0x09] @ ''t.Fatalf('' @ [CHR 0x22] @ ''esperado 40, recibido %d'' @ [CHR 0x22] @ '', applyTax(40, 0))'',
     [CHR 0x09] @ ''}'',
     ''}'',
     []]"

definition DEFAULT_TS_SOURCE :: string where
  "DEFAULT_TS_SOURCE = join_with newline
    [''export function applyTax(price: number, tax: number): number {'',
     [CHR 0x09] @ ''return price + tax;'',
     ''}'',
     [],
     ''const price: number = 40;'',
     ''const tax: number = 3;'',
     ''const total = applyTax(price, tax);'',
     ''const values = [price, tax, total];'',
     [],
     ''console.log('' @ [CHR 0x22] @ ''total:'' @ [CHR 0x22] @ '', values[2]);'',
     []]"

definition DEFAULT_TS_TEST_SOURCE :: string where
  "DEFAULT_TS_TEST_SOURCE = join_with newline
    [''import { test } from '' @ [CHR 0x22] @ ''node:test'' @ [CHR 0x22] @ '';'',
     ''import assert from '' @ [CHR 0x22] @ ''node:assert/strict'' @ [CHR 0x22] @ '';'',
     ''import { applyTax } from '' @ [CHR 0x22] @ ''./main.ts'' @ [CHR 0x22] @ '';'',
     [],
     ''// node:test tests run after the program: check the panel '' @ [CHR 0xE2] @ [CHR 0x86] @ [CHR 0x92],
     ''test('' @ [CHR 0x22] @ ''applyTax adds the tax'' @ [CHR 0x22] @ '', () => {'',
     [CHR 0x09] @ ''assert.equal(applyTax(40, 3), 43);'',
     ''});'',
     [],
     ''test('' @ [CHR 0x22] @ ''applyTax with zero tax'' @ [CHR 0x22] @ '', () => {'',
     [CHR 0x09] @ ''assert.equal(applyTax(40, 0), 40);'',
     ''});'',
     []]"

definition DEFAULT_PY_SOURCE :: string where
  "DEFAULT_PY_SOURCE = join_with newline
    [''def apply_tax(price, tax):'',
     ''    return price + tax'',
     [],
     [],
     ''price = 40'',
     ''tax = 3'',
     ''total = apply_tax(price, tax)'',
     ''values = [price, tax, total]'',
     [],
     ''print('' @ [CHR 0x22] @ ''total:'' @ [CHR 0x22] @ '', values[2])'',
     []]"

definition DEFAULT_PY_TEST_SOURCE :: string where
  "DEFAULT_PY_TEST_SOURCE = join_with newline
    [''from main import apply_tax'',
     [],
     [],
     ''# test_* functions run after the program: check the panel '' @ [CHR 0xE2] @ [CHR 0x86] @ [CHR 0x92],
     ''def test_apply_tax_adds_the_tax():'',
     ''    assert apply_tax(40, 3) == 43'',
     [],
     [],
     ''def test_apply_tax_with_zero_tax():'',
     ''    assert apply_tax(40, 0) == 40'',
     []]"

definition DEFAULT_C_SOURCE :: string where
  "DEFAULT_C_SOURCE = join_with newline
    [''#include <stdio.h>'',
     [],
     ''int apply_tax(int price, int tax) {'',
     [CHR 0x09] @ ''return price + tax;'',
     ''}'',
     [],
     ''int main(void) {'',
     [CHR 0x09] @ ''int price = 40;'',
     [CHR 0x09] @ ''int tax = 3;'',
     [CHR 0x09] @ ''int total = apply_tax(price, tax);'',
     [CHR 0x09] @ ''int values[3] = {price, tax, total};'',
     [],
     [CHR 0x09] @ ''printf('' @ [CHR 0x22] @ ''total: %d'' @ [CHR 0x5C] @ ''n'' @ [CHR 0x22] @ '', values[2]);'',
     [CHR 0x09] @ ''return 0;'',
     ''}'',
     []]"

definition DEFAULT_C_TEST_SOURCE :: string where
  "DEFAULT_C_TEST_SOURCE = join_with newline
    [''#include <assert.h>'',
     [],
     ''int apply_tax(int price, int tax);'',
     [],
     ''// test_* functions run after main(): check the tests panel '' @ [CHR 0xE2] @ [CHR 0x86] @ [CHR 0x92],
     ''void test_apply_tax_adds_the_tax(void) {'',
     [CHR 0x09] @ ''assert(apply_tax(40, 3) == 43);'',
     ''}'',
     [],
     ''void test_apply_tax_with_zero_tax(void) {'',
     [CHR 0x09] @ ''assert(apply_tax(40, 0) == 40);'',
     ''}'',
     []]"

definition DEFAULT_CPP_SOURCE :: string where
  "DEFAULT_CPP_SOURCE = join_with newline
    [''#include <iostream>'',
     ''#include <string>'',
     [],
     ''int apply_tax(int price, int tax) {'',
     [CHR 0x09] @ ''return price + tax;'',
     ''}'',
     [],
     ''int main() {'',
     [CHR 0x09] @ ''int price = 40;'',
     [CHR 0x09] @ ''int tax = 3;'',
     [CHR 0x09] @ ''int total = apply_tax(price, tax);'',
     [CHR 0x09] @ ''std::string label = '' @ [CHR 0x22] @ ''total'' @ [CHR 0x22] @ '';'',
     [],
     [CHR 0x09] @ ''std::cout << label << '' @ [CHR 0x22] @ '': '' @ [CHR 0x22] @ '' << total << '' @ [CHR 0x22] @ [CHR 0x5C] @ ''n'' @ [CHR 0x22] @ '';'',
     [CHR 0x09] @ ''return 0;'',
     ''}'',
     []]"

definition DEFAULT_CPP_TEST_SOURCE :: string where
  "DEFAULT_CPP_TEST_SOURCE = join_with newline
    [''#include <cassert>'',
     [],
     ''int apply_tax(int price, int tax);'',
     [],
     ''// test_* functions run after main(): check the tests panel '' @ [CHR 0xE2] @ [CHR 0x86] @ [CHR 0x92],
     ''void test_apply_tax_adds_the_tax() {'',
     [CHR 0x09] @ ''assert(apply_tax(40, 3) == 43);'',
     ''}'',
     [],
     ''void test_apply_tax_with_zero_tax() {'',
     [CHR 0x09] @ ''assert(apply_tax(40, 0) == 40);'',
     ''}'',
     []]"

text \<open>None comes near the limit of a project.\<close>

lemma length_DEFAULT_ZIG_SOURCE: "length DEFAULT_ZIG_SOURCE \<le> 2000"
  by (simp add: DEFAULT_ZIG_SOURCE_def length_join_with newline_def)

lemma length_DEFAULT_RUST_SOURCE: "length DEFAULT_RUST_SOURCE \<le> 2000"
  by (simp add: DEFAULT_RUST_SOURCE_def length_join_with newline_def)

lemma length_DEFAULT_GO_SOURCE: "length DEFAULT_GO_SOURCE \<le> 2000"
  by (simp add: DEFAULT_GO_SOURCE_def length_join_with newline_def)

lemma length_DEFAULT_GO_TEST_SOURCE: "length DEFAULT_GO_TEST_SOURCE \<le> 2000"
  by (simp add: DEFAULT_GO_TEST_SOURCE_def length_join_with newline_def)

lemma length_DEFAULT_TS_SOURCE: "length DEFAULT_TS_SOURCE \<le> 2000"
  by (simp add: DEFAULT_TS_SOURCE_def length_join_with newline_def)

lemma length_DEFAULT_TS_TEST_SOURCE: "length DEFAULT_TS_TEST_SOURCE \<le> 2000"
  by (simp add: DEFAULT_TS_TEST_SOURCE_def length_join_with newline_def)

lemma length_DEFAULT_PY_SOURCE: "length DEFAULT_PY_SOURCE \<le> 2000"
  by (simp add: DEFAULT_PY_SOURCE_def length_join_with newline_def)

lemma length_DEFAULT_PY_TEST_SOURCE: "length DEFAULT_PY_TEST_SOURCE \<le> 2000"
  by (simp add: DEFAULT_PY_TEST_SOURCE_def length_join_with newline_def)

lemma length_DEFAULT_C_SOURCE: "length DEFAULT_C_SOURCE \<le> 2000"
  by (simp add: DEFAULT_C_SOURCE_def length_join_with newline_def)

lemma length_DEFAULT_C_TEST_SOURCE: "length DEFAULT_C_TEST_SOURCE \<le> 2000"
  by (simp add: DEFAULT_C_TEST_SOURCE_def length_join_with newline_def)

lemma length_DEFAULT_CPP_SOURCE: "length DEFAULT_CPP_SOURCE \<le> 2000"
  by (simp add: DEFAULT_CPP_SOURCE_def length_join_with newline_def)

lemma length_DEFAULT_CPP_TEST_SOURCE: "length DEFAULT_CPP_TEST_SOURCE \<le> 2000"
  by (simp add: DEFAULT_CPP_TEST_SOURCE_def length_join_with newline_def)

lemmas default_lengths =
  length_DEFAULT_ZIG_SOURCE
  length_DEFAULT_RUST_SOURCE
  length_DEFAULT_GO_SOURCE
  length_DEFAULT_GO_TEST_SOURCE
  length_DEFAULT_TS_SOURCE
  length_DEFAULT_TS_TEST_SOURCE
  length_DEFAULT_PY_SOURCE
  length_DEFAULT_PY_TEST_SOURCE
  length_DEFAULT_C_SOURCE
  length_DEFAULT_C_TEST_SOURCE
  length_DEFAULT_CPP_SOURCE
  length_DEFAULT_CPP_TEST_SOURCE

end
