(* ===== verification/Packs.thy ===== *)
theory Packs
  imports Sandbox Defaults
begin

text \<open>
  src/apps/server-rs/src/languages/packs.rs: the registry of languages, the
  version checks of their toolchains, and the scaffold of a session root.  The
  fields that are functions of another module (\<open>execute\<close>, \<open>deps\<close>) are modelled
  with those modules.
\<close>

section \<open>Toolchain versions\<close>

text \<open>\<open>version.split([...]).next()\<close> and \<open>parse().unwrap_or(0)\<close>.\<close>

fun split_any :: "string \<Rightarrow> string \<Rightarrow> string list" where
  "split_any xs [] = [[]]"
| "split_any xs (c # cs) = (if c \<in> set xs then [] # split_any xs cs
     else case split_any xs cs of [] \<Rightarrow> [[c]] | p # ps \<Rightarrow> (c # p) # ps)"

definition nth_number :: "string list \<Rightarrow> nat \<Rightarrow> nat" where
  "nth_number parts i =
     (if i < length parts then (case parse_unsigned 32 (parts ! i) of Some n \<Rightarrow> n | None \<Rightarrow> 0) else 0)"

definition leading_number :: "string \<Rightarrow> nat" where
  "leading_number rest = (case parse_unsigned 32 (takeWhile ascii_digit rest) of Some n \<Rightarrow> n | None \<Rightarrow> 0)"

definition after_marker :: "string \<Rightarrow> string \<Rightarrow> string option" where
  "after_marker version marker =
     map_option (\<lambda>index. drop (index + length marker) version) (find_sub version marker)"

definition zig_compatible :: "string \<Rightarrow> bool" where
  "zig_compatible version = starts_with version ''0.16.''"

definition zls_compatible :: "string \<Rightarrow> bool" where
  "zls_compatible version = starts_with version ''0.16.''"

definition cargo_compatible :: "string \<Rightarrow> bool" where
  "cargo_compatible version =
     (case strip_prefix version ''cargo '' of
        None \<Rightarrow> False
      | Some rest \<Rightarrow>
          let parts = split_any ''. -'' rest; major = nth_number parts 0; minor = nth_number parts 1
          in major > 1 \<or> (major = 1 \<and> minor \<ge> 75))"

definition rust_analyzer_compatible :: "string \<Rightarrow> bool" where
  "rust_analyzer_compatible version = starts_with version ''rust-analyzer''"

definition go_compatible :: "string \<Rightarrow> bool" where
  "go_compatible version =
     (case after_marker version ''go version go1.'' of
        None \<Rightarrow> False | Some rest \<Rightarrow> leading_number rest \<ge> 22)"

text \<open>\<open>to_lowercase\<close>: no character outside ASCII lowercases to a letter of the words sought.\<close>

definition gopls_compatible :: "string \<Rightarrow> bool" where
  "gopls_compatible version = contains (map to_ascii_lower version) ''gopls''"

definition node_compatible :: "string \<Rightarrow> bool" where
  "node_compatible version =
     (case strip_prefix version ''v'' of
        None \<Rightarrow> False
      | Some rest \<Rightarrow>
          let parts = split_on (CHR ''.'') rest; major = nth_number parts 0; minor = nth_number parts 1
          in major \<ge> 23 \<or> (major = 22 \<and> minor \<ge> 18))"

definition any_digit :: "string \<Rightarrow> bool" where
  "any_digit version = list_ex ascii_digit version"

definition python_compatible :: "string \<Rightarrow> bool" where
  "python_compatible version =
     (case after_marker version ''Python 3.'' of
        None \<Rightarrow> False | Some rest \<Rightarrow> leading_number rest \<ge> 9)"

definition clang_compatible :: "string \<Rightarrow> bool" where
  "clang_compatible version =
     (case after_marker version ''clang version '' of
        None \<Rightarrow> False | Some rest \<Rightarrow> leading_number rest \<ge> 15)"

definition clangd_compatible :: "string \<Rightarrow> bool" where
  "clangd_compatible version = contains (map to_ascii_lower version) ''clangd''"

section \<open>The registry\<close>

record tool_check =
  ck_command :: string
  ck_args :: "string list"
  ck_compatible :: "string \<Rightarrow> bool"
  ck_expected :: string

record language_pack =
  lp_id :: language
  lp_extensions :: "string list"
  lp_entry_file :: string
  lp_default_source :: string
  lp_extra_files :: "(string \<times> string) list"
  lp_scaffold_always :: bool
  lp_run :: tool_check
  lp_lsp :: "tool_check option"
  lp_lsp_command :: "string option"
  lp_instrumenter :: string
  lp_lsp_args :: "string \<Rightarrow> string list"
  lp_has_deps :: bool

definition no_args :: "string \<Rightarrow> string list" where
  "no_args root = []"

definition stdio_args :: "string \<Rightarrow> string list" where
  "stdio_args root = [''--stdio'']"

definition zls_config_args :: "string \<Rightarrow> string list" where
  "zls_config_args root = [''--config-path'', root @ ''/zls.json'']"

definition zig_pack :: language_pack where
  "zig_pack = \<lparr>lp_id = Zig, lp_extensions = [''.zig''], lp_entry_file = ''main.zig'',
     lp_default_source = DEFAULT_ZIG_SOURCE, lp_extra_files = [], lp_scaffold_always = True,
     lp_run = \<lparr>ck_command = ''zig'', ck_args = [''version''], ck_compatible = zig_compatible,
       ck_expected = ''Zig 0.16.x''\<rparr>,
     lp_lsp = Some \<lparr>ck_command = ''zls'', ck_args = [''--version''], ck_compatible = zls_compatible,
       ck_expected = ''ZLS 0.16.x''\<rparr>,
     lp_lsp_command = Some ''zls'', lp_instrumenter = ''zig-out/bin/runzig-instrument'',
     lp_lsp_args = zls_config_args, lp_has_deps = True\<rparr>"

definition rust_pack :: language_pack where
  "rust_pack = \<lparr>lp_id = Rust, lp_extensions = [''.rs''], lp_entry_file = ''main.rs'',
     lp_default_source = DEFAULT_RUST_SOURCE, lp_extra_files = [], lp_scaffold_always = False,
     lp_run = \<lparr>ck_command = ''cargo'', ck_args = [''--version''], ck_compatible = cargo_compatible,
       ck_expected = ''Rust 1.75+''\<rparr>,
     lp_lsp = Some \<lparr>ck_command = ''rust-analyzer'', ck_args = [''--version''],
       ck_compatible = rust_analyzer_compatible, ck_expected = ''rust-analyzer''\<rparr>,
     lp_lsp_command = Some ''rust-analyzer'',
     lp_instrumenter = ''rust/instrumenter/target/release/rustlive-instrument'',
     lp_lsp_args = no_args, lp_has_deps = True\<rparr>"

definition go_pack :: language_pack where
  "go_pack = \<lparr>lp_id = Go, lp_extensions = [''.go''], lp_entry_file = ''main.go'',
     lp_default_source = DEFAULT_GO_SOURCE, lp_extra_files = [(''main_test.go'', DEFAULT_GO_TEST_SOURCE)],
     lp_scaffold_always = False,
     lp_run = \<lparr>ck_command = ''go'', ck_args = [''version''], ck_compatible = go_compatible,
       ck_expected = ''Go 1.22+''\<rparr>,
     lp_lsp = Some \<lparr>ck_command = ''gopls'', ck_args = [''version''], ck_compatible = gopls_compatible,
       ck_expected = ''gopls''\<rparr>,
     lp_lsp_command = Some ''gopls'', lp_instrumenter = ''go/instrumenter/bin/golive-instrument'',
     lp_lsp_args = no_args, lp_has_deps = True\<rparr>"

definition ts_pack :: language_pack where
  "ts_pack = \<lparr>lp_id = Ts, lp_extensions = [''.ts'', ''.js'', ''.mjs''], lp_entry_file = ''main.ts'',
     lp_default_source = DEFAULT_TS_SOURCE, lp_extra_files = [(''main.test.ts'', DEFAULT_TS_TEST_SOURCE)],
     lp_scaffold_always = False,
     lp_run = \<lparr>ck_command = ''node'', ck_args = [''--version''], ck_compatible = node_compatible,
       ck_expected = ''Node 22.18+ (type stripping)''\<rparr>,
     lp_lsp = Some \<lparr>ck_command = ''typescript-language-server'', ck_args = [''--version''],
       ck_compatible = any_digit, ck_expected = ''typescript-language-server''\<rparr>,
     lp_lsp_command = Some ''typescript-language-server'',
     lp_instrumenter = ''ts/instrumenter/instrument.mjs'',
     lp_lsp_args = stdio_args, lp_has_deps = True\<rparr>"

definition py_pack :: language_pack where
  "py_pack = \<lparr>lp_id = Py, lp_extensions = [''.py''], lp_entry_file = ''main.py'',
     lp_default_source = DEFAULT_PY_SOURCE, lp_extra_files = [(''main_test.py'', DEFAULT_PY_TEST_SOURCE)],
     lp_scaffold_always = False,
     lp_run = \<lparr>ck_command = ''python3'', ck_args = [''--version''], ck_compatible = python_compatible,
       ck_expected = ''Python 3.9+''\<rparr>,
     lp_lsp = Some \<lparr>ck_command = ''pyright'', ck_args = [''--version''],
       ck_compatible = any_digit, ck_expected = ''pyright''\<rparr>,
     lp_lsp_command = Some ''pyright-langserver'',
     lp_instrumenter = ''python/instrumenter/pylive_instrument.py'',
     lp_lsp_args = stdio_args, lp_has_deps = True\<rparr>"

definition c_pack :: language_pack where
  "c_pack = \<lparr>lp_id = C, lp_extensions = [''.c''], lp_entry_file = ''main.c'',
     lp_default_source = DEFAULT_C_SOURCE, lp_extra_files = [(''main_test.c'', DEFAULT_C_TEST_SOURCE)],
     lp_scaffold_always = False,
     lp_run = \<lparr>ck_command = ''clang'', ck_args = [''--version''], ck_compatible = clang_compatible,
       ck_expected = ''clang 15+''\<rparr>,
     lp_lsp = Some \<lparr>ck_command = ''clangd'', ck_args = [''--version''],
       ck_compatible = clangd_compatible, ck_expected = ''clangd''\<rparr>,
     lp_lsp_command = Some ''clangd'', lp_instrumenter = ''cfamily/instrumenter/clive-instrument.mjs'',
     lp_lsp_args = no_args, lp_has_deps = False\<rparr>"

definition cpp_pack :: language_pack where
  "cpp_pack = \<lparr>lp_id = Cpp, lp_extensions = [''.cpp'', ''.cc''], lp_entry_file = ''main.cpp'',
     lp_default_source = DEFAULT_CPP_SOURCE,
     lp_extra_files = [(''main_test.cpp'', DEFAULT_CPP_TEST_SOURCE)],
     lp_scaffold_always = False,
     lp_run = \<lparr>ck_command = ''clang++'', ck_args = [''--version''], ck_compatible = clang_compatible,
       ck_expected = ''clang++ 15+''\<rparr>,
     lp_lsp = Some \<lparr>ck_command = ''clangd'', ck_args = [''--version''],
       ck_compatible = clangd_compatible, ck_expected = ''clangd''\<rparr>,
     lp_lsp_command = Some ''clangd'', lp_instrumenter = ''cfamily/instrumenter/clive-instrument.mjs'',
     lp_lsp_args = no_args, lp_has_deps = False\<rparr>"

definition PACKS :: "language_pack list" where
  "PACKS = [zig_pack, rust_pack, go_pack, ts_pack, py_pack, c_pack, cpp_pack]"

lemmas pack_defs = zig_pack_def rust_pack_def go_pack_def ts_pack_def py_pack_def c_pack_def cpp_pack_def

definition pack :: "language \<Rightarrow> language_pack" where
  "pack language = the (find (\<lambda>p. lp_id p = language) PACKS)"

definition pack_for_path :: "string \<Rightarrow> language_pack option" where
  "pack_for_path p = find (\<lambda>pk. list_ex (\<lambda>ext. ends_with p ext) (lp_extensions pk)) PACKS"

definition entry_file :: "language \<Rightarrow> string" where
  "entry_file language = lp_entry_file (pack language)"

definition instrumenter_path :: "path \<Rightarrow> language \<Rightarrow> path" where
  "instrumenter_path project_root language = path_join project_root (lp_instrumenter (pack language))"

definition lsp_args :: "language \<Rightarrow> string \<Rightarrow> string list" where
  "lsp_args language root = lp_lsp_args (pack language) root"

lemma pack_id [simp]: "lp_id (pack language) = language"
  by (cases language) (simp_all add: pack_def PACKS_def pack_defs)

lemma pack_ids [simp]:
  "lp_id zig_pack = Zig" "lp_id rust_pack = Rust" "lp_id go_pack = Go" "lp_id ts_pack = Ts"
  "lp_id py_pack = Py" "lp_id c_pack = C" "lp_id cpp_pack = Cpp"
  by (simp_all add: pack_defs)

lemma pack_simps:
  "pack Zig = zig_pack" "pack Rust = rust_pack" "pack Go = go_pack" "pack Ts = ts_pack"
  "pack Py = py_pack" "pack C = c_pack" "pack Cpp = cpp_pack"
  by (simp_all add: pack_def PACKS_def)

lemma PACKS_pack: "pk \<in> set PACKS \<Longrightarrow> pack (lp_id pk) = pk"
proof -
  have "list_all (\<lambda>pk. pack (lp_id pk) = pk) PACKS" by (simp add: PACKS_def pack_simps)
  then show "pk \<in> set PACKS \<Longrightarrow> pack (lp_id pk) = pk" by (simp add: list_all_iff)
qed

lemma pack_in_PACKS: "pack language \<in> set PACKS"
  by (cases language) (simp_all add: pack_def PACKS_def pack_defs)

lemma entry_file_simps [simp]:
  "entry_file Zig = ''main.zig''" "entry_file Rust = ''main.rs''" "entry_file Go = ''main.go''"
  "entry_file Ts = ''main.ts''" "entry_file Py = ''main.py''" "entry_file C = ''main.c''"
  "entry_file Cpp = ''main.cpp''"
  by (simp_all add: entry_file_def pack_def PACKS_def pack_defs)

lemma PACKS_distinct: "distinct (map lp_id PACKS)"
  by (simp add: PACKS_def pack_defs)

section \<open>The scaffold of a session root\<close>

text \<open>\<open>Copy\<close> overwrites, \<open>CopyOnce\<close> leaves an existing file alone; a source is
  relative to the project root, a destination to the session root.\<close>

datatype scaffold_action = Copy string string | CopyOnce string string | WriteText string string

definition test_root_text :: string where
  "test_root_text = ''comptime {}'' @ newline"

text \<open>\<open>tsconfig\<close> is the JSON text serde renders for the project's type roots.\<close>

fun scaffold_plan :: "string \<Rightarrow> language \<Rightarrow> scaffold_action list" where
  "scaffold_plan tsconfig Zig =
     [Copy ''zig/session-template/build.zig'' ''build.zig'',
      CopyOnce ''zig/session-template/build.zig.zon'' ''build.zig.zon'',
      Copy ''zig/session-template/zls.json'' ''zls.json'',
      Copy ''zig/runtime/runzig_runtime.zig'' ''generated/runzig_runtime.zig'',
      Copy ''zig/test-runner/runzig_test_runner.zig'' ''runzig_test_runner.zig'',
      WriteText test_root_text ''test_root.zig'']"
| "scaffold_plan tsconfig Rust =
     [CopyOnce ''rust/session-template/Cargo.toml'' ''Cargo.toml'',
      Copy ''rust/runtime/atomis_runtime.rs'' ''generated/atomis_runtime.rs'']"
| "scaffold_plan tsconfig Go =
     [CopyOnce ''go/session-template/go.mod'' ''go.mod'',
      Copy ''go/runtime/atomis_runtime.go'' ''generated/atomis_runtime.go'']"
| "scaffold_plan tsconfig Ts =
     [CopyOnce ''ts/session-template/package.json'' ''package.json'',
      Copy ''ts/runtime/atomis_runtime.mjs'' ''generated/__atomis_runtime.mjs'',
      WriteText tsconfig ''tsconfig.json'']"
| "scaffold_plan tsconfig Py =
     [Copy ''python/runtime/sitecustomize.py'' ''generated/sitecustomize.py'',
      CopyOnce ''python/session-template/pyproject.toml'' ''pyproject.toml'']"
| "scaffold_plan tsconfig C =
     [Copy ''cfamily/runtime/atomis_runtime.h'' ''generated/atomis_runtime.h'']"
| "scaffold_plan tsconfig Cpp =
     [Copy ''cfamily/runtime/atomis_runtime.hpp'' ''generated/atomis_runtime.hpp'']"

type_synonym files = "string \<Rightarrow> string option"

text \<open>One action on the files of the root; \<open>None\<close> is the I/O error of a missing template.\<close>

fun scaffold_step :: "files \<Rightarrow> scaffold_action \<Rightarrow> files \<Rightarrow> files option" where
  "scaffold_step templates (Copy from to) root =
     map_option (\<lambda>text. root(to \<mapsto> text)) (templates from)"
| "scaffold_step templates (CopyOnce from to) root =
     (if root to \<noteq> None then Some root else map_option (\<lambda>text. root(to \<mapsto> text)) (templates from))"
| "scaffold_step templates (WriteText text to) root = Some (root(to \<mapsto> text))"

fun scaffold_run :: "files \<Rightarrow> scaffold_action list \<Rightarrow> files \<Rightarrow> files option" where
  "scaffold_run templates [] root = Some root"
| "scaffold_run templates (a # as) root =
     Option.bind (scaffold_step templates a root) (scaffold_run templates as)"

definition scaffold :: "files \<Rightarrow> string \<Rightarrow> language \<Rightarrow> files \<Rightarrow> files option" where
  "scaffold templates tsconfig language = scaffold_run templates (scaffold_plan tsconfig language)"

definition manifests :: "string list" where
  "manifests = [''build.zig.zon'', ''Cargo.toml'', ''go.mod'', ''package.json'', ''pyproject.toml'']"

fun overwrites :: "scaffold_action \<Rightarrow> string \<Rightarrow> bool" where
  "overwrites (Copy _ to) p = (to = p)"
| "overwrites (CopyOnce _ _) p = False"
| "overwrites (WriteText _ to) p = (to = p)"

lemma scaffold_step_keeps:
  "scaffold_step templates a root = Some root' \<Longrightarrow> \<not> overwrites a p \<Longrightarrow> root p = Some text
   \<Longrightarrow> root' p = Some text"
  by (cases a) (auto split: if_splits)

lemma scaffold_run_keeps:
  "scaffold_run templates as root = Some root' \<Longrightarrow> list_all (\<lambda>a. \<not> overwrites a p) as
   \<Longrightarrow> root p = Some text \<Longrightarrow> root' p = Some text"
proof (induction as arbitrary: root)
  case (Cons a as)
  from Cons.prems(1) obtain r where r: "scaffold_step templates a root = Some r"
    "scaffold_run templates as r = Some root'"
    by (auto simp: bind_eq_Some_conv)
  then show ?case
    using Cons.IH [OF r(2)] Cons.prems scaffold_step_keeps [OF r(1)] by simp
qed simp

lemma plan_spares_manifests:
  "p \<in> set manifests \<Longrightarrow> list_all (\<lambda>a. \<not> overwrites a p) (scaffold_plan tsconfig language)"
  by (cases language) (auto simp: manifests_def)

lemma plan_spares_sources:
  "starts_with p ''src/'' \<Longrightarrow> list_all (\<lambda>a. \<not> overwrites a p) (scaffold_plan tsconfig language)"
  by (cases language) (auto simp: starts_with_def)

section \<open>Properties\<close>

text \<open>Attaching to a workspace never loses what the user keeps there: the
  scaffold of any language leaves an existing manifest (where the dependencies
  are) and every file under src/ as they were.\<close>
theorem scaffold_keeps_user_files:
  assumes "scaffold templates tsconfig language root = Some root'"
    and "p \<in> set manifests \<or> starts_with p ''src/''" and "root p = Some text"
  shows "root' p = Some text"
proof (rule scaffold_run_keeps)
  show "scaffold_run templates (scaffold_plan tsconfig language) root = Some root'"
    using assms(1) by (simp add: scaffold_def)
  show "list_all (\<lambda>a. \<not> overwrites a p) (scaffold_plan tsconfig language)"
    using assms(2) plan_spares_manifests plan_spares_sources by blast
qed (rule assms(3))

lemma scaffold_keeps_user_files_witness:
  "the (scaffold (\<lambda>_. Some ''template'') [] Rust [''Cargo.toml'' \<mapsto> ''mine'']) ''Cargo.toml'' = Some ''mine''"
proof (rule scaffold_keeps_user_files [where p = "''Cargo.toml''"
      and root' = "the (scaffold (\<lambda>_. Some ''template'') [] Rust [''Cargo.toml'' \<mapsto> ''mine''])"])
  show "scaffold (\<lambda>_. Some ''template'') [] Rust [''Cargo.toml'' \<mapsto> ''mine''] =
      Some (the (scaffold (\<lambda>_. Some ''template'') [] Rust [''Cargo.toml'' \<mapsto> ''mine'']))"
    by (simp add: scaffold_def option.collapse)
qed (simp_all add: manifests_def)

end
