(* ===== verification/Workspace.thy ===== *)
theory Workspace
  imports Packs
begin

text \<open>
  src/apps/server-rs/src/domain/workspace.rs: persistent workspaces, their
  \<open>atomis.json\<close>, and the walk that reads a source tree into a snapshot.
  The registry maps the name of a directory under the workspaces root to its
  top-level files; \<open>parse\<close> and \<open>render\<close> are serde's reading and writing of
  \<open>WorkspaceMeta\<close>.  \<open>touch\<close> and \<open>rename\<close> hold META_LOCK throughout, so each is
  one step.
\<close>

section \<open>Names and places\<close>

definition META_FILE :: string where "META_FILE = ''atomis.json''"

definition MAX_NAME_CHARS :: nat where "MAX_NAME_CHARS = 64"

definition data_root :: "string option \<Rightarrow> string option \<Rightarrow> path \<Rightarrow> path" where
  "data_root xdg home temp_dir =
     path_join (case xdg of Some x \<Rightarrow> path_of x
       | None \<Rightarrow> (case home of Some h \<Rightarrow> path_join (path_of h) ''.local/share'' | None \<Rightarrow> temp_dir))
     ''atomis''"

definition workspaces_root :: "string option \<Rightarrow> string option \<Rightarrow> string option \<Rightarrow> path \<Rightarrow> path" where
  "workspaces_root explicit xdg home temp_dir =
     (case explicit of Some e \<Rightarrow> path_of e
      | None \<Rightarrow> path_join (data_root xdg home temp_dir) ''workspaces'')"

definition valid_id :: "string \<Rightarrow> bool" where
  "valid_id wid \<longleftrightarrow> length wid = 32
     \<and> list_all (\<lambda>c. ascii_digit c \<or> (byte (CHR ''a'') \<le> byte c \<and> byte c \<le> byte (CHR ''f''))) wid"

definition sanitize_name :: "string \<Rightarrow> string option" where
  "sanitize_name raw =
     (let kept = concat (filter (\<lambda>c. \<not> is_control_code (char_code c)) (str_chars raw));
          name = concat (take MAX_NAME_CHARS (str_chars (trim kept)))
      in if name = [] then None else Some name)"

definition workspace_dir :: "path \<Rightarrow> string \<Rightarrow> path option" where
  "workspace_dir root wid = (if valid_id wid then Some (path_join root wid) else None)"

section \<open>Metadata\<close>

definition read_meta :: "(string \<Rightarrow> workspace_meta option) \<Rightarrow> files \<Rightarrow> workspace_meta option" where
  "read_meta parse dir = Option.bind (dir META_FILE) parse"

text \<open>The errors the two system calls of a write-then-rename give, if any.\<close>

record io_faults =
  io_write :: "string option"
  io_rename :: "string option"

definition temporary_meta :: string where
  "temporary_meta = META_FILE @ ''.tmp''"

definition write_meta :: "io_faults \<Rightarrow> (workspace_meta \<Rightarrow> string) \<Rightarrow> workspace_meta \<Rightarrow> files \<Rightarrow> unit res \<times> files" where
  "write_meta io render meta dir =
     (case io_write io of
        Some e \<Rightarrow> (Inl e, dir)
      | None \<Rightarrow>
          let dir1 = dir(temporary_meta \<mapsto> render meta)
          in case io_rename io of
               Some e \<Rightarrow> (Inl e, dir1)
             | None \<Rightarrow> (Inr (), dir1(META_FILE \<mapsto> render meta, temporary_meta := None)))"

type_synonym registry = "string \<Rightarrow> files option"

definition meta_of :: "(string \<Rightarrow> workspace_meta option) \<Rightarrow> registry \<Rightarrow> string \<Rightarrow> workspace_meta option" where
  "meta_of parse reg wid = Option.bind (reg wid) (read_meta parse)"

text \<open>\<open>entries\<close> is the order \<open>read_dir\<close> gives; the sort is stable.\<close>

definition list_workspaces :: "(string \<Rightarrow> workspace_meta option) \<Rightarrow> registry \<Rightarrow> string list \<Rightarrow> workspace_meta list" where
  "list_workspaces parse reg entries =
     sort_key (\<lambda>meta. - int (wm_updated_at meta)) (List.map_filter (meta_of parse reg) entries)"

definition touch ::
  "(string \<Rightarrow> workspace_meta option) \<Rightarrow> (workspace_meta \<Rightarrow> string) \<Rightarrow> io_faults \<Rightarrow> nat \<Rightarrow> string
   \<Rightarrow> registry \<Rightarrow> registry" where
  "touch parse render io now wid reg =
     (if \<not> valid_id wid then reg
      else (case reg wid of
        None \<Rightarrow> reg
      | Some dir \<Rightarrow> (case read_meta parse dir of
          None \<Rightarrow> reg
        | Some meta \<Rightarrow> reg(wid \<mapsto> snd (write_meta io render (meta\<lparr>wm_updated_at := now\<rparr>) dir)))))"

definition rename ::
  "(string \<Rightarrow> workspace_meta option) \<Rightarrow> (workspace_meta \<Rightarrow> string) \<Rightarrow> io_faults \<Rightarrow> nat \<Rightarrow> string \<Rightarrow> string
   \<Rightarrow> registry \<Rightarrow> workspace_meta res \<times> registry" where
  "rename parse render io now wid raw reg =
     (if \<not> valid_id wid then (Inl ''Invalid workspace wid'', reg)
      else (case sanitize_name raw of
        None \<Rightarrow> (Inl ''A workspace needs a name'', reg)
      | Some name \<Rightarrow> (case reg wid of
          None \<Rightarrow> (Inl ''Unknown workspace'', reg)
        | Some dir \<Rightarrow> (case read_meta parse dir of
            None \<Rightarrow> (Inl ''Unknown workspace'', reg)
          | Some meta0 \<Rightarrow>
              let meta = meta0\<lparr>wm_name := name, wm_updated_at := now\<rparr>;
                  (r, dir1) = write_meta io render meta dir
              in (and_then r (\<lambda>_. Inr meta), reg(wid \<mapsto> dir1))))))"

text \<open>\<open>fault\<close> is the error of \<open>remove_dir_all\<close>, which then may have removed a part.\<close>

definition delete ::
  "(string \<Rightarrow> workspace_meta option) \<Rightarrow> (string \<times> files) option \<Rightarrow> string \<Rightarrow> registry \<Rightarrow> unit res \<times> registry" where
  "delete parse fault wid reg =
     (if \<not> valid_id wid then (Inl ''Invalid workspace wid'', reg)
      else if meta_of parse reg wid = None then (Inl ''Unknown workspace'', reg)
      else (case fault of
              Some (e, rest) \<Rightarrow> (Inl e, reg(wid \<mapsto> rest))
            | None \<Rightarrow> (Inr (), reg(wid := None))))"

section \<open>Reading a source tree\<close>

text \<open>What \<open>read_dir\<close> and \<open>file_type\<close> show.  The bytes of a file are \<open>None\<close> when it
  cannot be read, the entries of a directory when it cannot be opened.\<close>

datatype node = FileNode "string option" | DirNode "(string \<times> node) list option" | LinkNode | UnknownNode

definition child_path :: "string \<Rightarrow> string \<Rightarrow> string" where
  "child_path dir name = (if dir = [] then name else dir @ ''/'' @ name)"

record scan =
  sc_found :: "(string \<times> string) list"
  sc_total :: nat
  sc_pending :: "(string \<times> node) list"

definition scan_file :: "string \<Rightarrow> string option \<Rightarrow> scan \<Rightarrow> scan" where
  "scan_file relative content st =
     (if length (sc_found st) \<ge> max_project_files then st
      else if \<not> valid_utf8 relative then st
      else (case content of
              None \<Rightarrow> st
            | Some source \<Rightarrow>
                if \<not> valid_utf8 source then st
                else if sc_total st + length source > max_project_bytes then st
                else st\<lparr>sc_total := sc_total st + length source,
                        sc_found := sc_found st @ [(relative, source)]\<rparr>))"

text \<open>The stack of directories has its top first.\<close>

definition scan_entry :: "string \<Rightarrow> string \<times> node \<Rightarrow> scan \<Rightarrow> scan" where
  "scan_entry dir entry st =
     (case snd entry of
        UnknownNode \<Rightarrow> st
      | LinkNode \<Rightarrow> st
      | DirNode es \<Rightarrow> st\<lparr>sc_pending := (child_path dir (fst entry), DirNode es) # sc_pending st\<rparr>
      | FileNode content \<Rightarrow> scan_file (child_path dir (fst entry)) content st)"

fun dir_entries :: "node \<Rightarrow> (string \<times> node) list" where
  "dir_entries (DirNode (Some es)) = es"
| "dir_entries _ = []"

fun weight :: "node \<Rightarrow> nat" where
  "weight (DirNode (Some es)) = Suc (\<Sum>e\<leftarrow>es. weight (snd e))"
| "weight _ = 1"

definition pending_weight :: "scan \<Rightarrow> nat" where
  "pending_weight st = (\<Sum>p\<leftarrow>sc_pending st. weight (snd p))"

lemma scan_file_pending [simp]: "sc_pending (scan_file relative content st) = sc_pending st"
  by (simp add: scan_file_def split: option.splits)

lemma scan_entry_weight:
  "pending_weight (scan_entry dir e st) \<le> pending_weight st + weight (snd e)"
  by (simp add: scan_entry_def pending_weight_def split: node.splits)

lemma fold_scan_entry_weight:
  "pending_weight (fold (scan_entry dir) es st) \<le> pending_weight st + (\<Sum>e\<leftarrow>es. weight (snd e))"
proof (induction es arbitrary: st)
  case (Cons e es)
  show ?case using Cons [of "scan_entry dir e st"] scan_entry_weight [of dir e st] by simp
qed simp

lemma dir_entries_weight: "(\<Sum>e\<leftarrow>dir_entries n. weight (snd e)) < weight n"
  by (cases n rule: dir_entries.cases) auto

function scan_tree :: "scan \<Rightarrow> scan" where
  "scan_tree st =
     (case sc_pending st of
        [] \<Rightarrow> st
      | (dir, n) # rest \<Rightarrow> scan_tree (fold (scan_entry dir) (dir_entries n) (st\<lparr>sc_pending := rest\<rparr>)))"
  by pat_completeness auto
termination
proof (relation "measure pending_weight")
  fix st :: scan and p rest dir n
  assume st: "sc_pending st = p # rest" "(dir, n) = p"
  have "pending_weight (fold (scan_entry dir) (dir_entries n) (st\<lparr>sc_pending := rest\<rparr>))
      \<le> pending_weight (st\<lparr>sc_pending := rest\<rparr>) + (\<Sum>e\<leftarrow>dir_entries n. weight (snd e))"
    by (rule fold_scan_entry_weight)
  also have "\<dots> < pending_weight (st\<lparr>sc_pending := rest\<rparr>) + weight n"
    using dir_entries_weight by simp
  also have "\<dots> = pending_weight st"
    using st by (auto simp: pending_weight_def)
  finally show "(fold (scan_entry dir) (dir_entries n) (st\<lparr>sc_pending := rest\<rparr>), st) \<in> measure pending_weight"
    by simp
qed simp

declare scan_tree.simps [simp del]

definition read_sources :: "node \<Rightarrow> (string \<times> string) list" where
  "read_sources source_root =
     sort_by (\<lambda>l r. locale_compare (fst l) (fst r))
       (sc_found (scan_tree \<lparr>sc_found = [], sc_total = 0, sc_pending = [([], source_root)]\<rparr>))"

text \<open>What is really under a directory, symbolic links not followed.\<close>

inductive reaches :: "node \<Rightarrow> string \<Rightarrow> node \<Rightarrow> bool" for root where
  reaches_root: "reaches root [] root"
| reaches_child: "reaches root dir (DirNode (Some es)) \<Longrightarrow> (name, n) \<in> set es
    \<Longrightarrow> reaches root (child_path dir name) n"

inductive_cases reaches_fileE: "reaches root p (FileNode c)"

definition scan_ok :: "node \<Rightarrow> scan \<Rightarrow> bool" where
  "scan_ok root st \<longleftrightarrow>
     (\<forall>(p, src)\<in>set (sc_found st). valid_utf8 p \<and> valid_utf8 src \<and> reaches root p (FileNode (Some src)))
     \<and> (\<forall>(p, n)\<in>set (sc_pending st). reaches root p n)
     \<and> length (sc_found st) \<le> max_project_files
     \<and> sc_total st = (\<Sum>f\<leftarrow>sc_found st. length (snd f))
     \<and> sc_total st \<le> max_project_bytes"

lemma scan_file_ok:
  "scan_ok root st \<Longrightarrow> reaches root relative (FileNode content) \<Longrightarrow> scan_ok root (scan_file relative content st)"
  by (auto simp: scan_ok_def scan_file_def split: option.splits)

lemma scan_entry_ok:
  "scan_ok root st \<Longrightarrow> reaches root (child_path dir (fst e)) (snd e) \<Longrightarrow> scan_ok root (scan_entry dir e st)"
  by (auto simp: scan_entry_def scan_file_ok split: node.splits) (simp add: scan_ok_def)

lemma fold_scan_entry_ok:
  "scan_ok root st \<Longrightarrow> \<forall>e\<in>set es. reaches root (child_path dir (fst e)) (snd e)
   \<Longrightarrow> scan_ok root (fold (scan_entry dir) es st)"
  by (induction es arbitrary: st) (auto simp: scan_entry_ok)

lemma dir_entries_reach:
  "reaches root dir n \<Longrightarrow> e \<in> set (dir_entries n) \<Longrightarrow> reaches root (child_path dir (fst e)) (snd e)"
  by (cases n rule: dir_entries.cases) (auto intro: reaches_child)

lemma scan_tree_ok: "scan_ok root st \<Longrightarrow> scan_ok root (scan_tree st)"
proof (induction st rule: scan_tree.induct)
  case (1 st)
  show ?case
  proof (cases "sc_pending st")
    case Nil
    with 1(2) show ?thesis by (simp add: scan_tree.simps)
  next
    case (Cons p rest)
    obtain dir n where p: "p = (dir, n)" by fastforce
    have "scan_ok root (fold (scan_entry dir) (dir_entries n) (st\<lparr>sc_pending := rest\<rparr>))"
      using 1(2) Cons p dir_entries_reach [of root dir n]
      by (intro fold_scan_entry_ok) (auto simp: scan_ok_def)
    with 1(1) [OF Cons p [symmetric]] show ?thesis
      by (subst scan_tree.simps) (simp add: Cons p)
  qed
qed

section \<open>Names\<close>

definition chunk_ok :: "string \<Rightarrow> bool" where
  "chunk_ok ch \<longleftrightarrow> ch \<noteq> [] \<and> length ch = utf8_width (hd ch)"

lemma str_chars_concat: "list_all chunk_ok cs \<Longrightarrow> str_chars (concat cs) = cs"
proof (induction cs)
  case (Cons c cs)
  then obtain x xs where c: "c = x # xs" by (cases c) (auto simp: chunk_ok_def)
  with Cons have w: "utf8_width x = length (x # xs)" and rest: "str_chars (concat cs) = cs"
    by (simp_all add: chunk_ok_def)
  have "str_chars (concat (c # cs)) = str_chars (x # xs @ concat cs)" by (simp add: c)
  also have "\<dots> = take (length (x # xs)) ((x # xs) @ concat cs)
      # str_chars (drop (length (x # xs)) ((x # xs) @ concat cs))"
    by (simp only: str_chars.simps w append_Cons)
  also have "\<dots> = c # cs" by (simp add: rest c)
  finally show ?case .
qed simp

lemma scalar_chunk: "scalar ch \<Longrightarrow> chunk_ok ch"
proof -
  assume s: "scalar ch"
  then obtain a r where ch: "ch = a # r"
    by (cases ch) (auto simp: scalar_def)
  with s utf8_width_Whole [of a r "length ch"] show "chunk_ok ch"
    by (simp add: chunk_ok_def scalar_def)
qed

lemma valid_chunks: "valid_utf8 s \<Longrightarrow> list_all chunk_ok (str_chars s)"
  using str_chars_scalar [of s] scalar_chunk by (simp add: list_all_iff)

lemma list_all_dropWhile: "list_all P xs \<Longrightarrow> list_all P (dropWhile Q xs)"
  by (induction xs) auto

lemma trim_chars:
  assumes "list_all chunk_ok cs"
  shows "str_chars (trim (concat cs)) = rev (dropWhile is_ws (rev (dropWhile is_ws cs)))"
  using assms
  by (simp add: trim_def trim_start_def trim_end_def str_chars_concat list_all_dropWhile)

lemma sanitize_name_chars:
  assumes "valid_utf8 raw" and "sanitize_name raw = Some name"
  shows "set (str_chars name) \<subseteq> {c \<in> set (str_chars raw). \<not> is_control_code (char_code c)}
    \<and> length (str_chars name) \<le> MAX_NAME_CHARS \<and> \<not> is_ws (hd (str_chars name))"
proof -
  define kept where "kept = filter (\<lambda>c. \<not> is_control_code (char_code c)) (str_chars raw)"
  define trimmed where "trimmed = rev (dropWhile is_ws (rev (dropWhile is_ws kept)))"
  have kept_ok: "list_all chunk_ok kept"
    using valid_chunks [OF assms(1)] by (auto simp: kept_def list_all_iff)
  then have trimmed_ok: "list_all chunk_ok trimmed"
    by (simp add: trimmed_def list_all_dropWhile)
  have sub: "set trimmed \<subseteq> set kept"
    unfolding trimmed_def by (metis set_dropWhileD set_rev subsetI)
  have name: "name = concat (take MAX_NAME_CHARS trimmed)" "name \<noteq> []"
    using assms(2) trim_chars [OF kept_ok]
    by (auto simp: sanitize_name_def Let_def kept_def trimmed_def split: if_splits)
  have taken: "list_all chunk_ok (take MAX_NAME_CHARS trimmed)"
    using trimmed_ok by (simp add: list_all_iff) (meson in_set_takeD)
  then have chars: "str_chars name = take MAX_NAME_CHARS trimmed"
    using name(1) by (simp add: str_chars_concat)
  have ne: "trimmed \<noteq> []" using name by auto
  have "hd trimmed = hd (dropWhile is_ws kept)"
  proof -
    have "trimmed @ rev (takeWhile is_ws (rev (dropWhile is_ws kept))) = dropWhile is_ws kept"
      unfolding trimmed_def by (metis rev_append rev_rev_ident takeWhile_dropWhile_id)
    with ne show ?thesis by (metis hd_append2)
  qed
  moreover have "dropWhile is_ws kept \<noteq> []" using ne unfolding trimmed_def
    by (metis dropWhile.simps(1) rev.simps(1))
  ultimately have "\<not> is_ws (hd trimmed)" using hd_dropWhile by metis
  moreover have "hd (take MAX_NAME_CHARS trimmed) = hd trimmed"
    using ne by (simp add: MAX_NAME_CHARS_def hd_take)
  moreover have "set (take MAX_NAME_CHARS trimmed) \<subseteq> set kept"
    using sub set_take_subset by (rule order_trans [rotated])
  ultimately show ?thesis by (auto simp: chars kept_def)
qed

section \<open>A rename is never undone\<close>

datatype ws_op = OpTouch io_faults nat string | OpRename io_faults nat string string

fun ws_step :: "(string \<Rightarrow> workspace_meta option) \<Rightarrow> (workspace_meta \<Rightarrow> string) \<Rightarrow> ws_op \<Rightarrow> registry \<Rightarrow> registry" where
  "ws_step parse render (OpTouch io now w) reg = touch parse render io now w reg"
| "ws_step parse render (OpRename io now w raw) reg = snd (rename parse render io now w raw reg)"

text \<open>The name a workspace should have: the one of the last rename that was stored.\<close>

fun expected_name :: "string \<Rightarrow> ws_op \<Rightarrow> string \<Rightarrow> string" where
  "expected_name w (OpTouch io now v) name = name"
| "expected_name w (OpRename io now v raw) name =
     (if v = w \<and> valid_id w \<and> io_write io = None \<and> io_rename io = None
      then (case sanitize_name raw of None \<Rightarrow> name | Some n \<Rightarrow> n) else name)"

lemma temporary_not_meta [simp]: "temporary_meta \<noteq> META_FILE" "META_FILE \<noteq> temporary_meta"
  by (simp_all add: temporary_meta_def)

lemma read_write_meta:
  assumes "\<And>m. parse (render m) = Some m"
  shows "read_meta parse (snd (write_meta io render meta dir)) =
    (if io_write io = None \<and> io_rename io = None then Some meta else read_meta parse dir)"
  by (auto simp: read_meta_def write_meta_def assms split: option.splits)

lemma ws_step_name:
  assumes "\<And>m. parse (render m) = Some m" and "meta_of parse reg w = Some m"
  shows "\<exists>m'. meta_of parse (ws_step parse render op reg) w = Some m'
    \<and> wm_name m' = expected_name w op (wm_name m) \<and> wm_id m' = wm_id m"
proof -
  obtain dir where dir: "reg w = Some dir" "read_meta parse dir = Some m"
    using assms(2) by (auto simp: meta_of_def bind_eq_Some_conv)
  show ?thesis
  proof (cases op)
    case (OpTouch io now v)
    with dir assms(2) show ?thesis
      by (cases "v = w")
        (auto simp: touch_def meta_of_def read_write_meta [OF assms(1)] split: option.splits)
  next
    case (OpRename io now v raw)
    show ?thesis
    proof (cases "v = w")
      case True
      with OpRename dir assms(2) show ?thesis
        by (cases "write_meta io render (m\<lparr>wm_name := the (sanitize_name raw), wm_updated_at := now\<rparr>) dir")
          (use read_write_meta [OF assms(1), of io "m\<lparr>wm_name := the (sanitize_name raw), wm_updated_at := now\<rparr>" dir]
           in \<open>auto simp: rename_def meta_of_def split: option.splits if_splits\<close>)
    next
      case False
      with OpRename assms(2) show ?thesis
        by (auto simp: rename_def meta_of_def Let_def split: option.splits prod.splits)
    qed
  qed
qed

section \<open>Properties\<close>

text \<open>A source tree read into a snapshot holds only regular, readable UTF-8 files
  that lie under the source root with no symbolic link on the way, under their
  own paths; it is sorted by path and within the store's limits of files and bytes.\<close>
theorem read_sources_sound:
  "(\<forall>f\<in>set (read_sources root). reaches root (fst f) (FileNode (Some (snd f))))
   \<and> sorted_wrt (\<lambda>f g. locale_compare (fst f) (fst g) \<noteq> Greater) (read_sources root)
   \<and> length (read_sources root) \<le> max_project_files
   \<and> (\<Sum>f\<leftarrow>read_sources root. length (snd f)) \<le> max_project_bytes"
proof -
  have "scan_ok root \<lparr>sc_found = [], sc_total = 0, sc_pending = [([], root)]\<rparr>"
    by (simp add: scan_ok_def reaches_root)
  from scan_tree_ok [OF this] show ?thesis
    by (auto simp: read_sources_def scan_ok_def sum_sort_by path_order.sort_by_sorted)
qed

lemma read_sources_sound_witness:
  "reaches (DirNode (Some [(''a.zig'', FileNode (Some ''x'')), (''l'', LinkNode)])) ''a.zig'' (FileNode (Some ''x''))"
proof -
  have "read_sources (DirNode (Some [(''a.zig'', FileNode (Some ''x'')), (''l'', LinkNode)])) = [(''a.zig'', ''x'')]"
    by (simp add: read_sources_def scan_tree.simps scan_entry_def scan_file_def child_path_def sort_by_def
        valid_utf8_Cons byte_def max_project_files_def max_project_bytes_def)
  then show ?thesis
    using read_sources_sound [of "DirNode (Some [(''a.zig'', FileNode (Some ''x'')), (''l'', LinkNode)])"]
    by simp
qed

text \<open>A workspace name that is accepted is made of the characters the user typed,
  none of them a control character, starts with a visible one and has at most 64.\<close>
theorem sanitized_name_is_clean:
  assumes "valid_utf8 raw" and "sanitize_name raw = Some name"
  shows "set (str_chars name) \<subseteq> {c \<in> set (str_chars raw). \<not> is_control_code (char_code c)}
    \<and> length (str_chars name) \<le> MAX_NAME_CHARS \<and> \<not> is_ws (hd (str_chars name))"
  by (rule sanitize_name_chars [OF assms])

lemma sanitized_name_is_clean_witness:
  "sanitize_name '' ab'' = Some ''ab'' \<and> \<not> is_ws (hd (str_chars ''ab''))"
proof -
  have v: "valid_utf8 '' ab''" by (simp add: valid_utf8_Cons byte_def)
  have "sanitize_name '' ab'' = Some ''ab''"
    by (simp add: sanitize_name_def utf8_width_def byte_def is_control_code_def trim_def trim_start_def
        trim_end_def is_ws_def is_whitespace_code_def MAX_NAME_CHARS_def)
  with sanitized_name_is_clean [OF v] show ?thesis by blast
qed


text \<open>A concrete codec, for an instance of the hypothesis.\<close>

definition enc_nat :: "nat \<Rightarrow> string" where
  "enc_nat n = replicate n (CHR ''1'') @ ''0''"

definition dec_nat :: "string \<Rightarrow> nat \<times> string" where
  "dec_nat s = (length (takeWhile (\<lambda>c. c = CHR ''1'') s), tl (dropWhile (\<lambda>c. c = CHR ''1'') s))"

definition language_index :: "language \<Rightarrow> nat" where
  "language_index l = length (takeWhile (\<lambda>x. x \<noteq> l) languages)"

definition demo_render :: "workspace_meta \<Rightarrow> string" where
  "demo_render m = enc_nat (length (wm_id m)) @ wm_id m @ enc_nat (length (wm_name m)) @ wm_name m
     @ enc_nat (language_index (wm_language m)) @ enc_nat (wm_created_at m) @ enc_nat (wm_updated_at m)"

definition demo_parse :: "string \<Rightarrow> workspace_meta option" where
  "demo_parse s =
     (let (a, s1) = dec_nat s; (b, s2) = dec_nat (drop a s1); (l, s3) = dec_nat (drop b s2);
          (c, s4) = dec_nat s3; (u, _) = dec_nat s4
      in Some \<lparr>wm_id = take a s1, wm_name = take b s2, wm_language = languages ! l,
                wm_created_at = c, wm_updated_at = u\<rparr>)"

lemma dec_enc_nat [simp]: "dec_nat (enc_nat n @ rest) = (n, rest)"
  by (induction n) (auto simp: dec_nat_def enc_nat_def)

lemma dec_enc_nat_end [simp]: "dec_nat (enc_nat n) = (n, [])"
  using dec_enc_nat [of n "[]"] by simp

lemma language_index [simp]: "languages ! language_index l = l"
  by (cases l) (simp_all add: language_index_def languages_def)

lemma demo_codec: "demo_parse (demo_render m) = Some m"
  by (simp add: demo_parse_def demo_render_def)

definition demo_meta :: workspace_meta where
  "demo_meta = \<lparr>wm_id = replicate 32 (CHR ''a''), wm_name = ''old'', wm_language = Zig,
     wm_created_at = 1, wm_updated_at = 1\<rparr>"


end
