(* ===== verification/Supervisor.thy ===== *)
theory Supervisor
  imports Sandbox
begin

text \<open>
  src/apps/server-rs/src/exec/supervisor.rs: one child process from spawn to
  result.  The \<open>tokio::select!\<close> loop is biased, so one pass takes the first
  ready branch in the order of the code: \<open>select\<close> is that choice, \<open>poll\<close> is
  what is ready when it is made (the clock included), and \<open>run_loop\<close> iterates
  it over a sequence of polls until the loop breaks.  Signals sent to the
  process group and calls of the stream callbacks are logged in the state.
\<close>

section \<open>Data\<close>

definition DESCENDANT_DRAIN_MS :: nat where "DESCENDANT_DRAIN_MS = 1500"

definition QUIET_MS :: nat where "QUIET_MS = 150"

definition read_buffer :: nat where "read_buffer = 16 * 1024"

record process_limits =
  pl_timeout_ms :: nat
  pl_stdout_bytes :: nat
  pl_stderr_bytes :: nat
  pl_probe_bytes :: nat

definition process_limits_new :: "nat \<Rightarrow> nat \<Rightarrow> nat \<Rightarrow> process_limits" where
  "process_limits_new timeout_ms stdout_bytes stderr_bytes =
     \<lparr>pl_timeout_ms = timeout_ms, pl_stdout_bytes = stdout_bytes, pl_stderr_bytes = stderr_bytes,
      pl_probe_bytes = 1024 * 1024\<rparr>"

record process_result =
  pr_stdout :: string
  pr_stderr :: string
  pr_exit_code :: "int option"
  pr_signal :: "string option"
  pr_timed_out :: bool
  pr_cancelled :: bool
  pr_limit :: "string option"

definition process_result_default :: process_result where
  "process_result_default = \<lparr>pr_stdout = [], pr_stderr = [], pr_exit_code = None, pr_signal = None,
     pr_timed_out = False, pr_cancelled = False, pr_limit = None\<rparr>"

datatype live_input = LiveData string | LiveEof

datatype child_stdin = StdinNull | StdinText string | StdinLive "live_input list"

datatype exit_status = ExitCode int | ExitSignal nat

fun status_code :: "exit_status \<Rightarrow> int option" where
  "status_code (ExitCode c) = Some c"
| "status_code (ExitSignal _) = None"

definition signal_name :: "nat \<Rightarrow> string" where
  "signal_name code =
     (case map_of [(1, ''SIGHUP''), (2, ''SIGINT''), (3, ''SIGQUIT''), (4, ''SIGILL''), (6, ''SIGABRT''),
         (8, ''SIGFPE''), (9, ''SIGKILL''), (11, ''SIGSEGV''), (13, ''SIGPIPE''), (15, ''SIGTERM'')] code of
        Some name \<Rightarrow> name
      | None \<Rightarrow> ''SIG'' @ show_nat code)"

fun status_signal :: "exit_status \<Rightarrow> string option" where
  "status_signal (ExitCode _) = None"
| "status_signal (ExitSignal n) = Some (signal_name n)"

section \<open>The environment of the child\<close>

datatype scrubbed = Untouched | Remove | Replace string

definition scrub_value :: "string \<Rightarrow> string \<Rightarrow> scrubbed" where
  "scrub_value value bundle =
     (if \<not> contains value bundle then Untouched
      else
        let kept = filter (\<lambda>entry. entry \<noteq> [] \<and> \<not> contains entry bundle) (split_on (CHR '':'') value)
        in if kept = [] then Remove else Replace (join_with '':'' kept))"

type_synonym env = "string \<Rightarrow> string option"

text \<open>\<open>inherited\<close> is the server's own environment, APPDIR included.\<close>

definition scrub_bundle_env :: "env \<Rightarrow> env" where
  "scrub_bundle_env inherited =
     (case inherited ''APPDIR'' of
        None \<Rightarrow> inherited
      | Some bundle \<Rightarrow>
          if bundle = [] then inherited
          else (\<lambda>key. case inherited key of
                  None \<Rightarrow> None
                | Some value \<Rightarrow> (case scrub_value value bundle of
                    Untouched \<Rightarrow> Some value | Remove \<Rightarrow> None | Replace kept \<Rightarrow> Some kept)))"

definition set_env :: "(string \<times> string) list \<Rightarrow> env \<Rightarrow> env" where
  "set_env pairs e = fold (\<lambda>(key, value) m. m(key \<mapsto> value)) pairs e"

lemma set_env_other: "key \<notin> fst ` set pairs \<Longrightarrow> set_env pairs e key = e key"
  unfolding set_env_def by (induction pairs arbitrary: e) auto

lemma set_env_distinct:
  "distinct (map fst pairs) \<Longrightarrow> (key, value) \<in> set pairs \<Longrightarrow> set_env pairs e key = Some value"
proof (induction pairs arbitrary: e)
  case (Cons p pairs)
  then show ?case
    using set_env_other [of key pairs "e(fst p \<mapsto> snd p)"]
    by (cases p) (auto simp: set_env_def image_iff)
qed simp

record spawn_facts =
  sf_inherited :: env
  sf_cache :: path
  sf_rustup :: "string option"
  sf_resolved :: "path option"
  sf_exists :: "path \<Rightarrow> bool"
  sf_support :: sandbox_support

text \<open>The command \<open>run_inner\<close> builds: the environment, whether stdin is a pipe,
  and the ruleset the child restricts itself to before it execs.\<close>

record command =
  cmd_env :: env
  cmd_stdin_piped :: bool
  cmd_ruleset :: "ruleset option"

definition build_command ::
  "spawn_facts \<Rightarrow> sandbox_policy option \<Rightarrow> (string \<times> string) list \<Rightarrow> child_stdin \<Rightarrow> command" where
  "build_command facts sandbox options_env stdin =
     \<lparr>cmd_env =
        set_env options_env
          ((case sandbox of
              None \<Rightarrow> (\<lambda>e. e)
            | Some policy \<Rightarrow> set_env (child_env (sf_cache facts) (sf_rustup facts) policy))
           (scrub_bundle_env (sf_inherited facts))),
      cmd_stdin_piped = (stdin \<noteq> StdinNull),
      cmd_ruleset =
        (case sandbox of
           None \<Rightarrow> None
         | Some policy \<Rightarrow>
             prepare (sf_exists facts) (with_program policy (sf_resolved facts)) (sf_support facts))\<rparr>"

text \<open>What can fail before there is a child: the probe pipe, the ruleset, the
  spawn itself.  Each ends the run with its message as stderr and no exit code.\<close>

record launch_faults =
  lf_pipe :: "string option"
  lf_ruleset :: "string option"
  lf_spawn :: "string option"

definition failed_result :: "string \<Rightarrow> process_result" where
  "failed_result message = process_result_default\<lparr>pr_stderr := message\<rparr>"

definition launch ::
  "launch_faults \<Rightarrow> bool \<Rightarrow> spawn_facts \<Rightarrow> sandbox_policy option \<Rightarrow> (string \<times> string) list \<Rightarrow> child_stdin
   \<Rightarrow> process_result + command" where
  "launch faults probe_fd facts sandbox options_env stdin =
     (if probe_fd \<and> lf_pipe faults \<noteq> None then Inl (failed_result (the (lf_pipe faults)))
      else if sandbox \<noteq> None \<and> lf_ruleset faults \<noteq> None
      then Inl (failed_result (''sandbox setup failed: '' @ the (lf_ruleset faults)))
      else (case lf_spawn faults of
              Some message \<Rightarrow> Inl (failed_result message)
            | None \<Rightarrow> Inr (build_command facts sandbox options_env stdin)))"

section \<open>The stdin writer\<close>

text \<open>The messages in the order they arrive and, for each write, whether it
  succeeded: the bytes the program can read, the pipe closing afterwards.\<close>

fun live_writer :: "live_input list \<Rightarrow> bool list \<Rightarrow> string" where
  "live_writer (LiveData bytes # input) (True # oks) = bytes @ live_writer input oks"
| "live_writer _ _ = []"

section \<open>The supervision loop\<close>

text \<open>One text stream: \<open>stdout_bytes\<close>, \<open>stdout_done\<close>, \<open>stdout_capped\<close>,
  \<open>stdout_decoder\<close> and \<open>result.stdout\<close>; likewise for stderr.\<close>

record text_pipe =
  tp_bytes :: nat
  tp_done :: bool
  tp_capped :: bool
  tp_decoder :: utf8_carry
  tp_text :: string

datatype callback = OnStdout string | OnStderr string | OnProbe string | OnQuiet

datatype kill_signal = SigTerm | SigKill

record run_sup =
  su_out :: text_pipe
  su_err :: text_pipe
  su_probe_bytes :: nat
  su_probe_done :: bool
  su_probe_capped :: bool
  su_terminating :: bool
  su_timed_out :: bool
  su_cancelled :: bool
  su_limit :: "string option"
  su_exited :: "exit_status option"
  su_drain_deadline :: "nat option"
  su_quiet_at :: "nat option"
  su_kills :: "kill_signal list"
  su_calls :: "callback list"

record run_opts =
  ro_limits :: process_limits
  ro_started :: nat
  ro_pid :: nat
  ro_quiet :: bool
  ro_probe_fd :: bool

record poll =
  po_now :: nat
  po_cancel :: bool
  po_stdout :: "string option option"
  po_stderr :: "string option option"
  po_probe :: "string option option"
  po_wait :: "exit_status option"

definition text_pipe_new :: text_pipe where
  "text_pipe_new = \<lparr>tp_bytes = 0, tp_done = False, tp_capped = False, tp_decoder = carry_new, tp_text = []\<rparr>"

definition run_start :: "run_opts \<Rightarrow> run_sup" where
  "run_start opts = \<lparr>su_out = text_pipe_new, su_err = text_pipe_new, su_probe_bytes = 0,
     su_probe_done = (\<not> ro_probe_fd opts), su_probe_capped = False, su_terminating = False,
     su_timed_out = False, su_cancelled = False, su_limit = None, su_exited = None,
     su_drain_deadline = None, su_quiet_at = None, su_kills = [], su_calls = []\<rparr>"

definition terminate :: "run_opts \<Rightarrow> run_sup \<Rightarrow> run_sup" where
  "terminate opts s =
     (if su_terminating s \<or> ro_pid opts = 0 then s
      else s\<lparr>su_terminating := True, su_kills := su_kills s @ [SigTerm]\<rparr>)"

text \<open>The task \<open>terminate\<close> leaves behind, 250 ms later.\<close>

definition kill_stragglers :: "bool \<Rightarrow> run_sup \<Rightarrow> run_sup" where
  "kill_stragglers finished s = (if finished then s else s\<lparr>su_kills := su_kills s @ [SigKill]\<rparr>)"

definition call :: "callback \<Rightarrow> run_sup \<Rightarrow> run_sup" where
  "call c s = s\<lparr>su_calls := su_calls s @ [c]\<rparr>"

text \<open>\<open>Ok(n)\<close> on a text stream: the bytes are counted, and decoded and kept
  unless the cap was hit by an earlier read.  The text is \<open>None\<close> once capped.\<close>

definition text_read :: "nat \<Rightarrow> string \<Rightarrow> text_pipe \<Rightarrow> string option \<times> text_pipe" where
  "text_read limit chunk p =
     (let p1 = p\<lparr>tp_bytes := tp_bytes p + length chunk\<rparr>
      in if tp_capped p then (None, p1)
         else let (text, d) = decode (tp_decoder p) chunk
              in (Some text, p1\<lparr>tp_decoder := d, tp_text := tp_text p @ text,
                               tp_capped := (limit < tp_bytes p1)\<rparr>))"

definition arm_quiet :: "run_opts \<Rightarrow> nat \<Rightarrow> run_sup \<Rightarrow> run_sup" where
  "arm_quiet opts now s = (if ro_quiet opts then s\<lparr>su_quiet_at := Some (now + QUIET_MS)\<rparr> else s)"

definition hit_limit :: "run_opts \<Rightarrow> string \<Rightarrow> bool \<Rightarrow> run_sup \<Rightarrow> run_sup" where
  "hit_limit opts name over s = (if over then terminate opts (s\<lparr>su_limit := Some name\<rparr>) else s)"

definition on_stdout :: "run_opts \<Rightarrow> nat \<Rightarrow> string option \<Rightarrow> run_sup \<Rightarrow> run_sup" where
  "on_stdout opts now read s =
     (case read of
        None \<Rightarrow> s\<lparr>su_out := (su_out s)\<lparr>tp_done := True\<rparr>\<rparr>
      | Some chunk \<Rightarrow>
          (case text_read (pl_stdout_bytes (ro_limits opts)) chunk (su_out s) of
             (None, p) \<Rightarrow> s\<lparr>su_out := p\<rparr>
           | (Some text, p) \<Rightarrow>
               hit_limit opts ''stdout'' (tp_capped p)
                 (arm_quiet opts now (call (OnStdout text) (s\<lparr>su_out := p\<rparr>)))))"

definition on_stderr :: "run_opts \<Rightarrow> nat \<Rightarrow> string option \<Rightarrow> run_sup \<Rightarrow> run_sup" where
  "on_stderr opts now read s =
     (case read of
        None \<Rightarrow> s\<lparr>su_err := (su_err s)\<lparr>tp_done := True\<rparr>\<rparr>
      | Some chunk \<Rightarrow>
          (case text_read (pl_stderr_bytes (ro_limits opts)) chunk (su_err s) of
             (None, p) \<Rightarrow> s\<lparr>su_err := p\<rparr>
           | (Some text, p) \<Rightarrow>
               hit_limit opts ''stderr'' (tp_capped p)
                 (arm_quiet opts now (call (OnStderr text) (s\<lparr>su_err := p\<rparr>)))))"

definition on_probe :: "run_opts \<Rightarrow> string option \<Rightarrow> run_sup \<Rightarrow> run_sup" where
  "on_probe opts read s =
     (case read of
        None \<Rightarrow> s\<lparr>su_probe_done := True\<rparr>
      | Some chunk \<Rightarrow>
          let s1 = s\<lparr>su_probe_bytes := su_probe_bytes s + length chunk\<rparr>
          in if su_probe_capped s then s1
             else let over = pl_probe_bytes (ro_limits opts) < su_probe_bytes s1
                  in hit_limit opts ''probes'' over
                       (call (OnProbe chunk) (s1\<lparr>su_probe_capped := over\<rparr>)))"

definition due :: "nat \<Rightarrow> nat option \<Rightarrow> bool" where
  "due now at = (case at of None \<Rightarrow> False | Some t \<Rightarrow> t \<le> now)"

definition select :: "run_opts \<Rightarrow> poll \<Rightarrow> run_sup \<Rightarrow> run_sup option" where
  "select opts p s =
     (if po_cancel p \<and> \<not> su_cancelled s
      then Some (terminate opts (s\<lparr>su_cancelled := True\<rparr>))
      else if ro_started opts + pl_timeout_ms (ro_limits opts) \<le> po_now p
              \<and> \<not> su_timed_out s \<and> \<not> su_terminating s
      then Some (terminate opts (s\<lparr>su_timed_out := True\<rparr>))
      else if due (po_now p) (su_quiet_at s)
      then Some (call OnQuiet (s\<lparr>su_quiet_at := None\<rparr>))
      else if due (po_now p) (su_drain_deadline s)
      then Some ((terminate opts s)\<lparr>su_out := (su_out s)\<lparr>tp_done := True\<rparr>,
                   su_err := (su_err s)\<lparr>tp_done := True\<rparr>, su_probe_done := True\<rparr>)
      else if po_stdout p \<noteq> None \<and> \<not> tp_done (su_out s)
      then Some (on_stdout opts (po_now p) (the (po_stdout p)) s)
      else if po_stderr p \<noteq> None \<and> \<not> tp_done (su_err s)
      then Some (on_stderr opts (po_now p) (the (po_stderr p)) s)
      else if po_probe p \<noteq> None \<and> \<not> su_probe_done s
      then Some (on_probe opts (the (po_probe p)) s)
      else if po_wait p \<noteq> None \<and> su_exited s = None
      then Some (s\<lparr>su_exited := po_wait p,
                   su_drain_deadline := Some (po_now p + DESCENDANT_DRAIN_MS)\<rparr>)
      else None)"

definition wound_down :: "run_sup \<Rightarrow> bool" where
  "wound_down s \<longleftrightarrow> su_exited s \<noteq> None \<and> tp_done (su_out s) \<and> tp_done (su_err s) \<and> su_probe_done s"

text \<open>The loop over successive polls; the flag says that it broke.\<close>

fun run_loop :: "run_opts \<Rightarrow> poll list \<Rightarrow> run_sup \<Rightarrow> bool \<times> run_sup" where
  "run_loop opts [] s = (False, s)"
| "run_loop opts (p # ps) s =
     (case select opts p s of
        None \<Rightarrow> run_loop opts ps s
      | Some s' \<Rightarrow> if wound_down s' then (True, s') else run_loop opts ps s')"

definition text_tail :: "text_pipe \<Rightarrow> string" where
  "text_tail p = (if tp_capped p then [] else fst (finish (tp_decoder p)))"

definition call_tail :: "callback \<Rightarrow> string \<Rightarrow> run_sup \<Rightarrow> run_sup" where
  "call_tail c tail s = (if tail = [] then s else call c s)"

text \<open>After the loop: the decoders' tails, then the exit status.\<close>

definition finish_run :: "run_sup \<Rightarrow> process_result \<times> callback list" where
  "finish_run s =
     (let out_tail = text_tail (su_out s); err_tail = text_tail (su_err s);
          s1 = call_tail (OnStderr err_tail) err_tail (call_tail (OnStdout out_tail) out_tail s)
      in (\<lparr>pr_stdout = tp_text (su_out s) @ out_tail,
           pr_stderr = tp_text (su_err s) @ err_tail,
           pr_exit_code = Option.bind (su_exited s) status_code,
           pr_signal = Option.bind (su_exited s) status_signal,
           pr_timed_out = su_timed_out s, pr_cancelled = su_cancelled s, pr_limit = su_limit s\<rparr>,
          su_calls s1))"

section \<open>One pipe\<close>

lemma lossy_length: "length (from_utf8_lossy bs) \<le> 3 * length bs"
proof (induction bs rule: from_utf8_lossy.induct)
  case (1 bs)
  show ?case
  proof (cases "bs = []")
    case False
    show ?thesis
    proof (cases "head_step bs")
      case (Whole n)
      with False 1(1) [OF False Whole] head_step_Whole_pos [OF Whole] show ?thesis
        by (subst from_utf8_lossy.simps) auto
    next
      case (Bad n)
      with False 1(2) [OF False Bad] head_step_Bad_pos [OF Bad] show ?thesis
        by (subst from_utf8_lossy.simps) (auto simp: replacement_def)
    next
      case Short
      from False have "1 \<le> length bs" by (cases bs) auto
      with False Short show ?thesis
        by (subst from_utf8_lossy.simps) (simp add: replacement_def)
    qed
  qed (subst from_utf8_lossy.simps, simp)
qed

lemma decode_length:
  assumes "decode d c = (t, d')"
  shows "length t + 3 * length (pending d') \<le> 3 * (length (pending d) + length c)"
proof (cases "from_utf8 (pending d @ c)")
  case None
  with assms show ?thesis by (auto simp: decode_def Let_def)
next
  case (Some ve)
  obtain v e where ve: "ve = (v, e)" by fastforce
  have v: "v \<le> length (pending d @ c)" using from_utf8_bounds Some ve by blast
  show ?thesis
  proof (cases e)
    case None
    with assms Some ve have td: "t = from_utf8_lossy (take v (pending d @ c))"
      "pending d' = drop v (pending d @ c)"
      by (auto simp: decode_def Let_def)
    have "length t \<le> 3 * v"
      unfolding td using lossy_length [of "take v (pending d @ c)"] v by simp
    with td(2) v show ?thesis by simp
  next
    case (Some _)
    with assms \<open>from_utf8 _ = Some ve\<close> ve lossy_length [of "pending d @ c"] show ?thesis
      by (auto simp: decode_def Let_def)
  qed
qed

lemma finish_length: "length (fst (finish d)) \<le> 3 * length (pending d)"
  using lossy_length by (simp add: finish_def)

text \<open>What the cap keeps: a stream that is over its limit was within it before
  its last accepted read.\<close>

definition pipe_ok :: "nat \<Rightarrow> text_pipe \<Rightarrow> bool" where
  "pipe_ok limit p \<longleftrightarrow>
     (if tp_capped p then length (tp_text p) \<le> 3 * (limit + read_buffer)
      else tp_bytes p \<le> limit \<and> length (tp_text p) + 3 * length (pending (tp_decoder p)) \<le> 3 * tp_bytes p)"

lemma pipe_ok_new [simp]: "pipe_ok limit text_pipe_new"
  by (simp add: pipe_ok_def text_pipe_new_def carry_new_def)

lemma pipe_ok_done [simp]: "pipe_ok limit (p\<lparr>tp_done := b\<rparr>) = pipe_ok limit p"
  by (simp add: pipe_ok_def)

lemma text_read_ok:
  assumes "pipe_ok limit p" and "length chunk \<le> read_buffer"
  shows "pipe_ok limit (snd (text_read limit chunk p))"
proof (cases "tp_capped p")
  case True
  with assms show ?thesis by (simp add: text_read_def Let_def pipe_ok_def)
next
  case False
  obtain t d where td: "decode (tp_decoder p) chunk = (t, d)" by fastforce
  from False assms decode_length [OF td] show ?thesis
    by (simp add: text_read_def Let_def td pipe_ok_def)
qed

lemma pipe_ok_bound: "pipe_ok limit p \<Longrightarrow> length (tp_text p @ text_tail p) \<le> 3 * (limit + read_buffer)"
  using finish_length [of "tp_decoder p"] by (auto simp: pipe_ok_def text_tail_def split: if_splits)

text \<open>A stream within its cap: the reads one after the other.\<close>

definition feed_pipe :: "nat \<Rightarrow> string list \<Rightarrow> text_pipe \<Rightarrow> text_pipe" where
  "feed_pipe limit chunks p = fold (\<lambda>chunk p. snd (text_read limit chunk p)) chunks p"

lemma feed_pipe_decodes:
  assumes "\<not> tp_capped p" and "tp_bytes p + length (concat chunks) \<le> limit"
  shows "\<not> tp_capped (feed_pipe limit chunks p)
    \<and> tp_text (feed_pipe limit chunks p) = tp_text p @ fst (decode_all decode (tp_decoder p) chunks)
    \<and> tp_decoder (feed_pipe limit chunks p) = snd (decode_all decode (tp_decoder p) chunks)"
  using assms
proof (induction chunks arbitrary: p)
  case Nil
  then show ?case by (simp add: feed_pipe_def)
next
  case (Cons c cs)
  obtain t d where td: "decode (tp_decoder p) c = (t, d)" by fastforce
  let ?q = "snd (text_read limit c p)"
  have q: "\<not> tp_capped ?q" "tp_bytes ?q = tp_bytes p + length c" "tp_text ?q = tp_text p @ t"
    "tp_decoder ?q = d"
    using Cons.prems td by (simp_all add: text_read_def Let_def)
  have "feed_pipe limit (c # cs) p = feed_pipe limit cs ?q" by (simp add: feed_pipe_def)
  with Cons.IH [of ?q] Cons.prems q td show ?case
    by (auto simp: split: prod.splits)
qed

lemma feed_pipe_whole:
  assumes "valid_utf8 (concat chunks)" and "length (concat chunks) \<le> limit"
  shows "tp_text (feed_pipe limit chunks text_pipe_new) @ text_tail (feed_pipe limit chunks text_pipe_new)
    = concat chunks"
  using feed_pipe_decodes [of text_pipe_new chunks limit] assms carry.whole_stream [of chunks]
  by (simp add: text_pipe_new_def text_tail_def)

section \<open>One run\<close>

lemmas branch_defs = on_stdout_def on_stderr_def on_probe_def hit_limit_def arm_quiet_def call_def
  terminate_def

text \<open>What every pass of the loop keeps: both pipes within their caps, the text of
  a stream the concatenation of its callbacks, SIGTERM sent at most once.\<close>

fun stdout_text :: "callback \<Rightarrow> string" where
  "stdout_text (OnStdout t) = t"
| "stdout_text _ = []"

fun stderr_text :: "callback \<Rightarrow> string" where
  "stderr_text (OnStderr t) = t"
| "stderr_text _ = []"

definition sup_inv :: "run_opts \<Rightarrow> run_sup \<Rightarrow> bool" where
  "sup_inv opts s \<longleftrightarrow>
     pipe_ok (pl_stdout_bytes (ro_limits opts)) (su_out s)
     \<and> pipe_ok (pl_stderr_bytes (ro_limits opts)) (su_err s)
     \<and> tp_text (su_out s) = concat (map stdout_text (su_calls s))
     \<and> tp_text (su_err s) = concat (map stderr_text (su_calls s))
     \<and> su_kills s = (if su_terminating s then [SigTerm] else [])
     \<and> (su_exited s = None \<longleftrightarrow> su_drain_deadline s = None)"

definition poll_ok :: "poll \<Rightarrow> bool" where
  "poll_ok p \<longleftrightarrow> (\<forall>read \<in> {po_stdout p, po_stderr p, po_probe p}. \<forall>chunk.
     read = Some (Some chunk) \<longrightarrow> chunk \<noteq> [] \<and> length chunk \<le> read_buffer)"

lemma run_start_inv: "sup_inv opts (run_start opts)"
  by (simp add: sup_inv_def run_start_def) (simp add: text_pipe_new_def)

lemma text_read_text:
  "text_read limit chunk p = (t, q) \<Longrightarrow> tp_text q = tp_text p @ (case t of None \<Rightarrow> [] | Some u \<Rightarrow> u)"
  by (auto simp: text_read_def Let_def split: if_splits prod.splits)

lemma terminate_inv: "sup_inv opts s \<Longrightarrow> sup_inv opts (terminate opts s)"
  by (simp add: sup_inv_def terminate_def)

lemma on_stdout_inv:
  assumes "sup_inv opts s" and "\<And>c. read = Some c \<Longrightarrow> length c \<le> read_buffer"
  shows "sup_inv opts (on_stdout opts now read s)"
proof (cases read)
  case None
  with assms show ?thesis by (simp add: on_stdout_def sup_inv_def)
next
  case (Some chunk)
  obtain t q where tq: "text_read (pl_stdout_bytes (ro_limits opts)) chunk (su_out s) = (t, q)" by fastforce
  have "pipe_ok (pl_stdout_bytes (ro_limits opts)) q"
    using text_read_ok [of _ "su_out s" chunk] assms Some tq by (fastforce simp: sup_inv_def)
  with assms(1) Some tq text_read_text [OF tq] show ?thesis
    by (cases t) (simp_all add: branch_defs sup_inv_def)
qed

lemma on_stderr_inv:
  assumes "sup_inv opts s" and "\<And>c. read = Some c \<Longrightarrow> length c \<le> read_buffer"
  shows "sup_inv opts (on_stderr opts now read s)"
proof (cases read)
  case None
  with assms show ?thesis by (simp add: on_stderr_def sup_inv_def)
next
  case (Some chunk)
  obtain t q where tq: "text_read (pl_stderr_bytes (ro_limits opts)) chunk (su_err s) = (t, q)" by fastforce
  have "pipe_ok (pl_stderr_bytes (ro_limits opts)) q"
    using text_read_ok [of _ "su_err s" chunk] assms Some tq by (fastforce simp: sup_inv_def)
  with assms(1) Some tq text_read_text [OF tq] show ?thesis
    by (cases t) (simp_all add: branch_defs sup_inv_def)
qed

lemma on_probe_inv: "sup_inv opts s \<Longrightarrow> sup_inv opts (on_probe opts read s)"
  by (cases read) (simp_all add: branch_defs sup_inv_def Let_def)

lemma select_inv:
  assumes "sup_inv opts s" and "poll_ok p" and "select opts p s = Some s'"
  shows "sup_inv opts s'"
proof -
  have upd: "sup_inv opts (s\<lparr>su_cancelled := True\<rparr>)" "sup_inv opts (s\<lparr>su_timed_out := True\<rparr>)"
    "sup_inv opts (call OnQuiet (s\<lparr>su_quiet_at := None\<rparr>))"
    "sup_inv opts ((terminate opts s)\<lparr>su_out := (su_out s)\<lparr>tp_done := True\<rparr>,
       su_err := (su_err s)\<lparr>tp_done := True\<rparr>, su_probe_done := True\<rparr>)"
    using assms(1) by (simp_all add: sup_inv_def call_def terminate_def)
  have reads: "sup_inv opts (on_stdout opts (po_now p) read s)" if "po_stdout p = Some read" for read
    using that assms(1,2) by (auto simp: poll_ok_def intro!: on_stdout_inv)
  have reads2: "sup_inv opts (on_stderr opts (po_now p) read s)" if "po_stderr p = Some read" for read
    using that assms(1,2) by (auto simp: poll_ok_def intro!: on_stderr_inv)
  have w: "sup_inv opts (s\<lparr>su_exited := Some status, su_drain_deadline := Some d\<rparr>)" for status d
    using assms(1) by (simp add: sup_inv_def)
  show ?thesis
    using assms(3) unfolding select_def
    by (auto simp: upd terminate_inv reads reads2 w assms(1) intro!: on_probe_inv split: if_splits)
qed

lemma run_loop_inv:
  "sup_inv opts s \<Longrightarrow> list_all poll_ok ps \<Longrightarrow> sup_inv opts (snd (run_loop opts ps s))"
proof (induction ps arbitrary: s)
  case (Cons p ps)
  then show ?case
    by (auto split: option.splits dest: select_inv)
qed simp

text \<open>Once the drain countdown is over, at most the cancel, the timeout and the
  quiet branch can be taken before the one that ends the run.\<close>

definition before_drain :: "run_sup \<Rightarrow> nat" where
  "before_drain s = of_bool (\<not> su_cancelled s) + of_bool (\<not> su_timed_out s) + of_bool (su_quiet_at s \<noteq> None)"

lemma select_drain:
  assumes "su_exited s \<noteq> None" and "due (po_now p) (su_drain_deadline s)"
  shows "\<exists>s'. select opts p s = Some s' \<and> su_exited s' = su_exited s
    \<and> su_drain_deadline s' = su_drain_deadline s
    \<and> (wound_down s' \<or> before_drain s' < before_drain s)"
  using assms by (auto simp: select_def wound_down_def before_drain_def terminate_def call_def due_def)

lemma run_loop_drains:
  assumes "su_exited s \<noteq> None" and "list_all (\<lambda>p. due (po_now p) (su_drain_deadline s)) ps"
    and "before_drain s < length ps"
  shows "fst (run_loop opts ps s)"
  using assms
proof (induction ps arbitrary: s)
  case (Cons p ps)
  from select_drain [of s p opts] Cons.prems obtain s' where s': "select opts p s = Some s'"
    "su_exited s' = su_exited s" "su_drain_deadline s' = su_drain_deadline s"
    "wound_down s' \<or> before_drain s' < before_drain s" by auto
  with Cons show ?case by auto
qed simp

lemma finish_run_calls:
  assumes "sup_inv opts s" and "finish_run s = (r, calls)"
  shows "pr_stdout r = concat (map stdout_text calls)" and "pr_stderr r = concat (map stderr_text calls)"
  using assms by (auto simp: sup_inv_def finish_run_def Let_def call_tail_def call_def)

section \<open>Properties\<close>

text \<open>C18: whatever the child writes and however the loop is polled, a run keeps at
  most its cap plus one read buffer of each stream (times three, since an
  ill-formed byte becomes a three-byte replacement character), the result's
  stdout and stderr are exactly what the callbacks were given, and the process
  group gets SIGTERM at most once.\<close>
theorem run_result_within_caps:
  assumes "list_all poll_ok ps"
    and "run_loop opts ps (run_start opts) = (broke, s)"
    and "finish_run s = (result, calls)"
  shows "length (pr_stdout result) \<le> 3 * (pl_stdout_bytes (ro_limits opts) + read_buffer)
    \<and> length (pr_stderr result) \<le> 3 * (pl_stderr_bytes (ro_limits opts) + read_buffer)
    \<and> pr_stdout result = concat (map stdout_text calls)
    \<and> pr_stderr result = concat (map stderr_text calls)
    \<and> su_kills s \<in> {[], [SigTerm]}"
proof -
  have inv: "sup_inv opts s"
    using run_loop_inv [OF run_start_inv assms(1)] assms(2) by (metis snd_conv)
  have "length (pr_stdout result) \<le> 3 * (pl_stdout_bytes (ro_limits opts) + read_buffer)"
    and "length (pr_stderr result) \<le> 3 * (pl_stderr_bytes (ro_limits opts) + read_buffer)"
    using inv pipe_ok_bound [of _ "su_out s"] pipe_ok_bound [of _ "su_err s"] assms(3)
    by (auto simp: sup_inv_def finish_run_def Let_def)
  with inv finish_run_calls [OF inv assms(3)] show ?thesis
    by (auto simp: sup_inv_def)
qed

definition small_run :: run_opts where
  "small_run = \<lparr>ro_limits = process_limits_new 10000 4 4, ro_started = 0, ro_pid = 7, ro_quiet = False,
     ro_probe_fd = False\<rparr>"

definition stdout_poll :: "nat \<Rightarrow> string \<Rightarrow> poll" where
  "stdout_poll now chunk = \<lparr>po_now = now, po_cancel = False, po_stdout = Some (Some chunk),
     po_stderr = None, po_probe = None, po_wait = None\<rparr>"

definition exit_poll :: "nat \<Rightarrow> poll" where
  "exit_poll now = \<lparr>po_now = now, po_cancel = False, po_stdout = None, po_stderr = None,
     po_probe = None, po_wait = Some (ExitCode 0)\<rparr>"

lemma run_result_within_caps_witness:
  "length (pr_stdout (fst (finish_run (snd (run_loop small_run
     [stdout_poll 1 ''abc'', stdout_poll 2 ''def'', stdout_poll 3 ''ghi''] (run_start small_run))))))
   \<le> 3 * (pl_stdout_bytes (ro_limits small_run) + read_buffer)"
  by (rule conjunct1 [OF run_result_within_caps [OF _ surjective_pairing surjective_pairing]])
    (simp add: poll_ok_def stdout_poll_def read_buffer_def)



text \<open>A stream of UTF-8 text within its cap reaches the result byte for byte,
  however the reads cut it, a character split between two reads included.\<close>
theorem stream_within_cap_is_faithful:
  assumes "valid_utf8 (concat chunks)" and "length (concat chunks) \<le> limit"
  shows "tp_text (feed_pipe limit chunks text_pipe_new) @ text_tail (feed_pipe limit chunks text_pipe_new)
    = concat chunks"
  by (rule feed_pipe_whole [OF assms])

lemma stream_within_cap_is_faithful_witness:
  "tp_text (feed_pipe 9 [''a'' @ [CHR 0xC3], [CHR 0xA9]] text_pipe_new)
     @ text_tail (feed_pipe 9 [''a'' @ [CHR 0xC3], [CHR 0xA9]] text_pipe_new)
   = ''a'' @ [CHR 0xC3, CHR 0xA9]"
proof -
  have v: "valid_utf8 (concat [''a'' @ [CHR 0xC3], [CHR 0xA9]])"
    by (simp add: valid_utf8_Cons tail2_def cont_def byte_def)
  show ?thesis using stream_within_cap_is_faithful [OF v, of 9] by simp
qed

end
