(* ===== verification/Store.thy ===== *)
theory Store
  imports Workspace Supervisor
begin

text \<open>
  The session and its versioned document store, from
  src/apps/server-rs/src/domain/session.rs: settings and the policy and
  environment they give a program, the Input text, and the operations that
  change the project's files.  \<open>ss_disk\<close> is the tree under src/ as a map from
  relative paths to texts, \<open>ss_saved_input\<close> the workspace's stdin.txt.  Every
  operation locks the snapshot for its whole body, so it is one step; what the
  file system answers is an argument.
\<close>

section \<open>Settings\<close>

definition INTERACTIVE_TIMEOUT_MS :: nat where "INTERACTIVE_TIMEOUT_MS = 5 * 60 * 1000"
definition SERVER_TIMEOUT_MS :: nat where "SERVER_TIMEOUT_MS = 60 * 60 * 1000"

record session_settings =
  se_auto_run :: bool
  se_auto_inspect :: bool
  se_debounce_ms :: nat
  se_timeout_ms :: nat
  se_manual_probe_ids :: "string list"
  se_sandbox :: bool
  se_network :: bool
  se_interactive :: bool
  se_serve :: bool

definition program_timeout_ms :: "session_settings \<Rightarrow> nat" where
  "program_timeout_ms s =
     (if se_serve s then SERVER_TIMEOUT_MS
      else if se_interactive s then INTERACTIVE_TIMEOUT_MS
      else se_timeout_ms s)"

definition default_settings :: "sandbox_support \<Rightarrow> session_settings" where
  "default_settings support = \<lparr>se_auto_run = True, se_auto_inspect = True, se_debounce_ms = 400,
     se_timeout_ms = 2000, se_manual_probe_ids = [], se_sandbox = available support,
     se_network = False, se_interactive = False, se_serve = False\<rparr>"

section \<open>The port of a session's server\<close>

definition HTTP_PORT_START :: nat where "HTTP_PORT_START = 20000"
definition HTTP_PORT_END :: nat where "HTTP_PORT_END = 30000"

text \<open>\<open>draws\<close> are the values of \<open>gen_range\<close>; \<open>bindable\<close> says which ports a bind succeeds on.\<close>

definition allocate_http_port :: "(nat \<Rightarrow> bool) \<Rightarrow> nat list \<Rightarrow> nat list \<Rightarrow> nat" where
  "allocate_http_port bindable draws taken =
     (let free = (\<lambda>port. port \<notin> set taken \<and> bindable port)
      in case find free (take 64 draws) of
           Some port \<Rightarrow> port
         | None \<Rightarrow> (case find free [HTTP_PORT_START..<HTTP_PORT_END] of
             Some port \<Rightarrow> port | None \<Rightarrow> HTTP_PORT_START))"

lemma find_SomeD: "find P xs = Some x \<Longrightarrow> x \<in> set xs \<and> P x"
  by (auto simp: find_Some_iff)

lemma allocated_port_range:
  assumes "\<forall>d\<in>set draws. HTTP_PORT_START \<le> d \<and> d < HTTP_PORT_END"
  shows "HTTP_PORT_START \<le> allocate_http_port bindable draws taken
    \<and> allocate_http_port bindable draws taken < HTTP_PORT_END"
proof -
  have start: "HTTP_PORT_START < HTTP_PORT_END" by (simp add: HTTP_PORT_START_def HTTP_PORT_END_def)
  have drawn: "d \<in> set (take 64 draws) \<Longrightarrow> HTTP_PORT_START \<le> d \<and> d < HTTP_PORT_END" for d
    using assms by (meson in_set_takeD)
  show ?thesis
    using start drawn
    by (auto simp: allocate_http_port_def Let_def simp del: upt_Suc split: option.splits dest!: find_SomeD)
qed

lemma allocated_port_free:
  assumes "\<exists>port \<in> {HTTP_PORT_START..<HTTP_PORT_END}. port \<notin> set taken \<and> bindable port"
  shows "allocate_http_port bindable draws taken \<notin> set taken \<and> bindable (allocate_http_port bindable draws taken)"
  using assms
  by (auto simp: allocate_http_port_def Let_def find_None_iff simp del: upt_Suc
      split: option.splits dest!: find_SomeD)

section \<open>The session\<close>

record language_support =
  ls_present :: bool
  ls_run :: bool
  ls_lsp :: bool

record snapshot =
  sn_version :: nat
  sn_uri :: string
  sn_source :: string
  sn_files :: "project_file list"
  sn_updated_at :: nat

record session =
  ss_id :: string
  ss_token :: string
  ss_language :: language
  ss_entry_path :: string
  ss_root :: path
  ss_source_root :: path
  ss_document_uri :: string
  ss_snapshot :: snapshot
  ss_settings :: session_settings
  ss_probes :: "probe_descriptor list"
  ss_support :: "language \<Rightarrow> language_support option"
  ss_runtime_connected :: bool
  ss_attach_generation :: nat
  ss_sandbox_policy :: sandbox_policy
  ss_workspace_id :: "string option"
  ss_input :: string
  ss_http_port :: nat
  ss_last_http_ms :: nat
  ss_pending_dependencies :: "string list"
  ss_live_stdin :: "live_input list option"
  ss_disk :: files
  ss_saved_input :: "string option"

definition session_sandbox :: "session \<Rightarrow> session_settings \<Rightarrow> sandbox_policy option" where
  "session_sandbox s settings =
     (if \<not> se_sandbox settings then None
      else
        let policy0 = ss_sandbox_policy s;
            policy1 = (if se_network settings then with_outbound_network policy0 else policy0);
            policy2 = (if se_serve settings then with_listen_port policy1 (ss_http_port s) else policy1)
        in Some policy2)"

definition program_env :: "session \<Rightarrow> session_settings \<Rightarrow> (string \<times> string) list" where
  "program_env s settings =
     (if \<not> se_serve settings then []
      else [(''PORT'', show_nat (ss_http_port s)), (''HOST'', ''127.0.0.1'')])"

definition session_stdin :: "session \<Rightarrow> child_stdin \<times> session" where
  "session_stdin s =
     (case ss_live_stdin s of
        Some live \<Rightarrow> (StdinLive live, s\<lparr>ss_live_stdin := None\<rparr>)
      | None \<Rightarrow> if ss_input s = [] then (StdinNull, s) else (StdinText (ss_input s), s))"

section \<open>The Input text\<close>

text \<open>\<open>file\<close> is what \<open>read_to_string\<close> gives for stdin.txt.\<close>

definition read_input :: "string option \<Rightarrow> string" where
  "read_input file =
     (case file of None \<Rightarrow> [] | Some text \<Rightarrow> if length text \<le> max_input_bytes then text else [])"

record input_faults =
  if_remove :: "string option"
  if_mkdir :: "string option"
  if_write :: "string option"
  if_rename :: "string option"

text \<open>A remove that fails for another reason than the file being absent is an error.\<close>

definition write_input :: "input_faults \<Rightarrow> string \<Rightarrow> string option \<Rightarrow> unit res \<times> string option" where
  "write_input io text file =
     (if text = [] then
        (case if_remove io of
           Some e \<Rightarrow> if file = None then (Inr (), None) else (Inl e, file)
         | None \<Rightarrow> (Inr (), None))
      else (case if_mkdir io of Some e \<Rightarrow> (Inl e, file) | None \<Rightarrow>
        (case if_write io of Some e \<Rightarrow> (Inl e, file) | None \<Rightarrow>
          (case if_rename io of Some e \<Rightarrow> (Inl e, file) | None \<Rightarrow> (Inr (), Some text)))))"

definition set_input :: "input_faults \<Rightarrow> string \<Rightarrow> session \<Rightarrow> bool res \<times> session" where
  "set_input io text s =
     (if ss_input s = text then (Inr False, s)
      else if ss_workspace_id s \<noteq> None then
        (case write_input io text (ss_saved_input s) of
           (Inl e, file) \<Rightarrow> (Inl e, s\<lparr>ss_saved_input := file\<rparr>)
         | (Inr _, file) \<Rightarrow> (Inr True, s\<lparr>ss_saved_input := file, ss_input := text\<rparr>))
      else (Inr True, s\<lparr>ss_input := text\<rparr>))"

lemma set_input_reopen:
  assumes "set_input io text s = (Inr changed, s')" and "ss_workspace_id s \<noteq> None"
    and "length text \<le> max_input_bytes" and "read_input (ss_saved_input s) = ss_input s"
  shows "ss_input s' = text \<and> read_input (ss_saved_input s') = text"
  using assms
  by (auto simp: set_input_def write_input_def read_input_def split: if_splits option.splits)

section \<open>Committing a list of files\<close>

definition file_uri :: "session \<Rightarrow> string \<Rightarrow> string" where
  "file_uri s p = path_to_file_url (show_path (path_join (ss_source_root s) p))"

definition project_file :: "session \<Rightarrow> string \<Rightarrow> string \<Rightarrow> project_file" where
  "project_file s p source = \<lparr>pf_path = p, pf_uri = file_uri s p, pf_source = source\<rparr>"

definition assert_version :: "snapshot \<Rightarrow> nat \<Rightarrow> unit res" where
  "assert_version snap version =
     (if version \<le> sn_version snap
      then Inl (''Regressive document version '' @ show_nat version @ ''; current is '' @ show_nat (sn_version snap))
      else Inr ())"

definition project_bytes :: "project_file list \<Rightarrow> nat" where
  "project_bytes fs = (\<Sum>f\<leftarrow>fs. length (pf_source f))"

definition assert_project_size :: "project_file list \<Rightarrow> unit res" where
  "assert_project_size fs =
     (if project_bytes fs > max_project_bytes
      then Inl (''Project source exceeds '' @ show_nat max_project_bytes @ '' bytes'') else Inr ())"

definition has_file :: "project_file list \<Rightarrow> string \<Rightarrow> bool" where
  "has_file fs p = list_ex (\<lambda>f. pf_path f = p) fs"

definition sort_files :: "project_file list \<Rightarrow> project_file list" where
  "sort_files = sort_by (\<lambda>l r. locale_compare (pf_path l) (pf_path r))"

text \<open>\<open>now\<close> is \<open>now_ms()\<close>.  An error leaves the snapshot as it was.\<close>

definition commit :: "nat \<Rightarrow> nat \<Rightarrow> project_file list \<Rightarrow> session \<Rightarrow> snapshot res \<times> session" where
  "commit now version fs0 s =
     (let fs = sort_files fs0; primary = ss_entry_path s
      in case find (\<lambda>f. pf_path f = primary) fs of
           None \<Rightarrow> (Inl (''Project entry point '' @ primary @ '' is missing''), s)
         | Some main \<Rightarrow>
             let snap = \<lparr>sn_version = version, sn_uri = pf_uri main, sn_source = pf_source main,
                         sn_files = fs, sn_updated_at = now\<rparr>
             in (Inr snap, s\<lparr>ss_snapshot := snap\<rparr>))"

section \<open>Operations on files\<close>

text \<open>The first error the system calls of an operation give; \<open>df_temporary\<close> is the
  name of the temporary of \<open>atomic_write\<close>.\<close>

record disk_faults =
  df_mkdir :: "string option"
  df_write :: "string option"
  df_rename :: "string option"
  df_restore_fails :: bool
  df_temporary :: string

definition atomic_write :: "disk_faults \<Rightarrow> string \<Rightarrow> string \<Rightarrow> files \<Rightarrow> unit res \<times> files" where
  "atomic_write io p source disk =
     (case df_mkdir io of Some e \<Rightarrow> (Inl e, disk) | None \<Rightarrow>
       (case df_write io of Some e \<Rightarrow> (Inl e, disk) | None \<Rightarrow>
         let disk1 = disk(df_temporary io \<mapsto> source)
         in case df_rename io of
              Some e \<Rightarrow> (Inl e, disk1)
            | None \<Rightarrow> (Inr (), disk1(df_temporary io := None, p \<mapsto> source))))"

definition write_and_commit ::
  "disk_faults \<Rightarrow> nat \<Rightarrow> nat \<Rightarrow> string \<Rightarrow> string \<Rightarrow> project_file list \<Rightarrow> session \<Rightarrow> snapshot res \<times> session" where
  "write_and_commit io now version p source fs s =
     (case assert_project_size fs of
        Inl e \<Rightarrow> (Inl e, s)
      | Inr _ \<Rightarrow> (case atomic_write io p source (ss_disk s) of
          (Inl e, disk) \<Rightarrow> (Inl e, s\<lparr>ss_disk := disk\<rparr>)
        | (Inr _, disk) \<Rightarrow> commit now version fs (s\<lparr>ss_disk := disk\<rparr>)))"

definition update :: "disk_faults \<Rightarrow> nat \<Rightarrow> nat \<Rightarrow> string \<Rightarrow> string \<Rightarrow> session \<Rightarrow> snapshot res \<times> session" where
  "update io now version p source s =
     (let fs = sn_files (ss_snapshot s)
      in case assert_version (ss_snapshot s) version of
           Inl e \<Rightarrow> (Inl e, s)
         | Inr _ \<Rightarrow>
             if \<not> has_file fs p then (Inl (''File does not exist: '' @ p), s)
             else write_and_commit io now version p source
                    (map (\<lambda>f. if pf_path f = p then project_file s p source else f) fs) s)"

definition create_file :: "disk_faults \<Rightarrow> nat \<Rightarrow> nat \<Rightarrow> string \<Rightarrow> string \<Rightarrow> session \<Rightarrow> snapshot res \<times> session" where
  "create_file io now version p source s =
     (let fs = sn_files (ss_snapshot s)
      in case assert_version (ss_snapshot s) version of
           Inl e \<Rightarrow> (Inl e, s)
         | Inr _ \<Rightarrow>
             if length fs \<ge> max_project_files
             then (Inl (''A project can contain at most '' @ show_nat max_project_files @ '' files''), s)
             else if has_file fs p then (Inl (''File already exists: '' @ p), s)
             else write_and_commit io now version p source (fs @ [project_file s p source]) s)"

text \<open>\<open>fs::rename\<close> fails when the source is gone, whatever the snapshot says.\<close>

definition rename_file :: "disk_faults \<Rightarrow> nat \<Rightarrow> nat \<Rightarrow> string \<Rightarrow> string \<Rightarrow> session \<Rightarrow> snapshot res \<times> session" where
  "rename_file io now version p new_path s =
     (let fs = sn_files (ss_snapshot s)
      in case assert_version (ss_snapshot s) version of
           Inl e \<Rightarrow> (Inl e, s)
         | Inr _ \<Rightarrow>
             if ss_entry_path s = p then (Inl (p @ '' cannot be renamed''), s)
             else (case find (\<lambda>f. pf_path f = p) fs of
                None \<Rightarrow> (Inl (''File does not exist: '' @ p), s)
              | Some current \<Rightarrow>
                  if has_file fs new_path then (Inl (''File already exists: '' @ new_path), s)
                  else (case df_mkdir io of Some e \<Rightarrow> (Inl e, s) | None \<Rightarrow>
                    (case ss_disk s p of
                       None \<Rightarrow> (Inl ''No such file or directory (os error 2)'', s)
                     | Some text \<Rightarrow> (case df_rename io of Some e \<Rightarrow> (Inl e, s) | None \<Rightarrow>
                         commit now version
                           (map (\<lambda>f. if pf_path f = p then project_file s new_path (pf_source current) else f) fs)
                           (s\<lparr>ss_disk := (ss_disk s)(p := None, new_path \<mapsto> text)\<rparr>))))))"

text \<open>The result of \<open>remove_file\<close> is ignored: the file may stay on disk.\<close>

definition delete_file :: "bool \<Rightarrow> nat \<Rightarrow> nat \<Rightarrow> string \<Rightarrow> session \<Rightarrow> snapshot res \<times> session" where
  "delete_file removed now version p s =
     (let fs = sn_files (ss_snapshot s)
      in case assert_version (ss_snapshot s) version of
           Inl e \<Rightarrow> (Inl e, s)
         | Inr _ \<Rightarrow>
             if ss_entry_path s = p then (Inl (p @ '' cannot be deleted''), s)
             else if \<not> has_file fs p then (Inl (''File does not exist: '' @ p), s)
             else commit now version (filter (\<lambda>f. pf_path f \<noteq> p) fs)
                    (if removed then s\<lparr>ss_disk := (ss_disk s)(p := None)\<rparr> else s))"

text \<open>\<open>tree\<close> is what the walk of the source root meets.\<close>

definition refresh_files :: "nat \<Rightarrow> node \<Rightarrow> session \<Rightarrow> snapshot res \<times> session" where
  "refresh_files now tree s =
     (if ss_workspace_id s = None then (Inr (ss_snapshot s), s)
      else commit now (sn_version (ss_snapshot s))
             (map (\<lambda>(p, source). project_file s p source) (read_sources tree)) s)"

definition replace_files :: "disk_faults \<Rightarrow> nat \<Rightarrow> nat \<Rightarrow> source_file list \<Rightarrow> session \<Rightarrow> snapshot res \<times> session" where
  "replace_files io now version sources s =
     (case validate_source_files sources of
        Inl e \<Rightarrow> (Inl e, s)
      | Inr _ \<Rightarrow>
          if \<not> list_ex (\<lambda>f. sf_path f = entry_file (ss_language s)) sources
          then (Inl ''Recovery is missing the language entry file'', s)
          else if version < sn_version (ss_snapshot s) then (Inl ''Regressive reset version'', s)
          else (case df_mkdir io of Some e \<Rightarrow> (Inl e, s) | None \<Rightarrow>
            (case df_write io of Some e \<Rightarrow> (Inl e, s) | None \<Rightarrow>
              (case df_rename io of
                 Some e \<Rightarrow> (Inl e, if df_restore_fails io then s\<lparr>ss_disk := Map.empty\<rparr> else s)
               | None \<Rightarrow>
                   commit now version (map (\<lambda>f. project_file s (sf_path f) (sf_source f)) sources)
                     (s\<lparr>ss_disk := map_of (map (\<lambda>f. (sf_path f, sf_source f)) sources)\<rparr>)))))"

definition pack_sources :: "workspace_scaffold \<Rightarrow> session \<Rightarrow> language_pack \<Rightarrow> source_file list" where
  "pack_sources scaffold_kind s pk =
     (if \<not> (case ss_support s (lp_id pk) of None \<Rightarrow> False | Some here \<Rightarrow> ls_present here) then []
      else if scaffold_kind = Minimal \<and> lp_id pk \<noteq> ss_language s then []
      else \<lparr>sf_path = lp_entry_file pk, sf_source = lp_default_source pk\<rparr>
           # (if scaffold_kind = Demo
              then map (\<lambda>(p, source). \<lparr>sf_path = p, sf_source = source\<rparr>) (lp_extra_files pk) else []))"

definition reset_files :: "disk_faults \<Rightarrow> nat \<Rightarrow> nat \<Rightarrow> workspace_scaffold \<Rightarrow> session \<Rightarrow> snapshot res \<times> session" where
  "reset_files io now version scaffold_kind s =
     (case assert_version (ss_snapshot s) version of
        Inl e \<Rightarrow> (Inl e, s)
      | Inr _ \<Rightarrow> replace_files io now version (concat (map (pack_sources scaffold_kind s) PACKS)) s)"

section \<open>What the store keeps\<close>

text \<open>A list of files that can be committed: distinct paths, their own URIs, within
  the limits, and each file's text what the tree under src/ holds.\<close>

definition listed_ok :: "session \<Rightarrow> project_file list \<Rightarrow> bool" where
  "listed_ok s fs \<longleftrightarrow> distinct (map pf_path fs) \<and> length fs \<le> max_project_files
     \<and> project_bytes fs \<le> max_project_bytes
     \<and> (\<forall>f\<in>set fs. pf_uri f = file_uri s (pf_path f) \<and> ss_disk s (pf_path f) = Some (pf_source f))"

definition entry_ok :: "session \<Rightarrow> bool" where
  "entry_ok s \<longleftrightarrow> (case find (\<lambda>f. pf_path f = ss_entry_path s) (sn_files (ss_snapshot s)) of
     None \<Rightarrow> False
   | Some main \<Rightarrow> sn_uri (ss_snapshot s) = pf_uri main \<and> sn_source (ss_snapshot s) = pf_source main)"

definition paths_sorted :: "project_file list \<Rightarrow> bool" where
  "paths_sorted fs \<longleftrightarrow> sorted_wrt (\<lambda>f g. locale_compare (pf_path f) (pf_path g) \<noteq> Greater) fs"

definition store_inv :: "session \<Rightarrow> bool" where
  "store_inv s \<longleftrightarrow> listed_ok s (sn_files (ss_snapshot s)) \<and> paths_sorted (sn_files (ss_snapshot s))
     \<and> entry_ok s \<and> ss_entry_path s = entry_file (ss_language s)"

lemma listed_ok_sort: "listed_ok s (sort_files fs) = listed_ok s fs"
  by (simp add: listed_ok_def sort_files_def distinct_map_sort_by project_bytes_def sum_sort_by)

lemma file_uri_frame [simp]: "file_uri (s\<lparr>ss_disk := d\<rparr>) p = file_uri s p"
  "file_uri (s\<lparr>ss_snapshot := sn\<rparr>) p = file_uri s p"
  by (simp_all add: file_uri_def)

lemma listed_ok_snapshot [simp]: "listed_ok (s\<lparr>ss_snapshot := sn\<rparr>) fs = listed_ok s fs"
  by (simp add: listed_ok_def)

lemma entry_ok_disk [simp]: "entry_ok (s\<lparr>ss_disk := d\<rparr>) = entry_ok s"
  by (simp add: entry_ok_def split: option.split)

lemma has_file_iff: "has_file fs p \<longleftrightarrow> (\<exists>f\<in>set fs. pf_path f = p)"
  by (auto simp: has_file_def list_ex_iff)

lemma has_file_paths: "has_file fs p \<longleftrightarrow> p \<in> set (map pf_path fs)"
  by (auto simp: has_file_iff)

lemma entry_in_files: "store_inv s \<Longrightarrow> has_file (sn_files (ss_snapshot s)) (ss_entry_path s)"
  by (auto simp: store_inv_def entry_ok_def has_file_iff split: option.splits dest!: find_SomeD)

lemma commit_ok:
  assumes "listed_ok s fs" and "has_file fs (ss_entry_path s)" and "ss_entry_path s = entry_file (ss_language s)"
    and "commit now version fs s = (r, s')"
  shows "\<exists>snap. r = Inr snap \<and> ss_snapshot s' = snap \<and> sn_version snap = version
    \<and> sn_files snap = sort_files fs \<and> store_inv s' \<and> ss_disk s' = ss_disk s"
proof -
  have "find (\<lambda>f. pf_path f = ss_entry_path s) (sort_files fs) \<noteq> None"
    using assms(2) by (auto simp: find_None_iff has_file_iff sort_files_def)
  then obtain main where main: "find (\<lambda>f. pf_path f = ss_entry_path s) (sort_files fs) = Some main" by blast
  define snap where "snap = \<lparr>sn_version = version, sn_uri = pf_uri main, sn_source = pf_source main,
                         sn_files = sort_files fs, sn_updated_at = now\<rparr>"
  have rs: "r = Inr snap" "s' = s\<lparr>ss_snapshot := snap\<rparr>"
    using assms(4) main by (simp_all add: commit_def Let_def snap_def)
  have "store_inv s'"
    using assms(1,3) main
    by (simp add: store_inv_def rs snap_def listed_ok_sort entry_ok_def paths_sorted_def)
      (simp add: sort_files_def path_order.sort_by_sorted)
  with rs show ?thesis by (simp add: snap_def)
qed

text \<open>The temporary of a write is no project file (its name is random), and a failed
  swap of a replacement puts the old tree back.\<close>

definition io_ok :: "disk_faults \<Rightarrow> string \<Rightarrow> session \<Rightarrow> bool" where
  "io_ok io p s \<longleftrightarrow> df_temporary io \<noteq> p \<and> \<not> has_file (sn_files (ss_snapshot s)) (df_temporary io)
     \<and> \<not> df_restore_fails io"

lemma write_and_commit_ok:
  assumes inv: "store_inv s" and io: "io_ok io p s"
    and fs: "distinct (map pf_path fs)" "length fs \<le> max_project_files" "has_file fs (ss_entry_path s)"
      "project_file s p source \<in> set fs"
      "\<forall>f\<in>set fs. f = project_file s p source \<or> (pf_path f \<noteq> p \<and> f \<in> set (sn_files (ss_snapshot s)))"
    and step: "write_and_commit io now version p source fs s = (r, s')"
  shows "store_inv s' \<and> (case r of
      Inl e \<Rightarrow> ss_snapshot s' = ss_snapshot s
    | Inr snap \<Rightarrow> ss_snapshot s' = snap \<and> sn_version snap = version \<and> sn_files snap = sort_files fs)"
proof (cases "project_bytes fs > max_project_bytes")
  case True
  with step inv show ?thesis by (auto simp: write_and_commit_def assert_project_size_def)
next
  case False
  obtain w disk where w: "atomic_write io p source (ss_disk s) = (w, disk)" by fastforce
  have disk: "disk q = (if q = p \<and> w = Inr () then Some source else ss_disk s q)"
    if "q \<noteq> df_temporary io" for q
    using w that by (auto simp: atomic_write_def Let_def split: option.splits)
  have tmp: "pf_path f \<noteq> df_temporary io" if "f \<in> set (sn_files (ss_snapshot s))" for f
    using io that by (auto simp: io_ok_def has_file_iff)
  have mirror: "ss_disk s (pf_path f) = Some (pf_source f) \<and> pf_uri f = file_uri s (pf_path f)"
    if "f \<in> set (sn_files (ss_snapshot s))" for f
    using inv that by (auto simp: store_inv_def listed_ok_def)
  show ?thesis
  proof (cases w)
    case (Inl e)
    have "store_inv (s\<lparr>ss_disk := disk\<rparr>)"
      using inv disk tmp Inl by (simp add: store_inv_def listed_ok_def)
    with step False w Inl show ?thesis
      by (auto simp: write_and_commit_def assert_project_size_def)
  next
    case (Inr u)
    have "listed_ok (s\<lparr>ss_disk := disk\<rparr>) fs"
      unfolding listed_ok_def
    proof (intro conjI ballI)
      fix f assume f: "f \<in> set fs"
      then consider "f = project_file s p source" | "pf_path f \<noteq> p" "f \<in> set (sn_files (ss_snapshot s))"
        using fs(5) by blast
      then show "ss_disk (s\<lparr>ss_disk := disk\<rparr>) (pf_path f) = Some (pf_source f)"
        using disk [of "pf_path f"] tmp mirror io Inr by cases (auto simp: project_file_def io_ok_def)
      show "pf_uri f = file_uri (s\<lparr>ss_disk := disk\<rparr>) (pf_path f)"
        using f fs(5) mirror by (auto simp: project_file_def)
    qed (use False fs in auto)
    moreover have "ss_entry_path s = entry_file (ss_language s)" using inv by (simp add: store_inv_def)
    moreover have "commit now version fs (s\<lparr>ss_disk := disk\<rparr>) = (r, s')"
      using step False w Inr by (simp add: write_and_commit_def assert_project_size_def)
    ultimately show ?thesis
      using commit_ok [of "s\<lparr>ss_disk := disk\<rparr>" fs now version r s'] fs(3) by auto
  qed
qed

lemma update_ok:
  assumes inv: "store_inv s" and io: "io_ok io p s" and step: "update io now version p source s = (r, s')"
  shows "store_inv s' \<and> (case r of
      Inl e \<Rightarrow> ss_snapshot s' = ss_snapshot s
    | Inr snap \<Rightarrow> ss_snapshot s' = snap \<and> sn_version snap = version \<and> sn_version (ss_snapshot s) < version
        \<and> sn_files snap = sort_files
            (map (\<lambda>f. if pf_path f = p then project_file s p source else f) (sn_files (ss_snapshot s))))"
proof (cases "version \<le> sn_version (ss_snapshot s) \<or> \<not> has_file (sn_files (ss_snapshot s)) p")
  case True
  with step inv show ?thesis by (auto simp: update_def assert_version_def Let_def split: if_splits)
next
  case False
  let ?fs = "map (\<lambda>f. if pf_path f = p then project_file s p source else f) (sn_files (ss_snapshot s))"
  have paths: "map pf_path ?fs = map pf_path (sn_files (ss_snapshot s))"
    by (auto simp: project_file_def)
  have "has_file ?fs (ss_entry_path s)"
    using entry_in_files [OF inv] by (simp only: has_file_paths paths)
  moreover have "project_file s p source \<in> set ?fs"
    using False by (auto simp: has_file_iff image_iff)
  moreover have "distinct (map pf_path ?fs)" "length ?fs \<le> max_project_files"
    unfolding paths using inv by (simp_all add: store_inv_def listed_ok_def)
  moreover have "\<forall>f\<in>set ?fs. f = project_file s p source
      \<or> (pf_path f \<noteq> p \<and> f \<in> set (sn_files (ss_snapshot s)))"
    by auto
  moreover have "write_and_commit io now version p source ?fs s = (r, s')"
    using step False by (simp add: update_def assert_version_def Let_def)
  ultimately have "store_inv s' \<and> (case r of
      Inl e \<Rightarrow> ss_snapshot s' = ss_snapshot s
    | Inr snap \<Rightarrow> ss_snapshot s' = snap \<and> sn_version snap = version \<and> sn_files snap = sort_files ?fs)"
    by (intro write_and_commit_ok [OF inv io])
  with False show ?thesis by (cases r) simp_all
qed

lemma create_file_ok:
  assumes inv: "store_inv s" and io: "io_ok io p s" and step: "create_file io now version p source s = (r, s')"
  shows "store_inv s' \<and> (case r of
      Inl e \<Rightarrow> ss_snapshot s' = ss_snapshot s
    | Inr snap \<Rightarrow> ss_snapshot s' = snap \<and> sn_version snap = version \<and> sn_version (ss_snapshot s) < version
        \<and> \<not> has_file (sn_files (ss_snapshot s)) p
        \<and> sn_files snap = sort_files (sn_files (ss_snapshot s) @ [project_file s p source]))"
proof (cases "version \<le> sn_version (ss_snapshot s) \<or> length (sn_files (ss_snapshot s)) \<ge> max_project_files
    \<or> has_file (sn_files (ss_snapshot s)) p")
  case True
  with step inv show ?thesis by (auto simp: create_file_def assert_version_def Let_def split: if_splits)
next
  case False
  let ?fs = "sn_files (ss_snapshot s) @ [project_file s p source]"
  have "has_file ?fs (ss_entry_path s)"
    using entry_in_files [OF inv] by (simp add: has_file_iff)
  moreover have "distinct (map pf_path ?fs)"
    using inv False by (simp add: store_inv_def listed_ok_def has_file_paths project_file_def)
  moreover have "length ?fs \<le> max_project_files" using False by simp
  moreover have "write_and_commit io now version p source ?fs s = (r, s')"
    using step False by (simp add: create_file_def assert_version_def Let_def)
  moreover have "\<forall>f\<in>set ?fs. f = project_file s p source
      \<or> (pf_path f \<noteq> p \<and> f \<in> set (sn_files (ss_snapshot s)))"
    using False by (auto simp: has_file_iff)
  moreover have "project_file s p source \<in> set ?fs" by simp
  ultimately have "store_inv s' \<and> (case r of
      Inl e \<Rightarrow> ss_snapshot s' = ss_snapshot s
    | Inr snap \<Rightarrow> ss_snapshot s' = snap \<and> sn_version snap = version \<and> sn_files snap = sort_files ?fs)"
    by (intro write_and_commit_ok [OF inv io])
  with False show ?thesis by (cases r) simp_all
qed

end
