(* ===== verification/Versions.thy ===== *)
theory Versions
  imports Store
begin

text \<open>
  The document store as a versioned state: the remaining operations keep its
  invariant, and the contract every client of the store relies on (an accepted
  write moves the version forward, a refused one changes nothing that can be
  read) is the locale \<open>versioned_store\<close>, interpreted on the store's own step.
\<close>

section \<open>Rename, delete, refresh, replace\<close>

lemma rename_file_ok:
  assumes inv: "store_inv s" and step: "rename_file io now version p new_path s = (r, s')"
  shows "store_inv s' \<and> (case r of
      Inl e \<Rightarrow> ss_snapshot s' = ss_snapshot s
    | Inr snap \<Rightarrow> ss_snapshot s' = snap \<and> sn_version snap = version \<and> sn_version (ss_snapshot s) < version
        \<and> \<not> has_file (sn_files (ss_snapshot s)) new_path
        \<and> (\<exists>current \<in> set (sn_files (ss_snapshot s)). pf_path current = p
            \<and> sn_files snap = sort_files (map (\<lambda>f. if pf_path f = p
                then project_file s new_path (pf_source current) else f) (sn_files (ss_snapshot s)))))"
proof -
  let ?fs = "sn_files (ss_snapshot s)"
  show ?thesis
  proof (cases "version \<le> sn_version (ss_snapshot s) \<or> ss_entry_path s = p
      \<or> find (\<lambda>f. pf_path f = p) ?fs = None \<or> has_file ?fs new_path
      \<or> df_mkdir io \<noteq> None \<or> ss_disk s p = None \<or> df_rename io \<noteq> None")
    case True
    with step inv show ?thesis
      by (auto simp: rename_file_def assert_version_def Let_def split: if_splits option.splits)
  next
    case False
    then obtain current content where c: "find (\<lambda>f. pf_path f = p) ?fs = Some current" and t: "ss_disk s p = Some content"
      by auto
    from find_SomeD [OF c] have cur: "current \<in> set ?fs" "pf_path current = p" by auto
    let ?gs = "map (\<lambda>f. if pf_path f = p then project_file s new_path (pf_source current) else f) ?fs"
    let ?s1 = "s\<lparr>ss_disk := (ss_disk s)(p := None, new_path \<mapsto> content)\<rparr>"
    have ok: "distinct (map pf_path ?fs)" "\<forall>f\<in>set ?fs. pf_uri f = file_uri s (pf_path f)
        \<and> ss_disk s (pf_path f) = Some (pf_source f)" "length ?fs \<le> max_project_files"
      "project_bytes ?fs \<le> max_project_bytes" "ss_entry_path s = entry_file (ss_language s)"
      using inv by (auto simp: store_inv_def listed_ok_def)
    have new: "\<forall>f\<in>set ?fs. pf_path f \<noteq> new_path" using False by (auto simp: has_file_iff)
    have same: "f = current" if "f \<in> set ?fs" "pf_path f = p" for f
      using ok(1) cur that by (metis distinct_map inj_onD)
    have content: "content = pf_source current" using ok(2) cur t by auto
    have paths: "map pf_path ?gs = map (\<lambda>x. if x = p then new_path else x) (map pf_path ?fs)"
      by (simp add: project_file_def)
    have "inj_on (\<lambda>x. if x = p then new_path else x) (set (map pf_path ?fs))"
      using new by (auto simp: inj_on_def)
    then have "distinct (map pf_path ?gs)" unfolding paths using ok(1) by (simp only: distinct_map simp_thms)
    moreover have "project_bytes ?gs = project_bytes ?fs"
      unfolding project_bytes_def map_map o_def
      by (rule arg_cong [of _ _ sum_list], rule map_cong) (auto simp: project_file_def dest: same)
    moreover have "\<forall>f\<in>set ?gs. pf_uri f = file_uri ?s1 (pf_path f) \<and> ss_disk ?s1 (pf_path f) = Some (pf_source f)"
      using ok(2) new content by (auto simp: project_file_def)
    ultimately have "listed_ok ?s1 ?gs" using ok by (simp add: listed_ok_def)
    moreover have "has_file ?gs (ss_entry_path ?s1)"
      using entry_in_files [OF inv] False by (auto simp: has_file_iff)
    moreover have "commit now version ?gs ?s1 = (r, s')"
      using step False c t by (auto simp: rename_file_def assert_version_def Let_def)
    ultimately show ?thesis
      using commit_ok [of ?s1 ?gs now version r s'] ok(5) False cur by (cases r) auto
  qed
qed

lemma delete_file_ok:
  assumes inv: "store_inv s" and step: "delete_file removed now version p s = (r, s')"
  shows "store_inv s' \<and> (case r of
      Inl e \<Rightarrow> ss_snapshot s' = ss_snapshot s
    | Inr snap \<Rightarrow> ss_snapshot s' = snap \<and> sn_version snap = version \<and> sn_version (ss_snapshot s) < version
        \<and> p \<noteq> ss_entry_path s
        \<and> sn_files snap = sort_files (filter (\<lambda>f. pf_path f \<noteq> p) (sn_files (ss_snapshot s))))"
proof -
  let ?fs = "sn_files (ss_snapshot s)"
  show ?thesis
  proof (cases "version \<le> sn_version (ss_snapshot s) \<or> ss_entry_path s = p \<or> \<not> has_file ?fs p")
    case True
    with step inv show ?thesis
      by (auto simp: delete_file_def assert_version_def Let_def split: if_splits)
  next
    case False
    let ?s1 = "if removed then s\<lparr>ss_disk := (ss_disk s)(p := None)\<rparr> else s"
    let ?gs = "filter (\<lambda>f. pf_path f \<noteq> p) ?fs"
    have ok: "listed_ok s ?fs" "ss_entry_path s = entry_file (ss_language s)"
      using inv by (auto simp: store_inv_def)
    have "project_bytes ?gs \<le> project_bytes ?fs"
      unfolding project_bytes_def by (induction ?fs) (auto simp: sum_list_filter_le_nat)
    then have "listed_ok ?s1 ?gs"
      using ok(1) by (auto simp: listed_ok_def distinct_map_filter le_trans [OF length_filter_le])
    moreover have "has_file ?gs (ss_entry_path ?s1)"
      using entry_in_files [OF inv] False by (auto simp: has_file_iff)
    moreover have "commit now version ?gs ?s1 = (r, s')"
      using step False by (simp add: delete_file_def assert_version_def Let_def)
    moreover have "ss_entry_path ?s1 = entry_file (ss_language ?s1)" using ok(2) by simp
    ultimately obtain snap where "r = Inr snap" "ss_snapshot s' = snap" "sn_version snap = version"
      "sn_files snap = sort_files ?gs" "store_inv s'"
      using commit_ok [of ?s1 ?gs now version r s'] by blast
    with False show ?thesis by auto
  qed
qed

text \<open>A walk that shows the tree under src/, each file once.\<close>

definition shows_disk :: "node \<Rightarrow> session \<Rightarrow> bool" where
  "shows_disk tree s \<longleftrightarrow> distinct (map fst (read_sources tree))
     \<and> (\<forall>(p, source)\<in>set (read_sources tree). ss_disk s p = Some source)
     \<and> ss_entry_path s \<in> fst ` set (read_sources tree)"

lemma refresh_files_ok:
  assumes inv: "store_inv s" and tree: "shows_disk tree s" and step: "refresh_files now tree s = (r, s')"
  shows "store_inv s' \<and> (\<exists>snap. r = Inr snap \<and> ss_snapshot s' = snap \<and> sn_version snap = sn_version (ss_snapshot s))"
proof (cases "ss_workspace_id s = None")
  case True
  with inv step show ?thesis by (auto simp: refresh_files_def)
next
  case False
  let ?gs = "map (\<lambda>(p, source). project_file s p source) (read_sources tree)"
  have lim: "length (read_sources tree) \<le> max_project_files"
    "(\<Sum>f\<leftarrow>read_sources tree. length (snd f)) \<le> max_project_bytes"
    using scan_tree_ok [of tree "\<lparr>sc_found = [], sc_total = 0, sc_pending = [([], tree)]\<rparr>"]
    by (auto simp: read_sources_def scan_ok_def sum_sort_by reaches_root)
  have "map pf_path ?gs = map fst (read_sources tree)" by (simp add: case_prod_beta project_file_def)
  moreover have "project_bytes ?gs = (\<Sum>f\<leftarrow>read_sources tree. length (snd f))"
    by (simp add: project_bytes_def case_prod_beta project_file_def o_def)
  moreover have "\<forall>f\<in>set ?gs. pf_uri f = file_uri s (pf_path f) \<and> ss_disk s (pf_path f) = Some (pf_source f)"
    using tree by (auto simp: shows_disk_def project_file_def)
  ultimately have "listed_ok s ?gs"
    using lim tree by (simp only: listed_ok_def shows_disk_def length_map simp_thms)
  moreover have "has_file ?gs (ss_entry_path s)"
    using tree by (force simp: shows_disk_def has_file_iff project_file_def)
  moreover have "commit now (sn_version (ss_snapshot s)) ?gs s = (r, s')"
    using step False by (simp add: refresh_files_def)
  moreover have "ss_entry_path s = entry_file (ss_language s)" using inv by (simp add: store_inv_def)
  ultimately show ?thesis using commit_ok [of s ?gs] by blast
qed

lemma replace_files_ok:
  assumes inv: "store_inv s" and io: "\<not> df_restore_fails io"
    and step: "replace_files io now version sources s = (r, s')"
  shows "store_inv s' \<and> (case r of
      Inl e \<Rightarrow> ss_snapshot s' = ss_snapshot s \<and> ss_disk s' = ss_disk s
    | Inr snap \<Rightarrow> ss_snapshot s' = snap \<and> sn_version snap = version \<and> sn_version (ss_snapshot s) \<le> version
        \<and> ss_disk s' = map_of (map (\<lambda>f. (sf_path f, sf_source f)) sources)
        \<and> sn_files snap = sort_files (map (\<lambda>f. project_file s (sf_path f) (sf_source f)) sources))"
proof (cases "validate_source_files sources = Inr () \<and> list_ex (\<lambda>f. sf_path f = entry_file (ss_language s)) sources
    \<and> \<not> version < sn_version (ss_snapshot s) \<and> df_mkdir io = None \<and> df_write io = None \<and> df_rename io = None")
  case False
  with step inv io show ?thesis
    by (auto simp: replace_files_def split: sum.splits if_splits option.splits)
next
  case True
  let ?gs = "map (\<lambda>f. project_file s (sf_path f) (sf_source f)) sources"
  let ?s1 = "s\<lparr>ss_disk := map_of (map (\<lambda>f. (sf_path f, sf_source f)) sources)\<rparr>"
  have v: "distinct (map sf_path sources)" "length sources \<le> max_project_files"
    "(\<Sum>f\<leftarrow>sources. length (sf_source f)) \<le> max_project_bytes"
    using True by (auto simp: validate_source_files_Inr o_def)
  have paths: "map pf_path ?gs = map sf_path sources" by (simp add: project_file_def)
  have "map_of (map (\<lambda>f. (sf_path f, sf_source f)) sources) (sf_path f) = Some (sf_source f)"
    if "f \<in> set sources" for f
    using that v(1) by (intro map_of_is_SomeI) (auto simp: o_def)
  then have "\<forall>f\<in>set ?gs. pf_uri f = file_uri ?s1 (pf_path f) \<and> ss_disk ?s1 (pf_path f) = Some (pf_source f)"
    by (auto simp: project_file_def)
  moreover have "project_bytes ?gs = (\<Sum>f\<leftarrow>sources. length (sf_source f))"
    by (simp add: project_bytes_def project_file_def o_def)
  ultimately have "listed_ok ?s1 ?gs"
    using v paths by (simp only: listed_ok_def length_map simp_thms)
  moreover have e: "ss_entry_path s = entry_file (ss_language s)" using inv by (simp add: store_inv_def)
  moreover have "has_file ?gs (ss_entry_path ?s1)"
    using True e by (auto simp: has_file_iff list_ex_iff project_file_def)
  moreover have "commit now version ?gs ?s1 = (r, s')"
    using step True by (simp add: replace_files_def)
  ultimately show ?thesis
    using commit_ok [of ?s1 ?gs now version r s'] True by (cases r) auto
qed

lemma reset_files_ok:
  assumes inv: "store_inv s" and io: "\<not> df_restore_fails io"
    and step: "reset_files io now version kind s = (r, s')"
  shows "store_inv s' \<and> (case r of
      Inl e \<Rightarrow> ss_snapshot s' = ss_snapshot s
    | Inr snap \<Rightarrow> ss_snapshot s' = snap \<and> sn_version snap = version \<and> sn_version (ss_snapshot s) < version)"
proof (cases "version \<le> sn_version (ss_snapshot s)")
  case True
  with step inv show ?thesis by (auto simp: reset_files_def assert_version_def)
next
  case False
  with step have "replace_files io now version (concat (map (pack_sources kind s) PACKS)) s = (r, s')"
    by (simp add: reset_files_def assert_version_def)
  from replace_files_ok [OF inv io this] False show ?thesis by (cases r) auto
qed

section \<open>The contract\<close>

text \<open>A state that is written through versioned commands.  \<open>fair\<close> says what a command
  may assume of its environment, \<open>strict\<close> which commands must move the version.\<close>

fun run_cmds :: "('c \<Rightarrow> 's \<Rightarrow> ('e + 'x) \<times> 's) \<Rightarrow> 'c list \<Rightarrow> 's \<Rightarrow> 's" where
  "run_cmds step [] s = s"
| "run_cmds step (c # cs) s = run_cmds step cs (snd (step c s))"

fun fair_run :: "('c \<Rightarrow> 's \<Rightarrow> ('e + 'x) \<times> 's) \<Rightarrow> ('c \<Rightarrow> 's \<Rightarrow> bool) \<Rightarrow> 'c list \<Rightarrow> 's \<Rightarrow> bool" where
  "fair_run step fair [] s = True"
| "fair_run step fair (c # cs) s = (fair c s \<and> fair_run step fair cs (snd (step c s)))"

locale versioned_store =
  fixes step :: "'c \<Rightarrow> 's \<Rightarrow> ('e + 'x) \<times> 's"
    and version :: "'s \<Rightarrow> nat"
    and view :: "'s \<Rightarrow> 'v"
    and good :: "'s \<Rightarrow> bool"
    and fair :: "'c \<Rightarrow> 's \<Rightarrow> bool"
    and strict :: "'c \<Rightarrow> bool"
  assumes keeps: "good s \<Longrightarrow> fair c s \<Longrightarrow> good (snd (step c s))"
    and refused: "good s \<Longrightarrow> fair c s \<Longrightarrow> fst (step c s) = Inl e \<Longrightarrow> view (snd (step c s)) = view s"
    and accepted: "good s \<Longrightarrow> fair c s \<Longrightarrow> fst (step c s) = Inr x \<Longrightarrow>
      version s \<le> version (snd (step c s)) \<and> (strict c \<longrightarrow> version s < version (snd (step c s)))"
    and version_seen: "view s = view s' \<Longrightarrow> version s = version s'"
begin

lemma step_version:
  assumes "good s" and "fair c s"
  shows "version s \<le> version (snd (step c s))"
proof (cases "fst (step c s)")
  case (Inl e)
  from version_seen [OF refused [OF assms Inl]] show ?thesis by simp
next
  case (Inr x)
  from accepted [OF assms Inr] show ?thesis by simp
qed

lemma run_good: "good s \<Longrightarrow> fair_run step fair cs s \<Longrightarrow> good (run_cmds step cs s)"
  by (induction cs arbitrary: s) (auto simp: keeps)

lemma run_version: "good s \<Longrightarrow> fair_run step fair cs s \<Longrightarrow> version s \<le> version (run_cmds step cs s)"
proof (induction cs arbitrary: s)
  case (Cons c cs)
  then have "good s" "fair c s" and rest: "fair_run step fair cs (snd (step c s))" by simp_all
  from le_trans [OF step_version [OF this(1,2)] Cons.IH [OF keeps [OF this(1,2)] rest]]
  show ?case by simp
qed simp

text \<open>An edit accepted at some version is refused when it is sent again.\<close>

lemma no_replay:
  assumes "good s" "fair c s" "fst (step c s) = Inr x" "strict c"
    and "fair_run step fair cs (snd (step c s))"
  shows "version s < version (run_cmds step cs (snd (step c s)))"
  using accepted [OF assms(1-3)] assms(4) run_version [OF keeps [OF assms(1,2)] assms(5)] by simp

end

section \<open>The store's step\<close>

datatype store_op =
    OpUpdate string string
  | OpCreate string string
  | OpRenameFile string string
  | OpDelete string bool
  | OpRefresh node
  | OpReplace "source_file list"
  | OpReset workspace_scaffold

record store_cmd =
  sc_io :: disk_faults
  sc_now :: nat
  sc_version :: nat
  sc_op :: store_op

definition store_step :: "store_cmd \<Rightarrow> session \<Rightarrow> snapshot res \<times> session" where
  "store_step c s =
     (case sc_op c of
        OpUpdate p source \<Rightarrow> update (sc_io c) (sc_now c) (sc_version c) p source s
      | OpCreate p source \<Rightarrow> create_file (sc_io c) (sc_now c) (sc_version c) p source s
      | OpRenameFile p q \<Rightarrow> rename_file (sc_io c) (sc_now c) (sc_version c) p q s
      | OpDelete p removed \<Rightarrow> delete_file removed (sc_now c) (sc_version c) p s
      | OpRefresh tree \<Rightarrow> refresh_files (sc_now c) tree s
      | OpReplace sources \<Rightarrow> replace_files (sc_io c) (sc_now c) (sc_version c) sources s
      | OpReset kind \<Rightarrow> reset_files (sc_io c) (sc_now c) (sc_version c) kind s)"

definition store_fair :: "store_cmd \<Rightarrow> session \<Rightarrow> bool" where
  "store_fair c s =
     (case sc_op c of
        OpUpdate p source \<Rightarrow> io_ok (sc_io c) p s
      | OpCreate p source \<Rightarrow> io_ok (sc_io c) p s
      | OpRefresh tree \<Rightarrow> shows_disk tree s
      | OpReplace sources \<Rightarrow> \<not> df_restore_fails (sc_io c)
      | OpReset kind \<Rightarrow> \<not> df_restore_fails (sc_io c)
      | _ \<Rightarrow> True)"

definition store_strict :: "store_cmd \<Rightarrow> bool" where
  "store_strict c = (case sc_op c of OpRefresh _ \<Rightarrow> False | OpReplace _ \<Rightarrow> False | _ \<Rightarrow> True)"

definition store_version :: "session \<Rightarrow> nat" where
  "store_version s = sn_version (ss_snapshot s)"

lemma store_step_ok:
  assumes "store_inv s" and "store_fair c s" and "store_step c s = (r, s')"
  shows "store_inv s' \<and> (case r of
      Inl e \<Rightarrow> ss_snapshot s' = ss_snapshot s
    | Inr snap \<Rightarrow> ss_snapshot s' = snap \<and> store_version s \<le> sn_version snap
        \<and> (store_strict c \<longrightarrow> store_version s < sn_version snap))"
proof (cases "sc_op c")
  case (OpUpdate p source)
  with assms update_ok [OF assms(1), of "sc_io c" p "sc_now c" "sc_version c" source r s'] show ?thesis
    by (cases r) (auto simp: store_step_def store_fair_def store_version_def)
next
  case (OpCreate p source)
  with assms create_file_ok [OF assms(1), of "sc_io c" p "sc_now c" "sc_version c" source r s'] show ?thesis
    by (cases r) (auto simp: store_step_def store_fair_def store_version_def)
next
  case (OpRenameFile p q)
  with assms rename_file_ok [OF assms(1), of "sc_io c" "sc_now c" "sc_version c" p q r s'] show ?thesis
    by (cases r) (auto simp: store_step_def store_version_def)
next
  case (OpDelete p removed)
  with assms delete_file_ok [OF assms(1), of removed "sc_now c" "sc_version c" p r s'] show ?thesis
    by (cases r) (auto simp: store_step_def store_version_def)
next
  case (OpRefresh tree)
  with assms refresh_files_ok [OF assms(1), of tree "sc_now c" r s'] show ?thesis
    by (auto simp: store_step_def store_fair_def store_version_def store_strict_def)
next
  case (OpReplace sources)
  with assms replace_files_ok [OF assms(1), of "sc_io c" "sc_now c" "sc_version c" sources r s'] show ?thesis
    by (cases r) (auto simp: store_step_def store_fair_def store_version_def store_strict_def)
next
  case (OpReset kind)
  with assms reset_files_ok [OF assms(1), of "sc_io c" "sc_now c" "sc_version c" kind r s'] show ?thesis
    by (cases r) (auto simp: store_step_def store_fair_def store_version_def)
qed

interpretation document: versioned_store store_step store_version ss_snapshot store_inv store_fair store_strict
proof unfold_locales
  fix s :: session and c
  assume s: "store_inv s" "store_fair c s"
  note ok = store_step_ok [OF s surjective_pairing]
  show "store_inv (snd (store_step c s))" using ok by simp
  show "ss_snapshot (snd (store_step c s)) = ss_snapshot s" if "fst (store_step c s) = Inl e" for e
    using ok that by simp
  show "store_version s \<le> store_version (snd (store_step c s))
      \<and> (store_strict c \<longrightarrow> store_version s < store_version (snd (store_step c s)))"
    if "fst (store_step c s) = Inr x" for x
    using ok that by (auto simp: store_version_def)
qed (simp add: store_version_def)

section \<open>The store as a map\<close>

text \<open>What a client of the store sees of it: texts by path.\<close>

definition listing :: "project_file list \<Rightarrow> string \<Rightarrow> string option" where
  "listing fs = map_of (map (\<lambda>f. (pf_path f, pf_source f)) fs)"

definition project :: "session \<Rightarrow> string \<Rightarrow> string option" where
  "project s = listing (sn_files (ss_snapshot s))"

fun spec_edit :: "string \<Rightarrow> store_op \<Rightarrow> (string \<Rightarrow> string option) \<Rightarrow> (string \<Rightarrow> string option) option" where
  "spec_edit entry (OpUpdate p source) m = (if m p = None then None else Some (m(p \<mapsto> source)))"
| "spec_edit entry (OpCreate p source) m = (if m p = None then Some (m(p \<mapsto> source)) else None)"
| "spec_edit entry (OpRenameFile p q) m =
     (if p = entry \<or> m p = None \<or> m q \<noteq> None then None else Some (m(p := None, q := m p)))"
| "spec_edit entry (OpDelete p removed) m =
     (if p = entry \<or> m p = None then None else Some (m(p := None)))"
| "spec_edit entry _ m = None"

lemma listing_Some:
  "distinct (map pf_path fs) \<Longrightarrow> listing fs p = Some t \<longleftrightarrow> (\<exists>f\<in>set fs. pf_path f = p \<and> pf_source f = t)"
  unfolding listing_def by (subst map_of_eq_Some_iff) (auto simp: o_def)

lemma listing_None: "listing fs p = None \<longleftrightarrow> \<not> has_file fs p"
  by (force simp: listing_def has_file_iff map_of_eq_None_iff)

lemma listing_eqI:
  assumes "distinct (map pf_path fs)"
    and "\<And>p t. (\<exists>f\<in>set fs. pf_path f = p \<and> pf_source f = t) \<longleftrightarrow> m p = Some t"
  shows "listing fs = m"
proof
  fix p show "listing fs p = m p"
    using assms listing_Some [OF assms(1), of p] by (cases "m p"; cases "listing fs p") auto
qed

lemma sort_files_facts [simp]: "set (sort_files fs) = set fs"
  by (simp add: sort_files_def)

lemma stored_distinct: "store_inv s \<Longrightarrow> distinct (map pf_path (sn_files (ss_snapshot s)))"
  by (simp add: store_inv_def listed_ok_def)

lemma edit_refines:
  assumes inv: "store_inv s" and fair: "store_fair c s" and step: "store_step c s = (Inr snap, s')"
    and edit: "case sc_op c of OpRefresh _ \<Rightarrow> False | OpReplace _ \<Rightarrow> False | OpReset _ \<Rightarrow> False | _ \<Rightarrow> True"
  shows "spec_edit (ss_entry_path s) (sc_op c) (project s) = Some (project s')"
proof -
  have inv': "store_inv s'" using store_step_ok [OF inv fair step] by simp
  note d = stored_distinct [OF inv] and d' = stored_distinct [OF inv']
  note some = listing_Some [OF d, folded project_def]
  have none: "project s p = None \<longleftrightarrow> \<not> has_file (sn_files (ss_snapshot s)) p" for p
    by (simp add: project_def listing_None)
  show ?thesis
  proof (cases "sc_op c")
    case (OpUpdate p source)
    with step fair update_ok [OF inv, of "sc_io c" p "sc_now c" "sc_version c" source "Inr snap" s']
    have fs: "sn_files (ss_snapshot s') = sort_files
        (map (\<lambda>f. if pf_path f = p then project_file s p source else f) (sn_files (ss_snapshot s)))"
      and has: "has_file (sn_files (ss_snapshot s)) p"
      by (auto simp: store_step_def store_fair_def update_def assert_version_def Let_def split: if_splits)
    have "project s' = (project s)(p \<mapsto> source)"
      unfolding project_def [of s']
    proof (rule listing_eqI [OF d'])
      fix q t
      show "(\<exists>f\<in>set (sn_files (ss_snapshot s')). pf_path f = q \<and> pf_source f = t)
          \<longleftrightarrow> ((project s)(p \<mapsto> source)) q = Some t"
        using has by (cases "q = p") (auto simp: fs some project_file_def has_file_iff simp del: if_image_distrib)
    qed
    with OpUpdate has none [of p] show ?thesis by simp
  next
    case (OpCreate p source)
    with step fair create_file_ok [OF inv, of "sc_io c" p "sc_now c" "sc_version c" source "Inr snap" s']
    have fs: "sn_files (ss_snapshot s') = sort_files (sn_files (ss_snapshot s) @ [project_file s p source])"
      and has: "\<not> has_file (sn_files (ss_snapshot s)) p"
      by (auto simp: store_step_def store_fair_def)
    have "project s' = (project s)(p \<mapsto> source)"
      unfolding project_def [of s']
    proof (rule listing_eqI [OF d'])
      fix q t
      show "(\<exists>f\<in>set (sn_files (ss_snapshot s')). pf_path f = q \<and> pf_source f = t)
          \<longleftrightarrow> ((project s)(p \<mapsto> source)) q = Some t"
        using has by (cases "q = p") (auto simp: fs some project_file_def has_file_iff)
    qed
    with OpCreate has none [of p] show ?thesis by simp
  next
    case (OpRenameFile p q)
    from step OpRenameFile have st: "rename_file (sc_io c) (sc_now c) (sc_version c) p q s = (Inr snap, s')"
      by (simp add: store_step_def)
    from rename_file_ok [OF inv this] obtain cur where
      cur: "cur \<in> set (sn_files (ss_snapshot s))" "pf_path cur = p" and
      fs: "sn_files (ss_snapshot s') = sort_files (map (\<lambda>f. if pf_path f = p
                then project_file s q (pf_source cur) else f) (sn_files (ss_snapshot s)))"
      and nq: "\<not> has_file (sn_files (ss_snapshot s)) q"
      by auto
    have ne: "p \<noteq> ss_entry_path s"
      using st by (auto simp: rename_file_def Let_def assert_version_def split: if_splits)
    have mp: "project s p = Some (pf_source cur)" using cur some by auto
    have "project s' = (project s)(p := None, q \<mapsto> pf_source cur)"
      unfolding project_def [of s']
    proof (rule listing_eqI [OF d'])
      fix x t
      show "(\<exists>f\<in>set (sn_files (ss_snapshot s')). pf_path f = x \<and> pf_source f = t)
          \<longleftrightarrow> ((project s)(p := None, q \<mapsto> pf_source cur)) x = Some t"
        using cur nq by (cases "x = q"; cases "x = p")
          (auto simp: fs some project_file_def has_file_iff simp del: if_image_distrib)
    qed
    with OpRenameFile ne mp nq none [of q] show ?thesis by simp
  next
    case (OpDelete p removed)
    from step OpDelete have st: "delete_file removed (sc_now c) (sc_version c) p s = (Inr snap, s')"
      by (simp add: store_step_def)
    from delete_file_ok [OF inv this] have
      fs: "sn_files (ss_snapshot s') = sort_files (filter (\<lambda>f. pf_path f \<noteq> p) (sn_files (ss_snapshot s)))"
      and ne: "p \<noteq> ss_entry_path s"
      by auto
    have has: "has_file (sn_files (ss_snapshot s)) p"
      using st by (auto simp: delete_file_def Let_def assert_version_def split: if_splits)
    have "project s' = (project s)(p := None)"
      unfolding project_def [of s']
    proof (rule listing_eqI [OF d'])
      fix x t
      show "(\<exists>f\<in>set (sn_files (ss_snapshot s')). pf_path f = x \<and> pf_source f = t)
          \<longleftrightarrow> ((project s)(p := None)) x = Some t"
        by (cases "x = p") (auto simp: fs some)
    qed
    with OpDelete ne has none [of p] show ?thesis by simp
  qed (use edit in simp_all)
qed

lemma strict_stale: "store_strict c \<Longrightarrow> sc_version c \<le> store_version s \<Longrightarrow> \<exists>e. fst (store_step c s) = Inl e"
  by (cases "sc_op c")
    (auto simp: store_strict_def store_step_def store_version_def update_def create_file_def
      rename_file_def delete_file_def reset_files_def assert_version_def)

lemma strict_accepted_version:
  assumes "store_inv s" "store_fair c s" "store_step c s = (Inr snap, s')" "store_strict c"
  shows "store_version s' = sc_version c"
proof (cases "sc_op c")
  case (OpUpdate p source)
  with assms update_ok [OF assms(1), of "sc_io c" p "sc_now c" "sc_version c" source "Inr snap" s'] show ?thesis
    by (auto simp: store_step_def store_fair_def store_version_def)
next
  case (OpCreate p source)
  with assms create_file_ok [OF assms(1), of "sc_io c" p "sc_now c" "sc_version c" source "Inr snap" s'] show ?thesis
    by (auto simp: store_step_def store_fair_def store_version_def)
next
  case (OpRenameFile p q)
  with assms rename_file_ok [OF assms(1), of "sc_io c" "sc_now c" "sc_version c" p q "Inr snap" s'] show ?thesis
    by (auto simp: store_step_def store_version_def)
next
  case (OpDelete p removed)
  with assms delete_file_ok [OF assms(1), of removed "sc_now c" "sc_version c" p "Inr snap" s'] show ?thesis
    by (auto simp: store_step_def store_version_def)
next
  case (OpReset kind)
  with assms reset_files_ok [OF assms(1), of "sc_io c" "sc_now c" "sc_version c" kind "Inr snap" s'] show ?thesis
    by (auto simp: store_step_def store_fair_def store_version_def)
qed (use assms(4) in \<open>simp_all add: store_strict_def\<close>)

section \<open>Properties\<close>

text \<open>C5: the project is a map from paths to texts: an accepted update, create,
  rename or delete does to it exactly what the same edit does to a map (an update
  of a missing file, a create or rename onto an existing one, a rename or delete
  of the entry file are not accepted), and afterwards the tree on disk holds
  every file of the snapshot with the text the snapshot shows.\<close>
theorem store_edit_refines_map:
  assumes "store_inv s" and "store_fair c s" and "store_step c s = (Inr snap, s')"
    and "case sc_op c of OpRefresh _ \<Rightarrow> False | OpReplace _ \<Rightarrow> False | OpReset _ \<Rightarrow> False | _ \<Rightarrow> True"
  shows "spec_edit (ss_entry_path s) (sc_op c) (project s) = Some (project s')
    \<and> (\<forall>p t. project s' p = Some t \<longrightarrow> ss_disk s' p = Some t)"
proof
  show "spec_edit (ss_entry_path s) (sc_op c) (project s) = Some (project s')"
    by (rule edit_refines [OF assms])
  have inv': "store_inv s'" using store_step_ok [OF assms(1-3)] by simp
  show "\<forall>p t. project s' p = Some t \<longrightarrow> ss_disk s' p = Some t"
    using inv' listing_Some [OF stored_distinct [OF inv']]
    by (auto simp: project_def store_inv_def listed_ok_def)
qed

text \<open>C17: whatever writes a session accepts or refuses, one after the other, its
  snapshot stays sorted by path with distinct paths, within the limits of files
  and bytes, its entry file present and its source and URI the snapshot's, the
  disk agreeing with it; and its version never goes back.\<close>
theorem store_run_invariant:
  assumes "store_inv s" and "fair_run store_step store_fair cs s"
  shows "store_inv (run_cmds store_step cs s) \<and> store_version s \<le> store_version (run_cmds store_step cs s)"
  using document.run_good [OF assms] document.run_version [OF assms] by simp

text \<open>A write is accepted at most once: after an edit or a reset was accepted,
  any edit or reset that carries the same or an older version is refused, however
  many other writes came in between.\<close>
theorem accepted_write_is_not_replayed:
  assumes "store_inv s" and "store_fair c s" and "store_step c s = (Inr snap, s1)" and "store_strict c"
    and "fair_run store_step store_fair cs s1"
    and "store_strict c'" and "sc_version c' \<le> sc_version c"
  shows "\<exists>e. fst (store_step c' (run_cmds store_step cs s1)) = Inl e"
proof (rule strict_stale [OF assms(6)])
  have "store_inv s1" using store_step_ok [OF assms(1-3)] by simp
  then have "store_version s1 \<le> store_version (run_cmds store_step cs s1)"
    using document.run_version assms(5) by blast
  then show "sc_version c' \<le> store_version (run_cmds store_step cs s1)"
    using strict_accepted_version [OF assms(1-4)] assms(7) by simp
qed

text \<open>A small session, for instances.\<close>

definition demo_files :: "project_file list" where
  "demo_files = [\<lparr>pf_path = ''main.zig'',
     pf_uri = path_to_file_url (show_path [''w'', ''src'', ''main.zig'']), pf_source = ''a''\<rparr>]"

definition demo_session :: session where
  "demo_session = \<lparr>ss_id = [], ss_token = [], ss_language = Zig, ss_entry_path = ''main.zig'',
     ss_root = [''w''], ss_source_root = [''w'', ''src''], ss_document_uri = [],
     ss_snapshot = \<lparr>sn_version = 1, sn_uri = pf_uri (hd demo_files), sn_source = ''a'',
       sn_files = demo_files, sn_updated_at = 0\<rparr>,
     ss_settings = default_settings Unsupported, ss_probes = [], ss_support = Map.empty,
     ss_runtime_connected = False, ss_attach_generation = 0,
     ss_sandbox_policy = policy_for [] False [''w''] [] None, ss_workspace_id = None, ss_input = [],
     ss_http_port = 20000, ss_last_http_ms = 0, ss_pending_dependencies = [], ss_live_stdin = None,
     ss_disk = [''main.zig'' \<mapsto> ''a''], ss_saved_input = None\<rparr>"

definition no_faults :: disk_faults where
  "no_faults = \<lparr>df_mkdir = None, df_write = None, df_rename = None, df_restore_fails = False,
     df_temporary = ''.atomis-1-00.tmp''\<rparr>"

definition demo_cmd :: store_cmd where
  "demo_cmd = \<lparr>sc_io = no_faults, sc_now = 5, sc_version = 2, sc_op = OpUpdate ''main.zig'' ''b''\<rparr>"

lemma demo_inv: "store_inv demo_session"
  by (simp add: store_inv_def demo_session_def demo_files_def listed_ok_def paths_sorted_def entry_ok_def
      file_uri_def path_join_def path_of_def starts_with_def project_bytes_def max_project_files_def
      max_project_bytes_def)

lemma demo_fair: "store_fair demo_cmd demo_session"
  by (simp add: store_fair_def demo_cmd_def io_ok_def no_faults_def demo_session_def demo_files_def has_file_def)

lemma demo_accepted: "\<exists>snap s'. store_step demo_cmd demo_session = (Inr snap, s')"
  by (simp add: store_step_def demo_cmd_def update_def assert_version_def demo_session_def demo_files_def
      has_file_def write_and_commit_def assert_project_size_def project_bytes_def project_file_def
      max_project_bytes_def atomic_write_def no_faults_def commit_def sort_files_def sort_by_def Let_def)

lemma store_edit_refines_map_witness:
  "\<exists>s'. spec_edit (ss_entry_path demo_session) (sc_op demo_cmd) (project demo_session) = Some (project s')
     \<and> s' = snd (store_step demo_cmd demo_session)"
proof -
  obtain snap s' where st: "store_step demo_cmd demo_session = (Inr snap, s')" using demo_accepted by blast
  then show ?thesis
    using store_edit_refines_map [OF demo_inv demo_fair st] by (simp add: demo_cmd_def)
qed

lemma store_run_invariant_witness:
  "store_inv (run_cmds store_step [demo_cmd] demo_session)"
  using store_run_invariant [OF demo_inv, of "[demo_cmd]"] demo_fair by simp

lemma accepted_write_is_not_replayed_witness:
  "\<exists>e. fst (store_step demo_cmd (snd (store_step demo_cmd demo_session))) = Inl e"
proof -
  obtain snap s' where st: "store_step demo_cmd demo_session = (Inr snap, s')" using demo_accepted by blast
  have strict: "store_strict demo_cmd" by (simp add: store_strict_def demo_cmd_def)
  show ?thesis
    using accepted_write_is_not_replayed [OF demo_inv demo_fair st strict, of "[]" demo_cmd] strict st by simp
qed

end
