(* ===== verification/Markers.thy ===== *)
theory Markers
  imports Protocol
begin

text \<open>
  src/apps/server-rs/src/languages/markers.rs: the parser that strips the log
  markers of an instrumented program from its output, annotates the text before
  each with its source location, and marks error lines.  What it emits is
  logged in the state.  The specification is the relation \<open>erases\<close>: the text a
  user sees is the program's own, with complete markers taken out.
\<close>

section \<open>Finding a marker\<close>

definition MARKER_START :: char where "MARKER_START = CHR 0x1E"
definition MARKER_END :: char where "MARKER_END = CHR 0x1F"
definition MARKER_PREFIX :: string where "MARKER_PREFIX = CHR 0x1E # ''ATOMIS_LOG:''"
definition MAX_PENDING_MARKER :: nat where "MAX_PENDING_MARKER = 4096"

definition nl :: char where "nl = CHR 0x0A"

definition line_holdback :: "string \<Rightarrow> nat" where
  "line_holdback buffer =
     (case rfind_char buffer nl of
        None \<Rightarrow> 0
      | Some l \<Rightarrow> (case rfind_char (take l buffer) nl of Some previous \<Rightarrow> previous + 1 | None \<Rightarrow> 0))"

record parsed_marker =
  pm_start :: nat
  pm_end :: nat
  pm_file_id :: nat
  pm_line :: nat
  pm_column :: nat
  pm_loop_info :: "loop_info option"

definition take_number :: "string \<Rightarrow> (nat \<times> string) option" where
  "take_number rest =
     (let digits = takeWhile ascii_digit rest
      in if digits = [] then None
         else map_option (\<lambda>n. (n, drop (length digits) rest)) (parse_unsigned 32 digits))"

definition after_colon :: "string \<Rightarrow> string option" where
  "after_colon rest = strip_prefix rest '':''"

definition word_char :: "char \<Rightarrow> bool" where
  "word_char c \<longleftrightarrow> ascii_alpha c \<or> ascii_digit c \<or> c = CHR ''_''"

definition parse_loop :: "string \<Rightarrow> loop_info option" where
  "parse_loop tail0 =
     Option.bind (take_number tail0) (\<lambda>(loop_line, t1).
     Option.bind (after_colon t1) (\<lambda>t2.
     Option.bind (take_number t2) (\<lambda>(loop_column, t3).
     Option.bind (after_colon t3) (\<lambda>t4.
       let variable = takeWhile word_char t4
       in if variable = [] \<or> \<not> (ascii_alpha (hd variable) \<or> hd variable = CHR ''_'') then None
          else Option.bind (after_colon (drop (length variable) t4)) (\<lambda>val.
                 Some \<lparr>li_line = loop_line, li_column = loop_column, li_variable = variable, li_value = val\<rparr>)))))"

definition parse_body :: "string \<Rightarrow> nat \<Rightarrow> nat \<Rightarrow> parsed_marker option" where
  "parse_body body start stop =
     Option.bind (take_number body) (\<lambda>(file_id, r1).
     Option.bind (after_colon r1) (\<lambda>r2.
     Option.bind (take_number r2) (\<lambda>(line, r3).
     Option.bind (after_colon r3) (\<lambda>r4.
     Option.bind (take_number r4) (\<lambda>(column, r5).
       let marker = (\<lambda>info. \<lparr>pm_start = start, pm_end = stop, pm_file_id = file_id, pm_line = line,
                            pm_column = column, pm_loop_info = info\<rparr>)
       in case after_colon r5 of
            Some tail \<Rightarrow> map_option (\<lambda>info. marker (Some info)) (parse_loop tail)
          | None \<Rightarrow> if r5 = [] then Some (marker None) else None)))))"

function find_marker_from :: "nat \<Rightarrow> string \<Rightarrow> parsed_marker option" where
  "find_marker_from search_from buffer =
     (case find_sub (drop search_from buffer) MARKER_PREFIX of
        None \<Rightarrow> None
      | Some offset \<Rightarrow>
          (let start = search_from + offset; body_start = start + length MARKER_PREFIX
           in case find_char (drop body_start buffer) (\<lambda>c. c = MARKER_END) of
                None \<Rightarrow> None
              | Some end_offset \<Rightarrow>
                  (case parse_body (take end_offset (drop body_start buffer)) start (body_start + end_offset + 1) of
                     Some parsed \<Rightarrow> Some parsed
                   | None \<Rightarrow> find_marker_from body_start buffer)))"
  by pat_completeness auto
termination
proof (relation "measure (\<lambda>(pos, buffer). length buffer - pos)")
  fix search_from offset buffer x xa xb
  assume f: "find_sub (drop search_from buffer) MARKER_PREFIX = Some offset"
    and x: "x = search_from + offset" and xa: "xa = x + length MARKER_PREFIX"
  from find_sub_Some [OF f] have "starts_with (drop (search_from + offset) buffer) MARKER_PREFIX"
    by (simp add: add.commute)
  then have "length MARKER_PREFIX \<le> length buffer - (search_from + offset)"
    by (metis starts_with_prefix length_append length_drop le_add1)
  moreover have "0 < length MARKER_PREFIX" by (simp add: MARKER_PREFIX_def)
  ultimately have "length buffer - xa < length buffer - search_from"
    unfolding x xa by linarith
  then show "((xa, buffer), (search_from, buffer)) \<in> measure (\<lambda>(pos, buffer). length buffer - pos)"
    by simp
qed simp

declare find_marker_from.simps [simp del]

definition find_marker :: "string \<Rightarrow> parsed_marker option" where
  "find_marker buffer = find_marker_from 0 buffer"

section \<open>Error lines\<close>

text \<open>\<open>to_lowercase\<close>, up to which non-ASCII characters it gives: the two that
  lowercase into ASCII are the Kelvin sign and the dotted capital I.\<close>

definition lower_char :: "string \<Rightarrow> string" where
  "lower_char ch =
     (if ch = [CHR 0xE2, CHR 0x84, CHR 0xAA] then ''k''
      else if ch = [CHR 0xC4, CHR 0xB0] then [CHR ''i'', CHR 0xCC, CHR 0x87]
      else map to_ascii_lower ch)"

definition to_lowercase :: "string \<Rightarrow> string" where
  "to_lowercase s = concat (map lower_char (str_chars s))"

definition ends_with_ws :: "string \<Rightarrow> bool" where
  "ends_with_ws s \<longleftrightarrow> s \<noteq> [] \<and> is_ws (last (str_chars s))"

text \<open>The optional \<open>thread N\<close> before \<open>panic:\<close>.\<close>

definition thread_head :: "string \<Rightarrow> bool" where
  "thread_head before =
     (let trimmed = trim_end before
      in if trimmed = [] \<or> \<not> ascii_digit (last trimmed) then False
         else
           let digits_trimmed = rev (dropWhile ascii_digit (rev (butlast trimmed)))
           in ends_with digits_trimmed ''thread ''
              \<and> (length digits_trimmed \<le> 7
                 \<or> ends_with_ws (take (length digits_trimmed - 7) digits_trimmed)
                 \<or> length digits_trimmed = 7))"

definition is_panic_line :: "string \<Rightarrow> bool" where
  "is_panic_line line =
     (let lower = to_lowercase line
      in contains lower ''panicked at'' \<or> contains lower ''traceback (most recent call last)''
         \<or> (case find_sub lower ''assertion '' of None \<Rightarrow> False
            | Some index \<Rightarrow> contains (drop index lower) ''failed'')
         \<or> (case find_sub lower ''panic:'' of None \<Rightarrow> False
            | Some index \<Rightarrow>
                let before = take index lower
                in before = [] \<or> ends_with_ws before \<or> thread_head before))"

function error_from :: "nat \<Rightarrow> string \<Rightarrow> bool" where
  "error_from pos lower =
     (case find_sub (drop pos lower) ''error:'' of
        None \<Rightarrow> False
      | Some index \<Rightarrow>
          let absolute = pos + index
          in absolute = 0 \<or> ends_with_ws (take absolute lower) \<or> error_from (absolute + 1) lower)"
  by pat_completeness auto
termination
proof (relation "measure (\<lambda>(pos, lower). length lower - pos)")
  fix pos index lower x
  assume f: "find_sub (drop pos lower) ''error:'' = Some index" and x: "x = pos + index"
  from find_sub_Some [OF f] have "starts_with (drop (pos + index) lower) ''error:''"
    by (simp add: add.commute)
  then have "drop (pos + index) lower \<noteq> []" by (auto simp: starts_with_def)
  with x show "((x + 1, lower), (pos, lower)) \<in> measure (\<lambda>(pos, lower). length lower - pos)"
    by simp
qed simp

definition line_has_error :: "string \<Rightarrow> bool" where
  "line_has_error line = error_from 0 (to_lowercase line)"

section \<open>The parser\<close>

record emitted =
  em_stream :: stream
  em_line :: string
  em_category :: output_category
  em_location :: "log_source_location option"

record marker_parser =
  mp_stream :: stream
  mp_detect_errors :: bool
  mp_file_ids :: "nat \<Rightarrow> string option"
  mp_buffer :: string
  mp_sticky_error :: bool
  mp_log_counts :: "string \<Rightarrow> nat option"
  mp_emitted :: "emitted list"

definition parser_new :: "stream \<Rightarrow> bool \<Rightarrow> (nat \<Rightarrow> string option) \<Rightarrow> marker_parser" where
  "parser_new stream detect file_ids = \<lparr>mp_stream = stream, mp_detect_errors = detect,
     mp_file_ids = file_ids, mp_buffer = [], mp_sticky_error = False, mp_log_counts = Map.empty,
     mp_emitted = []\<rparr>"

text \<open>The lines of a text, each with its newline.\<close>

fun lines_keep :: "string \<Rightarrow> string list" where
  "lines_keep [] = []"
| "lines_keep (c # cs) =
     (if c = nl then [c] # lines_keep cs
      else case lines_keep cs of [] \<Rightarrow> [[c]] | l # ls \<Rightarrow> (c # l) # ls)"

definition emit_line :: "log_source_location option \<Rightarrow> string \<Rightarrow> marker_parser \<Rightarrow> marker_parser" where
  "emit_line location line s =
     (let s1 = (if mp_detect_errors s \<and> is_panic_line line then s\<lparr>mp_sticky_error := True\<rparr> else s);
          line_is_error = (mp_detect_errors s1 \<and> (mp_sticky_error s1 \<or> line_has_error line))
      in s1\<lparr>mp_emitted := mp_emitted s1 @
           [\<lparr>em_stream = mp_stream s1, em_line = line,
             em_category = (if line_is_error then ErrorOutput else Program),
             em_location = (if mp_sticky_error s1 then None else location)\<rparr>]\<rparr>)"

definition emit_text :: "string \<Rightarrow> log_source_location option \<Rightarrow> marker_parser \<Rightarrow> marker_parser" where
  "emit_text txt location s = fold (emit_line location) (lines_keep txt) s"

definition count_key :: "string option \<Rightarrow> nat \<Rightarrow> nat \<Rightarrow> string" where
  "count_key path line column =
     (case path of Some p \<Rightarrow> p | None \<Rightarrow> ''unknown'') @ '':'' @ show_nat line @ '':'' @ show_nat column"

definition take_marker :: "parsed_marker \<Rightarrow> marker_parser \<Rightarrow> marker_parser" where
  "take_marker marker s =
     (let path = mp_file_ids s (pm_file_id marker);
          key = count_key path (pm_line marker) (pm_column marker);
          execution_index = (case mp_log_counts s key of Some n \<Rightarrow> n | None \<Rightarrow> 0) + 1;
          location = \<lparr>ll_path = path, ll_line = pm_line marker, ll_column = pm_column marker,
                      ll_execution_index = execution_index, ll_loop_info = pm_loop_info marker\<rparr>;
          s1 = s\<lparr>mp_log_counts := (mp_log_counts s)(key \<mapsto> execution_index)\<rparr>;
          s2 = emit_text (take (pm_start marker) (mp_buffer s)) (Some location) s1
      in s2\<lparr>mp_buffer := drop (pm_end marker) (mp_buffer s)\<rparr>)"

lemma find_marker_from_end:
  "find_marker_from pos buffer = Some m \<Longrightarrow> 0 < pm_end m \<and> pm_end m \<le> length buffer"
proof (induction pos buffer rule: find_marker_from.induct)
  case (1 pos buffer)
  from 1(2) obtain off where off: "find_sub (drop pos buffer) MARKER_PREFIX = Some off"
    by (subst (asm) find_marker_from.simps) (auto split: option.splits)
  let ?start = "pos + off"
  let ?body = "?start + length MARKER_PREFIX"
  from 1(2) off obtain e where e: "find_char (drop ?body buffer) (\<lambda>c. c = MARKER_END) = Some e"
    by (subst (asm) find_marker_from.simps) (auto simp: Let_def split: option.splits)
  have "e < length buffer - ?body" using find_char_Some [OF e] by simp
  show ?case
  proof (cases "parse_body (take e (drop ?body buffer)) ?start (?body + e + 1)")
    case None
    with 1(2) off e have "find_marker_from ?body buffer = Some m"
      by (subst (asm) find_marker_from.simps) (simp add: Let_def)
    with 1(1) [OF off refl refl e None] show ?thesis by simp
  next
    case (Some parsed)
    with 1(2) off e have "parsed = m"
      by (subst (asm) find_marker_from.simps) (simp add: Let_def)
    moreover have "pm_end parsed = ?body + e + 1"
      using Some by (auto simp: parse_body_def Let_def bind_eq_Some_conv split: option.splits if_splits)
    ultimately show ?thesis using \<open>e < _\<close> by simp
  qed
qed

lemma emit_line_buffer [simp]: "mp_buffer (emit_line location line s) = mp_buffer s"
  by (simp add: emit_line_def Let_def)

lemma emit_text_buffer [simp]: "mp_buffer (emit_text txt location s) = mp_buffer s"
proof -
  have "mp_buffer (fold (emit_line location) ls s) = mp_buffer s" for ls
    by (induction ls arbitrary: s) simp_all
  then show ?thesis by (simp add: emit_text_def)
qed

lemma take_marker_buffer [simp]: "mp_buffer (take_marker m s) = drop (pm_end m) (mp_buffer s)"
  by (simp add: take_marker_def Let_def)

function take_markers :: "marker_parser \<Rightarrow> marker_parser" where
  "take_markers s =
     (case find_marker (mp_buffer s) of None \<Rightarrow> s | Some marker \<Rightarrow> take_markers (take_marker marker s))"
  by pat_completeness auto
termination
  by (relation "measure (\<lambda>s. length (mp_buffer s))")
    (auto simp: find_marker_def dest!: find_marker_from_end)

declare take_markers.simps [simp del]

definition marker_hold :: "string \<Rightarrow> nat" where
  "marker_hold buffer =
     (case rfind_char buffer MARKER_START of
        Some index \<Rightarrow>
          if MARKER_END \<notin> set (drop index buffer) \<and> length buffer - index \<le> MAX_PENDING_MARKER
          then index else length buffer
      | None \<Rightarrow> length buffer)"

definition drain_to :: "nat \<Rightarrow> marker_parser \<Rightarrow> marker_parser" where
  "drain_to hold s =
     (if hold > 0
      then emit_text (take hold (mp_buffer s)) None (s\<lparr>mp_buffer := drop hold (mp_buffer s)\<rparr>)
      else s)"

definition push :: "string \<Rightarrow> marker_parser \<Rightarrow> marker_parser" where
  "push chunk s =
     (let s1 = take_markers (s\<lparr>mp_buffer := mp_buffer s @ chunk\<rparr>)
      in drain_to (min (line_holdback (mp_buffer s1)) (marker_hold (mp_buffer s1))) s1)"

definition release :: "marker_parser \<Rightarrow> marker_parser" where
  "release s =
     (let hold = (case rfind_char (mp_buffer s) MARKER_START of
            Some index \<Rightarrow> if MARKER_END \<notin> set (drop index (mp_buffer s)) then index else length (mp_buffer s)
          | None \<Rightarrow> length (mp_buffer s))
      in drain_to hold s)"

definition flush :: "marker_parser \<Rightarrow> marker_parser" where
  "flush s = emit_text (mp_buffer s) None (s\<lparr>mp_buffer := []\<rparr>)"

section \<open>No text is lost\<close>

definition marker_text :: "string \<Rightarrow> bool" where
  "marker_text m \<longleftrightarrow> (\<exists>body a b. m = MARKER_PREFIX @ body @ [MARKER_END] \<and> MARKER_END \<notin> set body
     \<and> parse_body body a b \<noteq> None)"

text \<open>\<open>erases s t\<close>: t is s with some complete markers taken out.\<close>

inductive erases :: "string \<Rightarrow> string \<Rightarrow> bool" where
  erases_nil: "erases [] []"
| erases_char: "erases s t \<Longrightarrow> erases (c # s) (c # t)"
| erases_marker: "marker_text m \<Longrightarrow> erases s t \<Longrightarrow> erases (m @ s) t"

lemma erases_refl [simp]: "erases s s"
  by (induction s) (auto intro: erases.intros)

lemma erases_append: "erases a b \<Longrightarrow> erases c d \<Longrightarrow> erases (a @ c) (b @ d)"
proof (induction rule: erases.induct)
  case (erases_marker m s t)
  then show ?case using erases.erases_marker [of m "s @ c" "t @ d"] by simp
qed (auto intro: erases.intros)

lemma erases_plain: "erases s t \<Longrightarrow> MARKER_START \<notin> set s \<Longrightarrow> t = s"
  by (induction rule: erases.induct) (auto simp: marker_text_def MARKER_PREFIX_def MARKER_START_def)

definition shown :: "marker_parser \<Rightarrow> string" where
  "shown s = concat (map em_line (mp_emitted s))"

lemma concat_lines_keep: "concat (lines_keep t) = t"
  by (induction t) (auto split: list.splits)

lemma shown_emit_line: "shown (emit_line location line s) = shown s @ line"
  by (simp add: shown_def emit_line_def Let_def)

lemma shown_emit_text [simp]: "shown (emit_text t location s) = shown s @ t"
proof -
  have "shown (fold (emit_line location) ls s) = shown s @ concat ls" for ls
    by (induction ls arbitrary: s) (simp_all add: shown_emit_line)
  then show ?thesis by (simp add: emit_text_def concat_lines_keep)
qed

lemma shown_frame [simp]: "shown (s\<lparr>mp_buffer := b\<rparr>) = shown s" "shown (s\<lparr>mp_log_counts := k\<rparr>) = shown s"
  by (simp_all add: shown_def)

lemma parse_body_bounds:
  "parse_body body start stop = Some m \<Longrightarrow> pm_start m = start \<and> pm_end m = stop"
  by (auto simp: parse_body_def Let_def bind_eq_Some_conv split: option.splits if_splits)

lemma find_marker_from_text:
  "find_marker_from pos buffer = Some m \<Longrightarrow>
   \<exists>text. marker_text text \<and> take (pm_end m) buffer = take (pm_start m) buffer @ text"
proof (induction pos buffer rule: find_marker_from.induct)
  case (1 pos buffer)
  from 1(2) obtain off where off: "find_sub (drop pos buffer) MARKER_PREFIX = Some off"
    by (subst (asm) find_marker_from.simps) (auto split: option.splits)
  let ?start = "pos + off"
  let ?body = "?start + length MARKER_PREFIX"
  from 1(2) off obtain e where e: "find_char (drop ?body buffer) (\<lambda>c. c = MARKER_END) = Some e"
    by (subst (asm) find_marker_from.simps) (auto simp: Let_def split: option.splits)
  let ?text = "take e (drop ?body buffer)"
  show ?case
  proof (cases "parse_body ?text ?start (?body + e + 1)")
    case None
    with 1(2) off e have "find_marker_from ?body buffer = Some m"
      by (subst (asm) find_marker_from.simps) (simp add: Let_def)
    with 1(1) [OF off refl refl e None] show ?thesis by simp
  next
    case (Some parsed)
    with 1(2) off e have "parsed = m"
      by (subst (asm) find_marker_from.simps) (simp add: Let_def)
    with parse_body_bounds [OF Some] have b: "pm_start m = ?start" "pm_end m = ?body + e + 1" by auto
    have pre: "starts_with (drop ?start buffer) MARKER_PREFIX"
      using find_sub_Some [OF off] by (simp add: add.commute)
    then obtain rest where rest: "drop ?start buffer = MARKER_PREFIX @ rest"
      by (auto simp: starts_with_prefix)
    then have body: "drop ?body buffer = rest"
      by (metis append_eq_conv_conj drop_drop add.commute)
    from find_char_Some [OF e] body have e': "e < length rest" "rest ! e = MARKER_END"
      "\<forall>j<e. rest ! j \<noteq> MARKER_END" by auto
    have "take (length MARKER_PREFIX + e + 1) (drop ?start buffer) = MARKER_PREFIX @ take e rest @ [MARKER_END]"
      using rest e' by (simp add: take_Suc_conv_app_nth)
    then have "take (pm_end m) buffer = take (pm_start m) buffer @ MARKER_PREFIX @ take e rest @ [MARKER_END]"
      unfolding b by (metis add.assoc take_add)
    moreover have "MARKER_END \<notin> set (take e rest)" using e' by (auto simp: in_set_conv_nth)
    ultimately show ?thesis
      using Some unfolding marker_text_def body by blast
  qed
qed

text \<open>All of the input is either still buffered or was shown, markers apart.\<close>

definition accounted :: "string \<Rightarrow> marker_parser \<Rightarrow> bool" where
  "accounted input s \<longleftrightarrow> (\<exists>used. input = used @ mp_buffer s \<and> erases used (shown s))"

lemma shown_take_marker: "shown (take_marker m s) = shown s @ take (pm_start m) (mp_buffer s)"
  by (simp add: take_marker_def Let_def)

lemma take_marker_accounted:
  assumes "accounted input s" and "find_marker (mp_buffer s) = Some m"
  shows "accounted input (take_marker m s)"
proof -
  from assms(1) obtain used where used: "input = used @ mp_buffer s" "erases used (shown s)"
    by (auto simp: accounted_def)
  from find_marker_from_text [of 0 "mp_buffer s" m] assms(2) obtain mt where
    mt: "marker_text mt" "take (pm_end m) (mp_buffer s) = take (pm_start m) (mp_buffer s) @ mt"
    by (auto simp: find_marker_def)
  have "erases mt []" using erases_marker [OF mt(1) erases_nil] by simp
  then have "erases (used @ take (pm_start m) (mp_buffer s) @ mt) (shown s @ take (pm_start m) (mp_buffer s))"
    using used(2) erases_append [OF erases_refl, of mt "[]" "take (pm_start m) (mp_buffer s)"]
    by (auto intro: erases_append)
  then have "erases (used @ take (pm_end m) (mp_buffer s)) (shown (take_marker m s))"
    by (simp add: mt(2) shown_take_marker)
  then show ?thesis using used(1) by (auto simp: accounted_def intro!: exI [of _ "used @ take (pm_end m) (mp_buffer s)"])
qed

lemma take_markers_accounted: "accounted input s \<Longrightarrow> accounted input (take_markers s)"
proof (induction s rule: take_markers.induct)
  case (1 s)
  then show ?case
    by (subst take_markers.simps) (auto split: option.splits intro: take_marker_accounted)
qed

lemma drain_to_accounted:
  assumes "accounted input s"
  shows "accounted input (drain_to hold s)"
proof -
  from assms obtain used where used: "input = used @ mp_buffer s" "erases used (shown s)"
    by (auto simp: accounted_def)
  have "erases (used @ take hold (mp_buffer s)) (shown s @ take hold (mp_buffer s))"
    by (rule erases_append [OF used(2) erases_refl])
  with assms used(1) show ?thesis
    by (auto simp: drain_to_def accounted_def intro!: exI [of _ "used @ take hold (mp_buffer s)"])
qed

lemma push_accounted: "accounted input s \<Longrightarrow> accounted (input @ chunk) (push chunk s)"
  unfolding push_def Let_def
  by (intro drain_to_accounted take_markers_accounted) (auto simp: accounted_def)

lemma release_accounted: "accounted input s \<Longrightarrow> accounted input (release s)"
  unfolding release_def Let_def by (intro drain_to_accounted)

lemma flush_shows:
  assumes "accounted input s"
  shows "erases input (shown (flush s)) \<and> mp_buffer (flush s) = []"
proof -
  from assms obtain used where "input = used @ mp_buffer s" "erases used (shown s)"
    by (auto simp: accounted_def)
  then show ?thesis by (simp add: flush_def erases_append)
qed

text \<open>What a run does with a parser: chunks as they arrive, a release when the
  program goes quiet, a flush at the end.\<close>

datatype parser_op = PushChunk string | ReleaseHeld

fun parser_step :: "parser_op \<Rightarrow> marker_parser \<Rightarrow> marker_parser" where
  "parser_step (PushChunk chunk) s = push chunk s"
| "parser_step ReleaseHeld s = release s"

fun pushed_text :: "parser_op \<Rightarrow> string" where
  "pushed_text (PushChunk chunk) = chunk"
| "pushed_text ReleaseHeld = []"

lemma parser_run_accounted:
  "accounted input s \<Longrightarrow>
   accounted (input @ concat (map pushed_text ops)) (fold parser_step ops s)"
proof (induction ops arbitrary: input s)
  case (Cons op ops)
  have "accounted (input @ pushed_text op) (parser_step op s)"
    using Cons.prems by (cases op) (simp_all add: push_accounted release_accounted)
  from Cons.IH [OF this] show ?case by simp
qed simp

section \<open>Nothing is held for long\<close>

lemma newlines_after:
  assumes "rfind_char s x = Some i"
  shows "count_list (drop i s) x = 1"
proof -
  from rfind_char_Some [OF assms] have i: "i < length s" "s ! i = x" "x \<notin> set (drop (Suc i) s)" by auto
  then have "drop i s = x # drop (Suc i) s" by (metis Cons_nth_drop_Suc)
  with i(3) show ?thesis by (simp add: count_list_0_iff)
qed

lemma holdback_one_line: "count_list (drop (line_holdback s) s) nl \<le> 1"
proof (cases "rfind_char s nl")
  case None
  then have "nl \<notin> set s" by (simp add: rfind_char_None)
  then show ?thesis by (simp add: line_holdback_def None count_list_0_iff)
next
  case (Some l)
  from rfind_char_Some [OF Some] have l: "l < length s" by auto
  have split: "count_list (drop k s) nl = count_list (drop k (take l s)) nl + 1" if "k \<le> l" for k
  proof -
    have "drop k s = drop k (take l s) @ drop l s"
      using that l by (metis append_take_drop_id drop_append drop_0 diff_is_0_eq length_take min.absorb2 less_imp_le)
    then show ?thesis using newlines_after [OF Some] by simp
  qed
  show ?thesis
  proof (cases "rfind_char (take l s) nl")
    case None
    then have "nl \<notin> set (take l s)" by (simp add: rfind_char_None)
    with split [of 0] None Some show ?thesis by (simp add: line_holdback_def count_list_0_iff)
  next
    case prev: (Some k)
    from rfind_char_Some [OF prev] have k: "k < length (take l s)" "nl \<notin> set (drop (Suc k) (take l s))" by auto
    with split [of "Suc k"] prev Some show ?thesis
      by (simp add: line_holdback_def count_list_0_iff)
  qed
qed

lemma drain_to_buffer [simp]: "mp_buffer (drain_to hold s) = drop hold (mp_buffer s)"
  by (simp add: drain_to_def)

lemma marker_hold_plain: "MARKER_START \<notin> set b \<Longrightarrow> marker_hold b = length b"
  by (simp add: marker_hold_def rfind_char_None [THEN iffD2])

lemma line_holdback_le: "line_holdback b \<le> length b"
proof (cases "rfind_char b nl")
  case (Some l)
  then have "l < length b" using rfind_char_Some by blast
  then show ?thesis
    using Some rfind_char_Some [of "take l b" nl]
    by (auto simp: line_holdback_def split: option.splits)
qed (simp add: line_holdback_def)

section \<open>Errors stick\<close>

text \<open>On a stream that detects errors, a panic line and every line after it are
  errors without a location; on the other stream nothing is an error.\<close>

definition panicked :: "marker_parser \<Rightarrow> nat \<Rightarrow> bool" where
  "panicked s i \<longleftrightarrow> mp_detect_errors s \<and> list_ex (\<lambda>e. is_panic_line (em_line e)) (take i (mp_emitted s))"

definition tone_ok :: "marker_parser \<Rightarrow> bool" where
  "tone_ok s \<longleftrightarrow> mp_sticky_error s = panicked s (length (mp_emitted s))
     \<and> (\<forall>i<length (mp_emitted s).
          (em_category (mp_emitted s ! i) = ErrorOutput \<longleftrightarrow>
             panicked s (Suc i) \<or> (mp_detect_errors s \<and> line_has_error (em_line (mp_emitted s ! i))))
          \<and> (panicked s (Suc i) \<longrightarrow> em_location (mp_emitted s ! i) = None))"

lemma emit_line_tone:
  assumes "tone_ok s"
  shows "tone_ok (emit_line location line s)"
proof -
  let ?s' = "emit_line location line s"
  define e where "e = last (mp_emitted ?s')"
  have e: "mp_emitted ?s' = mp_emitted s @ [e]" "em_line e = line"
    and cat: "em_category e = (if mp_detect_errors s \<and> (mp_sticky_error ?s' \<or> line_has_error line)
        then ErrorOutput else Program)"
    and loc: "mp_sticky_error ?s' \<longrightarrow> em_location e = None"
    and sticky: "mp_sticky_error ?s' = (mp_sticky_error s \<or> (mp_detect_errors s \<and> is_panic_line line))"
    and detect: "mp_detect_errors ?s' = mp_detect_errors s"
    by (auto simp: emit_line_def Let_def e_def)
  have old: "panicked ?s' (Suc i) = panicked s (Suc i)" if "i < length (mp_emitted s)" for i
    using that by (simp add: panicked_def e detect)
  have all: "panicked ?s' (Suc (length (mp_emitted s))) = mp_sticky_error ?s'"
    using assms by (auto simp: panicked_def tone_ok_def e detect sticky)
  have now: "mp_sticky_error s \<longrightarrow> mp_detect_errors s"
    using assms by (auto simp: tone_ok_def panicked_def)
  show ?thesis
    unfolding tone_ok_def
  proof (intro conjI allI impI)
    show "mp_sticky_error ?s' = panicked ?s' (length (mp_emitted ?s'))"
      using all by (simp add: e)
  next
    fix i assume i: "i < length (mp_emitted ?s')"
    show "(em_category (mp_emitted ?s' ! i) = ErrorOutput) =
        (panicked ?s' (Suc i) \<or> mp_detect_errors ?s' \<and> line_has_error (em_line (mp_emitted ?s' ! i)))"
    proof (cases "i < length (mp_emitted s)")
      case True
      then show ?thesis using assms old by (simp add: tone_ok_def e detect nth_append)
    next
      case False
      with i have "i = length (mp_emitted s)" by (simp add: e)
      then show ?thesis using all cat sticky now by (auto simp: e detect)
    qed
  next
    fix i assume i: "i < length (mp_emitted ?s')" and p: "panicked ?s' (Suc i)"
    show "em_location (mp_emitted ?s' ! i) = None"
    proof (cases "i < length (mp_emitted s)")
      case True
      then show ?thesis using assms old p by (simp add: tone_ok_def e nth_append)
    next
      case False
      with i have "i = length (mp_emitted s)" by (simp add: e)
      then show ?thesis using all loc p by (simp add: e)
    qed
  qed
qed

lemma emit_text_tone: "tone_ok s \<Longrightarrow> tone_ok (emit_text t location s)"
proof -
  have "tone_ok s \<Longrightarrow> tone_ok (fold (emit_line location) ls s)" for ls
    by (induction ls arbitrary: s) (simp_all add: emit_line_tone)
  then show "tone_ok s \<Longrightarrow> tone_ok (emit_text t location s)" by (simp add: emit_text_def)
qed

lemma tone_frame [simp]: "tone_ok (s\<lparr>mp_buffer := b\<rparr>) = tone_ok s" "tone_ok (s\<lparr>mp_log_counts := k\<rparr>) = tone_ok s"
  by (simp_all add: tone_ok_def panicked_def)

lemma take_markers_tone: "tone_ok s \<Longrightarrow> tone_ok (take_markers s)"
proof (induction s rule: take_markers.induct)
  case (1 s)
  then show ?case
    by (subst take_markers.simps) (auto simp: take_marker_def Let_def emit_text_tone split: option.splits)
qed

lemma drain_to_tone: "tone_ok s \<Longrightarrow> tone_ok (drain_to hold s)"
  by (simp add: drain_to_def emit_text_tone)

lemma parser_step_tone: "tone_ok s \<Longrightarrow> tone_ok (parser_step op s)"
  by (cases op) (simp_all add: push_def release_def Let_def take_markers_tone drain_to_tone)

lemma parser_run_tone: "tone_ok s \<Longrightarrow> tone_ok (fold parser_step ops s)"
  by (induction ops arbitrary: s) (simp_all add: parser_step_tone)

lemma flush_tone: "tone_ok s \<Longrightarrow> tone_ok (flush s)"
  by (simp add: flush_def emit_text_tone)

section \<open>Properties\<close>

text \<open>The output a user sees is the program's own text, in order and complete,
  with nothing but well-formed log markers taken out, however it was cut into
  chunks and whenever the program paused; output without a marker character is
  shown byte for byte.\<close>
theorem output_is_the_program_text:
  "erases (concat (map pushed_text ops)) (shown (flush (fold parser_step ops (parser_new stream detect ids))))
   \<and> (MARKER_START \<notin> set (concat (map pushed_text ops)) \<longrightarrow>
        shown (flush (fold parser_step ops (parser_new stream detect ids))) = concat (map pushed_text ops))"
proof -
  have "accounted [] (parser_new stream detect ids)"
    by (auto simp: accounted_def parser_new_def shown_def intro: erases_nil)
  from flush_shows [OF parser_run_accounted [OF this, of ops]]
  have e: "erases (concat (map pushed_text ops)) (shown (flush (fold parser_step ops (parser_new stream detect ids))))"
    by simp
  with erases_plain [OF e] show ?thesis by blast
qed

lemma output_is_the_program_text_witness:
  "shown (flush (fold parser_step [PushChunk ''a'', ReleaseHeld, PushChunk (''b'' @ [nl])]
     (parser_new Stdout False Map.empty))) = ''ab'' @ [nl]"
  using output_is_the_program_text [of "[PushChunk ''a'', ReleaseHeld, PushChunk (''b'' @ [nl])]" Stdout False Map.empty]
  by (simp add: MARKER_START_def nl_def)

text \<open>Output streams: after every chunk at most the last complete line and the
  unfinished one after it are held back, unless a marker is on its way.\<close>
theorem output_streams:
  assumes "MARKER_START \<notin> set (mp_buffer (push chunk s))"
  shows "count_list (mp_buffer (push chunk s)) nl \<le> 1"
proof -
  define b where "b = mp_buffer (take_markers (s\<lparr>mp_buffer := mp_buffer s @ chunk\<rparr>))"
  have buf: "mp_buffer (push chunk s) = drop (min (line_holdback b) (marker_hold b)) b"
    by (simp add: push_def Let_def b_def)
  show ?thesis
  proof (cases "line_holdback b \<le> marker_hold b")
    case True
    then show ?thesis using holdback_one_line [of b] by (simp add: buf min_absorb1)
  next
    case False
    then have m: "marker_hold b < length b" using line_holdback_le [of b] by linarith
    then obtain i where i: "rfind_char b MARKER_START = Some i" "marker_hold b = i"
      by (auto simp: marker_hold_def split: option.splits if_splits)
    from rfind_char_Some [OF i(1)] have "i < length b" "b ! i = MARKER_START" by auto
    then have "MARKER_START \<in> set (drop i b)" by (metis Cons_nth_drop_Suc list.set_intros(1))
    with assms False i(2) show ?thesis by (simp add: buf min_absorb2)
  qed
qed

lemma output_streams_witness:
  "count_list (mp_buffer (push (''a'' @ [nl] @ ''b'' @ [nl] @ ''c'') (parser_new Stdout False Map.empty))) nl \<le> 1"
  by (rule output_streams)
    (simp add: push_def take_markers.simps find_marker_def find_marker_from.simps parser_new_def Let_def
      starts_with_def MARKER_PREFIX_def nl_def MARKER_START_def line_holdback_def marker_hold_def)

text \<open>How a line of output is shown: on the stream that detects errors a line is
  an error exactly when it is one by itself or a panic line came at or before it,
  and from the panic on no line claims a source location; on the other stream no
  line is an error.\<close>
theorem error_lines_stick:
  "\<forall>i<length (mp_emitted (flush (fold parser_step ops (parser_new stream detect ids)))).
     (em_category (mp_emitted (flush (fold parser_step ops (parser_new stream detect ids))) ! i) = ErrorOutput \<longleftrightarrow>
        panicked (flush (fold parser_step ops (parser_new stream detect ids))) (Suc i)
        \<or> (mp_detect_errors (flush (fold parser_step ops (parser_new stream detect ids)))
            \<and> line_has_error (em_line (mp_emitted (flush (fold parser_step ops (parser_new stream detect ids))) ! i))))
     \<and> (panicked (flush (fold parser_step ops (parser_new stream detect ids))) (Suc i) \<longrightarrow>
        em_location (mp_emitted (flush (fold parser_step ops (parser_new stream detect ids))) ! i) = None)"
proof -
  have "tone_ok (parser_new stream detect ids)"
    by (simp add: tone_ok_def panicked_def parser_new_def)
  from flush_tone [OF parser_run_tone [OF this, of ops]] show ?thesis by (simp add: tone_ok_def)
qed

definition panic_run :: marker_parser where
  "panic_run = flush (fold parser_step [PushChunk (''panic: x'' @ [nl])] (parser_new Stderr True Map.empty))"

lemma error_lines_stick_witness:
  "length (mp_emitted panic_run) = 1 \<and> em_category (mp_emitted panic_run ! 0) = ErrorOutput"
proof -
  have low: "to_lowercase (''panic: x'' @ [nl]) = ''panic: x'' @ [nl]"
    by (simp add: to_lowercase_def lower_char_def to_ascii_lower_def ascii_upper_def utf8_width_def byte_def nl_def)
  have p: "is_panic_line (''panic: x'' @ [nl])"
    unfolding is_panic_line_def low Let_def by (simp add: starts_with_def nl_def)
  have lines: "map em_line (mp_emitted panic_run) = [''panic: x'' @ [nl]]"
    by (simp add: panic_run_def push_def flush_def take_markers.simps find_marker_def find_marker_from.simps
      parser_new_def Let_def starts_with_def MARKER_PREFIX_def nl_def MARKER_START_def line_holdback_def
      marker_hold_def drain_to_def emit_text_def emit_line_def)
  then have one: "length (mp_emitted panic_run) = 1" "em_line (mp_emitted panic_run ! 0) = ''panic: x'' @ [nl]"
    by (cases "mp_emitted panic_run"; auto)+
  have detect: "mp_detect_errors panic_run"
    by (simp add: panic_run_def push_def flush_def take_markers.simps find_marker_def find_marker_from.simps
      parser_new_def Let_def starts_with_def MARKER_PREFIX_def nl_def MARKER_START_def line_holdback_def
      marker_hold_def drain_to_def emit_text_def emit_line_def)
  have "panicked panic_run (Suc 0)"
    using one detect p by (cases "mp_emitted panic_run") (simp_all add: panicked_def)
  then show ?thesis
    using error_lines_stick [of "[PushChunk (''panic: x'' @ [nl])]" Stderr True Map.empty, folded panic_run_def] one
    by simp
qed

end
