(* ===== verification/Ndjson.thy ===== *)
theory Ndjson
  imports Protocol
begin

text \<open>
  src/apps/server-rs/src/languages/ndjson.rs: the line readers of the probe and
  test channels.  Both are the same loop with another parser and other messages;
  serde's reading of one line is the argument \<open>from_str\<close>.  The loop is modelled
  once, over the line handler, and its contract (how the bytes are cut makes no
  difference) is proved for every handler.
\<close>

definition MAX_LINE :: nat where "MAX_LINE = 64 * 1024"

definition line_end :: char where "line_end = CHR 0x0A"

section \<open>Events\<close>

record raw_probe_event =
  rp_protocol_version :: nat
  rp_kind :: string
  rp_probe_id :: string
  rp_name :: string
  rp_line :: nat
  rp_column :: nat
  rp_type_name :: string
  rp_preview :: string
  rp_truncated :: bool
  rp_sequence :: nat
  rp_bits :: "nat option"
  rp_size_bytes :: "nat option"
  rp_align_bytes :: "nat option"
  rp_fields :: "probe_field_layout list option"

datatype raw_test_status = RawPassed | RawFailed | RawSkipped | RawLeaked

datatype raw_test_event =
    TestStart nat string
  | RawTestResult nat string raw_test_status millis "string option"
  | RawTestSummary nat nat nat nat

record test_envelope =
  te_protocol_version :: nat
  te_event :: raw_test_event

section \<open>The reader\<close>

text \<open>\<open>rd_out\<close> are the events handed to \<open>on_event\<close>.\<close>

record 'e reader =
  rd_buffer :: string
  rd_decoder :: utf8_carry
  rd_events :: nat
  rd_out :: "'e list"
  rd_error :: "string option"

definition max_events :: nat where "max_events = 10000"

definition reader_new :: "'e reader" where
  "reader_new = \<lparr>rd_buffer = [], rd_decoder = carry_new, rd_events = 0, rd_out = [], rd_error = None\<rparr>"

text \<open>A handler turns one line into an event or the error that ends the channel.\<close>

record 'e handler =
  hd_name :: string
  hd_line :: "string \<Rightarrow> 'e res"

definition probe_handler :: "(string \<Rightarrow> raw_probe_event res) \<Rightarrow> raw_probe_event handler" where
  "probe_handler from_str = \<lparr>hd_name = ''Probe'',
     hd_line = (\<lambda>line. case from_str line of
        Inr event \<Rightarrow> if rp_protocol_version event = 1 \<and> rp_kind event = ''probe_value''
          then Inr event else Inl ''Invalid probe event schema''
      | Inl error \<Rightarrow> Inl (''Invalid probe JSON: '' @ error))\<rparr>"

definition test_handler :: "(string \<Rightarrow> test_envelope res) \<Rightarrow> raw_test_event handler" where
  "test_handler from_str = \<lparr>hd_name = ''Test'',
     hd_line = (\<lambda>line. case from_str line of
        Inr envelope \<Rightarrow> if te_protocol_version envelope = 1
          then Inr (te_event envelope) else Inl ''Invalid test event''
      | Inl error \<Rightarrow> Inl (''Invalid test JSON: '' @ error))\<rparr>"

definition too_long :: "'e handler \<Rightarrow> string" where
  "too_long h = hd_name h @ '' event exceeds 64 KiB''"

definition parse_line :: "'e handler \<Rightarrow> string \<Rightarrow> 'e reader \<Rightarrow> 'e reader" where
  "parse_line h line s =
     (let s1 = s\<lparr>rd_events := rd_events s + 1\<rparr>
      in if rd_events s1 > max_events
         then s1\<lparr>rd_error := Some (hd_name h @ '' event count exceeds run limit'')\<rparr>
         else (case hd_line h line of
                 Inr event \<Rightarrow> s1\<lparr>rd_out := rd_out s1 @ [event]\<rparr>
               | Inl error \<Rightarrow> s1\<lparr>rd_error := Some error\<rparr>))"

text \<open>One complete line, without its newline.\<close>

definition take_line :: "'e handler \<Rightarrow> string \<Rightarrow> 'e reader \<Rightarrow> 'e reader" where
  "take_line h line s =
     (if length line > MAX_LINE then s\<lparr>rd_error := Some (too_long h)\<rparr>
      else if line = [] then s else parse_line h line s)"

lemma parse_line_buffer [simp]: "rd_buffer (parse_line h line s) = rd_buffer s"
  by (simp add: parse_line_def Let_def split: sum.splits)

lemma take_line_buffer [simp]: "rd_buffer (take_line h line s) = rd_buffer s"
  by (simp add: take_line_def)

function drain_lines :: "'e handler \<Rightarrow> 'e reader \<Rightarrow> 'e reader" where
  "drain_lines h s =
     (case find_char (rd_buffer s) (\<lambda>c. c = line_end) of
        None \<Rightarrow> s
      | Some i \<Rightarrow>
          (let s1 = take_line h (take i (rd_buffer s)) (s\<lparr>rd_buffer := drop (Suc i) (rd_buffer s)\<rparr>)
           in if rd_error s1 \<noteq> None then s1 else drain_lines h s1))"
  by pat_completeness auto
termination
  by (relation "measure (\<lambda>(h, s). length (rd_buffer s))") (auto dest!: find_char_Some)

declare drain_lines.simps [simp del]

definition check_pending :: "'e handler \<Rightarrow> 'e reader \<Rightarrow> 'e reader" where
  "check_pending h s =
     (if rd_error s = None \<and> length (rd_buffer s) > MAX_LINE then s\<lparr>rd_error := Some (too_long h)\<rparr> else s)"

definition feed :: "'e handler \<Rightarrow> string \<Rightarrow> 'e reader \<Rightarrow> 'e reader" where
  "feed h tx s = check_pending h (drain_lines h (s\<lparr>rd_buffer := rd_buffer s @ tx\<rparr>))"

definition push_bytes :: "'e handler \<Rightarrow> string \<Rightarrow> 'e reader \<Rightarrow> 'e reader" where
  "push_bytes h chunk s =
     (if rd_error s \<noteq> None then s
      else case decode (rd_decoder s) chunk of (tx, d) \<Rightarrow> feed h tx (s\<lparr>rd_decoder := d\<rparr>))"

definition end_reader :: "'e handler \<Rightarrow> 'e reader \<Rightarrow> 'e reader" where
  "end_reader h s =
     (case finish (rd_decoder s) of (tx, d) \<Rightarrow>
        let s1 = s\<lparr>rd_buffer := rd_buffer s @ tx, rd_decoder := d\<rparr>
        in if rd_error s1 = None \<and> trim (rd_buffer s1) \<noteq> []
           then s1\<lparr>rd_error := Some (hd_name h @ '' channel ended with partial NDJSON'')\<rparr> else s1)"

section \<open>How the text is cut makes no difference\<close>

text \<open>Two readers look the same from outside when they handed out the same events
  and have the same error, and, while there is none, are in the same state.\<close>

definition same :: "'e reader \<Rightarrow> 'e reader \<Rightarrow> bool" where
  "same s t \<longleftrightarrow> rd_out s = rd_out t \<and> rd_error s = rd_error t \<and> (rd_error s = None \<longrightarrow> s = t)"

lemma same_refl [simp]: "same s s"
  by (simp add: same_def)

lemma same_trans: "same s t \<Longrightarrow> same t u \<Longrightarrow> same s u"
  unfolding same_def by metis

lemma take_line_frame:
  "take_line h line (s\<lparr>rd_buffer := b\<rparr>) = (take_line h line s)\<lparr>rd_buffer := b\<rparr>"
  by (simp add: take_line_def parse_line_def Let_def split: sum.splits)

lemma find_char_append: "find_char s P = Some i \<Longrightarrow> find_char (s @ t) P = Some i"
  by (induction s arbitrary: i) (auto split: if_splits)

lemma drain_lines_append:
  assumes "rd_error s = None"
  shows "let d = drain_lines h s; e = drain_lines h (s\<lparr>rd_buffer := rd_buffer s @ t\<rparr>)
    in (rd_error d = None \<longrightarrow> e = drain_lines h (d\<lparr>rd_buffer := rd_buffer d @ t\<rparr>))
       \<and> (rd_error d \<noteq> None \<longrightarrow> rd_out e = rd_out d \<and> rd_error e = rd_error d)"
  using assms
proof (induction h s rule: drain_lines.induct)
  case (1 h s)
  show ?case
  proof (cases "find_char (rd_buffer s) (\<lambda>c. c = line_end)")
    case None
    have "drain_lines h s = s" by (subst drain_lines.simps) (simp add: None)
    with 1(2) show ?thesis by (simp add: Let_def)
  next
    case (Some i)
    let ?s1 = "take_line h (take i (rd_buffer s)) (s\<lparr>rd_buffer := drop (Suc i) (rd_buffer s)\<rparr>)"
    let ?s2 = "take_line h (take i (rd_buffer s)) (s\<lparr>rd_buffer := drop (Suc i) (rd_buffer s) @ t\<rparr>)"
    have i: "i < length (rd_buffer s)" using find_char_Some [OF Some] by simp
    have s2: "?s2 = ?s1\<lparr>rd_buffer := rd_buffer ?s1 @ t\<rparr>"
      by (simp add: take_line_frame)
    have d: "drain_lines h s = (if rd_error ?s1 \<noteq> None then ?s1 else drain_lines h ?s1)"
      by (subst drain_lines.simps) (simp add: Some Let_def)
    have e: "drain_lines h (s\<lparr>rd_buffer := rd_buffer s @ t\<rparr>) =
        (if rd_error ?s2 \<noteq> None then ?s2 else drain_lines h ?s2)"
      using i by (subst drain_lines.simps) (simp add: find_char_append [OF Some] Let_def)
    show ?thesis
    proof (cases "rd_error ?s1 = None")
      case True
      with 1(1) [OF Some refl] have "let d = drain_lines h ?s1; e = drain_lines h (?s1\<lparr>rd_buffer := rd_buffer ?s1 @ t\<rparr>)
        in (rd_error d = None \<longrightarrow> e = drain_lines h (d\<lparr>rd_buffer := rd_buffer d @ t\<rparr>))
           \<and> (rd_error d \<noteq> None \<longrightarrow> rd_out e = rd_out d \<and> rd_error e = rd_error d)"
        by blast
      moreover have "drain_lines h s = drain_lines h ?s1" using d True by simp
      moreover have "drain_lines h (s\<lparr>rd_buffer := rd_buffer s @ t\<rparr>) = drain_lines h (?s1\<lparr>rd_buffer := rd_buffer ?s1 @ t\<rparr>)"
        unfolding e s2 using True by simp
      ultimately show ?thesis by (simp only: Let_def)
    next
      case False
      then have "drain_lines h s = ?s1" using d by simp
      moreover have "drain_lines h (s\<lparr>rd_buffer := rd_buffer s @ t\<rparr>) = ?s1\<lparr>rd_buffer := rd_buffer ?s1 @ t\<rparr>"
        unfolding e s2 using False by simp
      ultimately show ?thesis using False by (simp only: Let_def) simp
    qed
  qed
qed

lemma drain_lines_idle: "find_char (rd_buffer s) (\<lambda>c. c = line_end) = None \<Longrightarrow> drain_lines h s = s"
  by (subst drain_lines.simps) simp

lemma drain_lines_no_newline:
  "rd_error (drain_lines h s) = None \<Longrightarrow> line_end \<notin> set (rd_buffer (drain_lines h s))"
proof (induction h s rule: drain_lines.induct)
  case (1 h s)
  show ?case
  proof (cases "find_char (rd_buffer s) (\<lambda>c. c = line_end)")
    case None
    then have "line_end \<notin> set (rd_buffer s)" by (auto simp: find_char_None)
    with None show ?thesis by (simp add: drain_lines_idle)
  next
    case (Some i)
    let ?s1 = "take_line h (take i (rd_buffer s)) (s\<lparr>rd_buffer := drop (Suc i) (rd_buffer s)\<rparr>)"
    have d: "drain_lines h s = (if rd_error ?s1 \<noteq> None then ?s1 else drain_lines h ?s1)"
      by (subst drain_lines.simps) (simp add: Some Let_def)
    with 1 Some show ?thesis by (auto simp: Let_def split: if_splits)
  qed
qed

text \<open>The line that overflows the limit is refused whether or not its end was seen.\<close>

lemma drain_too_long:
  assumes "rd_error s = None" and "length (rd_buffer s) > MAX_LINE" and "line_end \<notin> set (rd_buffer s)"
  shows "same (check_pending h (drain_lines h (s\<lparr>rd_buffer := rd_buffer s @ t\<rparr>))) (s\<lparr>rd_error := Some (too_long h)\<rparr>)"
proof (cases "find_char (rd_buffer s @ t) (\<lambda>c. c = line_end)")
  case None
  with assms show ?thesis
    by (simp add: drain_lines_idle check_pending_def same_def)
next
  case (Some i)
  have "length (rd_buffer s) \<le> i"
  proof (rule ccontr)
    assume "\<not> length (rd_buffer s) \<le> i"
    with find_char_Some [OF Some] have "rd_buffer s ! i = line_end" "i < length (rd_buffer s)"
      by (auto simp: nth_append)
    with assms(3) show False by (metis nth_mem)
  qed
  then have "length (take i (rd_buffer s @ t)) > MAX_LINE"
    using assms(2) find_char_Some [OF Some] by simp
  then have "drain_lines h (s\<lparr>rd_buffer := rd_buffer s @ t\<rparr>)
      = s\<lparr>rd_buffer := drop (Suc i) (rd_buffer s @ t), rd_error := Some (too_long h)\<rparr>"
    by (subst drain_lines.simps) (simp add: Some Let_def take_line_def)
  then show ?thesis by (simp add: check_pending_def same_def)
qed

lemma feed_append:
  assumes "rd_error s = None"
  shows "same (if rd_error (feed h a s) = None then feed h b (feed h a s) else feed h a s) (feed h (a @ b) s)"
proof -
  define d where "d = drain_lines h (s\<lparr>rd_buffer := rd_buffer s @ a\<rparr>)"
  define e where "e = drain_lines h (s\<lparr>rd_buffer := rd_buffer s @ a @ b\<rparr>)"
  have fa: "feed h a s = check_pending h d" and fab: "feed h (a @ b) s = check_pending h e"
    by (simp_all add: feed_def d_def e_def)
  from drain_lines_append [of "s\<lparr>rd_buffer := rd_buffer s @ a\<rparr>" h b] assms
  have app: "rd_error d = None \<Longrightarrow> e = drain_lines h (d\<lparr>rd_buffer := rd_buffer d @ b\<rparr>)"
    "rd_error d \<noteq> None \<Longrightarrow> rd_out e = rd_out d \<and> rd_error e = rd_error d"
    by (simp_all add: Let_def d_def e_def)
  consider "rd_error d \<noteq> None" | "rd_error d = None" "length (rd_buffer d) > MAX_LINE"
    | "rd_error d = None" "length (rd_buffer d) \<le> MAX_LINE" by fastforce
  then show ?thesis
  proof cases
    case 1
    with app(2) show ?thesis by (auto simp: fa fab check_pending_def same_def)
  next
    case 2
    have "line_end \<notin> set (rd_buffer d)"
      using drain_lines_no_newline 2(1) unfolding d_def by blast
    from drain_too_long [OF 2 this, of h b] have
      "same (check_pending h e) (d\<lparr>rd_error := Some (too_long h)\<rparr>)" by (simp add: app(1) [OF 2(1)])
    moreover have "feed h a s = d\<lparr>rd_error := Some (too_long h)\<rparr>" using 2 by (simp add: fa check_pending_def)
    ultimately show ?thesis by (simp add: fab same_def)
  next
    case 3
    then have fd: "feed h a s = d" by (simp add: fa check_pending_def)
    have "feed h b d = feed h (a @ b) s"
      unfolding fab app(1) [OF 3(1)] by (simp add: feed_def)
    with 3 show ?thesis by (simp add: fd)
  qed
qed

section \<open>From bytes to lines\<close>

lemma take_line_decoder: "take_line h l (s\<lparr>rd_decoder := d\<rparr>) = (take_line h l s)\<lparr>rd_decoder := d\<rparr>"
  by (simp add: take_line_def parse_line_def Let_def split: sum.splits)

lemma drain_lines_decoder: "drain_lines h (s\<lparr>rd_decoder := d\<rparr>) = (drain_lines h s)\<lparr>rd_decoder := d\<rparr>"
proof (induction h s rule: drain_lines.induct)
  case (1 h s)
  show ?case
  proof (cases "find_char (rd_buffer s) (\<lambda>c. c = line_end)")
    case None
    then show ?thesis by (simp add: drain_lines_idle)
  next
    case (Some i)
    let ?s1 = "take_line h (take i (rd_buffer s)) (s\<lparr>rd_buffer := drop (Suc i) (rd_buffer s)\<rparr>)"
    have a: "drain_lines h s = (if rd_error ?s1 \<noteq> None then ?s1 else drain_lines h ?s1)"
      by (subst drain_lines.simps) (simp add: Some Let_def)
    have line: "take_line h l (s\<lparr>rd_decoder := d, rd_buffer := x\<rparr>) = (take_line h l (s\<lparr>rd_buffer := x\<rparr>))\<lparr>rd_decoder := d\<rparr>"
      for l x by (simp add: take_line_frame take_line_decoder)
    have b: "drain_lines h (s\<lparr>rd_decoder := d\<rparr>) = (if rd_error ?s1 \<noteq> None then ?s1\<lparr>rd_decoder := d\<rparr>
        else drain_lines h (?s1\<lparr>rd_decoder := d\<rparr>))"
      using line by (subst drain_lines.simps) (simp add: Some Let_def)
    show ?thesis
      using 1 [OF Some refl] unfolding a b by auto
  qed
qed

lemma feed_decoder: "feed h t (s\<lparr>rd_decoder := d\<rparr>) = (feed h t s)\<lparr>rd_decoder := d\<rparr>"
proof -
  have "(s\<lparr>rd_decoder := d\<rparr>)\<lparr>rd_buffer := rd_buffer (s\<lparr>rd_decoder := d\<rparr>) @ t\<rparr>
      = (s\<lparr>rd_buffer := rd_buffer s @ t\<rparr>)\<lparr>rd_decoder := d\<rparr>" by simp
  then show ?thesis by (simp only: feed_def drain_lines_decoder) (simp add: check_pending_def)
qed

definition idle :: "'e reader \<Rightarrow> bool" where
  "idle s \<longleftrightarrow> line_end \<notin> set (rd_buffer s) \<and> length (rd_buffer s) \<le> MAX_LINE"

lemma feed_idle: "rd_error (feed h t s) = None \<Longrightarrow> idle (feed h t s)"
  using drain_lines_no_newline [of h "s\<lparr>rd_buffer := rd_buffer s @ t\<rparr>"]
  by (auto simp: feed_def check_pending_def idle_def split: if_splits)

lemma find_no_line_end: "line_end \<notin> set b \<Longrightarrow> find_char b (\<lambda>c. c = line_end) = None"
  by (auto simp: find_char_None)

lemma feed_empty: "idle s \<Longrightarrow> feed h [] s = s"
  by (simp add: feed_def idle_def check_pending_def drain_lines_idle find_no_line_end)

lemma push_stopped: "rd_error s \<noteq> None \<Longrightarrow> fold (push_bytes h) cs s = s"
  by (induction cs) (simp_all add: push_bytes_def)

lemma push_all:
  assumes "rd_error s = None" and "idle s" and "decode_all decode (rd_decoder s) cs = (tx, d)"
  shows "same (fold (push_bytes h) cs s) (feed h tx (s\<lparr>rd_decoder := d\<rparr>))"
  using assms
proof (induction cs arbitrary: s tx d)
  case Nil
  then have eq: "tx = []" "s\<lparr>rd_decoder := d\<rparr> = s" by (cases s; simp)+
  show ?case unfolding eq using Nil(2) by (simp add: feed_empty)
next
  case (Cons c cs)
  obtain t d1 where td: "decode (rd_decoder s) c = (t, d1)" by fastforce
  obtain u where u: "decode_all decode d1 cs = (u, d)" "tx = t @ u"
    using Cons.prems(3) td by (auto split: prod.splits)
  let ?s1 = "feed h t (s\<lparr>rd_decoder := d1\<rparr>)"
  have s1: "push_bytes h c s = ?s1" using Cons.prems(1) td by (simp add: push_bytes_def)
  have dec: "?s1\<lparr>rd_decoder := d\<rparr> = feed h t (s\<lparr>rd_decoder := d\<rparr>)" by (simp add: feed_decoder)
  have err: "rd_error (feed h t (s\<lparr>rd_decoder := d\<rparr>)) = rd_error ?s1"
    "rd_out (feed h t (s\<lparr>rd_decoder := d\<rparr>)) = rd_out ?s1" by (simp_all add: feed_decoder)
  note app = feed_append [of "s\<lparr>rd_decoder := d\<rparr>" h t u]
  show ?case
  proof (cases "rd_error ?s1 = None")
    case True
    have "rd_decoder ?s1 = d1" by (simp add: feed_decoder)
    with Cons.IH [OF True feed_idle [OF True]] u have
      "same (fold (push_bytes h) cs ?s1) (feed h u (?s1\<lparr>rd_decoder := d\<rparr>))" by simp
    with app Cons.prems(1) err True show ?thesis
      by (simp add: s1 u dec) (rule same_trans)
  next
    case False
    with app Cons.prems(1) err push_stopped [OF False] show ?thesis
      by (auto simp: s1 u same_def)
  qed
qed

lemma from_utf8_short: "from_utf8 bs = Some (v, None) \<Longrightarrow> head_step (drop v bs) = Short \<and> drop v bs \<noteq> []"
proof (induction bs arbitrary: v rule: from_utf8.induct)
  case (1 bs)
  have ne: "bs \<noteq> []" using 1(2) by (auto simp: from_utf8.simps)
  show ?case
  proof (cases "head_step bs")
    case (Whole n)
    with 1(2) ne obtain w where w: "from_utf8 (drop n bs) = Some (w, None)" "v = n + w"
      by (subst (asm) from_utf8.simps) (auto split: option.splits)
    from 1(1) [OF ne Whole w(1)] w(2) show ?thesis by (simp add: add.commute)
  next
    case (Bad n)
    with 1(2) ne show ?thesis by (subst (asm) from_utf8.simps) simp
  next
    case Short
    with 1(2) ne have "v = 0" by (subst (asm) from_utf8.simps) simp
    with Short ne show ?thesis by simp
  qed
qed

lemma decode_pending_short: "decode d c = (t, d') \<Longrightarrow> pending d' = [] \<or> (head_step (pending d') = Short \<and> pending d' \<noteq> [])"
  by (auto simp: decode_def Let_def split: option.splits dest!: from_utf8_short)

lemma decode_all_short:
  "decode_all decode d cs = (t, d') \<Longrightarrow> pending d = [] \<Longrightarrow>
   pending d' = [] \<or> (head_step (pending d') = Short \<and> pending d' \<noteq> [])"
proof (induction cs arbitrary: d t rule: rev_induct)
  case (snoc c cs)
  have split: "decode_all decode d (xs @ ys) = (let (t, d1) = decode_all decode d xs; (u, d2) = decode_all decode d1 ys
      in (t @ u, d2))" for d xs ys
    by (induction xs arbitrary: d) (auto simp: Let_def split: prod.splits)
  obtain t1 d1 where "decode_all decode d cs = (t1, d1)" by fastforce
  with snoc.prems split [of d cs "[c]"] obtain u where "decode d1 c = (u, d')"
    by (auto simp: Let_def split: prod.splits)
  then show ?case by (rule decode_pending_short)
qed simp

lemma decode_all_valid:
  assumes "valid_utf8 (concat cs)"
  shows "decode_all decode carry_new cs = (concat cs, carry_new)"
proof -
  obtain t d where td: "decode_all decode carry_new cs = (t, d)" by fastforce
  from carry.decode_all_rest [OF _ td] assms have split: "concat cs = t @ pending d" "valid_utf8 (pending d)"
    by (simp_all add: carry_new_def)
  have "pending d = []"
  proof (rule ccontr)
    assume ne: "pending d \<noteq> []"
    with decode_all_short [OF td] have "head_step (pending d) = Short" by (simp add: carry_new_def)
    with split(2) ne show False by (simp add: valid_utf8_Cons)
  qed
  moreover from this have "d = carry_new" by (cases d) (simp add: carry_new_def)
  ultimately show ?thesis using td split by simp
qed

lemma push_whole:
  assumes "valid_utf8 (concat cs)"
  shows "same (fold (push_bytes h) cs reader_new) (feed h (concat cs) reader_new)"
proof -
  have "decode_all decode (rd_decoder reader_new) cs = (concat cs, carry_new)"
    using decode_all_valid [OF assms] by (simp add: reader_new_def)
  from push_all [OF _ _ this, of h] show ?thesis by (simp add: reader_new_def idle_def)
qed

lemma end_reader_same: "same s t \<Longrightarrow> rd_out (end_reader h s) = rd_out (end_reader h t)
    \<and> rd_error (end_reader h s) = rd_error (end_reader h t)"
  by (cases "rd_error s = None") (auto simp: same_def end_reader_def Let_def split: prod.splits)

section \<open>A well-formed channel\<close>

definition ndjson :: "string list \<Rightarrow> string" where
  "ndjson ls = concat (map (\<lambda>l. l @ [line_end]) ls)"

lemma find_line_end: "line_end \<notin> set l \<Longrightarrow> find_char (l @ line_end # rest) (\<lambda>c. c = line_end) = Some (length l)"
  by (induction l) auto

lemma drain_ndjson:
  assumes "list_all (\<lambda>(l, e). l \<noteq> [] \<and> line_end \<notin> set l \<and> length l \<le> MAX_LINE \<and> hd_line h l = Inr e) les"
    and "rd_events s + length les \<le> max_events" and "rd_error s = None"
    and "rd_buffer s = ndjson (map fst les)"
  shows "drain_lines h s = s\<lparr>rd_buffer := [], rd_events := rd_events s + length les,
    rd_out := rd_out s @ map snd les\<rparr>"
  using assms
proof (induction les arbitrary: s)
  case Nil
  then show ?case by (simp add: ndjson_def drain_lines_idle)
next
  case (Cons le les)
  obtain l e where le: "le = (l, e)" by fastforce
  let ?s1 = "s\<lparr>rd_buffer := ndjson (map fst les), rd_events := rd_events s + 1, rd_out := rd_out s @ [e]\<rparr>"
  have buf: "rd_buffer s = l @ line_end # ndjson (map fst les)"
    using Cons.prems(4) by (simp add: ndjson_def le)
  have "take_line h l (s\<lparr>rd_buffer := ndjson (map fst les)\<rparr>) = ?s1"
    using Cons.prems by (simp add: take_line_def parse_line_def le)
  then have "drain_lines h s = drain_lines h ?s1"
    using Cons.prems(1,3) by (subst drain_lines.simps) (simp add: buf find_line_end le Let_def)
  also have "\<dots> = ?s1\<lparr>rd_buffer := [], rd_events := rd_events ?s1 + length les, rd_out := rd_out ?s1 @ map snd les\<rparr>"
    by (rule Cons.IH) (use Cons.prems in simp_all)
  finally show ?case by (simp add: le)
qed

section \<open>Properties\<close>

text \<open>C21: the events and the error of a probe or test channel do not depend on how
  the pipe cut its bytes, not even inside a character or a line: any chunks of a
  UTF-8 text give what the text gives in one piece.\<close>
theorem channel_chunking:
  assumes "valid_utf8 (concat chunks)"
  shows "rd_out (end_reader h (fold (push_bytes h) chunks reader_new)) =
      rd_out (end_reader h (push_bytes h (concat chunks) reader_new))
    \<and> rd_error (end_reader h (fold (push_bytes h) chunks reader_new)) =
      rd_error (end_reader h (push_bytes h (concat chunks) reader_new))"
proof -
  have "same (fold (push_bytes h) chunks reader_new) (feed h (concat chunks) reader_new)"
    by (rule push_whole [OF assms])
  moreover have "same (push_bytes h (concat chunks) reader_new) (feed h (concat chunks) reader_new)"
    using push_whole [of "[concat chunks]" h] assms by simp
  ultimately show ?thesis
    using end_reader_same [of _ "feed h (concat chunks) reader_new" h] by metis
qed

text \<open>A channel on which the runtime wrote at most 10,000 events, one JSON line
  of at most 64 KiB each, delivers exactly these events, in order and without an
  error, in whatever chunks it is read.\<close>
theorem channel_delivers:
  assumes "list_all (\<lambda>(l, e). l \<noteq> [] \<and> line_end \<notin> set l \<and> length l \<le> MAX_LINE \<and> hd_line h l = Inr e) les"
    and "length les \<le> max_events" and "concat chunks = ndjson (map fst les)" and "valid_utf8 (concat chunks)"
  shows "rd_out (end_reader h (fold (push_bytes h) chunks reader_new)) = map snd les
    \<and> rd_error (end_reader h (fold (push_bytes h) chunks reader_new)) = None"
proof -
  let ?s = "reader_new\<lparr>rd_buffer := ndjson (map fst les)\<rparr>"
  have "drain_lines h ?s = ?s\<lparr>rd_buffer := [], rd_events := length les, rd_out := map snd les\<rparr>"
    using drain_ndjson [OF assms(1), of ?s] assms(2) by (simp add: reader_new_def)
  moreover have "reader_new\<lparr>rd_buffer := rd_buffer reader_new @ concat chunks\<rparr> = ?s"
    by (simp add: reader_new_def assms(3))
  ultimately have "feed h (concat chunks) reader_new =
      ?s\<lparr>rd_buffer := [], rd_events := length les, rd_out := map snd les\<rparr>"
    by (simp only: feed_def) (simp add: check_pending_def reader_new_def)
  then have "rd_out (end_reader h (feed h (concat chunks) reader_new)) = map snd les
      \<and> rd_error (end_reader h (feed h (concat chunks) reader_new)) = None"
    by (simp add: end_reader_def reader_new_def finish_def carry_new_def trim_def trim_start_def trim_end_def)
  with end_reader_same [OF push_whole [OF assms(4), of h], of h] show ?thesis by simp
qed

definition demo_handler :: "string handler" where
  "demo_handler = \<lparr>hd_name = ''Probe'', hd_line = Inr\<rparr>"

lemma channel_chunking_witness:
  "rd_out (end_reader demo_handler (fold (push_bytes demo_handler) [''a'', ''b'' @ [line_end]] reader_new)) =
   rd_out (end_reader demo_handler (push_bytes demo_handler (''ab'' @ [line_end]) reader_new))"
  using channel_chunking [of "[''a'', ''b'' @ [line_end]]" demo_handler]
  by (simp add: valid_utf8_Cons byte_def line_end_def)

lemma channel_delivers_witness:
  "rd_out (end_reader demo_handler (fold (push_bytes demo_handler) [''a'', [line_end] @ ''b'' @ [line_end]] reader_new))
     = [''a'', ''b'']"
  using channel_delivers [of demo_handler "[(''a'', ''a''), (''b'', ''b'')]" "[''a'', [line_end] @ ''b'' @ [line_end]]"]
  by (simp add: valid_utf8_Cons byte_def line_end_def demo_handler_def MAX_LINE_def max_events_def ndjson_def)

end
