(* ===== verification/Runner.thy ===== *)
theory Runner
  imports Versions Markers Ndjson
begin

text \<open>
  What every language's runner shares, from
  src/apps/server-rs/src/languages/runtime.rs and common.rs: the events a run
  emits, the reset of the generated mirror, the instrumentation of the project's
  files, the execution of the instrumented program (the supervisor's callbacks
  wired to the marker parsers, the probe reader and the probe forwarder), and
  the classification of its end.  Times are whole milliseconds.
\<close>

section \<open>Events and outcomes\<close>

datatype runner_event =
    StateEvent run_state
  | Catalog "probe_descriptor list"
  | TestCatalogEvent "test_case list"
  | TestResultEvent "string option" string test_status millis "string option"
  | TestSummaryEvent nat nat nat nat millis
  | OutputEvent stream string output_category "log_source_location option"
  | DiagnosticEvent string "app_diagnostic list"
  | ProbeEvent raw_probe_event "string option" nat

datatype terminal_state = TSucceeded | TCompileError | TRuntimeError | TTimedOut | TCancelled

fun as_run_state :: "terminal_state \<Rightarrow> run_state" where
  "as_run_state TSucceeded = Succeeded"
| "as_run_state TCompileError = CompileError"
| "as_run_state TRuntimeError = RuntimeError"
| "as_run_state TTimedOut = TimedOut"
| "as_run_state TCancelled = Cancelled"

record runner_outcome =
  ro_result :: run_result
  ro_terminal_state :: terminal_state

definition RUNTIME_FILES :: "string list" where
  "RUNTIME_FILES = [''runzig_runtime.zig'', ''atomis_runtime.rs'', ''atomis_runtime.go'',
     ''__atomis_runtime.mjs'', ''sitecustomize.py'', ''atomis_runtime.h'', ''atomis_runtime.hpp'']"

text \<open>The entries of generated/, walked in the order of \<open>read_dir\<close>; \<open>removable\<close> says
  which removals work, and their errors are ignored.\<close>

fun reset_generated :: "(string \<Rightarrow> bool) \<Rightarrow> string list \<Rightarrow> files \<Rightarrow> files" where
  "reset_generated removable [] generated = generated"
| "reset_generated removable (name # names) generated =
     reset_generated removable names
       (if name \<in> set RUNTIME_FILES \<or> \<not> removable name then generated else generated(name := None))"

record parse_diagnostic =
  pg_message :: string
  pg_severity :: "string option"
  pg_line :: "nat option"
  pg_column :: "nat option"

record instrumentation_output =
  io_protocol_version :: nat
  io_document_version :: nat
  io_generated_path :: "string option"
  io_source_map_path :: "string option"
  io_probes :: "probe_descriptor list"
  io_parse_diagnostics :: "parse_diagnostic list"

definition cancelled_outcome :: "run_result \<Rightarrow> string \<Rightarrow> runner_outcome" where
  "cancelled_outcome metrics reason =
     \<lparr>ro_result = metrics\<lparr>rr_cancelled := True, rr_reason := Some reason\<rparr>, ro_terminal_state = TCancelled\<rparr>"

section \<open>The probe forwarder\<close>

record probe_forwarder =
  fw_counts :: "string \<Rightarrow> nat option"
  fw_paths :: "string \<Rightarrow> string option option"

text \<open>Collecting into a map keeps the last of several probes with one id.\<close>

definition forwarder_new :: "probe_descriptor list \<Rightarrow> probe_forwarder" where
  "forwarder_new probes = \<lparr>fw_counts = Map.empty,
     fw_paths = map_of (rev (map (\<lambda>p. (pd_probe_id p, pd_path p)) probes))\<rparr>"

definition forward_probe :: "raw_probe_event \<Rightarrow> probe_forwarder \<Rightarrow> runner_event \<times> probe_forwarder" where
  "forward_probe raw f =
     (let count = (case fw_counts f (rp_probe_id raw) of Some n \<Rightarrow> n | None \<Rightarrow> 0) + 1;
          path = (case fw_paths f (rp_probe_id raw) of Some p \<Rightarrow> p | None \<Rightarrow> None)
      in (ProbeEvent raw path count, f\<lparr>fw_counts := (fw_counts f)(rp_probe_id raw \<mapsto> count)\<rparr>))"

fun forward_all :: "raw_probe_event list \<Rightarrow> probe_forwarder \<Rightarrow> runner_event list \<times> probe_forwarder" where
  "forward_all [] f = ([], f)"
| "forward_all (raw # raws) f =
     (let (e, f1) = forward_probe raw f; (es, f2) = forward_all raws f1 in (e # es, f2))"

section \<open>Instrumentation\<close>

record instrument_config =
  ic_source_name :: string
  ic_instruments :: "string \<Rightarrow> bool"
  ic_command_prefix_args :: "string list"
  ic_extra_args :: "string \<Rightarrow> string list"
  ic_timeout_ms :: nat

record instrument_outcome =
  in_probes :: "probe_descriptor list"
  in_diagnostics :: "app_diagnostic list"
  in_file_ids :: "nat \<Rightarrow> string option"
  in_cancelled :: bool

definition instrument_error :: "string \<Rightarrow> string \<Rightarrow> string \<Rightarrow> app_diagnostic" where
  "instrument_error source_name p message =
     \<lparr>ad_message = message, ad_path = Some (''src/'' @ p), ad_severity = SevError, ad_line = 1, ad_column = 1,
      ad_end_line = None, ad_end_column = None, ad_code = None, ad_source = Some source_name\<rparr>"

definition parse_error :: "string \<Rightarrow> string \<Rightarrow> parse_diagnostic \<Rightarrow> app_diagnostic" where
  "parse_error source_name p item =
     (instrument_error source_name p (pg_message item))
       \<lparr>ad_line := (case pg_line item of Some l \<Rightarrow> l | None \<Rightarrow> 1),
        ad_column := (case pg_column item of Some c \<Rightarrow> c | None \<Rightarrow> 1)\<rparr>"

text \<open>\<open>from_str\<close> is serde's reading of the instrumenter's answer.\<close>

definition record_metadata ::
  "(string \<Rightarrow> instrumentation_output res) \<Rightarrow> instrument_config \<Rightarrow> string \<Rightarrow> string \<Rightarrow> nat
   \<Rightarrow> instrument_outcome \<Rightarrow> instrument_outcome" where
  "record_metadata from_str config p stdout version outcome =
     (case from_str stdout of
        Inl error \<Rightarrow> outcome\<lparr>in_diagnostics := in_diagnostics outcome @
            [instrument_error (ic_source_name config) p (''Invalid instrumenter response: '' @ error)]\<rparr>
      | Inr metadata \<Rightarrow>
          if io_protocol_version metadata \<noteq> 1 \<or> io_document_version metadata \<noteq> version
          then outcome\<lparr>in_diagnostics := in_diagnostics outcome @
            [instrument_error (ic_source_name config) p ''Instrumenter protocol/version mismatch'']\<rparr>
          else
            let o1 = outcome\<lparr>in_probes := in_probes outcome @
                  map (\<lambda>probe. probe\<lparr>pd_path := Some (''src/'' @ p)\<rparr>) (io_probes metadata)\<rparr>
            in if io_generated_path metadata = None
               then o1\<lparr>in_diagnostics := in_diagnostics o1 @
                      map (parse_error (ic_source_name config) p) (io_parse_diagnostics metadata)\<rparr>
               else o1)"

definition instrument_args ::
  "instrument_config \<Rightarrow> session \<Rightarrow> session_settings \<Rightarrow> nat \<Rightarrow> project_file \<Rightarrow> nat \<Rightarrow> string list" where
  "instrument_args config s settings version file file_id =
     (let at = (\<lambda>rel. show_path (path_join (ss_root s) rel))
      in ic_command_prefix_args config @ ic_extra_args config (pf_path file)
         @ [''--input'', at (''src/'' @ pf_path file), ''--output'', at (''generated/'' @ pf_path file),
            ''--source-map'', at (''generated/.atomis-'' @ show_nat file_id @ ''.json''),
            ''--uri'', pf_uri file, ''--version'', show_nat version, ''--file-id'', show_nat file_id]
         @ (if se_auto_inspect settings then [] else [''--no-auto-inspect''])
         @ concat (map (\<lambda>i. [''--manual'', i]) (se_manual_probe_ids settings)))"

text \<open>How one file was instrumented: by the worker, or by the command (which got
  \<open>instrument_args\<close>).  The flag says that the run was cancelled meanwhile.\<close>

datatype instrument_answer = WorkerAnswer string bool | CliAnswer process_result bool

fun instrument_loop ::
  "(string \<Rightarrow> instrumentation_output res) \<Rightarrow> instrument_config \<Rightarrow> nat \<Rightarrow> (nat \<Rightarrow> instrument_answer)
   \<Rightarrow> nat \<Rightarrow> project_file list \<Rightarrow> instrument_outcome \<Rightarrow> instrument_outcome \<times> runner_event list" where
  "instrument_loop from_str config version answer n [] outcome = (outcome, [])"
| "instrument_loop from_str config version answer n (file # files) outcome =
     (if \<not> ic_instruments config (pf_path file)
      then instrument_loop from_str config version answer n files outcome
      else
        let file_id = n + 1;
            o1 = outcome\<lparr>in_file_ids := (in_file_ids outcome)(file_id \<mapsto> ''src/'' @ pf_path file)\<rparr>
        in (case answer file_id of
              WorkerAnswer json cancelled \<Rightarrow>
                if cancelled then (o1\<lparr>in_cancelled := True\<rparr>, [])
                else instrument_loop from_str config version answer file_id files
                       (record_metadata from_str config (pf_path file) json version o1)
            | CliAnswer result cancelled \<Rightarrow>
                if pr_cancelled result \<or> cancelled then (o1\<lparr>in_cancelled := True\<rparr>, [])
                else if pr_exit_code result \<noteq> Some 0
                then (case instrument_loop from_str config version answer file_id files
                         (o1\<lparr>in_diagnostics := in_diagnostics o1 @
                            [instrument_error (ic_source_name config) (pf_path file) ''Instrumentation failed'']\<rparr>) of
                        (o2, events) \<Rightarrow> (o2, OutputEvent Stderr (pr_stderr result) ErrorOutput None # events))
                else instrument_loop from_str config version answer file_id files
                       (record_metadata from_str config (pf_path file) (pr_stdout result) version o1)))"

definition instrument_files ::
  "(string \<Rightarrow> instrumentation_output res) \<Rightarrow> instrument_config \<Rightarrow> (nat \<Rightarrow> instrument_answer) \<Rightarrow> snapshot
   \<Rightarrow> instrument_outcome \<times> runner_event list" where
  "instrument_files from_str config answer snap =
     instrument_loop from_str config (sn_version snap) answer 0 (sn_files snap)
       \<lparr>in_probes = [], in_diagnostics = [], in_file_ids = Map.empty, in_cancelled = False\<rparr>"

section \<open>Execution\<close>

record exec_state =
  ex_stdout :: marker_parser
  ex_stderr :: marker_parser
  ex_reader :: "raw_probe_event reader"
  ex_forwarder :: probe_forwarder
  ex_events :: "runner_event list"

definition output_of :: "emitted \<Rightarrow> runner_event" where
  "output_of e = OutputEvent (em_stream e) (em_line e) (em_category e) (em_location e)"

text \<open>What a parser emitted since \<open>old\<close>, as events of the run.\<close>

definition new_output :: "marker_parser \<Rightarrow> marker_parser \<Rightarrow> runner_event list" where
  "new_output old s = map output_of (drop (length (mp_emitted old)) (mp_emitted s))"

definition with_stdout :: "marker_parser \<Rightarrow> exec_state \<Rightarrow> exec_state" where
  "with_stdout p s = s\<lparr>ex_stdout := p, ex_events := ex_events s @ new_output (ex_stdout s) p\<rparr>"

definition with_stderr :: "marker_parser \<Rightarrow> exec_state \<Rightarrow> exec_state" where
  "with_stderr p s = s\<lparr>ex_stderr := p, ex_events := ex_events s @ new_output (ex_stderr s) p\<rparr>"

definition push_probe :: "raw_probe_event handler \<Rightarrow> string \<Rightarrow> exec_state \<Rightarrow> exec_state" where
  "push_probe h chunk s =
     (let r = push_bytes h chunk (ex_reader s);
          (es, f) = forward_all (drop (length (rd_out (ex_reader s))) (rd_out r)) (ex_forwarder s)
      in s\<lparr>ex_reader := r, ex_forwarder := f, ex_events := ex_events s @ es\<rparr>)"

fun on_callback :: "raw_probe_event handler \<Rightarrow> bool \<Rightarrow> bool \<Rightarrow> callback \<Rightarrow> exec_state \<Rightarrow> exec_state" where
  "on_callback h parse_stdout interactive (OnStdout chunk) s =
     (if parse_stdout then with_stdout (push chunk (ex_stdout s)) s
      else s\<lparr>ex_events := ex_events s @ [OutputEvent Stdout chunk Program None]\<rparr>)"
| "on_callback h parse_stdout interactive (OnStderr chunk) s = with_stderr (push chunk (ex_stderr s)) s"
| "on_callback h parse_stdout interactive (OnProbe chunk) s = push_probe h chunk s"
| "on_callback h parse_stdout interactive OnQuiet s =
     (if interactive then
        (let s1 = with_stdout (release (ex_stdout s)) s in with_stderr (release (ex_stderr s1)) s1)
      else s)"

definition exec_start :: "probe_descriptor list \<Rightarrow> (nat \<Rightarrow> string option) \<Rightarrow> exec_state" where
  "exec_start probes file_ids =
     \<lparr>ex_stdout = parser_new Stdout False file_ids, ex_stderr = parser_new Stderr True file_ids,
      ex_reader = reader_new, ex_forwarder = forwarder_new probes, ex_events = []\<rparr>"

definition exec_finish :: "raw_probe_event handler \<Rightarrow> exec_state \<Rightarrow> exec_state" where
  "exec_finish h s =
     (let s1 = s\<lparr>ex_reader := end_reader h (ex_reader s)\<rparr>;
          s2 = with_stdout (flush (ex_stdout s1)) s1
      in with_stderr (flush (ex_stderr s2)) s2)"

record execute_outcome =
  xo_result :: process_result
  xo_probe_error :: "string option"
  xo_events :: "runner_event list"

text \<open>\<open>ro_quiet\<close> of the supervisor's options is whether the program reads typed
  input; \<open>polls\<close> drives its loop to the end.\<close>

definition execute_program ::
  "raw_probe_event handler \<Rightarrow> probe_descriptor list \<Rightarrow> (nat \<Rightarrow> string option) \<Rightarrow> bool \<Rightarrow> run_opts
   \<Rightarrow> poll list \<Rightarrow> execute_outcome" where
  "execute_program h probes file_ids parse_stdout opts polls =
     (let (result, calls) = finish_run (snd (run_loop opts polls (run_start opts)));
          s = exec_finish h (fold (on_callback h parse_stdout (ro_quiet opts)) calls (exec_start probes file_ids))
      in \<lparr>xo_result = result, xo_probe_error = rd_error (ex_reader s), xo_events = ex_events s\<rparr>)"

text \<open>\<open>duration\<close> is \<open>result.duration_ms\<close>, \<open>cancelled\<close> the token's state.\<close>

definition classify_execution ::
  "run_result \<Rightarrow> execute_outcome \<Rightarrow> millis \<Rightarrow> bool \<Rightarrow> runner_outcome option \<times> run_result" where
  "classify_execution metrics0 execution duration cancelled =
     (let r = xo_result execution;
          metrics = metrics0\<lparr>execution_ms := duration, rr_exit_code := pr_exit_code r, rr_signal := pr_signal r,
            rr_timed_out := pr_timed_out r, rr_cancelled := pr_cancelled r\<rparr>;
          ended = (\<lambda>reason terminal. let m = metrics\<lparr>rr_reason := Some reason\<rparr>
            in (Some \<lparr>ro_result = m, ro_terminal_state = terminal\<rparr>, m))
      in if pr_cancelled r \<or> cancelled then ended ''cancelled'' TCancelled
         else if pr_timed_out r then ended ''execution timeout'' TTimedOut
         else if pr_limit r \<noteq> None \<or> xo_probe_error execution \<noteq> None
         then ended (case xo_probe_error execution of
                 Some e \<Rightarrow> e
               | None \<Rightarrow> (case pr_limit r of Some l \<Rightarrow> l | None \<Rightarrow> ''runtime'') @ '' limit exceeded'') TRuntimeError
         else (None, metrics))"

definition compile_failure_reason :: "process_result \<Rightarrow> string" where
  "compile_failure_reason compile =
     (case pr_limit compile of
        Some limit \<Rightarrow> limit @ '' output limit exceeded''
      | None \<Rightarrow> if pr_timed_out compile then ''compilation timed out'' else ''compiler error'')"

section \<open>Texts and test results\<close>

definition truncate_chars :: "string \<Rightarrow> nat \<Rightarrow> string" where
  "truncate_chars s n = concat (take n (str_chars s))"

definition tail_chars :: "string \<Rightarrow> nat \<Rightarrow> string" where
  "tail_chars s n = concat (drop (length (str_chars s) - n) (str_chars s))"

definition aborted_message :: "string \<Rightarrow> string \<Rightarrow> string option" where
  "aborted_message per_test whole_run =
     (if trim per_test \<noteq> [] then Some (truncate_chars (trim per_test) 1200)
      else if trim whole_run = [] then None
      else Some (tail_chars (trim whole_run) 1200))"

definition diagnostic_key :: "app_diagnostic \<Rightarrow> string" where
  "diagnostic_key d =
     (case ad_path d of Some p \<Rightarrow> p | None \<Rightarrow> []) @ '':'' @ show_nat (ad_line d) @ '':''
       @ show_nat (ad_column d) @ '':'' @ ad_message d"

fun dedupe_from :: "string set \<Rightarrow> app_diagnostic list \<Rightarrow> app_diagnostic list" where
  "dedupe_from seen [] = []"
| "dedupe_from seen (d # ds) =
     (if diagnostic_key d \<in> seen then dedupe_from seen ds
      else d # dedupe_from (insert (diagnostic_key d) seen) ds)"

definition dedupe_diagnostics :: "app_diagnostic list \<Rightarrow> app_diagnostic list" where
  "dedupe_diagnostics = dedupe_from {}"

text \<open>The buffer is cleared after each report, so only the first gets its slice.\<close>

fun report_aborted_tests ::
  "string list \<Rightarrow> string \<Rightarrow> string \<Rightarrow> bool \<Rightarrow> (string \<Rightarrow> (string \<times> string) option) \<Rightarrow> string set
   \<Rightarrow> runner_event list \<times> string set" where
  "report_aborted_tests [] stderr_buffer whole timed_out lookup reported = ([], reported)"
| "report_aborted_tests (name # started) stderr_buffer whole timed_out lookup reported =
     (let matched = lookup name;
          reported1 = (case matched of Some (i, _) \<Rightarrow> insert i reported | None \<Rightarrow> reported);
          event = TestResultEvent (map_option fst matched)
            (case matched of Some (_, n) \<Rightarrow> n | None \<Rightarrow> name)
            (if timed_out then TestTimedOut else Failed) 0 (aborted_message stderr_buffer whole);
          (events, reported2) = report_aborted_tests started [] whole timed_out lookup reported1
      in (event # events, reported2))"

definition report_timed_out_remainder :: "test_case list \<Rightarrow> string set \<Rightarrow> runner_event list" where
  "report_timed_out_remainder catalog reported =
     map (\<lambda>t. TestResultEvent (Some (tc_test_id t)) (tc_name t) TestTimedOut 0 None)
       (filter (\<lambda>t. tc_test_id t \<notin> reported) catalog)"

section \<open>The output of a run\<close>

definition extends :: "marker_parser \<Rightarrow> marker_parser \<Rightarrow> bool" where
  "extends s s' \<longleftrightarrow> mp_stream s' = mp_stream s
     \<and> (\<exists>new. mp_emitted s' = mp_emitted s @ new \<and> (\<forall>e\<in>set new. em_stream e = mp_stream s))"

lemma extends_refl [simp]: "extends s s"
  by (simp add: extends_def)

lemma extends_trans: "extends s t \<Longrightarrow> extends t u \<Longrightarrow> extends s u"
  by (fastforce simp: extends_def)

lemma extends_frame [simp]: "extends s (t\<lparr>mp_buffer := b\<rparr>) = extends s t"
  "extends (s\<lparr>mp_buffer := b\<rparr>) t = extends s t" "extends (s\<lparr>mp_log_counts := k\<rparr>) t = extends s t"
  by (simp_all add: extends_def)

lemma extends_emit_line: "extends s (emit_line location line s)"
  by (auto simp: extends_def emit_line_def Let_def)

lemma extends_emit_text: "extends s (emit_text t location s)"
proof -
  have "extends s (fold (emit_line location) ls s)" for ls
    by (induction ls arbitrary: s) (auto intro: extends_trans extends_emit_line)
  then show ?thesis by (simp add: emit_text_def)
qed

lemma extends_take_marker: "extends s (take_marker m s)"
  using extends_emit_text [where s = "s\<lparr>mp_log_counts := k\<rparr>" for k]
  by (simp add: take_marker_def Let_def)

lemma extends_take_markers: "extends s (take_markers s)"
proof (induction s rule: take_markers.induct)
  case (1 s)
  then show ?case
    by (subst take_markers.simps) (auto intro: extends_trans extends_take_marker split: option.splits)
qed

lemma extends_drain_to: "extends s (drain_to hold s)"
  using extends_emit_text [where s = "s\<lparr>mp_buffer := b\<rparr>" for b] by (simp add: drain_to_def)

lemma extends_push: "extends s (push chunk s)"
proof -
  have "extends s (take_markers (s\<lparr>mp_buffer := mp_buffer s @ chunk\<rparr>))"
    using extends_take_markers [of "s\<lparr>mp_buffer := mp_buffer s @ chunk\<rparr>"] by simp
  then show ?thesis unfolding push_def Let_def by (rule extends_trans) (rule extends_drain_to)
qed

lemma extends_release: "extends s (release s)"
  unfolding release_def Let_def by (rule extends_drain_to)

lemma extends_flush: "extends s (flush s)"
  using extends_emit_text [where s = "s\<lparr>mp_buffer := []\<rparr>"] by (simp add: flush_def)

fun event_text :: "stream \<Rightarrow> runner_event \<Rightarrow> string" where
  "event_text st (OutputEvent st' chunk _ _) = (if st' = st then chunk else [])"
| "event_text st _ = []"

definition stream_text :: "stream \<Rightarrow> runner_event list \<Rightarrow> string" where
  "stream_text st es = concat (map (event_text st) es)"

lemma stream_text_append [simp]: "stream_text st (es @ fs) = stream_text st es @ stream_text st fs"
  by (simp add: stream_text_def)

lemma new_output_text:
  assumes "extends s s'"
  shows "stream_text (mp_stream s) (new_output s s') = drop (length (shown s)) (shown s')"
    and "st \<noteq> mp_stream s \<Longrightarrow> stream_text st (new_output s s') = []"
    and "shown s' = shown s @ stream_text (mp_stream s) (new_output s s')"
proof -
  from assms obtain new where new: "mp_emitted s' = mp_emitted s @ new" "\<forall>e\<in>set new. em_stream e = mp_stream s"
    by (auto simp: extends_def)
  have same: "stream_text (mp_stream s) (map output_of new) = concat (map em_line new)"
    using new(2) by (induction new) (auto simp: stream_text_def output_of_def)
  have other: "stream_text st (map output_of new) = []" if "st \<noteq> mp_stream s" for st
    using new(2) that by (induction new) (auto simp: stream_text_def output_of_def)
  show "stream_text (mp_stream s) (new_output s s') = drop (length (shown s)) (shown s')"
    "shown s' = shown s @ stream_text (mp_stream s) (new_output s s')"
    using new(1) same by (simp_all add: new_output_def shown_def)
  show "stream_text st (new_output s s') = []" if "st \<noteq> mp_stream s"
    using new(1) other that by (simp add: new_output_def)
qed

lemma forward_all_silent: "stream_text st (fst (forward_all raws f)) = []"
proof (induction raws arbitrary: f)
  case (Cons raw raws)
  then show ?case
    by (auto simp: stream_text_def forward_probe_def Let_def split: prod.splits) (metis fst_conv)
qed (simp add: stream_text_def)

definition exec_inv :: "bool \<Rightarrow> callback list \<Rightarrow> exec_state \<Rightarrow> bool" where
  "exec_inv parse_stdout calls s \<longleftrightarrow>
     mp_stream (ex_stdout s) = Stdout \<and> mp_stream (ex_stderr s) = Stderr
     \<and> accounted (if parse_stdout then concat (map stdout_text calls) else []) (ex_stdout s)
     \<and> accounted (concat (map stderr_text calls)) (ex_stderr s)
     \<and> stream_text Stdout (ex_events s) = shown (ex_stdout s)
          @ (if parse_stdout then [] else concat (map stdout_text calls))
     \<and> (\<not> parse_stdout \<longrightarrow> shown (ex_stdout s) = [] \<and> mp_buffer (ex_stdout s) = [])
     \<and> stream_text Stderr (ex_events s) = shown (ex_stderr s)"

lemma with_stdout_text:
  assumes "extends (ex_stdout s) p" and "mp_stream (ex_stdout s) = Stdout"
  shows "stream_text Stdout (ex_events (with_stdout p s)) =
      stream_text Stdout (ex_events s) @ drop (length (shown (ex_stdout s))) (shown p)"
    and "stream_text Stderr (ex_events (with_stdout p s)) = stream_text Stderr (ex_events s)"
  using new_output_text [OF assms(1)] assms(2) by (simp_all add: with_stdout_def)

lemma with_stderr_text:
  assumes "extends (ex_stderr s) p" and "mp_stream (ex_stderr s) = Stderr"
  shows "stream_text Stderr (ex_events (with_stderr p s)) =
      stream_text Stderr (ex_events s) @ drop (length (shown (ex_stderr s))) (shown p)"
    and "stream_text Stdout (ex_events (with_stderr p s)) = stream_text Stdout (ex_events s)"
  using new_output_text [OF assms(1)] assms(2) by (simp_all add: with_stderr_def)

lemma with_stdout_simps [simp]: "ex_stdout (with_stdout p s) = p" "ex_stderr (with_stdout p s) = ex_stderr s"
  by (simp_all add: with_stdout_def)

lemma with_stderr_simps [simp]: "ex_stderr (with_stderr p s) = p" "ex_stdout (with_stderr p s) = ex_stdout s"
  by (simp_all add: with_stderr_def)

lemma shown_extends: "extends s p \<Longrightarrow> shown s @ drop (length (shown s)) (shown p) = shown p"
  using new_output_text [of s p] by simp

lemma extends_stream: "extends s p \<Longrightarrow> mp_stream p = mp_stream s"
  by (simp add: extends_def)

lemma exec_stdout_step:
  assumes inv: "exec_inv True calls s" and ext: "extends (ex_stdout s) p"
    and acc: "accounted (concat (map stdout_text (calls @ [c]))) p" and err: "stderr_text c = []"
  shows "exec_inv True (calls @ [c]) (with_stdout p s)"
  using inv with_stdout_text [OF ext] shown_extends [OF ext] extends_stream [OF ext] acc err
  by (simp add: exec_inv_def)

lemma exec_stderr_step:
  assumes inv: "exec_inv ps calls s" and ext: "extends (ex_stderr s) p"
    and acc: "accounted (concat (map stderr_text (calls @ [c]))) p" and out: "stdout_text c = []"
  shows "exec_inv ps (calls @ [c]) (with_stderr p s)"
  using inv with_stderr_text [OF ext] shown_extends [OF ext] extends_stream [OF ext] acc out
  by (auto simp: exec_inv_def)

lemma release_empty: "mp_buffer p = [] \<Longrightarrow> release p = p"
  by (simp add: release_def drain_to_def)

lemma with_stdout_same: "with_stdout (ex_stdout s) s = s"
  by (simp add: with_stdout_def new_output_def)

lemma exec_inv_idle:
  "exec_inv ps calls s \<Longrightarrow> stdout_text c = [] \<Longrightarrow> stderr_text c = [] \<Longrightarrow> exec_inv ps (calls @ [c]) s"
  by (cases ps) (simp_all add: exec_inv_def)

lemma exec_quiet:
  assumes inv: "exec_inv ps calls s"
  shows "exec_inv ps (calls @ [OnQuiet]) (on_callback h ps interactive OnQuiet s)"
proof (cases interactive)
  case False
  with exec_inv_idle [OF inv, of OnQuiet] show ?thesis by simp
next
  case True
  let ?s1 = "with_stdout (release (ex_stdout s)) s"
  have "exec_inv ps (calls @ [OnQuiet]) ?s1"
  proof (cases ps)
    case True
    have "accounted (concat (map stdout_text (calls @ [OnQuiet]))) (release (ex_stdout s))"
      using inv True by (simp add: exec_inv_def release_accounted)
    with True inv show ?thesis
      using exec_stdout_step [OF _ extends_release, of calls s OnQuiet] by simp
  next
    case False
    with inv have "release (ex_stdout s) = ex_stdout s" by (intro release_empty) (simp add: exec_inv_def)
    with exec_inv_idle [OF inv, of OnQuiet] show ?thesis by (simp add: with_stdout_same)
  qed
  moreover have "accounted (concat (map stderr_text ((calls @ [OnQuiet]) @ [OnQuiet]))) (release (ex_stderr ?s1))"
    using inv by (simp add: exec_inv_def release_accounted)
  ultimately have "exec_inv ps ((calls @ [OnQuiet]) @ [OnQuiet]) (with_stderr (release (ex_stderr ?s1)) ?s1)"
    by (intro exec_stderr_step extends_release) simp_all
  with True show ?thesis by (cases ps) (simp_all add: exec_inv_def Let_def)
qed

lemma on_callback_inv:
  assumes inv: "exec_inv ps calls s"
  shows "exec_inv ps (calls @ [c]) (on_callback h ps interactive c s)"
proof (cases c)
  case (OnStdout chunk)
  show ?thesis
  proof (cases ps)
    case True
    have "accounted (concat (map stdout_text (calls @ [c]))) (push chunk (ex_stdout s))"
      using inv True push_accounted [of "concat (map stdout_text calls)" "ex_stdout s" chunk]
      by (simp add: exec_inv_def OnStdout)
    with True inv show ?thesis
      using exec_stdout_step [OF _ extends_push, of calls s c chunk] by (simp add: OnStdout)
  next
    case False
    with inv show ?thesis by (simp add: exec_inv_def OnStdout) (simp add: stream_text_def)
  qed
next
  case (OnStderr chunk)
  have "accounted (concat (map stderr_text (calls @ [c]))) (push chunk (ex_stderr s))"
    using inv push_accounted [of "concat (map stderr_text calls)" "ex_stderr s" chunk]
    by (simp add: exec_inv_def OnStderr)
  with inv show ?thesis
    using exec_stderr_step [OF inv extends_push, of c chunk] by (simp add: OnStderr)
next
  case (OnProbe chunk)
  with inv show ?thesis
    by (simp add: exec_inv_def push_probe_def Let_def forward_all_silent split: prod.splits)
      (metis forward_all_silent fst_conv append_Nil2)
next
  case OnQuiet
  with exec_quiet [OF inv] show ?thesis by simp
qed

lemma callbacks_inv:
  "exec_inv ps calls s \<Longrightarrow> exec_inv ps (calls @ cs) (fold (on_callback h ps interactive) cs s)"
proof (induction cs arbitrary: calls s)
  case (Cons c cs)
  from Cons.IH [OF on_callback_inv [OF Cons.prems, of c]] show ?case by simp
qed simp

lemma exec_start_inv: "exec_inv ps [] (exec_start probes ids)"
  by (auto simp: exec_inv_def exec_start_def parser_new_def accounted_def shown_def stream_text_def
      intro: erases_nil)

lemma exec_finish_texts:
  assumes "exec_inv ps calls s"
  shows "erases (concat (map stderr_text calls)) (stream_text Stderr (ex_events (exec_finish h s)))
    \<and> (if ps then erases (concat (map stdout_text calls)) (stream_text Stdout (ex_events (exec_finish h s)))
       else stream_text Stdout (ex_events (exec_finish h s)) = concat (map stdout_text calls))"
proof -
  let ?s1 = "s\<lparr>ex_reader := end_reader h (ex_reader s)\<rparr>"
  let ?s2 = "with_stdout (flush (ex_stdout ?s1)) ?s1"
  have fin: "exec_finish h s = with_stderr (flush (ex_stderr ?s2)) ?s2"
    by (simp add: exec_finish_def Let_def)
  have so: "mp_stream (ex_stdout ?s1) = Stdout" "mp_stream (ex_stderr ?s2) = Stderr"
    using assms by (simp_all add: exec_inv_def)
  note a = with_stdout_text [OF extends_flush so(1)] and b = with_stderr_text [OF extends_flush so(2)]
    and sa = shown_extends [OF extends_flush, of "ex_stdout s"] and sb = shown_extends [OF extends_flush, of "ex_stderr s"]
  have err: "stream_text Stderr (ex_events (exec_finish h s)) = shown (flush (ex_stderr s))"
    using assms a(2) b(1) sb unfolding fin by (simp add: exec_inv_def)
  have out: "stream_text Stdout (ex_events (exec_finish h s)) =
      stream_text Stdout (ex_events s) @ drop (length (shown (ex_stdout s))) (shown (flush (ex_stdout s)))"
    using a(1) b(2) unfolding fin by simp
  show ?thesis
  proof (cases ps)
    case True
    with assms out sa have "stream_text Stdout (ex_events (exec_finish h s)) = shown (flush (ex_stdout s))"
      by (simp add: exec_inv_def)
    with True assms err show ?thesis by (simp add: exec_inv_def flush_shows)
  next
    case False
    with assms have "flush (ex_stdout s) = ex_stdout s \<or> shown (flush (ex_stdout s)) = []"
      by (simp add: exec_inv_def flush_def)
    with False assms out err show ?thesis by (auto simp: exec_inv_def flush_shows)
  qed
qed

section \<open>Counts, diagnostics, tests\<close>

definition count_of :: "probe_forwarder \<Rightarrow> string \<Rightarrow> nat" where
  "count_of f i = (case fw_counts f i of Some n \<Rightarrow> n | None \<Rightarrow> 0)"

lemma forward_all_counts:
  "fst (forward_all raws f) = map (\<lambda>i. ProbeEvent (raws ! i)
      (case fw_paths f (rp_probe_id (raws ! i)) of Some p \<Rightarrow> p | None \<Rightarrow> None)
      (count_of f (rp_probe_id (raws ! i)) + count_list (map rp_probe_id (take (Suc i) raws)) (rp_probe_id (raws ! i))))
    [0..<length raws]"
proof (induction raws arbitrary: f)
  case (Cons raw raws)
  obtain e f1 where e: "forward_probe raw f = (e, f1)" by fastforce
  have f1: "fw_paths f1 = fw_paths f"
    "count_of f1 i = count_of f i + (if i = rp_probe_id raw then 1 else 0)" for i
    using e by (auto simp: forward_probe_def Let_def count_of_def)
  have "fst (forward_all (raw # raws) f) = e # fst (forward_all raws f1)"
    by (simp add: e Let_def split: prod.splits)
  also have "e = ProbeEvent raw (case fw_paths f (rp_probe_id raw) of Some p \<Rightarrow> p | None \<Rightarrow> None)
      (count_of f (rp_probe_id raw) + 1)"
    using e by (auto simp: forward_probe_def Let_def count_of_def)
  finally show ?case
    unfolding Cons.IH by (simp add: f1 map_upt_Suc del: upt_Suc)
qed simp

lemma dedupe_from_facts:
  "set (map diagnostic_key (dedupe_from seen ds)) = set (map diagnostic_key ds) - seen
   \<and> distinct (map diagnostic_key (dedupe_from seen ds)) \<and> subseq (dedupe_from seen ds) ds"
proof (induction seen ds rule: dedupe_from.induct)
  case (2 seen d ds)
  then show ?case by (cases "diagnostic_key d \<in> seen") auto
qed simp

lemma reset_generated_keeps:
  "name \<in> set RUNTIME_FILES \<Longrightarrow> reset_generated removable names generated name = generated name"
  by (induction removable names generated rule: reset_generated.induct) auto

lemma reset_generated_clears:
  "name \<in> set names \<Longrightarrow> removable name \<Longrightarrow> name \<notin> set RUNTIME_FILES
   \<Longrightarrow> reset_generated removable names generated name = None"
proof (induction removable names generated rule: reset_generated.induct)
  case (2 removable n ns g)
  have gone: "g' name = None \<Longrightarrow> reset_generated removable ns g' name = None" for g'
    by (induction removable ns g' rule: reset_generated.induct) auto
  with 2 show ?case by (cases "n = name") auto
qed simp

lemma report_aborted_facts:
  assumes "report_aborted_tests started buffer whole timed_out lookup reported0 = (events, reported)"
  shows "length events = length started
    \<and> reported = reported0 \<union> {i. \<exists>name n. name \<in> set started \<and> lookup name = Some (i, n)}
    \<and> (\<forall>name\<in>set started. \<forall>i n. lookup name = Some (i, n) \<longrightarrow>
        (\<exists>m. TestResultEvent (Some i) n (if timed_out then TestTimedOut else Failed) 0 m \<in> set events))"
  using assms
proof (induction started buffer whole timed_out lookup reported0 arbitrary: events reported
    rule: report_aborted_tests.induct)
  case (2 name started buffer whole timed_out lookup reported0)
  obtain es r where rec: "report_aborted_tests started [] whole timed_out lookup
      (case lookup name of Some (i, _) \<Rightarrow> insert i reported0 | None \<Rightarrow> reported0) = (es, r)" by fastforce
  from 2(1) [OF refl refl refl rec] 2(2) rec show ?case
    by (auto simp: Let_def split: option.splits prod.splits) blast+
qed simp

section \<open>Properties\<close>



text \<open>Probe values are numbered as they arrive: the event of the i-th value of a
  run carries, for its probe, how many values of that probe came so far, itself
  included, and nothing is dropped or reordered.\<close>
theorem probe_values_are_counted:
  "map (\<lambda>e. case e of ProbeEvent raw _ n \<Rightarrow> Some (raw, n) | _ \<Rightarrow> None) (fst (forward_all raws (forwarder_new probes)))
   = map (\<lambda>i. Some (raws ! i, count_list (map rp_probe_id (take (Suc i) raws)) (rp_probe_id (raws ! i))))
       [0..<length raws]"
  unfolding forward_all_counts by (simp add: count_of_def forwarder_new_def)

text \<open>A reset of the generated mirror, or any interleaving of several of them,
  never takes away a language's runtime, not even in between, and clears every
  other entry that can be removed.\<close>
theorem reset_keeps_runtimes:
  "(\<forall>name\<in>set RUNTIME_FILES. reset_generated removable names generated name = generated name)
   \<and> (\<forall>name\<in>set names. removable name \<and> name \<notin> set RUNTIME_FILES \<longrightarrow>
        reset_generated removable names generated name = None)"
  using reset_generated_keeps reset_generated_clears by blast

lemma reset_keeps_runtimes_witness:
  "reset_generated (\<lambda>_. True) [''main.zig'', ''atomis_runtime.rs'']
     [''main.zig'' \<mapsto> ''x'', ''atomis_runtime.rs'' \<mapsto> ''r''] ''atomis_runtime.rs'' = Some ''r''
   \<and> reset_generated (\<lambda>_. True) [''main.zig'', ''atomis_runtime.rs'']
     [''main.zig'' \<mapsto> ''x'', ''atomis_runtime.rs'' \<mapsto> ''r''] ''main.zig'' = None"
  using reset_keeps_runtimes [of "\<lambda>_. True" "[''main.zig'', ''atomis_runtime.rs'']"
      "[''main.zig'' \<mapsto> ''x'', ''atomis_runtime.rs'' \<mapsto> ''r'']"]
  by (simp add: RUNTIME_FILES_def)

text \<open>When a suite times out no test is left without a result: every test of the
  catalog had one already, or is reported as timed out, by the test the process
  died in or by the remainder, and never by both.\<close>
theorem timed_out_suite_reports_every_test:
  assumes "report_aborted_tests started buffer whole True lookup reported0 = (events, reported)"
    and "test \<in> set catalog"
  shows "(tc_test_id test \<in> reported0
      \<or> (\<exists>n m. TestResultEvent (Some (tc_test_id test)) n TestTimedOut 0 m \<in> set events)
      \<or> TestResultEvent (Some (tc_test_id test)) (tc_name test) TestTimedOut 0 None
          \<in> set (report_timed_out_remainder catalog reported))
    \<and> (tc_test_id test \<in> reported \<longrightarrow>
        (\<forall>n st d m. TestResultEvent (Some (tc_test_id test)) n st d m \<notin> set (report_timed_out_remainder catalog reported)))"
proof -
  note facts = report_aborted_facts [OF assms(1)]
  show ?thesis
  proof (cases "tc_test_id test \<in> reported")
    case True
    have rest: "TestResultEvent (Some (tc_test_id test)) n st d m \<notin> set (report_timed_out_remainder catalog reported)"
      for n st d m using True by (auto simp: report_timed_out_remainder_def)
    from True facts have "tc_test_id test \<in> reported0
        \<or> (\<exists>name n. name \<in> set started \<and> lookup name = Some (tc_test_id test, n))" by blast
    with facts rest show ?thesis by (metis (full_types))
  next
    case False
    with assms(2) show ?thesis by (force simp: report_timed_out_remainder_def)
  qed
qed

lemma timed_out_suite_reports_every_test_witness:
  "TestResultEvent (Some ''t2'') ''b'' TestTimedOut 0 None
     \<in> set (report_timed_out_remainder [\<lparr>tc_test_id = ''t2'', tc_path = [], tc_name = ''b'', tc_line = 1, tc_column = 1\<rparr>]
         (snd (report_aborted_tests [''a''] [] [] True (\<lambda>_. Some (''t1'', ''a'')) {})))"
  using timed_out_suite_reports_every_test [of "[''a'']" "[]" "[]" "\<lambda>_. Some (''t1'', ''a'')" "{}"
      "fst (report_aborted_tests [''a''] [] [] True (\<lambda>_. Some (''t1'', ''a'')) {})"
      "snd (report_aborted_tests [''a''] [] [] True (\<lambda>_. Some (''t1'', ''a'')) {})"
      "\<lparr>tc_test_id = ''t2'', tc_path = [], tc_name = ''b'', tc_line = 1, tc_column = 1\<rparr>"
      "[\<lparr>tc_test_id = ''t2'', tc_path = [], tc_name = ''b'', tc_line = 1, tc_column = 1\<rparr>]"]
  by (simp add: aborted_message_def trim_def trim_start_def trim_end_def)

text \<open>Deduplicating diagnostics keeps, in their order, one diagnostic of every
  place and message that was reported.\<close>
theorem dedupe_keeps_one_of_each:
  "set (map diagnostic_key (dedupe_diagnostics ds)) = set (map diagnostic_key ds)
   \<and> distinct (map diagnostic_key (dedupe_diagnostics ds)) \<and> subseq (dedupe_diagnostics ds) ds"
  using dedupe_from_facts [of "{}" ds] by (simp add: dedupe_diagnostics_def)

end
