(* ===== verification/Scheduler.thy ===== *)
theory Scheduler
  imports Runner
begin

text \<open>
  src/apps/server-rs/src/domain/scheduler.rs: debounced auto runs, supersession
  and cancellation, and the gating of a run's events.  The scheduler's methods,
  the debounce tasks, the run tasks with their forwarders and the watchdogs run
  concurrently and meet at the inner mutex, so the model is a transition system:
  an \<open>action\<close> is what one of them does between two points where another can get
  in, and \<open>act\<close> is its effect, \<open>None\<close> where it cannot happen.  A cancellation
  token and the \<open>finished\<close> token of a run are named by its id.
\<close>

section \<open>Limits\<close>

text \<open>\<open>None\<close> stands for \<open>Semaphore::MAX_PERMITS\<close>.\<close>

definition run_slots :: "string option \<Rightarrow> nat option" where
  "run_slots raw =
     (case Option.bind raw (\<lambda>v. parse_unsigned 64 (trim v)) of
        None \<Rightarrow> None | Some slots \<Rightarrow> if slots > 0 then Some slots else None)"

definition SUPERSEDED_GRACE_MS :: nat where "SUPERSEDED_GRACE_MS = 3000"

definition SERVER_IDLE_MS :: nat where "SERVER_IDLE_MS = 15 * 60 * 1000"

definition server_idle :: "nat \<Rightarrow> nat \<Rightarrow> bool" where
  "server_idle last_ms now \<longleftrightarrow> now - last_ms \<ge> SERVER_IDLE_MS"

section \<open>Translation of runner events\<close>

fun translate :: "nat \<Rightarrow> runner_event \<Rightarrow> nat \<Rightarrow> string \<Rightarrow> string \<Rightarrow> server_event" where
  "translate now (StateEvent st) version run_id sid = RunStateEvent version (Some run_id) st"
| "translate now (Catalog probes) version run_id sid = ProbeCatalog version probes"
| "translate now (TestCatalogEvent tests) version run_id sid = TestCatalog version tests"
| "translate now (TestResultEvent test_id name status ms message) version run_id sid =
     TestResult version run_id test_id name status ms message"
| "translate now (TestSummaryEvent passed failed skipped leaked ms) version run_id sid =
     TestSummary version run_id passed failed skipped leaked ms"
| "translate now (OutputEvent stream chunk category location) version run_id sid =
     Output version run_id stream category chunk location"
| "translate now (DiagnosticEvent owner diagnostics) version run_id sid = Diagnostics version owner diagnostics"
| "translate now (ProbeEvent raw path count) version run_id sid =
     ProbeValue \<lparr>pv_protocol_version = 1, pv_kind = ''probe_value'', pv_session_id = sid,
       pv_run_id = run_id, pv_document_version = version, pv_probe_id = rp_probe_id raw,
       pv_path = path, pv_name = rp_name raw, pv_line = rp_line raw, pv_column = rp_column raw,
       pv_type_name = rp_type_name raw, pv_preview = rp_preview raw, pv_truncated = rp_truncated raw,
       pv_sequence = rp_sequence raw, pv_timestamp = now, pv_count = count, pv_bits = rp_bits raw,
       pv_size_bytes = rp_size_bytes raw, pv_align_bytes = rp_align_bytes raw, pv_fields = rp_fields raw\<rparr>"

section \<open>State\<close>

record start_request =
  rq_version :: nat
  rq_target :: "language option"
  rq_interactive :: bool

text \<open>Where a run's task is: executing, between the check of \<open>current\<close> and the
  report of its end, before its cleanup, ended, or unwound by a panic.\<close>

datatype stage = Working | Reporting "runner_outcome option" bool | Cleaning | Ended | Crashed

record run_task =
  tk_version :: nat
  tk_language :: language
  tk_interactive :: bool
  tk_stage :: stage
  tk_checked :: "(runner_event \<times> bool) option"
  tk_watched :: bool
  tk_idle_ours :: bool

record sched =
  sd_session :: session
  sd_outbox :: "server_event list"
  sd_debounce :: "nat option"
  sd_debounce_seq :: nat
  sd_asleep :: "nat \<Rightarrow> (nat \<times> language) option"
  sd_cancel :: "string option"
  sd_active_run :: "string option"
  sd_last_language :: language
  sd_finished :: "string option"
  sd_live_input :: "string option"
  sd_waiting :: "start_request list"
  sd_starting :: "(nat \<times> language \<times> bool \<times> string option) option"
  sd_runs :: "string \<Rightarrow> run_task option"
  sd_cancelled :: "string set"
  sd_done :: "string set"

definition sched_new :: "session \<Rightarrow> sched" where
  "sched_new session = \<lparr>sd_session = session, sd_outbox = [], sd_debounce = None, sd_debounce_seq = 0,
     sd_asleep = Map.empty, sd_cancel = None, sd_active_run = None, sd_last_language = ss_language session,
     sd_finished = None, sd_live_input = None, sd_waiting = [], sd_starting = None, sd_runs = Map.empty,
     sd_cancelled = {}, sd_done = {}\<rparr>"

definition send :: "server_event \<Rightarrow> sched \<Rightarrow> sched" where
  "send e s = s\<lparr>sd_outbox := sd_outbox s @ [e]\<rparr>"

definition session_version :: "sched \<Rightarrow> nat" where
  "session_version s = sn_version (ss_snapshot (sd_session s))"

section \<open>The operations\<close>

text \<open>Taking the debounce aborts its sleeping task.\<close>

definition cancel_internal :: "sched \<Rightarrow> sched" where
  "cancel_internal s =
     s\<lparr>sd_debounce := None,
       sd_asleep := (case sd_debounce s of None \<Rightarrow> sd_asleep s | Some tag \<Rightarrow> (sd_asleep s)(tag := None)),
       sd_cancelled := (case sd_cancel s of None \<Rightarrow> sd_cancelled s | Some r \<Rightarrow> insert r (sd_cancelled s)),
       sd_cancel := None, sd_active_run := None, sd_live_input := None\<rparr>"

text \<open>The rest of \<open>document_updated\<close>, after its \<open>cancel_internal\<close>.\<close>

definition arm :: "language option \<Rightarrow> sched \<Rightarrow> sched" where
  "arm language s =
     (let version = session_version s;
          target = (case language of Some l \<Rightarrow> l | None \<Rightarrow> sd_last_language s)
      in if \<not> se_auto_run (ss_settings (sd_session s))
         then send (RunStateEvent version None Idle) s
         else
           let s1 = send (RunStateEvent version None Debouncing) s; tag = sd_debounce_seq s1 + 1
           in s1\<lparr>sd_debounce_seq := tag, sd_debounce := Some tag,
                 sd_asleep := (sd_asleep s1)(tag \<mapsto> (version, target))\<rparr>)"

definition document_updated :: "language option \<Rightarrow> sched \<Rightarrow> sched" where
  "document_updated language s = arm language (cancel_internal s)"

text \<open>The debounce task wakes: it starts the run only if it is still the pending one.\<close>

definition debounce_fires :: "nat \<Rightarrow> sched \<Rightarrow> sched option" where
  "debounce_fires tag s =
     (case sd_asleep s tag of
        None \<Rightarrow> None
      | Some (version, target) \<Rightarrow>
          let s1 = s\<lparr>sd_asleep := (sd_asleep s)(tag := None)\<rparr>
          in if sd_debounce s1 \<noteq> Some tag then Some s1
             else Some (s1\<lparr>sd_debounce := None, sd_waiting := sd_waiting s1 @
                    [\<lparr>rq_version = version, rq_target = Some target, rq_interactive = False\<rparr>]\<rparr>))"

definition no_runner :: "language \<Rightarrow> server_event" where
  "no_runner target = ServerError True (''No runner available for '' @ as_str_language target) None"

text \<open>\<open>start_run\<close> up to its wait for the superseded run; the start mutex is free.\<close>

definition start_begin :: "start_request \<Rightarrow> sched \<Rightarrow> sched" where
  "start_begin rq s =
     (if session_version s \<noteq> rq_version rq then s
      else
        let target = (case rq_target rq of Some l \<Rightarrow> l | None \<Rightarrow> sd_last_language s)
        in if \<not> (case ss_support (sd_session s) target of None \<Rightarrow> False | Some here \<Rightarrow> ls_present here)
           then send (no_runner target) s
           else
             let s1 = cancel_internal s
             in s1\<lparr>sd_finished := None,
                   sd_starting := Some (rq_version rq, target, rq_interactive rq, sd_finished s1)\<rparr>)"

text \<open>\<open>start_run\<close> from there: \<open>grace_over\<close> is the timeout of the wait.\<close>

definition new_task :: "nat \<Rightarrow> language \<Rightarrow> bool \<Rightarrow> sched \<Rightarrow> run_task" where
  "new_task version target interactive s =
     \<lparr>tk_version = version, tk_language = target, tk_interactive = interactive, tk_stage = Working,
      tk_checked = None, tk_watched = se_serve (ss_settings (sd_session s)), tk_idle_ours = False\<rparr>"

definition install_run :: "string \<Rightarrow> nat \<Rightarrow> language \<Rightarrow> bool \<Rightarrow> sched \<Rightarrow> sched" where
  "install_run run_id version target interactive s =
     (let session = (sd_session s)\<lparr>ss_live_stdin := (if interactive then Some [] else None)\<rparr>;
          s1 = s\<lparr>sd_starting := None, sd_session := session, sd_last_language := target,
                 sd_cancel := Some run_id, sd_active_run := Some run_id, sd_finished := Some run_id,
                 sd_live_input := (if interactive then Some run_id else None),
                 sd_runs := (sd_runs s)(run_id \<mapsto> new_task version target interactive s)\<rparr>
      in if interactive then send (StdinOpen version run_id) s1 else s1)"

definition start_install :: "string \<Rightarrow> bool \<Rightarrow> sched \<Rightarrow> sched option" where
  "start_install run_id grace_over s =
     (case sd_starting s of
        None \<Rightarrow> None
      | Some (version, target, interactive, previous) \<Rightarrow>
          if (case previous of None \<Rightarrow> False | Some p \<Rightarrow> p \<notin> sd_done s \<and> \<not> grace_over) then None
          else if previous \<noteq> None \<and> session_version s \<noteq> version
          then Some (s\<lparr>sd_starting := None\<rparr>)
          else Some (install_run run_id version target interactive s))"

text \<open>The check each event and the end of a run pass.\<close>

definition is_current :: "string \<Rightarrow> run_task \<Rightarrow> sched \<Rightarrow> bool" where
  "is_current run_id t s \<longleftrightarrow>
     run_id \<notin> sd_cancelled s \<and> sd_active_run s = Some run_id \<and> session_version s = tk_version t"

definition set_task :: "string \<Rightarrow> run_task \<Rightarrow> sched \<Rightarrow> sched" where
  "set_task run_id t s = s\<lparr>sd_runs := (sd_runs s)(run_id \<mapsto> t)\<rparr>"

definition on_task :: "string \<Rightarrow> (run_task \<Rightarrow> sched option) \<Rightarrow> sched \<Rightarrow> sched option" where
  "on_task run_id f s = Option.bind (sd_runs s run_id) f"

text \<open>The forwarder of a run whose task unwound goes on until its channel is empty.\<close>

definition forward_check :: "string \<Rightarrow> runner_event \<Rightarrow> sched \<Rightarrow> sched option" where
  "forward_check run_id event s = on_task run_id (\<lambda>t.
     if tk_stage t \<in> {Working, Crashed} \<and> tk_checked t = None
     then Some (set_task run_id (t\<lparr>tk_checked := Some (event, is_current run_id t s)\<rparr>) s) else None) s"

definition forward_send :: "string \<Rightarrow> nat \<Rightarrow> sched \<Rightarrow> sched option" where
  "forward_send run_id now s = on_task run_id (\<lambda>t.
     case tk_checked t of
       None \<Rightarrow> None
     | Some (event, current) \<Rightarrow>
         let s1 = set_task run_id (t\<lparr>tk_checked := None\<rparr>) s
         in Some (if current then send (translate now event (tk_version t) run_id (ss_id (sd_session s))) s1
                  else s1)) s"

text \<open>The runner returned and its events are drained.\<close>

definition run_end :: "string \<Rightarrow> runner_outcome option \<Rightarrow> sched \<Rightarrow> sched option" where
  "run_end run_id outcome s = on_task run_id (\<lambda>t.
     if tk_stage t = Working \<and> tk_checked t = None
     then Some (set_task run_id (t\<lparr>tk_stage := Reporting outcome (is_current run_id t s)\<rparr>) s) else None) s"

definition run_report :: "string \<Rightarrow> sched \<Rightarrow> sched option" where
  "run_report run_id s = on_task run_id (\<lambda>t.
     case tk_stage t of
       Reporting outcome current \<Rightarrow>
         let s1 = set_task run_id (t\<lparr>tk_stage := Cleaning\<rparr>) s
         in Some (if \<not> current then s1
                  else (case outcome of
                          Some result \<Rightarrow>
                            send (RunFinished (tk_version t) run_id (ro_result result))
                              (send (RunStateEvent (tk_version t) (Some run_id)
                                 (as_run_state (ro_terminal_state result))) s1)
                        | None \<Rightarrow> send (no_runner (tk_language t)) s1))
     | _ \<Rightarrow> None) s"

definition run_cleanup :: "string \<Rightarrow> sched \<Rightarrow> sched option" where
  "run_cleanup run_id s = on_task run_id (\<lambda>t.
     if tk_stage t = Cleaning then
       (let s1 = set_task run_id (t\<lparr>tk_stage := Ended\<rparr>) s
        in Some (if sd_active_run s = Some run_id
                 then s1\<lparr>sd_active_run := None, sd_cancel := None, sd_live_input := None\<rparr> else s1))
     else None) s"

definition run_panic :: "string \<Rightarrow> sched \<Rightarrow> sched option" where
  "run_panic run_id s = on_task run_id (\<lambda>t.
     if tk_stage t = Working then Some (set_task run_id (t\<lparr>tk_stage := Crashed\<rparr>) s) else None) s"

text \<open>The watchdog, once the task has returned or unwound.\<close>

definition run_reset :: "string \<Rightarrow> nat \<Rightarrow> sched \<Rightarrow> sched" where
  "run_reset run_id version s =
     send (ServerError True ''The run crashed inside the server and was reset'' None)
       (send (RunStateEvent version (Some run_id) Idle) (s\<lparr>sd_active_run := None, sd_cancel := None\<rparr>))"

definition run_watchdog :: "string \<Rightarrow> sched \<Rightarrow> sched option" where
  "run_watchdog run_id s = on_task run_id (\<lambda>t.
     if run_id \<in> sd_done s \<or> tk_stage t \<notin> {Ended, Crashed} then None
     else
       let s1 = s\<lparr>sd_done := insert run_id (sd_done s)\<rparr>
       in Some (if tk_stage t = Crashed \<and> sd_active_run s1 = Some run_id
                then run_reset run_id (tk_version t) s1 else s1)) s"

text \<open>The idle watch of a server run looks, then acts.\<close>

definition idle_check :: "string \<Rightarrow> nat \<Rightarrow> nat \<Rightarrow> sched \<Rightarrow> sched option" where
  "idle_check run_id started now s = on_task run_id (\<lambda>t.
     if \<not> tk_watched t \<or> run_id \<in> sd_cancelled s \<or> run_id \<in> sd_done s then None
     else if \<not> server_idle (max (ss_last_http_ms (sd_session s)) started) now then Some s
     else Some (set_task run_id
            (t\<lparr>tk_watched := False, tk_idle_ours := (sd_active_run s = Some run_id)\<rparr>) s)) s"

definition idle_stop :: "string \<Rightarrow> sched \<Rightarrow> sched option" where
  "idle_stop run_id s = on_task run_id (\<lambda>t.
     if \<not> tk_idle_ours t then None
     else Some (send (ServerError True (''The server stopped after '' @ show_nat (SERVER_IDLE_MS div 60000)
                   @ '' minutes without a request '' @ [CHR 0xE2, CHR 0x80, CHR 0x94] @ '' Run starts it again'') None)
            (send (RunStateEvent (tk_version t) None Cancelled)
              (cancel_internal (set_task run_id (t\<lparr>tk_idle_ours := False\<rparr>) s))))) s"

text \<open>\<open>open\<close> says that the receiver is still there.\<close>

definition write_stdin :: "bool \<Rightarrow> live_input \<Rightarrow> sched \<Rightarrow> unit res \<times> sched" where
  "write_stdin receiver_open input s =
     (let sent = (sd_live_input s \<noteq> None \<and> receiver_open);
          s1 = (if input = LiveEof then s\<lparr>sd_live_input := None\<rparr> else s)
      in (if sent then Inr () else Inl ''No program is waiting for input'', s1))"

section \<open>The transition system\<close>

datatype action =
    DoCancel
  | DoArm "language option"
  | DoRequest start_request
  | DoDebounce nat
  | DoBegin nat
  | DoInstall string bool
  | DoCheck string runner_event
  | DoSend string nat
  | DoEnd string "runner_outcome option"
  | DoReport string
  | DoCleanup string
  | DoPanic string
  | DoWatchdog string
  | DoIdleCheck string nat nat
  | DoIdleStop string
  | DoStdin bool live_input
  | DoEdit session

text \<open>A run's id is new (a random UUID), a start waits for the mutex, and a write to
  the session never takes its version back.\<close>

fun act :: "action \<Rightarrow> sched \<Rightarrow> sched option" where
  "act DoCancel s = Some (cancel_internal s)"
| "act (DoArm language) s = Some (arm language s)"
| "act (DoRequest rq) s = Some (s\<lparr>sd_waiting := sd_waiting s @ [rq]\<rparr>)"
| "act (DoDebounce tag) s = debounce_fires tag s"
| "act (DoBegin i) s =
     (if i < length (sd_waiting s) \<and> sd_starting s = None
      then Some (start_begin (sd_waiting s ! i)
             (s\<lparr>sd_waiting := take i (sd_waiting s) @ drop (Suc i) (sd_waiting s)\<rparr>))
      else None)"
| "act (DoInstall run_id grace_over) s =
     (if sd_runs s run_id \<noteq> None then None else start_install run_id grace_over s)"
| "act (DoCheck run_id event) s = forward_check run_id event s"
| "act (DoSend run_id now) s = forward_send run_id now s"
| "act (DoEnd run_id outcome) s = run_end run_id outcome s"
| "act (DoReport run_id) s = run_report run_id s"
| "act (DoCleanup run_id) s = run_cleanup run_id s"
| "act (DoPanic run_id) s = run_panic run_id s"
| "act (DoWatchdog run_id) s = run_watchdog run_id s"
| "act (DoIdleCheck run_id started now) s = idle_check run_id started now s"
| "act (DoIdleStop run_id) s = idle_stop run_id s"
| "act (DoStdin receiver_open input) s = Some (snd (write_stdin receiver_open input s))"
| "act (DoEdit session) s =
     (if session_version s \<le> sn_version (ss_snapshot session) then Some (s\<lparr>sd_session := session\<rparr>) else None)"

inductive sched_step :: "sched \<Rightarrow> sched \<Rightarrow> bool" where
  sched_act: "act a s = Some s' \<Longrightarrow> sched_step s s'"

inductive_simps sched_step_iff: "sched_step s s'"

inductive sched_reach :: "sched \<Rightarrow> sched \<Rightarrow> bool" for s0 where
  reach_start: "sched_reach s0 s0"
| reach_step: "sched_reach s0 s \<Longrightarrow> act a s = Some s' \<Longrightarrow> sched_reach s0 s'"

end
