(* ===== verification/Supersession.thy ===== *)
theory Supersession
  imports Scheduler
begin

definition over :: "run_task \<Rightarrow> bool \<Rightarrow> bool" where
  "over t is_done \<longleftrightarrow> tk_stage t = Ended \<or> tk_stage t = Crashed \<and> is_done"

fun run_ok :: "run_task option \<Rightarrow> bool \<Rightarrow> bool \<Rightarrow> bool \<Rightarrow> bool \<Rightarrow> bool" where
  "run_ok None active cancelled is_done typing \<longleftrightarrow> \<not> active \<and> \<not> cancelled \<and> \<not> is_done \<and> \<not> typing"
| "run_ok (Some t) active cancelled is_done typing \<longleftrightarrow>
     (active \<longrightarrow> \<not> cancelled \<and> \<not> over t is_done)
   \<and> (\<not> active \<longrightarrow> cancelled \<or> over t is_done)
   \<and> (typing \<longrightarrow> tk_interactive t \<and> (active \<or> tk_stage t = Crashed))
   \<and> (is_done \<longrightarrow> tk_stage t \<in> {Ended, Crashed})"

definition run_fine :: "sched \<Rightarrow> string \<Rightarrow> bool" where
  "run_fine s r = run_ok (sd_runs s r) (sd_active_run s = Some r) (r \<in> sd_cancelled s) (r \<in> sd_done s)
     (sd_live_input s = Some r)"

definition sched_inv :: "sched \<Rightarrow> bool" where
  "sched_inv s \<longleftrightarrow> sd_cancel s = sd_active_run s \<and> (sd_starting s \<noteq> None \<longrightarrow> sd_active_run s = None)
     \<and> (\<forall>r. run_fine s r)"

lemma sched_invI:
  "\<lbrakk>sd_cancel s = sd_active_run s; sd_starting s \<noteq> None \<Longrightarrow> sd_active_run s = None;
    \<And>r. run_fine s r\<rbrakk> \<Longrightarrow> sched_inv s"
  by (simp add: sched_inv_def)

lemma sched_invD:
  assumes "sched_inv s"
  shows "sd_cancel s = sd_active_run s" "sd_starting s \<noteq> None \<Longrightarrow> sd_active_run s = None" "run_fine s r"
  using assms by (auto simp: sched_inv_def)

lemma run_ok_quiet: "run_ok t a c d y \<Longrightarrow> run_ok t a c d False"
  by (cases t) auto

lemma run_ok_stop: "run_ok t a c d y \<Longrightarrow> run_ok t False (c \<or> a) d False"
  by (cases t) auto

lemma run_ok_task:
  assumes "run_ok (Some t) a c d y" "tk_interactive t' = tk_interactive t"
    "tk_stage t' = tk_stage t \<or> tk_stage t = Working \<and> tk_stage t' \<noteq> Ended
       \<or> (\<exists>o1 c. tk_stage t = Reporting o1 c) \<and> tk_stage t' = Cleaning"
  shows "run_ok (Some t') a c d y"
  using assms by (cases "tk_stage t"; cases "tk_stage t'") (auto simp: over_def)

lemma on_task_Some: "on_task r f s = Some s' \<longleftrightarrow> (\<exists>t. sd_runs s r = Some t \<and> f t = Some s')"
  by (simp add: on_task_def bind_eq_Some_conv)

lemma sched_inv_send [simp]: "sched_inv (send e s) = sched_inv s"
  by (simp add: sched_inv_def run_fine_def send_def)

lemma sched_inv_cong:
  assumes "sched_inv s" "sd_cancel s' = sd_cancel s" "sd_active_run s' = sd_active_run s"
    "sd_runs s' = sd_runs s" "sd_cancelled s' = sd_cancelled s" "sd_done s' = sd_done s"
    "sd_starting s' = sd_starting s \<or> sd_starting s' = None \<or> sd_active_run s' = None"
    "sd_live_input s' = sd_live_input s \<or> sd_live_input s' = None"
  shows "sched_inv s'"
proof (rule sched_invI)
  show "run_fine s' r" for r
    using sched_invD(3) [OF assms(1), of r] assms(2-) run_ok_quiet by (auto simp: run_fine_def)
qed (use sched_invD(1,2) [OF assms(1)] assms(2-) in auto)

lemma sched_inv_cancel:
  assumes "sched_inv s" shows "sched_inv (cancel_internal s)"
proof (rule sched_invI)
  show "run_fine (cancel_internal s) r" for r
  proof -
    have "r \<in> sd_cancelled (cancel_internal s) \<longleftrightarrow> r \<in> sd_cancelled s \<or> sd_active_run s = Some r"
      using sched_invD(1) [OF assms] by (auto simp: cancel_internal_def split: option.split)
    then show ?thesis
      using sched_invD(3) [OF assms, of r, unfolded run_fine_def, THEN run_ok_stop]
      by (simp add: run_fine_def) (simp add: cancel_internal_def)
  qed
qed (simp_all add: cancel_internal_def)

lemma sched_inv_set_task:
  assumes "sched_inv s" "sd_runs s r = Some t" "tk_interactive t' = tk_interactive t"
    "tk_stage t' = tk_stage t \<or> tk_stage t = Working \<and> tk_stage t' \<noteq> Ended
       \<or> (\<exists>o1 c. tk_stage t = Reporting o1 c) \<and> tk_stage t' = Cleaning"
  shows "sched_inv (set_task r t' s)"
proof (rule sched_invI)
  show "run_fine (set_task r t' s) q" for q
  proof (cases "q = r")
    case True
    then show ?thesis
      using run_ok_task [OF _ assms(3,4)] sched_invD(3) [OF assms(1), of r] assms(2)
      by (simp add: run_fine_def set_task_def)
  next
    case False
    then show ?thesis using sched_invD(3) [OF assms(1), of q] by (simp add: run_fine_def set_task_def)
  qed
qed (use sched_invD(1,2) [OF assms(1)] in \<open>simp_all add: set_task_def\<close>)

lemma sched_inv_cleanup:
  assumes "sched_inv s" "run_cleanup r s = Some s'"
  shows "sched_inv s'"
proof -
  obtain t where t: "sd_runs s r = Some t" "tk_stage t = Cleaning"
    and s': "s' = (if sd_active_run s = Some r
                   then (set_task r (t\<lparr>tk_stage := Ended\<rparr>) s)
                          \<lparr>sd_active_run := None, sd_cancel := None, sd_live_input := None\<rparr>
                   else set_task r (t\<lparr>tk_stage := Ended\<rparr>) s)"
    using assms(2) by (auto simp: run_cleanup_def on_task_Some Let_def split: if_splits)
  show ?thesis
  proof (rule sched_invI)
    show "run_fine s' q" for q
    proof (cases "q = r")
      case True
      then show ?thesis using sched_invD(3) [OF assms(1), of r] t
        by (auto simp: run_fine_def set_task_def over_def s')
    next
      case False
      then show ?thesis using sched_invD(3) [OF assms(1), of q] run_ok_quiet
        by (auto simp: run_fine_def set_task_def s')
    qed
  qed (use sched_invD(1,2) [OF assms(1)] in \<open>auto simp: set_task_def s' split: if_splits\<close>)
qed

lemma sched_inv_watchdog:
  assumes "sched_inv s" "run_watchdog r s = Some s'"
  shows "sched_inv s'"
proof -
  define s1 where "s1 = s\<lparr>sd_done := insert r (sd_done s)\<rparr>"
  obtain t where t: "sd_runs s r = Some t" "tk_stage t \<in> {Ended, Crashed}" "r \<notin> sd_done s"
    and s': "s' = (if tk_stage t = Crashed \<and> sd_active_run s = Some r
                   then run_reset r (tk_version t) s1 else s1)"
    using assms(2) by (auto simp: run_watchdog_def on_task_Some Let_def s1_def split: if_splits)
  show ?thesis
  proof (rule sched_invI)
    show "run_fine s' q" for q
    proof (cases "q = r")
      case True
      then show ?thesis using sched_invD(3) [OF assms(1), of r] t
        by (auto simp: run_fine_def s1_def over_def s' run_reset_def send_def)
    next
      case False
      then show ?thesis using sched_invD(3) [OF assms(1), of q]
        by (auto simp: run_fine_def s1_def s' run_reset_def send_def)
    qed
  qed (use sched_invD(1,2) [OF assms(1)] in
       \<open>auto simp: s1_def s' run_reset_def send_def split: if_splits\<close>)
qed

lemma install_run_fields [simp]:
  "sd_runs (install_run r v l i s) = (sd_runs s)(r \<mapsto> new_task v l i s)"
  "sd_cancel (install_run r v l i s) = Some r" "sd_active_run (install_run r v l i s) = Some r"
  "sd_finished (install_run r v l i s) = Some r" "sd_starting (install_run r v l i s) = None"
  "sd_live_input (install_run r v l i s) = (if i then Some r else None)"
  "sd_cancelled (install_run r v l i s) = sd_cancelled s" "sd_done (install_run r v l i s) = sd_done s"
  by (simp_all add: install_run_def Let_def send_def)

lemma sched_inv_install_run:
  assumes "sched_inv s" "sd_runs s r = None" "sd_active_run s = None"
  shows "sched_inv (install_run r version target interactive s)"
proof (rule sched_invI)
  show "run_fine (install_run r version target interactive s) q" for q
  proof (cases "q = r")
    case True
    then show ?thesis using sched_invD(3) [OF assms(1), of r] assms(2)
      by (simp add: run_fine_def new_task_def over_def)
  next
    case False
    then show ?thesis using sched_invD(3) [OF assms(1), of q, unfolded run_fine_def, THEN run_ok_quiet] assms(3)
      by (simp add: run_fine_def)
  qed
qed simp_all

lemma sched_inv_install:
  assumes "sched_inv s" "sd_runs s r = None" "start_install r g s = Some s'"
  shows "sched_inv s'"
proof -
  have "sd_active_run s = None"
    using assms(3) sched_invD(2) [OF assms(1)] by (auto simp: start_install_def split: option.splits)
  moreover have "sched_inv (s\<lparr>sd_starting := None\<rparr>)" by (rule sched_inv_cong [OF assms(1)]) simp_all
  ultimately show ?thesis
    using assms sched_inv_install_run by (auto simp: start_install_def split: option.splits if_splits)
qed

lemma sched_inv_begin:
  assumes "sched_inv s" shows "sched_inv (start_begin rq s)"
proof -
  let ?c = "cancel_internal s"
  have "sched_inv (?c\<lparr>sd_finished := None, sd_starting := Some x\<rparr>)" for x
    by (rule sched_inv_cong [OF sched_inv_cancel [OF assms]]) (simp_all add: cancel_internal_def)
  then show ?thesis using assms by (simp add: start_begin_def Let_def)
qed

lemma sched_inv_edit [simp]: "sched_inv (s\<lparr>sd_session := x\<rparr>) = sched_inv s"
  and sched_inv_waiting [simp]: "sched_inv (s\<lparr>sd_waiting := w\<rparr>) = sched_inv s"
  and sched_inv_asleep [simp]: "sched_inv (s\<lparr>sd_asleep := z\<rparr>) = sched_inv s"
  and sched_inv_debounce [simp]: "sched_inv (s\<lparr>sd_debounce := d\<rparr>) = sched_inv s"
  and sched_inv_seq [simp]: "sched_inv (s\<lparr>sd_debounce_seq := n\<rparr>) = sched_inv s"
  by (simp_all add: sched_inv_def run_fine_def)

lemma sched_inv_quiet:
  assumes "sched_inv s" shows "sched_inv (s\<lparr>sd_live_input := None\<rparr>)"
  by (rule sched_inv_cong [OF assms]) simp_all

lemma sched_inv_forward_send:
  assumes "sched_inv s" "forward_send r now s = Some s'"
  shows "sched_inv s'"
proof -
  obtain t e c where t: "sd_runs s r = Some t" "tk_checked t = Some (e, c)"
    using assms(2) by (auto simp: forward_send_def on_task_Some split: option.splits)
  have "sched_inv (set_task r (t\<lparr>tk_checked := None\<rparr>) s)"
    by (rule sched_inv_set_task [OF assms(1) t(1)]) simp_all
  then show ?thesis using assms(2) t by (auto simp: forward_send_def on_task_Some Let_def split: if_splits)
qed

lemma sched_inv_report:
  assumes "sched_inv s" "run_report r s = Some s'"
  shows "sched_inv s'"
proof -
  obtain t where r: "sd_runs s r = Some t"
    using assms(2) by (auto simp: run_report_def on_task_Some)
  then obtain out c where t: "tk_stage t = Reporting out c"
    using assms(2) by (cases "tk_stage t") (auto simp: run_report_def on_task_def)
  have "sched_inv (set_task r (t\<lparr>tk_stage := Cleaning\<rparr>) s)"
    by (rule sched_inv_set_task [OF assms(1) r]) (simp_all add: t)
  then show ?thesis
    using assms(2) r t by (auto simp: run_report_def on_task_def Let_def split: if_splits option.splits)
qed

theorem sched_inv_act:
  assumes "sched_inv s" "act a s = Some s'"
  shows "sched_inv s'"
proof (cases a)
  case (DoArm l)
  then show ?thesis using assms by (auto simp: arm_def Let_def)
next
  case (DoDebounce tag)
  then show ?thesis using assms by (auto simp: debounce_fires_def Let_def split: option.splits if_splits)
next
  case (DoCheck r e)
  then show ?thesis using assms
    by (auto simp: forward_check_def on_task_Some intro!: sched_inv_set_task split: if_splits)
next
  case (DoSend r n)
  then show ?thesis using assms sched_inv_forward_send by simp
next
  case (DoEnd r out)
  then show ?thesis using assms
    by (auto simp: run_end_def on_task_Some intro!: sched_inv_set_task split: if_splits)
next
  case (DoReport r)
  then show ?thesis using assms sched_inv_report by simp
next
  case (DoPanic r)
  then show ?thesis using assms
    by (auto simp: run_panic_def on_task_Some intro!: sched_inv_set_task split: if_splits)
next
  case (DoIdleCheck r m n)
  then show ?thesis using assms
    by (auto simp: idle_check_def on_task_Some intro!: sched_inv_set_task split: if_splits)
next
  case (DoIdleStop r)
  then show ?thesis using assms
    by (auto simp: idle_stop_def on_task_Some intro!: sched_inv_set_task sched_inv_cancel split: if_splits)
next
  case (DoStdin b i)
  then show ?thesis using assms by (auto simp: write_stdin_def Let_def sched_inv_quiet)
qed (use assms in \<open>auto intro: sched_inv_cancel sched_inv_begin sched_inv_install sched_inv_cleanup
       sched_inv_watchdog split: if_splits\<close>)

lemma sched_inv_new: "sched_inv (sched_new session)"
  by (simp add: sched_inv_def run_fine_def sched_new_def)

lemma sched_reach_inv: "sched_reach (sched_new session) s \<Longrightarrow> sched_inv s"
  by (induction rule: sched_reach.induct) (auto simp: sched_inv_new intro: sched_inv_act)

section \<open>What a step does to a run\<close>

inductive task_step :: "bool \<Rightarrow> run_task \<Rightarrow> run_task \<Rightarrow> bool" for current where
  ts_check: "tk_stage t \<in> {Working, Crashed} \<Longrightarrow> tk_checked t = None
     \<Longrightarrow> task_step current t (t\<lparr>tk_checked := Some (e, current)\<rparr>)"
| ts_sent: "task_step current t (t\<lparr>tk_checked := None\<rparr>)"
| ts_end: "tk_stage t = Working \<Longrightarrow> tk_checked t = None
     \<Longrightarrow> task_step current t (t\<lparr>tk_stage := Reporting outcome current\<rparr>)"
| ts_report: "tk_stage t = Reporting outcome c \<Longrightarrow> task_step current t (t\<lparr>tk_stage := Cleaning\<rparr>)"
| ts_clean: "tk_stage t = Cleaning \<Longrightarrow> task_step current t (t\<lparr>tk_stage := Ended\<rparr>)"
| ts_panic: "tk_stage t = Working \<Longrightarrow> task_step current t (t\<lparr>tk_stage := Crashed\<rparr>)"
| ts_idle: "task_step current t (t\<lparr>tk_watched := w, tk_idle_ours := i\<rparr>)"
| ts_told: "task_step current t (t\<lparr>tk_idle_ours := False\<rparr>)"

inductive_cases task_stepE: "task_step current t t'"

lemmas run_ops = forward_check_def forward_send_def run_end_def run_report_def run_cleanup_def
  run_panic_def run_watchdog_def idle_check_def idle_stop_def

lemma send_fields [simp]:
  "sd_runs (send e s) = sd_runs s" "sd_active_run (send e s) = sd_active_run s"
  "sd_finished (send e s) = sd_finished s" "sd_starting (send e s) = sd_starting s"
  "sd_done (send e s) = sd_done s" "sd_cancelled (send e s) = sd_cancelled s"
  "sd_outbox (send e s) = sd_outbox s @ [e]" "sd_session (send e s) = sd_session s"
  by (simp_all add: send_def)

lemma set_task_fields [simp]:
  "sd_runs (set_task r t s) = (sd_runs s)(r \<mapsto> t)" "sd_active_run (set_task r t s) = sd_active_run s"
  "sd_finished (set_task r t s) = sd_finished s" "sd_starting (set_task r t s) = sd_starting s"
  "sd_done (set_task r t s) = sd_done s" "sd_cancelled (set_task r t s) = sd_cancelled s"
  "sd_outbox (set_task r t s) = sd_outbox s" "sd_session (set_task r t s) = sd_session s"
  by (simp_all add: set_task_def)

lemma cancel_fields [simp]:
  "sd_runs (cancel_internal s) = sd_runs s" "sd_active_run (cancel_internal s) = None"
  "sd_finished (cancel_internal s) = sd_finished s" "sd_starting (cancel_internal s) = sd_starting s"
  "sd_done (cancel_internal s) = sd_done s" "sd_outbox (cancel_internal s) = sd_outbox s"
  "sd_session (cancel_internal s) = sd_session s"
  by (simp_all add: cancel_internal_def)

lemma reset_fields [simp]:
  "sd_runs (run_reset r v s) = sd_runs s" "sd_active_run (run_reset r v s) = None"
  "sd_finished (run_reset r v s) = sd_finished s" "sd_starting (run_reset r v s) = sd_starting s"
  "sd_done (run_reset r v s) = sd_done s"
  by (simp_all add: run_reset_def)

text \<open>A step leaves a run as it was or moves it by one \<open>task_step\<close>; a new run is a new id's.\<close>

definition moves :: "string \<Rightarrow> sched \<Rightarrow> sched \<Rightarrow> bool" where
  "moves r s s' \<longleftrightarrow> (\<exists>t t'. sd_runs s r = Some t \<and> task_step (is_current r t s) t t' \<and> sd_runs s' = (sd_runs s)(r \<mapsto> t'))"

lemma movesI:
  "\<lbrakk>sd_runs s r = Some t; task_step (is_current r t s) t t'; sd_runs s' = (sd_runs s)(r \<mapsto> t')\<rbrakk> \<Longrightarrow> moves r s s'"
  by (auto simp: moves_def)

lemma check_moves: "forward_check r e s = Some s' \<Longrightarrow> moves r s s'"
  by (auto simp: forward_check_def on_task_Some intro!: movesI ts_check simp del: split_paired_All split_paired_Ex split: if_splits)

lemma send_moves: "forward_send r now s = Some s' \<Longrightarrow> moves r s s'"
  by (auto simp: forward_send_def on_task_Some Let_def intro!: movesI ts_sent split: option.splits)

lemma end_moves: "run_end r out s = Some s' \<Longrightarrow> moves r s s'"
  by (auto simp: run_end_def on_task_Some intro!: movesI ts_end simp del: split_paired_All split_paired_Ex split: if_splits)

lemma report_moves:
  assumes "run_report r s = Some s'" shows "moves r s s'"
proof -
  obtain t where t: "sd_runs s r = Some t" using assms by (auto simp: run_report_def on_task_Some)
  then obtain out c where "tk_stage t = Reporting out c"
    using assms by (cases "tk_stage t") (auto simp: run_report_def on_task_def)
  then show ?thesis using assms t
    by (auto simp: run_report_def on_task_def Let_def intro!: movesI ts_report split: option.splits)
qed

lemma cleanup_moves: "run_cleanup r s = Some s' \<Longrightarrow> moves r s s'"
  by (auto simp: run_cleanup_def on_task_Some Let_def intro!: movesI ts_clean split: if_splits)

lemma panic_moves: "run_panic r s = Some s' \<Longrightarrow> moves r s s'"
  by (auto simp: run_panic_def on_task_Some intro!: movesI ts_panic split: if_splits)

lemma watchdog_runs: "run_watchdog r s = Some s' \<Longrightarrow> sd_runs s' = sd_runs s"
  by (auto simp: run_watchdog_def on_task_Some Let_def split: if_splits)

lemma idle_moves:
  "idle_check r st now s = Some s' \<Longrightarrow> moves r s s' \<or> s' = s"
  "idle_stop r s = Some s' \<Longrightarrow> moves r s s'"
  subgoal by (auto simp: idle_check_def on_task_Some intro!: movesI ts_idle split: if_splits)
  subgoal by (auto simp: idle_stop_def on_task_Some intro!: movesI ts_told split: if_splits)
  done

lemma debounce_runs: "debounce_fires tag s = Some s' \<Longrightarrow> sd_runs s' = sd_runs s \<and> sd_active_run s' = sd_active_run s
    \<and> sd_finished s' = sd_finished s \<and> sd_starting s' = sd_starting s \<and> sd_done s' = sd_done s
    \<and> sd_outbox s' = sd_outbox s"
  by (auto simp: debounce_fires_def Let_def split: option.splits if_splits)

lemma arm_fields [simp]: "sd_runs (arm l s) = sd_runs s" "sd_active_run (arm l s) = sd_active_run s"
    "sd_finished (arm l s) = sd_finished s" "sd_starting (arm l s) = sd_starting s" "sd_done (arm l s) = sd_done s"
  by (simp_all add: arm_def Let_def)

lemma begin_runs [simp]: "sd_runs (start_begin rq s) = sd_runs s" "sd_done (start_begin rq s) = sd_done s"
  by (simp_all add: start_begin_def Let_def)

lemma stdin_fields [simp]: "sd_runs (snd (write_stdin b i s)) = sd_runs s"
    "sd_active_run (snd (write_stdin b i s)) = sd_active_run s" "sd_finished (snd (write_stdin b i s)) = sd_finished s"
    "sd_starting (snd (write_stdin b i s)) = sd_starting s" "sd_done (snd (write_stdin b i s)) = sd_done s"
    "sd_outbox (snd (write_stdin b i s)) = sd_outbox s"
  by (simp_all add: write_stdin_def Let_def)

lemma install_cases:
  "start_install r g s = Some s' \<Longrightarrow> (\<exists>v l i. s' = install_run r v l i s) \<or> s' = s\<lparr>sd_starting := None\<rparr>"
  unfolding start_install_def by (auto simp del: ex_simps split: option.splits if_splits) blast+

lemma act_runs:
  assumes "act a s = Some s'"
  shows "sd_runs s' = sd_runs s \<or> (\<exists>r. moves r s s')
     \<or> (\<exists>r g v l i. a = DoInstall r g \<and> sd_runs s r = None \<and> s' = install_run r v l i s)"
  using assms
  by (cases a) (auto simp: watchdog_runs
     dest: check_moves send_moves end_moves report_moves cleanup_moves panic_moves idle_moves debounce_runs install_cases split: if_splits)

lemma act_task:
  assumes "act a s = Some s'" "sd_runs s q = Some t"
  obtains t' where "sd_runs s' q = Some t'" "t' = t \<or> task_step (is_current q t s) t t'"
  using act_runs [OF assms(1)]
proof (elim disjE exE conjE)
  fix r assume "moves r s s'"
  then show thesis using assms(2) that by (cases "q = r") (auto simp: moves_def)
next
  fix r g v l i assume "sd_runs s r = None" "s' = install_run r v l i s"
  then show thesis using assms(2) that [of t] by (cases "q = r") auto
qed (use assms(2) that in auto)

section \<open>A superseded run is silent\<close>

text \<open>The run an event names, and the version it carries.\<close>

fun event_run :: "server_event \<Rightarrow> string option" where
  "event_run (RunStateEvent v r st) = r"
| "event_run (TestResult v r i n st ms m) = Some r"
| "event_run (TestSummary v r p f sk lk ms) = Some r"
| "event_run (ProbeValue pv) = Some (pv_run_id pv)"
| "event_run (Output v r st c ch l) = Some r"
| "event_run (StdinOpen v r) = Some r"
| "event_run (RunFinished v r res) = Some r"
| "event_run _ = None"

fun event_version :: "server_event \<Rightarrow> nat option" where
  "event_version (RunStateEvent v r st) = Some v"
| "event_version (TestResult v r i n st ms m) = Some v"
| "event_version (TestSummary v r p f sk lk ms) = Some v"
| "event_version (ProbeValue pv) = Some (pv_document_version pv)"
| "event_version (Output v r st c ch l) = Some v"
| "event_version (StdinOpen v r) = Some v"
| "event_version (RunFinished v r res) = Some v"
| "event_version _ = None"

fun ends_run :: "string \<Rightarrow> server_event \<Rightarrow> bool" where
  "ends_run r (RunFinished v q res) = (q = r)"
| "ends_run r _ = False"

lemma ends_run_names: "ends_run r e \<Longrightarrow> event_run e = Some r"
  by (cases e) auto

lemma translate_names:
  "event_run (translate now e v r sid) \<in> {None, Some r}"
  "event_run (translate now e v r sid) = Some r \<Longrightarrow> event_version (translate now e v r sid) = Some v"
  "\<not> ends_run q (translate now e v r sid)"
  by (cases e; simp)+

text \<open>A run may still say something: an event passed its check, its end did, it crashed
  in the active slot, or it is being installed.\<close>

definition may_speak :: "sched \<Rightarrow> string \<Rightarrow> bool" where
  "may_speak s r \<longleftrightarrow>
     (case sd_runs s r of
        None \<Rightarrow> True
      | Some t \<Rightarrow> sd_active_run s = Some r \<and> tk_stage t \<in> {Working, Crashed}
          \<or> (\<exists>e. tk_checked t = Some (e, True)) \<or> (\<exists>out. tk_stage t = Reporting out True))"

lemma begin_active: "sd_active_run (start_begin rq s) \<in> {sd_active_run s, None}"
  by (simp add: start_begin_def Let_def)

lemma op_active:
  "forward_check r e s = Some s' \<Longrightarrow> sd_active_run s' = sd_active_run s"
  "forward_send r now s = Some s' \<Longrightarrow> sd_active_run s' = sd_active_run s"
  "run_end r out s = Some s' \<Longrightarrow> sd_active_run s' = sd_active_run s"
  "run_panic r s = Some s' \<Longrightarrow> sd_active_run s' = sd_active_run s"
  "idle_check r st now s = Some s' \<Longrightarrow> sd_active_run s' = sd_active_run s"
  "idle_stop r s = Some s' \<Longrightarrow> sd_active_run s' = None"
  "run_cleanup r s = Some s' \<Longrightarrow> sd_active_run s' \<in> {sd_active_run s, None}"
  "run_watchdog r s = Some s' \<Longrightarrow> sd_active_run s' \<in> {sd_active_run s, None}"
  subgoal by (auto simp: forward_check_def on_task_Some split: if_splits)
  subgoal by (auto simp: forward_send_def on_task_Some Let_def split: option.splits)
  subgoal by (auto simp: run_end_def on_task_Some split: if_splits)
  subgoal by (auto simp: run_panic_def on_task_Some split: if_splits)
  subgoal by (auto simp: idle_check_def on_task_Some split: if_splits)
  subgoal by (auto simp: idle_stop_def on_task_Some split: if_splits)
  subgoal by (auto simp: run_cleanup_def on_task_Some Let_def split: if_splits)
  subgoal by (auto simp: run_watchdog_def on_task_Some Let_def split: if_splits)
  done

lemma report_active: "run_report r s = Some s' \<Longrightarrow> sd_active_run s' = sd_active_run s"
proof -
  assume a: "run_report r s = Some s'"
  then obtain t where "sd_runs s r = Some t" by (auto simp: run_report_def on_task_Some)
  with a show ?thesis
    by (cases "tk_stage t") (auto simp: run_report_def on_task_def Let_def split: if_splits option.splits)
qed

lemma act_active:
  assumes "act a s = Some s'" "sd_runs s r \<noteq> None" "sd_active_run s \<noteq> Some r"
  shows "sd_active_run s' \<noteq> Some r"
proof (cases a)
  case (DoBegin i)
  then show ?thesis using assms begin_active [of "sd_waiting s ! i"
      "s\<lparr>sd_waiting := take i (sd_waiting s) @ drop (Suc i) (sd_waiting s)\<rparr>"]
    by (auto split: if_splits)
next
  case (DoInstall q g)
  then show ?thesis using assms install_cases [of q g s s'] by (auto split: if_splits)
next
  case (DoDebounce tag)
  then show ?thesis using assms debounce_runs [of tag s s'] by simp
qed (use assms in \<open>auto dest!: op_active report_active split: if_splits\<close>)

lemma silent_act:
  assumes "act a s = Some s'" "\<not> may_speak s r"
  shows "\<not> may_speak s' r"
proof -
  obtain t where t: "sd_runs s r = Some t" and quiet: "\<And>e. tk_checked t \<noteq> Some (e, True)"
    "\<And>out. tk_stage t \<noteq> Reporting out True"
    "sd_active_run s \<noteq> Some r \<or> tk_stage t \<notin> {Working, Crashed}"
    using assms(2) by (auto simp: may_speak_def split: option.splits)
  obtain t' where t': "sd_runs s' r = Some t'" "t' = t \<or> task_step (is_current r t s) t t'"
    using act_task [OF assms(1) t] .
  have "sd_active_run s \<noteq> Some r \<Longrightarrow> sd_active_run s' \<noteq> Some r" using act_active assms(1) t by simp
  moreover have "\<And>e. tk_checked t' \<noteq> Some (e, True)" "\<And>out. tk_stage t' \<noteq> Reporting out True"
    "sd_active_run s = Some r \<Longrightarrow> tk_stage t' \<notin> {Working, Crashed}"
    using t'(2) quiet by (auto elim!: task_stepE simp: is_current_def)
  ultimately show ?thesis using t'(1) by (auto simp: may_speak_def)
qed

fun tidy :: "string \<Rightarrow> server_event list \<Rightarrow> bool" where
  "tidy r [] = True"
| "tidy r (e # es) = ((ends_run r e \<longrightarrow> (\<forall>e'\<in>set es. event_run e' \<noteq> Some r)) \<and> tidy r es)"

lemma tidy_append:
  "tidy r (xs @ ys) \<longleftrightarrow> tidy r xs \<and> tidy r ys
     \<and> ((\<exists>e\<in>set xs. ends_run r e) \<longrightarrow> (\<forall>e\<in>set ys. event_run e \<noteq> Some r))"
  by (induction xs) auto

definition checked_ok :: "sched \<Rightarrow> bool" where
  "checked_ok s \<longleftrightarrow> (\<forall>r t. sd_runs s r = Some t \<longrightarrow> tk_checked t \<noteq> None \<longrightarrow> tk_stage t \<in> {Working, Crashed})"

lemma checked_ok_act:
  assumes "checked_ok s" "act a s = Some s'" shows "checked_ok s'"
  using act_runs [OF assms(2)]
proof (elim disjE exE conjE)
  fix r assume "moves r s s'"
  then obtain t t' where m: "sd_runs s r = Some t" "task_step (is_current r t s) t t'"
    "sd_runs s' = (sd_runs s)(r \<mapsto> t')" by (auto simp: moves_def)
  have "tk_checked t \<noteq> None \<longrightarrow> tk_stage t \<in> {Working, Crashed}" using assms(1) m(1) by (auto simp: checked_ok_def)
  with m(2) have "tk_checked t' \<noteq> None \<longrightarrow> tk_stage t' \<in> {Working, Crashed}" by (auto elim!: task_stepE)
  then show ?thesis using m(3) assms(1) by (auto simp: checked_ok_def)
qed (use assms(1) in \<open>auto simp: checked_ok_def new_task_def\<close>)

text \<open>What a step adds to the outbox.\<close>

definition says :: "sched \<Rightarrow> sched \<Rightarrow> bool" where
  "says s s' \<longleftrightarrow> (\<exists>es. sd_outbox s' = sd_outbox s @ es
     \<and> (\<forall>e r. e \<in> set es \<longrightarrow> event_run e = Some r \<longrightarrow>
          may_speak s r \<and> (\<exists>t. sd_runs s' r = Some t \<and> event_version e = Some (tk_version t)))
     \<and> (\<forall>r. tidy r es \<and> ((\<exists>e\<in>set es. ends_run r e) \<longrightarrow> \<not> may_speak s' r)))"

lemma says_nothing: "sd_outbox s' = sd_outbox s \<Longrightarrow> says s s'"
  by (auto simp: says_def)

lemma says_plain:
  assumes "sd_outbox s' = sd_outbox s @ es" "\<And>e. e \<in> set es \<Longrightarrow> event_run e = None"
  shows "says s s'"
proof -
  have "\<not> ends_run r e" if "e \<in> set es" for r e using ends_run_names [of r e] assms(2) [OF that] by auto
  moreover from this have "tidy r es" for r using assms(2) by (induction es) auto
  ultimately show ?thesis using assms unfolding says_def by (intro exI [of _ es]) auto
qed

lemma says_run:
  assumes "sd_outbox s' = sd_outbox s @ es" "may_speak s r" "sd_runs s' r = Some t"
    "\<And>e. e \<in> set es \<Longrightarrow> event_run e = Some r \<and> event_version e = Some (tk_version t) \<or> event_run e = None"
    "\<And>e q. e \<in> set es \<Longrightarrow> \<not> ends_run q e"
  shows "says s s'"
proof -
  have "tidy q es" for q using assms(5) by (induction es) auto
  moreover have "may_speak s q \<and> (\<exists>t. sd_runs s' q = Some t \<and> event_version e = Some (tk_version t))"
    if "e \<in> set es" "event_run e = Some q" for e q
    using assms(4) [OF that(1)] that(2) assms(2,3) by auto
  ultimately show ?thesis using assms(1,5) unfolding says_def by (intro exI [of _ es]) blast
qed

lemma send_says:
  assumes "forward_send r now s = Some s'" shows "says s s'"
proof -
  obtain t e c where t: "sd_runs s r = Some t" "tk_checked t = Some (e, c)"
    using assms by (auto simp: forward_send_def on_task_Some split: option.splits)
  show ?thesis
  proof (cases c)
    case False
    then show ?thesis using assms t by (intro says_nothing) (auto simp: forward_send_def on_task_def Let_def)
  next
    case True
    let ?e = "translate now e (tk_version t) r (ss_id (sd_session s))"
    let ?t = "t\<lparr>tk_checked := None\<rparr>"
    have s': "s' = send ?e (set_task r ?t s)"
      using assms t True by (simp add: forward_send_def on_task_def)
    have "event_run ?e = Some r \<and> event_version ?e = Some (tk_version t) \<or> event_run ?e = None"
      using translate_names(1,2) [of now e "tk_version t" r "ss_id (sd_session s)"] by auto
    moreover have "may_speak s r" using t True by (auto simp: may_speak_def)
    ultimately show ?thesis
      by (intro says_run [where r = r and es = "[?e]" and t = ?t]) (simp_all add: s' translate_names(3))
  qed
qed

lemma report_says:
  assumes "run_report r s = Some s'" "checked_ok s" shows "says s s'"
proof -
  obtain t where t: "sd_runs s r = Some t" using assms by (auto simp: run_report_def on_task_Some)
  then obtain out c where st: "tk_stage t = Reporting out c"
    using assms by (cases "tk_stage t") (auto simp: run_report_def on_task_def)
  have free: "tk_checked t = None" using assms(2) t st unfolding checked_ok_def by fastforce
  show ?thesis
  proof (cases "c \<and> out \<noteq> None")
    case False
    then show ?thesis using assms t st
      by (intro says_plain [where es = "if c then [no_runner (tk_language t)] else []"])
        (auto simp: run_report_def on_task_def Let_def no_runner_def split: if_splits option.splits)
  next
    case True
    then obtain res where res: "out = Some res" by auto
    let ?es = "[RunStateEvent (tk_version t) (Some r) (as_run_state (ro_terminal_state res)),
                RunFinished (tk_version t) r (ro_result res)]"
    have s': "sd_outbox s' = sd_outbox s @ ?es" "sd_runs s' = (sd_runs s)(r \<mapsto> t\<lparr>tk_stage := Cleaning\<rparr>)"
      using assms(1) t st True res by (auto simp: run_report_def on_task_def Let_def)
    show ?thesis unfolding says_def
      by (rule exI [of _ ?es]) (use s' t st True free in \<open>auto simp: may_speak_def\<close>)
  qed
qed

lemma watchdog_says:
  assumes "run_watchdog r s = Some s'" shows "says s s'"
proof -
  obtain t where t: "sd_runs s r = Some t" using assms by (auto simp: run_watchdog_def on_task_Some)
  show ?thesis
  proof (cases "tk_stage t = Crashed \<and> sd_active_run s = Some r")
    case False
    then show ?thesis using assms t
      by (intro says_nothing) (auto simp: run_watchdog_def on_task_def Let_def split: if_splits)
  next
    case True
    let ?es = "[RunStateEvent (tk_version t) (Some r) Idle,
        ServerError True ''The run crashed inside the server and was reset'' None]"
    have s': "sd_outbox s' = sd_outbox s @ ?es" "sd_runs s' = sd_runs s"
      using assms t True by (auto simp: run_watchdog_def on_task_def run_reset_def split: if_splits)
    have "may_speak s r" using t True by (simp add: may_speak_def)
    then show ?thesis
      by (intro says_run [where r = r and t = t and es = ?es]) (use s' t in auto)
  qed
qed

lemma install_says:
  assumes "sd_runs s r = None" shows "says s (install_run r v l i s)"
proof (cases i)
  case True
  then show ?thesis using assms
    by (intro says_run [where r = r and es = "[StdinOpen v r]" and t = "new_task v l i s"])
      (auto simp: may_speak_def install_run_def Let_def new_task_def)
qed (auto intro: says_nothing simp: install_run_def Let_def)

lemma idle_stop_says:
  assumes "idle_stop r s = Some s'" shows "says s s'"
proof -
  obtain es where "sd_outbox s' = sd_outbox s @ es" "\<forall>e\<in>set es. event_run e = None"
    using assms by (auto simp: idle_stop_def on_task_Some split: if_splits)
  then show ?thesis by (intro says_plain) auto
qed

lemma begin_says: "says s (start_begin rq s)"
proof -
  have "sd_outbox (start_begin rq s) = sd_outbox s \<or> (\<exists>l. sd_outbox (start_begin rq s) = sd_outbox s @ [no_runner l])"
    by (auto simp: start_begin_def Let_def)
  then show ?thesis by (auto intro: says_nothing says_plain simp: no_runner_def)
qed

lemma arm_says: "says s (arm l s)"
proof -
  have "\<exists>e. sd_outbox (arm l s) = sd_outbox s @ [e] \<and> event_run e = None" by (simp add: arm_def Let_def)
  then show ?thesis by (auto intro: says_plain)
qed

lemma quiet_ops:
  "forward_check r e s = Some s' \<Longrightarrow> sd_outbox s' = sd_outbox s"
  "run_end r out s = Some s' \<Longrightarrow> sd_outbox s' = sd_outbox s"
  "run_panic r s = Some s' \<Longrightarrow> sd_outbox s' = sd_outbox s"
  "idle_check r st now s = Some s' \<Longrightarrow> sd_outbox s' = sd_outbox s"
  "run_cleanup r s = Some s' \<Longrightarrow> sd_outbox s' = sd_outbox s"
  subgoal by (auto simp: forward_check_def on_task_Some split: if_splits)
  subgoal by (auto simp: run_end_def on_task_Some split: if_splits)
  subgoal by (auto simp: run_panic_def on_task_Some split: if_splits)
  subgoal by (auto simp: idle_check_def on_task_Some split: if_splits)
  subgoal by (auto simp: run_cleanup_def on_task_Some Let_def split: if_splits)
  done

lemma speak_waiting: "may_speak (s\<lparr>sd_waiting := w\<rparr>) r = may_speak s r"
  by (simp add: may_speak_def split: option.split)

lemma says_waiting: "says (s\<lparr>sd_waiting := w\<rparr>) s' \<longleftrightarrow> says s s'"
  by (simp add: says_def speak_waiting)

lemma act_says:
  assumes "checked_ok s" "act a s = Some s'" shows "says s s'"
proof (cases a)
  case (DoBegin i)
  then show ?thesis using assms(2) says_waiting [THEN iffD1, OF begin_says] by (auto split: if_splits)
next
  case (DoInstall q g)
  then show ?thesis using assms(2) install_cases [of q g s s'] install_says [of s q]
    by (auto intro: says_nothing split: if_splits)
qed (use assms in \<open>auto dest: quiet_ops debounce_runs
       intro: arm_says send_says report_says watchdog_says idle_stop_says says_nothing split: if_splits\<close>)

lemma reach_silent:
  assumes "sched_reach s s'" "checked_ok s" "\<not> may_speak s r"
  shows "\<exists>es. sd_outbox s' = sd_outbox s @ es \<and> (\<forall>e\<in>set es. event_run e \<noteq> Some r)
     \<and> \<not> may_speak s' r \<and> checked_ok s'"
  using assms
proof (induction rule: sched_reach.induct)
  case (reach_step t a t')
  then obtain es where es: "sd_outbox t = sd_outbox s @ es" "\<forall>e\<in>set es. event_run e \<noteq> Some r"
    "\<not> may_speak t r" "checked_ok t" by auto
  moreover obtain ds where "sd_outbox t' = sd_outbox t @ ds"
    "\<And>e q. e \<in> set ds \<Longrightarrow> event_run e = Some q \<Longrightarrow> may_speak t q"
    using act_says [OF es(4) reach_step(2)] unfolding says_def by blast
  ultimately show ?case using silent_act [OF reach_step(2) es(3)] checked_ok_act [OF es(4) reach_step(2)]
    by (intro exI [of _ "es @ ds"]) auto
qed simp

lemma reach_checked: "sched_reach (sched_new session) s \<Longrightarrow> checked_ok s"
proof (induction rule: sched_reach.induct)
  case reach_start
  show ?case by (simp add: checked_ok_def sched_new_def)
qed (rule checked_ok_act)

definition told :: "sched \<Rightarrow> bool" where
  "told s \<longleftrightarrow> (\<forall>e r. e \<in> set (sd_outbox s) \<longrightarrow> event_run e = Some r
       \<longrightarrow> (\<exists>t. sd_runs s r = Some t \<and> event_version e = Some (tk_version t)))
     \<and> (\<forall>r. tidy r (sd_outbox s) \<and> ((\<exists>e\<in>set (sd_outbox s). ends_run r e) \<longrightarrow> \<not> may_speak s r))"

lemma task_version: "task_step c t t' \<Longrightarrow> tk_version t' = tk_version t"
  by (auto elim!: task_stepE)

lemma told_act:
  assumes "told s" "checked_ok s" "act a s = Some s'"
  shows "told s'"
proof -
  obtain es where es: "sd_outbox s' = sd_outbox s @ es"
    "\<And>e r. e \<in> set es \<Longrightarrow> event_run e = Some r \<Longrightarrow>
       may_speak s r \<and> (\<exists>t. sd_runs s' r = Some t \<and> event_version e = Some (tk_version t))"
    "\<And>r. tidy r es" "\<And>r. \<exists>e\<in>set es. ends_run r e \<Longrightarrow> \<not> may_speak s' r"
    using act_says [OF assms(2,3)] unfolding says_def by blast
  have "\<exists>t. sd_runs s' r = Some t \<and> event_version e = Some (tk_version t)"
    if e: "e \<in> set (sd_outbox s)" "event_run e = Some r" for e r
  proof -
    obtain t where t: "sd_runs s r = Some t" "event_version e = Some (tk_version t)"
      using assms(1) e unfolding told_def by blast
    obtain t' where "sd_runs s' r = Some t'" "t' = t \<or> task_step (is_current r t s) t t'"
      using act_task [OF assms(3) t(1)] .
    then show ?thesis using t(2) task_version by auto
  qed
  moreover have "tidy r (sd_outbox s')" for r
    using assms(1) es unfolding told_def es(1) tidy_append by blast
  moreover have "\<not> may_speak s' r" if "\<exists>e\<in>set (sd_outbox s'). ends_run r e" for r
    using that assms(1) es(1,4) silent_act [OF assms(3)] unfolding told_def by fastforce
  ultimately show ?thesis using es(1,2) unfolding told_def by fastforce
qed

lemma reach_told: "sched_reach (sched_new session) s \<Longrightarrow> told s"
proof (induction rule: sched_reach.induct)
  case (reach_step s a s')
  then show ?case using told_act reach_checked by blast
qed (simp add: told_def sched_new_def)

lemma tidy_split: "tidy r (xs @ e # ys) \<Longrightarrow> ends_run r e \<Longrightarrow> e' \<in> set ys \<Longrightarrow> event_run e' \<noteq> Some r"
  by (simp add: tidy_append)

section \<open>One run at a time\<close>

fun patient :: "action \<Rightarrow> bool" where
  "patient (DoInstall r grace_over) = (\<not> grace_over)"
| "patient _ = True"

inductive patient_reach :: "sched \<Rightarrow> sched \<Rightarrow> bool" for s0 where
  patient_start: "patient_reach s0 s0"
| patient_step: "patient_reach s0 s \<Longrightarrow> patient a \<Longrightarrow> act a s = Some s' \<Longrightarrow> patient_reach s0 s'"

definition alone :: "sched \<Rightarrow> bool" where
  "alone s \<longleftrightarrow> (\<forall>r. sd_runs s r \<noteq> None \<longrightarrow> r \<notin> sd_done s \<longrightarrow>
       sd_finished s = Some r \<or> (\<exists>v l i. sd_starting s = Some (v, l, i, Some r)))
     \<and> (sd_starting s \<noteq> None \<longrightarrow> sd_finished s = None)"

lemma op_slots:
  "forward_check r e s = Some s' \<Longrightarrow> sd_finished s' = sd_finished s \<and> sd_starting s' = sd_starting s \<and> sd_done s' = sd_done s"
  "run_end r out s = Some s' \<Longrightarrow> sd_finished s' = sd_finished s \<and> sd_starting s' = sd_starting s \<and> sd_done s' = sd_done s"
  "run_panic r s = Some s' \<Longrightarrow> sd_finished s' = sd_finished s \<and> sd_starting s' = sd_starting s \<and> sd_done s' = sd_done s"
  "idle_check r st now s = Some s' \<Longrightarrow> sd_finished s' = sd_finished s \<and> sd_starting s' = sd_starting s \<and> sd_done s' = sd_done s"
  "idle_stop r s = Some s' \<Longrightarrow> sd_finished s' = sd_finished s \<and> sd_starting s' = sd_starting s \<and> sd_done s' = sd_done s"
  "run_cleanup r s = Some s' \<Longrightarrow> sd_finished s' = sd_finished s \<and> sd_starting s' = sd_starting s \<and> sd_done s' = sd_done s"
  "run_watchdog r s = Some s' \<Longrightarrow> sd_finished s' = sd_finished s \<and> sd_starting s' = sd_starting s \<and> sd_done s \<subseteq> sd_done s'"
  subgoal by (auto simp: forward_check_def on_task_Some split: if_splits)
  subgoal by (auto simp: run_end_def on_task_Some split: if_splits)
  subgoal by (auto simp: run_panic_def on_task_Some split: if_splits)
  subgoal by (auto simp: idle_check_def on_task_Some split: if_splits)
  subgoal by (auto simp: idle_stop_def on_task_Some split: if_splits)
  subgoal by (auto simp: run_cleanup_def on_task_Some Let_def split: if_splits)
  subgoal by (auto simp: run_watchdog_def on_task_Some Let_def split: if_splits)
  done

lemma send_slots:
  assumes "forward_send r now s = Some s'"
  shows "sd_finished s' = sd_finished s \<and> sd_starting s' = sd_starting s \<and> sd_done s' = sd_done s"
proof -
  obtain t e c where "sd_runs s r = Some t" "tk_checked t = Some (e, c)"
    using assms by (auto simp: forward_send_def on_task_Some split: option.splits)
  then show ?thesis using assms by (cases c) (auto simp: forward_send_def on_task_def)
qed

lemma report_slots: "run_report r s = Some s' \<Longrightarrow> sd_finished s' = sd_finished s \<and> sd_starting s' = sd_starting s \<and> sd_done s' = sd_done s"
proof -
  assume a: "run_report r s = Some s'"
  then obtain t where "sd_runs s r = Some t" by (auto simp: run_report_def on_task_Some)
  with a show ?thesis
    by (cases "tk_stage t") (auto simp: run_report_def on_task_def Let_def split: if_splits option.splits)
qed

lemma act_slots:
  assumes "act a s = Some s'" "\<And>i. a \<noteq> DoBegin i" "\<And>r g. a \<noteq> DoInstall r g"
  shows "sd_finished s' = sd_finished s \<and> sd_starting s' = sd_starting s \<and> sd_done s \<subseteq> sd_done s'
     \<and> dom (sd_runs s') = dom (sd_runs s)"
proof -
  have "dom (sd_runs s') = dom (sd_runs s)"
    using act_runs [OF assms(1)] assms(3) by (auto simp: moves_def split: if_splits)
  moreover have "sd_finished s' = sd_finished s \<and> sd_starting s' = sd_starting s \<and> sd_done s \<subseteq> sd_done s'"
    using assms by (cases a) (auto dest!: op_slots send_slots report_slots debounce_runs split: if_splits)
  ultimately show ?thesis by simp
qed

lemma alone_act:
  assumes "alone s" "act a s = Some s'" "patient a"
  shows "alone s'"
proof (cases a)
  case (DoBegin i)
  then show ?thesis using assms(1,2)
    by (auto simp: alone_def start_begin_def Let_def split: if_splits)
next
  case (DoInstall r g)
  then obtain v l i previous where st: "sd_starting s = Some (v, l, i, previous)"
    "case previous of None \<Rightarrow> True | Some p \<Rightarrow> p \<in> sd_done s"
    "s' = install_run r v l i s \<or> s' = s\<lparr>sd_starting := None\<rparr>"
    using assms(2,3) by (auto simp: start_install_def split: if_splits option.splits)
  have "q \<in> sd_done s" if "sd_runs s q \<noteq> None" for q
  proof (rule ccontr)
    assume "q \<notin> sd_done s"
    then have "previous = Some q" using that assms(1) st(1) by (auto simp: alone_def)
    with st(2) \<open>q \<notin> sd_done s\<close> show False by simp
  qed
  then show ?thesis using st(3) by (auto simp: alone_def)
qed (use assms(1) act_slots [OF assms(2)] in \<open>auto simp: alone_def dom_def set_eq_iff subset_iff\<close>)

lemma reach_alone: "patient_reach (sched_new session) s \<Longrightarrow> alone s"
proof (induction rule: patient_reach.induct)
  case patient_start
  show ?case by (simp add: alone_def sched_new_def)
qed (rule alone_act)

section \<open>The properties\<close>

text \<open>C3: the slot of the active run is coherent in every reachable state: the token in
  the cancel slot is the active run's and has not fired, every run that is not the active
  one was cancelled or has ended, a run reports its end to the next start only once its task
  is over, and typed input can only reach a run that was started interactively and is
  active (or crashed, when the watchdog left the sender in place).\<close>

theorem active_slot_coherent:
  assumes "sched_reach (sched_new session) s"
  shows "sd_cancel s = sd_active_run s
     \<and> (\<forall>r t. sd_runs s r = Some t \<longrightarrow>
          (if sd_active_run s = Some r then r \<notin> sd_cancelled s \<and> tk_stage t \<noteq> Ended
           else r \<in> sd_cancelled s \<or> tk_stage t = Ended \<or> tk_stage t = Crashed \<and> r \<in> sd_done s)
        \<and> (r \<in> sd_done s \<longrightarrow> tk_stage t \<in> {Ended, Crashed})
        \<and> (sd_live_input s = Some r \<longrightarrow>
             tk_interactive t \<and> (sd_active_run s = Some r \<or> tk_stage t = Crashed)))"
proof -
  have inv: "sched_inv s" using assms by (rule sched_reach_inv)
  show ?thesis
  proof (intro conjI allI impI)
    fix r t assume t: "sd_runs s r = Some t"
    show "if sd_active_run s = Some r then r \<notin> sd_cancelled s \<and> tk_stage t \<noteq> Ended
       else r \<in> sd_cancelled s \<or> tk_stage t = Ended \<or> tk_stage t = Crashed \<and> r \<in> sd_done s"
      using sched_invD(3) [OF inv, of r] t by (auto simp: run_fine_def over_def)
    show "tk_stage t \<in> {Ended, Crashed}" if "r \<in> sd_done s"
      using sched_invD(3) [OF inv, of r] t that by (simp add: run_fine_def)
    assume "sd_live_input s = Some r"
    then show "tk_interactive t" "sd_active_run s = Some r \<or> tk_stage t = Crashed"
      using sched_invD(3) [OF inv, of r] t by (simp_all add: run_fine_def)
  qed (rule sched_invD(1) [OF inv])
qed


text \<open>C4: what the client is told of a run is in order: every event that names a run carries
  the document version the run was started for, and after \<open>run_finished\<close> nothing names
  that run again.\<close>

theorem run_finished_is_last:
  assumes "sched_reach (sched_new session) s" "sd_outbox s = xs @ RunFinished v r result # ys"
  shows "(\<forall>e\<in>set ys. event_run e \<noteq> Some r)
     \<and> (\<exists>t. sd_runs s r = Some t
          \<and> (\<forall>e\<in>set (sd_outbox s). event_run e = Some r \<longrightarrow> event_version e = Some (tk_version t)))"
proof -
  have told: "told s" using assms(1) by (rule reach_told)
  then have "tidy r (xs @ RunFinished v r result # ys)" using assms(2) by (simp add: told_def)
  then have "\<forall>e\<in>set ys. event_run e \<noteq> Some r" by (simp add: tidy_append)
  moreover obtain t where t: "sd_runs s r = Some t"
    using told assms(2) unfolding told_def by (metis event_run.simps(7) in_set_conv_decomp)
  moreover have "\<exists>t. sd_runs s r = Some t
      \<and> (\<forall>e\<in>set (sd_outbox s). event_run e = Some r \<longrightarrow> event_version e = Some (tk_version t))"
    using told t unfolding told_def by fastforce
  ultimately show ?thesis by blast
qed

text \<open>C2: unless a superseded run outlives its grace, runs never overlap: two runs whose
  tasks have not both ended are the same run, so no run's reset of \<open>generated/\<close> can meet
  another run's sources.\<close>

theorem runs_never_overlap:
  assumes "patient_reach (sched_new session) s"
    and "sd_runs s r \<noteq> None" "sd_runs s q \<noteq> None" "r \<notin> sd_done s" "q \<notin> sd_done s"
  shows "r = q"
proof -
  have "alone s" using assms(1) by (rule reach_alone)
  then have "sd_finished s = Some p \<or> (\<exists>v l i. sd_starting s = Some (v, l, i, Some p))"
    if "sd_runs s p \<noteq> None" "p \<notin> sd_done s" for p using that by (simp add: alone_def)
  from this [OF assms(2,4)] this [OF assms(3,5)] \<open>alone s\<close> show ?thesis by (auto simp: alone_def)
qed

section \<open>A run of the scheduler\<close>

fun acts :: "action list \<Rightarrow> sched \<Rightarrow> sched option" where
  "acts [] s = Some s"
| "acts (a # as) s = Option.bind (act a s) (acts as)"

lemma acts_reach: "acts as s = Some s' \<Longrightarrow> sched_reach s0 s \<Longrightarrow> sched_reach s0 s'"
  by (induction as arbitrary: s) (auto simp: bind_eq_Some_conv intro: reach_step)

lemma acts_patient: "acts as s = Some s' \<Longrightarrow> list_all patient as \<Longrightarrow> patient_reach s0 s \<Longrightarrow> patient_reach s0 s'"
  by (induction as arbitrary: s) (auto simp: bind_eq_Some_conv intro: patient_step)

definition zig_session :: session where
  "zig_session = demo_session\<lparr>ss_support := [Zig \<mapsto> \<lparr>ls_present = True, ls_run = True, ls_lsp = False\<rparr>]\<rparr>"

definition demo_request :: start_request where
  "demo_request = \<lparr>rq_version = 1, rq_target = None, rq_interactive = False\<rparr>"

definition first_run :: "action list" where
  "first_run = [DoRequest demo_request, DoBegin 0, DoInstall ''a'' False, DoCheck ''a'' (StateEvent Compiling), DoSend ''a'' 0]"

lemmas sched_eval = first_run_def demo_request_def zig_session_def demo_session_def demo_files_def sched_new_def
  session_version_def start_begin_def start_install_def install_run_def new_task_def cancel_internal_def
  run_ops on_task_def set_task_def send_def is_current_def Let_def

definition demo_outcome :: runner_outcome where
  "demo_outcome = \<lparr>ro_result = run_result_default, ro_terminal_state = TSucceeded\<rparr>"

lemma first_run_state:
  "\<exists>s t. acts first_run (sched_new zig_session) = Some s \<and> sd_runs s ''a'' = Some t \<and> sd_active_run s = Some ''a''
     \<and> sd_outbox s = [RunStateEvent 1 (Some ''a'') Compiling] \<and> tk_checked t = None \<and> tk_stage t = Working"
  by (simp add: sched_eval)

lemma active_slot_coherent_witness:
  "\<exists>s t. acts first_run (sched_new zig_session) = Some s \<and> sd_runs s ''a'' = Some t
     \<and> sd_cancel s = Some ''a'' \<and> ''a'' \<notin> sd_cancelled s"
proof -
  obtain s t where s: "acts first_run (sched_new zig_session) = Some s" "sd_runs s ''a'' = Some t"
    "sd_active_run s = Some ''a''" using first_run_state by blast
  have "sched_reach (sched_new zig_session) s" by (rule acts_reach [OF s(1) reach_start])
  from active_slot_coherent [OF this] s show ?thesis by auto
qed


lemma run_finished_is_last_witness:
  "\<exists>s t. acts (first_run @ [DoEnd ''a'' (Some demo_outcome), DoReport ''a'']) (sched_new zig_session) = Some s
     \<and> sd_runs s ''a'' = Some t \<and> (\<forall>e\<in>set (sd_outbox s). event_run e = Some ''a'' \<longrightarrow> event_version e = Some (tk_version t))"
proof -
  obtain s where s: "acts (first_run @ [DoEnd ''a'' (Some demo_outcome), DoReport ''a'']) (sched_new zig_session) = Some s"
    "sd_outbox s = [RunStateEvent 1 (Some ''a'') Compiling,
        RunStateEvent 1 (Some ''a'') Succeeded] @ RunFinished 1 ''a'' (ro_result demo_outcome) # []"
    by (simp add: sched_eval demo_outcome_def)
  show ?thesis
    using run_finished_is_last [OF acts_reach [OF s(1) reach_start] s(2)] s(1) by blast
qed

lemma runs_never_overlap_witness:
  "\<exists>s. acts first_run (sched_new zig_session) = Some s \<and> ''a'' \<notin> sd_done s \<and> (''a'' :: string) = ''a''"
proof -
  obtain s t where s: "acts first_run (sched_new zig_session) = Some s" "sd_runs s ''a'' = Some t"
    "''a'' \<notin> sd_done s" by (simp add: sched_eval)
  have "patient_reach (sched_new zig_session) s"
    by (rule acts_patient [OF s(1) _ patient_start]) (simp add: first_run_def)
  from runs_never_overlap [OF this, of "''a''" "''a''"] s show ?thesis by auto
qed

end
