(* ===== verification/Sessions.thy ===== *)
theory Sessions
  imports Versions "HOL-Library.AList"
begin

text \<open>
  \<open>SessionManager\<close> of src/apps/server-rs/src/domain/session.rs: detecting the
  toolchains, creating a session (ephemeral or attached to a workspace),
  authenticating a request, destroying sessions and sweeping the directories
  that dead ones left.  \<open>mg_dirs\<close> is what lies under the sessions root.
\<close>

section \<open>Toolchains\<close>

text \<open>\<open>output\<close> is \<open>None\<close> when the command cannot be run, else its success and stdout.\<close>

definition first_line :: "string \<Rightarrow> string" where
  "first_line s =
     (let l = hd (split_on (CHR 0x0A) s) in case strip_suffix l [CHR 0x0D] of Some t \<Rightarrow> t | None \<Rightarrow> l)"

definition unavailable :: string where "unavailable = ''unavailable''"

definition command_version :: "(bool \<times> string) option \<Rightarrow> string" where
  "command_version output =
     (case output of
        Some (True, stdout) \<Rightarrow> first_line (trim (from_utf8_lossy stdout))
      | _ \<Rightarrow> unavailable)"

type_synonym check = "string \<times> string list"

fun cmp_args :: "string list \<Rightarrow> string list \<Rightarrow> ordering" where
  "cmp_args [] [] = Equal"
| "cmp_args [] (y # ys) = Less"
| "cmp_args (x # xs) [] = Greater"
| "cmp_args (x # xs) (y # ys) =
     (case iter_cmp (map byte x) (map byte y) of Equal \<Rightarrow> cmp_args xs ys | c \<Rightarrow> c)"

definition cmp_check :: "check \<Rightarrow> check \<Rightarrow> ordering" where
  "cmp_check a b = cmp_args (fst a # snd a) (fst b # snd b)"

definition pack_checks :: "language_pack \<Rightarrow> check list" where
  "pack_checks pk = (ck_command (lp_run pk), ck_args (lp_run pk))
     # (case lp_lsp pk of None \<Rightarrow> [] | Some l \<Rightarrow> [(ck_command l, ck_args l)])"

definition toolchain_checks :: "check list" where
  "toolchain_checks = remdups_adj (sort_by cmp_check (concat (map pack_checks PACKS)))"

definition detect_toolchain :: "(check \<Rightarrow> (bool \<times> string) option) \<Rightarrow> string \<Rightarrow> string option" where
  "detect_toolchain run = fold (\<lambda>c m. m(fst c \<mapsto> command_version (run c))) toolchain_checks Map.empty"

definition version_of :: "(string \<Rightarrow> string option) \<Rightarrow> string \<Rightarrow> string" where
  "version_of versions command = (case versions command of Some v \<Rightarrow> v | None \<Rightarrow> unavailable)"

definition run_version :: "(string \<Rightarrow> string option) \<Rightarrow> language_pack \<Rightarrow> string" where
  "run_version versions pk = version_of versions (ck_command (lp_run pk))"

definition lsp_version :: "(string \<Rightarrow> string option) \<Rightarrow> language_pack \<Rightarrow> string" where
  "lsp_version versions pk =
     (case lp_lsp pk of None \<Rightarrow> unavailable | Some l \<Rightarrow> version_of versions (ck_command l))"

definition pack_support :: "(string \<Rightarrow> string option) \<Rightarrow> language_pack \<Rightarrow> language_support" where
  "pack_support versions pk =
     (let run = ck_compatible (lp_run pk) (run_version versions pk);
          lsp = run \<and> (case lp_lsp pk of None \<Rightarrow> False | Some l \<Rightarrow> ck_compatible l (lsp_version versions pk))
      in \<lparr>ls_present = (lp_scaffold_always pk \<or> run), ls_run = run, ls_lsp = lsp\<rparr>)"

definition toolchain_entry :: "(string \<Rightarrow> string option) \<Rightarrow> language_pack \<Rightarrow> string \<times> json" where
  "toolchain_entry versions pk =
     (as_str_language (lp_id pk),
      JObj [(''run'', JStr (run_version versions pk)), (''lsp'', JStr (lsp_version versions pk))])"

definition degraded_entries :: "(string \<Rightarrow> string option) \<Rightarrow> language_pack \<Rightarrow> (string \<times> json) list" where
  "degraded_entries versions pk =
     (let here = pack_support versions pk
      in if \<not> ls_run here
         then [(as_str_language (lp_id pk),
                JStr (''Expected '' @ ck_expected (lp_run pk) @ '', detected '' @ run_version versions pk))]
         else (case lp_lsp pk of
                 None \<Rightarrow> []
               | Some l \<Rightarrow>
                   if ls_lsp here then []
                   else [(as_str_language (lp_id pk) @ ''-lsp'',
                     JStr (if lsp_version versions pk = unavailable
                           then ck_expected l @ '' not installed '' @ [CHR 0xC2, CHR 0xB7]
                                  @ '' editor completion disabled (optional)''
                           else ck_expected l @ '' no compatible ('' @ lsp_version versions pk @ '')''))]))"

definition support_map :: "(string \<Rightarrow> string option) \<Rightarrow> language \<Rightarrow> language_support option" where
  "support_map versions l = Some (pack_support versions (pack l))"

section \<open>Creating a session\<close>

definition included_packs :: "(string \<Rightarrow> string option) \<Rightarrow> language_pack list" where
  "included_packs versions = filter (\<lambda>pk. ls_present (pack_support versions pk)) PACKS"

definition choose_language :: "(string \<Rightarrow> string option) \<Rightarrow> language \<Rightarrow> language" where
  "choose_language versions preferred =
     (if list_ex (\<lambda>pk. lp_id pk = preferred) (included_packs versions) then preferred else Zig)"

text \<open>The loop that collects the visible sources, a path once.\<close>

definition push_source :: "string \<times> string \<Rightarrow> (string \<times> string) list \<Rightarrow> (string \<times> string) list" where
  "push_source f acc = (if list_ex (\<lambda>(p, _). p = fst f) acc then acc else acc @ [f])"

definition push_pack :: "bool \<Rightarrow> language \<Rightarrow> language_pack \<Rightarrow> (string \<times> string) list \<Rightarrow> (string \<times> string) list" where
  "push_pack minimal language pk acc =
     (if minimal \<and> lp_id pk \<noteq> language then acc
      else
        let acc1 = push_source (lp_entry_file pk, lp_default_source pk) acc
        in if minimal then acc1 else fold push_source (lp_extra_files pk) acc1)"

definition scaffold_sources :: "(string \<Rightarrow> string option) \<Rightarrow> bool \<Rightarrow> language \<Rightarrow> (string \<times> string) list" where
  "scaffold_sources versions minimal language =
     fold (push_pack minimal language) (included_packs versions) []"

text \<open>Attaching to a workspace keeps what is there and restores a missing entry.\<close>

definition session_sources ::
  "(string \<times> string) list \<Rightarrow> (string \<Rightarrow> string option) \<Rightarrow> bool \<Rightarrow> language \<Rightarrow> (string \<times> string) list" where
  "session_sources existing versions minimal language =
     (if existing = [] then scaffold_sources versions minimal language
      else if list_ex (\<lambda>(p, _). p = entry_file language) existing then existing
      else existing @ [(entry_file language, lp_default_source (pack language))])"

record dir_entry =
  de_is_dir :: bool
  de_modified :: "nat option"
  de_removable :: bool

record manager =
  mg_sessions :: "(string \<times> session) list"
  mg_root :: path
  mg_dirs :: "(string \<times> dir_entry) list"
  mg_registry :: registry

text \<open>What \<open>create\<close> learns from outside: randomness, ports, the toolchains, the
  workspace's metadata and source tree, and the first I/O error, if any.\<close>

record create_env =
  ce_id_bytes :: string
  ce_token_bytes :: string
  ce_port_draws :: "nat list"
  ce_bindable :: "nat \<Rightarrow> bool"
  ce_versions :: "string \<Rightarrow> string option"
  ce_workspaces_root :: path
  ce_tree :: node
  ce_disk :: files
  ce_saved_input :: "string option"
  ce_io_error :: "string option"
  ce_now :: nat
  ce_support :: sandbox_support
  ce_cache :: path
  ce_cache_made :: bool
  ce_project_root :: path
  ce_home :: "path option"

definition new_session ::
  "create_env \<Rightarrow> nat \<Rightarrow> language \<Rightarrow> path \<Rightarrow> (string \<times> string) list \<Rightarrow> files \<Rightarrow> string option \<Rightarrow> string \<Rightarrow> session" where
  "new_session env port language root sources disk workspace input =
     (let source_root = path_join root ''src'';
          uri = (\<lambda>p. path_to_file_url (show_path (path_join source_root p)));
          entry = entry_file language;
          initial = sort_files (map (\<lambda>(p, source). \<lparr>pf_path = p, pf_uri = uri p, pf_source = source\<rparr>) sources)
      in \<lparr>ss_id = random_hex (ce_id_bytes env), ss_token = random_base64url (ce_token_bytes env),
          ss_language = language, ss_entry_path = entry, ss_root = root, ss_source_root = source_root,
          ss_document_uri = uri entry,
          ss_snapshot = \<lparr>sn_version = 1, sn_uri = uri entry,
             sn_source = (case find (\<lambda>(p, _). p = entry) sources of
                Some (_, source) \<Rightarrow> source | None \<Rightarrow> DEFAULT_ZIG_SOURCE),
             sn_files = initial, sn_updated_at = ce_now env\<rparr>,
          ss_settings = default_settings (ce_support env), ss_probes = [],
          ss_support = support_map (ce_versions env), ss_runtime_connected = False,
          ss_attach_generation = 0,
          ss_sandbox_policy = policy_for (ce_cache env) (ce_cache_made env) root (ce_project_root env) (ce_home env),
          ss_workspace_id = workspace, ss_input = input, ss_http_port = port, ss_last_http_ms = 0,
          ss_pending_dependencies = [], ss_live_stdin = None, ss_disk = disk,
          ss_saved_input = (if workspace = None then None else ce_saved_input env)\<rparr>)"

definition toolchain_field :: "(string \<Rightarrow> string option) \<Rightarrow> string \<Rightarrow> string \<Rightarrow> string" where
  "toolchain_field versions lang field =
     (case Option.bind (map_of (map (toolchain_entry versions) PACKS) lang)
             (\<lambda>v. Option.bind (json_get v field) as_str) of
        Some v \<Rightarrow> v | None \<Rightarrow> unavailable)"

definition create_response ::
  "create_env \<Rightarrow> session \<Rightarrow> workspace_meta option \<Rightarrow> create_session_response" where
  "create_response env s meta =
     \<lparr>cr_session_id = ss_id s, cr_auth_token = ss_token s, cr_language = ss_language s,
      cr_document_uri = ss_document_uri s,
      cr_zig_version = toolchain_field (ce_versions env) ''zig'' ''run'',
      cr_zls_version = toolchain_field (ce_versions env) ''zig'' ''lsp'',
      cr_rustc_version = toolchain_field (ce_versions env) ''rust'' ''run'',
      cr_cargo_version = toolchain_field (ce_versions env) ''rust'' ''run'',
      cr_rust_analyzer_version = toolchain_field (ce_versions env) ''rust'' ''lsp'',
      cr_toolchains = map (toolchain_entry (ce_versions env)) PACKS,
      cr_initial_source = sn_source (ss_snapshot s), cr_files = sn_files (ss_snapshot s),
      cr_degraded = concat (map (degraded_entries (ce_versions env)) PACKS),
      cr_sandbox_support = support_as_str (ce_support env), cr_sandbox = available (ce_support env),
      cr_workspace = meta, cr_input = ss_input s, cr_http_port = ss_http_port s\<rparr>"

text \<open>The workspace a session attaches to: its directory and metadata, if one is named.\<close>

definition resolve_workspace ::
  "(string \<Rightarrow> workspace_meta option) \<Rightarrow> create_env \<Rightarrow> registry \<Rightarrow> string option
   \<Rightarrow> (path \<times> workspace_meta) option res" where
  "resolve_workspace parse env reg workspace =
     (case workspace of
        None \<Rightarrow> Inr None
      | Some w \<Rightarrow> (case workspace_dir (ce_workspaces_root env) w of
          None \<Rightarrow> Inl ''Invalid workspace id''
        | Some dir \<Rightarrow> (case meta_of parse reg w of
            None \<Rightarrow> Inl ''Unknown workspace''
          | Some meta \<Rightarrow> Inr (Some (dir, meta)))))"

definition chosen_language :: "create_env \<Rightarrow> language \<Rightarrow> (path \<times> workspace_meta) option \<Rightarrow> language" where
  "chosen_language env preferred found =
     choose_language (ce_versions env) (case found of Some (_, meta) \<Rightarrow> wm_language meta | None \<Rightarrow> preferred)"

definition existing_sources :: "create_env \<Rightarrow> (path \<times> workspace_meta) option \<Rightarrow> (string \<times> string) list" where
  "existing_sources env found = (if found = None then [] else read_sources (ce_tree env))"

text \<open>The tree under src/ after the scaffold, or the restored entry, was written.\<close>

definition created_disk ::
  "create_env \<Rightarrow> language \<Rightarrow> (path \<times> workspace_meta) option \<Rightarrow> (string \<times> string) list \<Rightarrow> files" where
  "created_disk env language found sources =
     (let existing = existing_sources env found;
          disk0 = (if found = None then Map.empty else ce_disk env)
      in if existing = [] then disk0 ++ map_of sources
         else if list_ex (\<lambda>(p, _). p = entry_file language) existing then disk0
         else disk0(entry_file language \<mapsto> lp_default_source (pack language)))"

definition created_session ::
  "create_env \<Rightarrow> language \<Rightarrow> workspace_scaffold \<Rightarrow> string option \<Rightarrow> (path \<times> workspace_meta) option
   \<Rightarrow> manager \<Rightarrow> session" where
  "created_session env preferred scaffold_kind workspace found m =
     (let port = allocate_http_port (ce_bindable env) (ce_port_draws env)
                   (map (\<lambda>(_, s). ss_http_port s) (mg_sessions m));
          root = (case found of Some (dir, _) \<Rightarrow> dir
                    | None \<Rightarrow> path_join (mg_root m) (random_hex (ce_id_bytes env)));
          language = chosen_language env preferred found;
          sources = session_sources (existing_sources env found) (ce_versions env)
                      (scaffold_kind = Minimal) language;
          input = (if workspace = None then [] else read_input (ce_saved_input env))
      in new_session env port language root sources (created_disk env language found sources) workspace input)"

definition create ::
  "(string \<Rightarrow> workspace_meta option) \<Rightarrow> (workspace_meta \<Rightarrow> string) \<Rightarrow> io_faults \<Rightarrow> create_env
   \<Rightarrow> language \<Rightarrow> workspace_scaffold \<Rightarrow> string option \<Rightarrow> manager
   \<Rightarrow> create_session_response res \<times> manager" where
  "create parse render touch_io env preferred scaffold_kind workspace m =
     (case resolve_workspace parse env (mg_registry m) workspace of
        Inl e \<Rightarrow> (Inl e, m)
      | Inr found \<Rightarrow>
          (case ce_io_error env of Some e \<Rightarrow> (Inl e, m) | None \<Rightarrow>
            (let s = created_session env preferred scaffold_kind workspace found m;
                 reg = (case workspace of None \<Rightarrow> mg_registry m
                          | Some w \<Rightarrow> touch parse render touch_io (ce_now env) w (mg_registry m));
                 dirs = (if found = None
                         then (ss_id s, \<lparr>de_is_dir = True, de_modified = Some (ce_now env), de_removable = True\<rparr>)
                              # AList.delete (ss_id s) (mg_dirs m)
                         else mg_dirs m)
             in (Inr (create_response env s (map_option snd found)),
                 m\<lparr>mg_sessions := AList.update (ss_id s) s (mg_sessions m),
                   mg_dirs := dirs, mg_registry := reg\<rparr>))))"

section \<open>Authentication, destruction, sweeping\<close>

definition authenticate :: "manager \<Rightarrow> string \<Rightarrow> string \<Rightarrow> session option" where
  "authenticate m sid token =
     (if length sid \<noteq> 32 \<or> \<not> list_all lower_hex sid then None
      else if length token > 128 then None
      else (case map_of (mg_sessions m) sid of
              None \<Rightarrow> None
            | Some s \<Rightarrow> if timing_safe_eq (ss_token s) token then Some s else None))"

definition count :: "manager \<Rightarrow> nat" where
  "count m = length (mg_sessions m)"

text \<open>\<open>removed\<close> says whether \<open>remove_dir_all\<close> worked.\<close>

definition destroy ::
  "(string \<Rightarrow> workspace_meta option) \<Rightarrow> (workspace_meta \<Rightarrow> string) \<Rightarrow> io_faults \<Rightarrow> nat \<Rightarrow> bool
   \<Rightarrow> string \<Rightarrow> manager \<Rightarrow> manager" where
  "destroy parse render touch_io now removed sid m =
     (case map_of (mg_sessions m) sid of
        None \<Rightarrow> m
      | Some s \<Rightarrow>
          let m1 = m\<lparr>mg_sessions := AList.delete sid (mg_sessions m)\<rparr>
          in (case ss_workspace_id s of
                Some w \<Rightarrow> m1\<lparr>mg_registry := touch parse render touch_io now w (mg_registry m1)\<rparr>
              | None \<Rightarrow> if removed then m1\<lparr>mg_dirs := AList.delete sid (mg_dirs m1)\<rparr> else m1))"

definition close ::
  "(string \<Rightarrow> workspace_meta option) \<Rightarrow> (workspace_meta \<Rightarrow> string) \<Rightarrow> io_faults \<Rightarrow> nat \<Rightarrow> bool
   \<Rightarrow> manager \<Rightarrow> manager" where
  "close parse render touch_io now removed m =
     fold (destroy parse render touch_io now removed) (map fst (mg_sessions m)) m"

definition STALE_AFTER_MS :: nat where "STALE_AFTER_MS = 24 * 60 * 60 * 1000"

definition stale :: "nat \<Rightarrow> string list \<Rightarrow> string \<times> dir_entry \<Rightarrow> bool" where
  "stale cutoff keep d \<longleftrightarrow> fst d \<notin> set keep \<and> de_is_dir (snd d)
     \<and> (case de_modified (snd d) of None \<Rightarrow> 2 ^ 64 - 1 | Some t \<Rightarrow> t) < cutoff \<and> de_removable (snd d)"

definition sweep_stale :: "nat \<Rightarrow> nat \<Rightarrow> string list \<Rightarrow> (string \<times> dir_entry) list
    \<Rightarrow> nat \<times> (string \<times> dir_entry) list" where
  "sweep_stale now max_age_ms keep dirs =
     (let cutoff = now - max_age_ms
      in (length (filter (stale cutoff keep) dirs), filter (\<lambda>d. \<not> stale cutoff keep d) dirs))"

definition sweep :: "nat \<Rightarrow> manager \<Rightarrow> nat \<times> manager" where
  "sweep now m =
     (case sweep_stale now STALE_AFTER_MS (map fst (mg_sessions m)) (mg_dirs m) of
        (n, dirs) \<Rightarrow> (n, m\<lparr>mg_dirs := dirs\<rparr>))"

section \<open>The sources a session starts with\<close>

definition all_sources :: "(string \<times> string) list" where
  "all_sources = concat (map (\<lambda>pk. (lp_entry_file pk, lp_default_source pk) # lp_extra_files pk) PACKS)"

definition gathered :: "(string \<times> string) list \<Rightarrow> bool" where
  "gathered acc \<longleftrightarrow> distinct (map fst acc) \<and> set acc \<subseteq> set all_sources"

lemma push_source_gathered: "gathered acc \<Longrightarrow> f \<in> set all_sources \<Longrightarrow> gathered (push_source f acc)"
  by (auto simp: gathered_def push_source_def list_ex_iff)

lemma fold_push_source_gathered:
  "gathered acc \<Longrightarrow> set fs \<subseteq> set all_sources \<Longrightarrow> gathered (fold push_source fs acc)"
  by (induction fs arbitrary: acc) (auto simp: push_source_gathered)

lemma push_pack_gathered: "gathered acc \<Longrightarrow> pk \<in> set PACKS \<Longrightarrow> gathered (push_pack minimal language pk acc)"
proof -
  assume acc: "gathered acc" and pk: "pk \<in> set PACKS"
  then have sub: "set ((lp_entry_file pk, lp_default_source pk) # lp_extra_files pk) \<subseteq> set all_sources"
    unfolding all_sources_def by auto
  then have "gathered (push_source (lp_entry_file pk, lp_default_source pk) acc)"
    by (intro push_source_gathered acc) simp
  with acc sub show ?thesis by (simp add: push_pack_def Let_def fold_push_source_gathered)
qed

lemma push_source_paths: "fst ` set (push_source f acc) = insert (fst f) (fst ` set acc)"
proof (cases "list_ex (\<lambda>(p, _). p = fst f) acc")
  case True
  then obtain x where "(fst f, x) \<in> set acc" by (auto simp: list_ex_iff)
  then have "fst f \<in> fst ` set acc" by (rule rev_image_eqI) simp
  with True show ?thesis by (simp add: push_source_def insert_absorb)
qed (simp add: push_source_def)

lemma push_source_has: "p \<in> fst ` set acc \<or> p = fst f \<Longrightarrow> p \<in> fst ` set (push_source f acc)"
  by (auto simp only: push_source_paths)

lemma fold_push_source_has: "p \<in> fst ` set acc \<Longrightarrow> p \<in> fst ` set (fold push_source fs acc)"
  by (induction fs arbitrary: acc) (auto simp: push_source_has)

lemma push_pack_has:
  "p \<in> fst ` set acc \<Longrightarrow> p \<in> fst ` set (push_pack minimal language pk acc)"
  by (auto simp: push_pack_def Let_def push_source_has fold_push_source_has)

lemma push_pack_entry:
  "lp_id pk = language \<Longrightarrow> lp_entry_file pk \<in> fst ` set (push_pack minimal language pk acc)"
  by (simp add: push_pack_def Let_def push_source_has fold_push_source_has)

lemma included_subset: "set (included_packs versions) \<subseteq> set PACKS"
  by (auto simp: included_packs_def)

lemma fold_push_pack_gathered:
  "gathered acc \<Longrightarrow> set pks \<subseteq> set PACKS \<Longrightarrow> gathered (fold (push_pack minimal language) pks acc)"
  by (induction pks arbitrary: acc) (auto simp: push_pack_gathered)

lemma fold_push_pack_has:
  "p \<in> fst ` set acc \<Longrightarrow> p \<in> fst ` set (fold (push_pack minimal language) pks acc)"
  by (induction pks arbitrary: acc) (auto simp: push_pack_has)

lemma fold_push_pack_entry:
  "pk \<in> set pks \<Longrightarrow> lp_id pk = language \<Longrightarrow>
   lp_entry_file pk \<in> fst ` set (fold (push_pack minimal language) pks acc)"
  by (induction pks arbitrary: acc) (auto simp: push_pack_entry fold_push_pack_has)

lemma chosen_included: "pack (choose_language versions preferred) \<in> set (included_packs versions)"
proof -
  have zig: "pack Zig \<in> set (included_packs versions)"
    by (simp add: included_packs_def pack_in_PACKS)
      (simp add: pack_simps zig_pack_def pack_support_def Let_def)
  show ?thesis
  proof (cases "list_ex (\<lambda>pk. lp_id pk = preferred) (included_packs versions)")
    case True
    then obtain pk where "pk \<in> set (included_packs versions)" "lp_id pk = preferred"
      by (auto simp: list_ex_iff)
    with True PACKS_pack included_subset [of versions] show ?thesis
      by (auto simp: choose_language_def)
  next
    case False
    with zig show ?thesis by (simp add: choose_language_def)
  qed
qed

lemma all_sources_small:
  "distinct all_sources \<and> length all_sources \<le> 13 \<and> (\<forall>f\<in>set all_sources. length (snd f) \<le> 2000)"
  by (simp add: all_sources_def PACKS_def pack_defs default_lengths)

lemma gathered_bounds:
  assumes "gathered acc"
  shows "length acc \<le> 13 \<and> (\<Sum>f\<leftarrow>acc. length (snd f)) \<le> 26000"
proof -
  have d: "distinct acc" using assms by (simp add: gathered_def distinct_map)
  then have "length acc = card (set acc)" by (simp add: distinct_card)
  also have "\<dots> \<le> card (set all_sources)"
    using assms by (intro card_mono) (auto simp: gathered_def)
  also have "\<dots> \<le> 13" using all_sources_small card_length [of all_sources] by linarith
  finally have len: "length acc \<le> 13" .
  have "\<forall>f\<in>set acc. length (snd f) \<le> 2000"
    using assms all_sources_small by (auto simp: gathered_def)
  then have "(\<Sum>f\<leftarrow>acc. length (snd f)) \<le> 2000 * length acc"
    by (induction acc) auto
  with len show ?thesis by simp
qed

lemma scaffold_sources_ok:
  assumes "language = choose_language versions preferred"
  shows "distinct (map fst (scaffold_sources versions minimal language))
    \<and> entry_file language \<in> fst ` set (scaffold_sources versions minimal language)
    \<and> length (scaffold_sources versions minimal language) \<le> max_project_files
    \<and> (\<Sum>f\<leftarrow>scaffold_sources versions minimal language. length (snd f)) \<le> max_project_bytes"
proof -
  have g: "gathered (scaffold_sources versions minimal language)"
    unfolding scaffold_sources_def
    by (rule fold_push_pack_gathered [OF _ included_subset]) (simp add: gathered_def)
  have "entry_file language \<in> fst ` set (scaffold_sources versions minimal language)"
    using fold_push_pack_entry [OF chosen_included [of versions preferred, folded assms]]
    by (simp add: scaffold_sources_def entry_file_def)
  moreover have "length (scaffold_sources versions minimal language) \<le> max_project_files"
    using gathered_bounds [OF g] by (simp add: max_project_files_def)
  moreover have "(\<Sum>f\<leftarrow>scaffold_sources versions minimal language. length (snd f)) \<le> max_project_bytes"
    using gathered_bounds [OF g] by (simp add: max_project_bytes_def)
  ultimately show ?thesis using g by (simp add: gathered_def)
qed

section \<open>A created session\<close>

text \<open>A tree that can be attached to: its paths are distinct, the disk shows it, and
  a missing entry file still fits.\<close>

definition attachable :: "create_env \<Rightarrow> bool" where
  "attachable env \<longleftrightarrow>
     (let existing = read_sources (ce_tree env)
      in distinct (map fst existing) \<and> (\<forall>(p, source)\<in>set existing. ce_disk env p = Some source)
         \<and> length existing < max_project_files
         \<and> (\<Sum>f\<leftarrow>existing. length (snd f)) + 2000 \<le> max_project_bytes)"

lemma entry_default_small: "length (lp_default_source (pack language)) \<le> 2000"
  by (cases language) (simp_all add: pack_simps pack_defs default_lengths)

lemma session_sources_ok:
  assumes "existing \<noteq> [] \<Longrightarrow> distinct (map fst existing) \<and> length existing < max_project_files
      \<and> (\<Sum>f\<leftarrow>existing. length (snd f)) + 2000 \<le> max_project_bytes"
    and "language = choose_language versions preferred"
  shows "distinct (map fst (session_sources existing versions minimal language))
    \<and> entry_file language \<in> fst ` set (session_sources existing versions minimal language)
    \<and> length (session_sources existing versions minimal language) \<le> max_project_files
    \<and> (\<Sum>f\<leftarrow>session_sources existing versions minimal language. length (snd f)) \<le> max_project_bytes"
proof (cases "existing = []")
  case True
  with scaffold_sources_ok [OF assms(2), of minimal] show ?thesis by (simp add: session_sources_def)
next
  case False
  show ?thesis
  proof (cases "list_ex (\<lambda>(p, _). p = entry_file language) existing")
    case True
    then have "entry_file language \<in> fst ` set existing" by (force simp: list_ex_iff)
    with True False assms(1) show ?thesis by (simp add: session_sources_def)
  next
    case no_entry: False
    then have "entry_file language \<notin> fst ` set existing" by (auto simp: list_ex_iff)
    with no_entry False assms(1) entry_default_small [of language] show ?thesis
      by (simp add: session_sources_def)
  qed
qed

lemma find_entry:
  assumes "distinct (map fst xs)" and "find (\<lambda>f. pf_path f = e)
      (sort_files (map (\<lambda>(p, source). \<lparr>pf_path = p, pf_uri = u p, pf_source = source\<rparr>) xs)) = Some main"
    and "find (\<lambda>(p, _). p = e) xs = Some (q, source)"
  shows "pf_source main = source \<and> pf_uri main = u e"
proof -
  from find_SomeD [OF assms(2)] obtain src where a: "(e, src) \<in> set xs"
    "main = \<lparr>pf_path = e, pf_uri = u e, pf_source = src\<rparr>" by auto
  from find_SomeD [OF assms(3)] have "(e, source) \<in> set xs" by auto
  with a assms(1) show ?thesis by (auto dest: eq_key_imp_eq_value)
qed

lemma new_session_inv:
  assumes d: "distinct (map fst sources)" and e: "entry_file language \<in> fst ` set sources"
    and lim: "length sources \<le> max_project_files" "(\<Sum>f\<leftarrow>sources. length (snd f)) \<le> max_project_bytes"
    and disk: "\<forall>(p, source)\<in>set sources. disk p = Some source"
  shows "store_inv (new_session env port language root sources disk workspace input)"
proof -
  let ?s = "new_session env port language root sources disk workspace input"
  let ?raw = "map (\<lambda>(p, source). \<lparr>pf_path = p, pf_uri = file_uri ?s p, pf_source = source\<rparr>) sources"
  have snap: "sn_files (ss_snapshot ?s) = sort_files ?raw"
    by (simp add: new_session_def Let_def file_uri_def)
  have "map pf_path ?raw = map fst sources" by (simp add: case_prod_beta)
  moreover have "project_bytes ?raw = (\<Sum>f\<leftarrow>sources. length (snd f))"
    by (simp add: project_bytes_def case_prod_beta o_def)
  moreover have "\<forall>f\<in>set ?raw. pf_uri f = file_uri ?s (pf_path f) \<and> ss_disk ?s (pf_path f) = Some (pf_source f)"
    using disk by (auto simp: new_session_def Let_def)
  ultimately have listed: "listed_ok ?s (sn_files (ss_snapshot ?s))"
    unfolding snap listed_ok_sort using d lim by (simp only: listed_ok_def length_map simp_thms)
  have entry: "ss_entry_path ?s = entry_file language" "ss_language ?s = language"
    by (simp_all add: new_session_def Let_def)
  have "\<exists>f\<in>set (sort_files ?raw). pf_path f = entry_file language"
  proof -
    obtain src where "(entry_file language, src) \<in> set sources" using e by auto
    then show ?thesis by (auto intro!: bexI [of _ "(entry_file language, src)"])
  qed
  then have "find (\<lambda>f. pf_path f = entry_file language) (sort_files ?raw) \<noteq> None"
    unfolding find_None_iff by blast
  then obtain main where main: "find (\<lambda>f. pf_path f = entry_file language) (sort_files ?raw) = Some main" by blast
  have "find (\<lambda>(p, _). p = entry_file language) sources \<noteq> None"
    unfolding find_None_iff using e by fastforce
  then obtain q src where src: "find (\<lambda>(p, _). p = entry_file language) sources = Some (q, src)" by fastforce
  have "sn_uri (ss_snapshot ?s) = file_uri ?s (entry_file language)" "sn_source (ss_snapshot ?s) = src"
    by (simp_all add: new_session_def Let_def file_uri_def src)
  with find_entry [OF d main src] have "entry_ok ?s"
    by (simp add: entry_ok_def snap entry main)
  with listed entry show ?thesis
    by (simp add: store_inv_def paths_sorted_def snap) (simp add: sort_files_def path_order.sort_by_sorted)
qed

lemma create_result:
  assumes "create parse render touch_io env preferred kind workspace m = (Inr resp, m')"
  obtains found s where "resolve_workspace parse env (mg_registry m) workspace = Inr found"
    "s = created_session env preferred kind workspace found m"
    "resp = create_response env s (map_option snd found)"
    "mg_sessions m' = AList.update (ss_id s) s (mg_sessions m)"
    "mg_dirs m' = (if found = None
       then (ss_id s, \<lparr>de_is_dir = True, de_modified = Some (ce_now env), de_removable = True\<rparr>)
            # AList.delete (ss_id s) (mg_dirs m)
       else mg_dirs m)"
  using assms by (auto simp: create_def Let_def split: sum.splits option.splits)

lemma created_session_fields [simp]:
  "ss_id (created_session env preferred kind workspace found m) = random_hex (ce_id_bytes env)"
  "ss_token (created_session env preferred kind workspace found m) = random_base64url (ce_token_bytes env)"
  "ss_workspace_id (created_session env preferred kind workspace found m) = workspace"
  by (simp_all add: created_session_def new_session_def Let_def)

lemma created_session_inv:
  assumes "found \<noteq> None \<Longrightarrow> attachable env"
  shows "store_inv (created_session env preferred kind workspace found m)"
proof -
  let ?existing = "existing_sources env found"
  let ?language = "chosen_language env preferred found"
  let ?sources = "session_sources ?existing (ce_versions env) (kind = Minimal) ?language"
  have ex: "distinct (map fst ?existing) \<and> length ?existing < max_project_files
      \<and> (\<Sum>f\<leftarrow>?existing. length (snd f)) + 2000 \<le> max_project_bytes
      \<and> (\<forall>(p, source)\<in>set ?existing. ce_disk env p = Some source)" if "?existing \<noteq> []"
    using assms that by (auto simp: existing_sources_def attachable_def Let_def split: if_splits)
  have src: "distinct (map fst ?sources) \<and> entry_file ?language \<in> fst ` set ?sources
      \<and> length ?sources \<le> max_project_files \<and> (\<Sum>f\<leftarrow>?sources. length (snd f)) \<le> max_project_bytes"
    using ex by (intro session_sources_ok [OF _ chosen_language_def]) blast
  have "\<forall>(p, source)\<in>set ?sources. created_disk env ?language found ?sources p = Some source"
  proof (cases "?existing = []")
    case True
    then show ?thesis
      using src by (auto simp: created_disk_def Let_def map_add_Some_iff)
  next
    case False
    then have "found \<noteq> None" by (cases "found = None") (simp_all add: existing_sources_def)
    with False ex show ?thesis
      by (auto simp: created_disk_def session_sources_def Let_def list_ex_iff)
  qed
  with src show ?thesis
    unfolding created_session_def Let_def by (intro new_session_inv) auto
qed

section \<open>Live sessions\<close>

definition ports :: "manager \<Rightarrow> nat list" where
  "ports m = map (\<lambda>(_, s). ss_http_port s) (mg_sessions m)"

definition live_ok :: "manager \<Rightarrow> bool" where
  "live_ok m \<longleftrightarrow> distinct (map fst (mg_sessions m)) \<and> distinct (ports m)"

lemma authenticate_iff:
  "authenticate m sid token = Some s \<longleftrightarrow> length sid = 32 \<and> list_all lower_hex sid \<and> length token \<le> 128
     \<and> map_of (mg_sessions m) sid = Some s \<and> ss_token s = token"
  by (auto simp: authenticate_def split: option.splits)

lemma update_fresh: "k \<notin> fst ` set al \<Longrightarrow> AList.update k v al = al @ [(k, v)]"
  by (induction al) auto

lemma delete_filter: "AList.delete k al = filter (\<lambda>p. fst p \<noteq> k) al"
  by (induction al) (auto simp: AList.delete_eq)

text \<open>The session a response speaks of, and that its token opens it.\<close>

lemma create_opens:
  assumes "create parse render touch_io env preferred kind workspace m = (Inr resp, m')"
    and "length (ce_id_bytes env) = 16" and "length (ce_token_bytes env) = 32"
  obtains found s where "resolve_workspace parse env (mg_registry m) workspace = Inr found"
    "s = created_session env preferred kind workspace found m"
    "resp = create_response env s (map_option snd found)"
    "mg_sessions m' = AList.update (ss_id s) s (mg_sessions m)"
    "authenticate m' (ss_id s) (ss_token s) = Some s"
proof -
  from assms(1) obtain found s where f: "resolve_workspace parse env (mg_registry m) workspace = Inr found"
    and s: "s = created_session env preferred kind workspace found m"
    and resp: "resp = create_response env s (map_option snd found)"
    and m': "mg_sessions m' = AList.update (ss_id s) s (mg_sessions m)"
    by (rule create_result)
  have "length (ss_id s) = 32 \<and> list_all lower_hex (ss_id s)"
    using random_hex_props [of "ce_id_bytes env"] assms(2) by (simp add: s)
  moreover have "length (ss_token s) \<le> 128" using assms(3) by (simp add: s length_base64url)
  ultimately have "authenticate m' (ss_id s) (ss_token s) = Some s"
    by (simp add: authenticate_iff m' update_conv')
  with f s resp m' show ?thesis by (rule that)
qed

lemma new_session_port [simp]:
  "ss_http_port (created_session env preferred kind workspace found m) =
     allocate_http_port (ce_bindable env) (ce_port_draws env) (ports m)"
  by (simp add: created_session_def new_session_def Let_def ports_def)

lemma create_live_ok:
  assumes "live_ok m" and "create parse render touch_io env preferred kind workspace m = (Inr resp, m')"
    and "map_of (mg_sessions m) (random_hex (ce_id_bytes env)) = None"
    and "\<exists>port \<in> {HTTP_PORT_START..<HTTP_PORT_END}. port \<notin> set (ports m) \<and> ce_bindable env port"
  shows "live_ok m'"
proof -
  from assms(2) obtain found s where s: "s = created_session env preferred kind workspace found m"
    and m': "mg_sessions m' = AList.update (ss_id s) s (mg_sessions m)"
    by (rule create_result)
  have "ss_id s \<notin> fst ` set (mg_sessions m)"
    using assms(3) by (simp add: s map_of_eq_None_iff)
  then have "mg_sessions m' = mg_sessions m @ [(ss_id s, s)]"
    unfolding m' by (rule update_fresh)
  moreover have "ss_http_port s \<notin> set (ports m)"
    using allocated_port_free [OF assms(4)] by (simp add: s)
  ultimately show ?thesis
    using assms(1) \<open>ss_id s \<notin> _\<close> by (simp add: live_ok_def ports_def)
qed

lemma destroy_sessions:
  "mg_sessions (destroy parse render touch_io now removed sid m) = filter (\<lambda>p. fst p \<noteq> sid) (mg_sessions m)"
proof (cases "map_of (mg_sessions m) sid")
  case None
  then have "filter (\<lambda>p. fst p \<noteq> sid) (mg_sessions m) = mg_sessions m"
    by (intro filter_True) (auto simp: map_of_eq_None_iff)
  with None show ?thesis by (simp add: destroy_def)
next
  case (Some s)
  then show ?thesis
    by (cases "ss_workspace_id s") (simp_all add: destroy_def Let_def delete_filter)
qed

lemma map_of_filter_ne: "k \<noteq> j \<Longrightarrow> map_of (filter (\<lambda>p. fst p \<noteq> k) al) j = map_of al j"
  by (induction al) auto

lemma destroy_live_ok: "live_ok m \<Longrightarrow> live_ok (destroy parse render touch_io now removed sid m)"
  by (simp add: live_ok_def ports_def destroy_sessions distinct_map_filter)

section \<open>Properties\<close>

text \<open>A session that was created opens: its id and token, as the response gives
  them, authenticate it and no other token does; its store is in order (sorted,
  within the limits, entry file present, disk and snapshot agreeing) at version 1,
  whether it is new or attached to a workspace, and the response lists its files.\<close>
theorem created_session_opens:
  assumes "create parse render touch_io env preferred kind workspace m = (Inr resp, m')"
    and "length (ce_id_bytes env) = 16" and "length (ce_token_bytes env) = 32"
    and "workspace \<noteq> None \<Longrightarrow> attachable env"
  shows "\<exists>s. authenticate m' (cr_session_id resp) (cr_auth_token resp) = Some s
    \<and> store_inv s \<and> store_version s = 1 \<and> cr_files resp = sn_files (ss_snapshot s)
    \<and> (\<forall>token. token \<noteq> cr_auth_token resp \<longrightarrow> authenticate m' (cr_session_id resp) token = None)"
proof -
  from assms(1-3) obtain found s where found: "resolve_workspace parse env (mg_registry m) workspace = Inr found"
    and s: "s = created_session env preferred kind workspace found m"
    and resp: "resp = create_response env s (map_option snd found)"
    and m': "mg_sessions m' = AList.update (ss_id s) s (mg_sessions m)"
    and opens: "authenticate m' (ss_id s) (ss_token s) = Some s"
    by (rule create_opens)
  have "found \<noteq> None \<Longrightarrow> workspace \<noteq> None"
    using found by (auto simp: resolve_workspace_def split: option.splits)
  then have inv: "store_inv s" unfolding s by (intro created_session_inv) (use assms(4) in blast)
  have look: "map_of (mg_sessions m') (ss_id s) = Some s" by (simp add: m' update_conv')
  have "store_version s = 1"
    by (simp add: s store_version_def created_session_def new_session_def Let_def)
  moreover note opens
  moreover have "authenticate m' (ss_id s) token = None" if "token \<noteq> ss_token s" for token
    using look that by (simp add: authenticate_def)
  ultimately show ?thesis
    using inv by (auto simp: resp create_response_def)
qed

definition demo_env :: create_env where
  "demo_env = \<lparr>ce_id_bytes = replicate 16 (CHR ''a''), ce_token_bytes = replicate 32 (CHR ''b''),
     ce_port_draws = [20001], ce_bindable = (\<lambda>_. True), ce_versions = Map.empty,
     ce_workspaces_root = [''w''], ce_tree = DirNode None, ce_disk = Map.empty, ce_saved_input = None,
     ce_io_error = None, ce_now = 7, ce_support = Unsupported, ce_cache = [''c''], ce_cache_made = False,
     ce_project_root = [''p''], ce_home = None\<rparr>"

definition empty_manager :: manager where
  "empty_manager = \<lparr>mg_sessions = [], mg_root = [''tmp''], mg_dirs = [], mg_registry = Map.empty\<rparr>"

lemma demo_create:
  "\<exists>resp m'. create demo_parse demo_render \<lparr>io_write = None, io_rename = None\<rparr> demo_env Zig Minimal None
     empty_manager = (Inr resp, m')"
  by (simp add: create_def resolve_workspace_def demo_env_def Let_def)

lemma created_session_opens_witness:
  "\<exists>resp m' s. create demo_parse demo_render \<lparr>io_write = None, io_rename = None\<rparr> demo_env Zig Minimal None
     empty_manager = (Inr resp, m') \<and> authenticate m' (cr_session_id resp) (cr_auth_token resp) = Some s
     \<and> store_inv s"
proof -
  obtain resp m' where c: "create demo_parse demo_render \<lparr>io_write = None, io_rename = None\<rparr> demo_env Zig Minimal
      None empty_manager = (Inr resp, m')" using demo_create by blast
  have "length (ce_id_bytes demo_env) = 16" "length (ce_token_bytes demo_env) = 32"
    by (simp_all add: demo_env_def)
  from created_session_opens [OF c this] c show ?thesis by blast
qed



text \<open>C23: a sweep removes only directories that were untouched for a day, counts
  them, and never the directory of a session that is alive, however old the
  timestamp on it.\<close>
theorem sweep_spares_live_sessions:
  assumes "sweep now m = (n, m')"
  shows "n + length (mg_dirs m') = length (mg_dirs m)
    \<and> (\<forall>d\<in>set (mg_dirs m). fst d \<in> fst ` set (mg_sessions m) \<longrightarrow> d \<in> set (mg_dirs m'))
    \<and> (\<forall>d\<in>set (mg_dirs m) - set (mg_dirs m'). de_is_dir (snd d)
        \<and> (\<forall>t. de_modified (snd d) = Some t \<longrightarrow> t + STALE_AFTER_MS < now))
    \<and> mg_sessions m' = mg_sessions m"
proof -
  let ?st = "stale (now - STALE_AFTER_MS) (map fst (mg_sessions m))"
  have n: "n = length (filter ?st (mg_dirs m))" and dirs: "mg_dirs m' = filter (\<lambda>d. \<not> ?st d) (mg_dirs m)"
    and live: "mg_sessions m' = mg_sessions m"
    using assms by (auto simp: sweep_def sweep_stale_def Let_def)
  have spared: "\<not> ?st d" if "fst d \<in> fst ` set (mg_sessions m)" for d
    using that by (simp add: stale_def)
  have old: "de_is_dir (snd d) \<and> (\<forall>t. de_modified (snd d) = Some t \<longrightarrow> t + STALE_AFTER_MS < now)" if "?st d" for d
    using that by (auto simp: stale_def)
  show ?thesis
    using n dirs live spared old sum_length_filter_compl [of ?st "mg_dirs m"] by auto
qed

definition cold_manager :: manager where
  "cold_manager = empty_manager\<lparr>mg_dirs :=
     [(''old'', \<lparr>de_is_dir = True, de_modified = Some 5, de_removable = True\<rparr>)]\<rparr>"

lemma sweep_spares_live_sessions_witness: "fst (sweep 200000000 cold_manager) = 1"
proof -
  have gone: "mg_dirs (snd (sweep 200000000 cold_manager)) = []" and one: "length (mg_dirs cold_manager) = 1"
    by (simp_all add: sweep_def sweep_stale_def stale_def cold_manager_def empty_manager_def STALE_AFTER_MS_def Let_def)
  show ?thesis
    using sweep_spares_live_sessions [OF surjective_pairing, of 200000000 cold_manager]
    unfolding gone one by simp
qed

end
