(* ===== verification/Collab.thy ===== *)
theory Collab
  imports Protocol
begin

text \<open>
  \<open>Collab\<close> of src/apps/server-rs/src/domain/collab.rs: the sessions that share a
  workspace, the revision each write is checked against, and the changes
  broadcast to the others.  Every method holds the state's mutex for its whole
  critical section, so each is one atomic step.  The specification is a log of
  who wrote what, per workspace; \<open>coll_inv\<close> relates the two.
\<close>

section \<open>State and operations\<close>

datatype workspace_change =
    Files string string
  | Peers string nat
  | Document string string string string nat
      \<comment> \<open>workspace, origin, path, source, revision\<close>

record collab =
  peers :: "string \<Rightarrow> string set option"
  revisions :: "string \<Rightarrow> nat option"
  writers :: "string \<Rightarrow> (string \<times> nat) option"
  edit_locks :: "string \<Rightarrow> nat option"
  lock_count :: nat
  changes :: "workspace_change list"

text \<open>A conflict carries the current revision.\<close>

datatype conflict = Conflict nat

definition collab_new :: collab where
  "collab_new = \<lparr>peers = Map.empty, revisions = Map.empty, writers = Map.empty,
     edit_locks = Map.empty, lock_count = 0, changes = []\<rparr>"

definition send_change :: "workspace_change \<Rightarrow> collab \<Rightarrow> collab" where
  "send_change c s = s\<lparr>changes := changes s @ [c]\<rparr>"

definition announce_peers :: "string \<Rightarrow> nat \<Rightarrow> collab \<Rightarrow> collab" where
  "announce_peers workspace count = send_change (Peers workspace count)"

definition current_revision :: "collab \<Rightarrow> string \<Rightarrow> nat" where
  "current_revision s workspace = (case revisions s workspace of None \<Rightarrow> 0 | Some r \<Rightarrow> r)"

definition join :: "string \<Rightarrow> string \<Rightarrow> collab \<Rightarrow> nat \<times> collab" where
  "join workspace session s =
     (let here = insert session (case peers s workspace of None \<Rightarrow> {} | Some p \<Rightarrow> p);
          revision = current_revision s workspace;
          s1 = s\<lparr>peers := (peers s)(workspace \<mapsto> here), revisions := (revisions s)(workspace \<mapsto> revision)\<rparr>
      in (revision, announce_peers workspace (card here) s1))"

definition leave :: "string \<Rightarrow> string \<Rightarrow> collab \<Rightarrow> collab" where
  "leave workspace session s =
     (case peers s workspace of
        None \<Rightarrow> s
      | Some p \<Rightarrow>
          let here = p - {session}; count = card here;
              s1 = s\<lparr>peers := (peers s)(workspace := (if count = 0 then None else Some here))\<rparr>
          in announce_peers workspace count s1)"

definition peer_count :: "collab \<Rightarrow> string \<Rightarrow> nat" where
  "peer_count s workspace = (case peers s workspace of None \<Rightarrow> 0 | Some p \<Rightarrow> card p)"

text \<open>Locks are numbered as they are created; the number stands for the \<open>Arc\<close>.\<close>

definition edit_lock :: "string \<Rightarrow> collab \<Rightarrow> nat \<times> collab" where
  "edit_lock workspace s =
     (case edit_locks s workspace of
        Some l \<Rightarrow> (l, s)
      | None \<Rightarrow> (lock_count s, s\<lparr>edit_locks := (edit_locks s)(workspace \<mapsto> lock_count s),
                                lock_count := Suc (lock_count s)\<rparr>))"

definition writer_base_ok :: "collab \<Rightarrow> string \<Rightarrow> string \<Rightarrow> nat option \<Rightarrow> nat \<Rightarrow> bool" where
  "writer_base_ok s workspace origin base current =
     (case base of
        None \<Rightarrow> True
      | Some b \<Rightarrow> b = current
          \<or> (b < current \<and> (case writers s workspace of None \<Rightarrow> False
               | Some (writer, start) \<Rightarrow> writer = origin \<and> start \<le> b)))"

definition check_writer_base :: "collab \<Rightarrow> string \<Rightarrow> string \<Rightarrow> nat option \<Rightarrow> conflict + unit" where
  "check_writer_base s workspace origin base =
     (let current = current_revision s workspace
      in if writer_base_ok s workspace origin base current then Inr () else Inl (Conflict current))"

definition advance :: "string \<Rightarrow> string \<Rightarrow> nat option \<Rightarrow> collab \<Rightarrow> (conflict + nat) \<times> collab" where
  "advance workspace origin base s =
     (let current = current_revision s workspace in
      if \<not> writer_base_ok s workspace origin base current then (Inl (Conflict current), s)
      else
        let s1 = (if (case writers s workspace of None \<Rightarrow> True | Some (writer, _) \<Rightarrow> writer \<noteq> origin)
                  then s\<lparr>writers := (writers s)(workspace \<mapsto> (origin, current))\<rparr> else s)
        in (Inr (current + 1), s1\<lparr>revisions := (revisions s1)(workspace \<mapsto> current + 1)\<rparr>))"

definition record_files :: "string \<Rightarrow> string \<Rightarrow> nat option \<Rightarrow> collab \<Rightarrow> (conflict + nat) \<times> collab" where
  "record_files workspace origin base s =
     (case advance workspace origin base s of
        (Inl c, s1) \<Rightarrow> (Inl c, s1)
      | (Inr r, s1) \<Rightarrow> (Inr r, send_change (Files workspace origin) s1))"

definition record_edit ::
  "string \<Rightarrow> string \<Rightarrow> string \<Rightarrow> string \<Rightarrow> nat option \<Rightarrow> collab \<Rightarrow> (conflict + nat) \<times> collab" where
  "record_edit workspace origin path source base s =
     (case advance workspace origin base s of
        (Inl c, s1) \<Rightarrow> (Inl c, s1)
      | (Inr r, s1) \<Rightarrow> (Inr r, send_change (Document workspace origin path source r) s1))"

section \<open>Operations as steps\<close>

datatype collab_op =
    Join string string
  | Leave string string
  | Lock string
  | RecordFiles string string "nat option"
  | RecordEdit string string string string "nat option"

fun collab_step :: "collab_op \<Rightarrow> collab \<Rightarrow> collab" where
  "collab_step (Join w og) s = snd (join w og s)"
| "collab_step (Leave w og) s = leave w og s"
| "collab_step (Lock w) s = snd (edit_lock w s)"
| "collab_step (RecordFiles w og b) s = snd (record_files w og b s)"
| "collab_step (RecordEdit w og p t b) s = snd (record_edit w og p t b s)"

definition collab_run :: "collab_op list \<Rightarrow> collab" where
  "collab_run ops = fold collab_step ops collab_new"

section \<open>Specification: the log of writes\<close>

text \<open>
  Per workspace, the sessions whose writes were accepted, oldest first.  A write
  based on revision \<open>b\<close> is accepted when nobody else wrote since: everything
  after position \<open>b\<close> is the writer's own.
\<close>

definition log_ok :: "string list \<Rightarrow> string \<Rightarrow> nat option \<Rightarrow> bool" where
  "log_ok log origin base =
     (case base of None \<Rightarrow> True | Some b \<Rightarrow> b \<le> length log \<and> (\<forall>og'\<in>set (drop b log). og' = origin))"

definition log_write :: "string \<Rightarrow> string \<Rightarrow> nat option \<Rightarrow> (string \<Rightarrow> string list) \<Rightarrow> (string \<Rightarrow> string list)" where
  "log_write w origin base logs =
     (if log_ok (logs w) origin base then logs(w := logs w @ [origin]) else logs)"

fun log_step :: "collab_op \<Rightarrow> (string \<Rightarrow> string list) \<Rightarrow> (string \<Rightarrow> string list)" where
  "log_step (RecordFiles w og b) logs = log_write w og b logs"
| "log_step (RecordEdit w og p t b) logs = log_write w og b logs"
| "log_step _ logs = logs"

definition log_run :: "collab_op list \<Rightarrow> string \<Rightarrow> string list" where
  "log_run ops = fold log_step ops (\<lambda>_. [])"

text \<open>The relation: the revision is the log's length and the recorded writer
  starts the longest suffix of writes by one session.\<close>

definition writer_rel :: "(string \<times> nat) option \<Rightarrow> string list \<Rightarrow> bool" where
  "writer_rel wr log =
     (case wr of None \<Rightarrow> log = []
      | Some (og, start) \<Rightarrow> start < length log \<and> (\<forall>og'\<in>set (drop start log). og' = og)
          \<and> (0 < start \<longrightarrow> log ! (start - 1) \<noteq> og))"

definition coll_inv :: "collab \<Rightarrow> (string \<Rightarrow> string list) \<Rightarrow> bool" where
  "coll_inv s logs \<longleftrightarrow>
     (\<forall>w. current_revision s w = length (logs w) \<and> writer_rel (writers s w) (logs w))
     \<and> (\<forall>w p. peers s w = Some p \<longrightarrow> finite p \<and> p \<noteq> {})
     \<and> (\<forall>w l. edit_locks s w = Some l \<longrightarrow> l < lock_count s)
     \<and> (\<forall>w w' l. edit_locks s w = Some l \<longrightarrow> edit_locks s w' = Some l \<longrightarrow> w = w')"

lemma coll_inv_new: "coll_inv collab_new (\<lambda>_. [])"
  by (simp add: coll_inv_def collab_new_def current_revision_def writer_rel_def)

lemma writer_rel_drop:
  assumes "writer_rel (Some (og, start)) log" "b < length log"
  shows "(\<forall>og'\<in>set (drop b log). og' = origin) \<longleftrightarrow> og = origin \<and> start \<le> b"
proof
  assume all: "\<forall>og'\<in>set (drop b log). og' = origin"
  from assms have suffix: "\<forall>og'\<in>set (drop start log). og' = og" and lt: "start < length log"
    and edge: "0 < start \<longrightarrow> log ! (start - 1) \<noteq> og"
    by (auto simp: writer_rel_def)
  have at: "log ! i = x" if "\<forall>og'\<in>set (drop k log). og' = x" "k \<le> i" "i < length log" for i k x
  proof -
    from that(2,3) have "drop k log ! (i - k) \<in> set (drop k log)" by (intro nth_mem) simp
    with that show ?thesis by simp
  qed
  have last: "log ! (length log - 1) = og" "log ! (length log - 1) = origin"
    using at [OF suffix, of "length log - 1"] at [OF all, of "length log - 1"] lt assms(2) by linarith+
  have "start \<le> b"
  proof (rule ccontr)
    assume "\<not> start \<le> b"
    then have "log ! (start - 1) = origin" using at [OF all, of "start - 1"] lt by auto
    with last edge \<open>\<not> start \<le> b\<close> show False by auto
  qed
  with last show "og = origin \<and> start \<le> b" by simp
next
  assume "og = origin \<and> start \<le> b"
  moreover from this have "set (drop b log) \<subseteq> set (drop start log)" by (simp add: set_drop_subset_set_drop)
  ultimately show "\<forall>og'\<in>set (drop b log). og' = origin" using assms(1) by (auto simp: writer_rel_def)
qed

text \<open>The code's test is the specification's.\<close>

lemma writer_base_ok_log:
  assumes "coll_inv s logs"
  shows "writer_base_ok s w origin base (current_revision s w) = log_ok (logs w) origin base"
proof (cases base)
  case None
  then show ?thesis by (simp add: writer_base_ok_def log_ok_def)
next
  case (Some b)
  from assms have rev: "current_revision s w = length (logs w)" and wr: "writer_rel (writers s w) (logs w)"
    by (auto simp: coll_inv_def)
  consider "b = length (logs w)" | "length (logs w) < b" | "b < length (logs w)" by linarith
  then show ?thesis
  proof cases
    case 3
    with wr obtain og start where ws: "writers s w = Some (og, start)"
      by (cases "writers s w") (auto simp: writer_rel_def)
    with wr 3 writer_rel_drop [of og start "logs w" b origin] Some rev show ?thesis
      by (auto simp: writer_base_ok_def log_ok_def)
  qed (use Some rev in \<open>auto simp: writer_base_ok_def log_ok_def\<close>)
qed

lemma writer_rel_snoc_same:
  "writer_rel (Some (og, start)) log \<Longrightarrow> writer_rel (Some (og, start)) (log @ [og])"
  by (auto simp: writer_rel_def nth_append)

lemma writer_rel_snoc_other:
  assumes "writer_rel wr log" "case wr of None \<Rightarrow> True | Some (og', _) \<Rightarrow> og' \<noteq> og"
  shows "writer_rel (Some (og, length log)) (log @ [og])"
proof -
  have "log ! (length log - 1) \<noteq> og" if "0 < length log"
  proof -
    from assms that obtain og' start where wr: "wr = Some (og', start)" "og' \<noteq> og"
      by (cases wr) (auto simp: writer_rel_def)
    with assms(1) have "start < length log" "\<forall>x\<in>set (drop start log). x = og'"
      by (auto simp: writer_rel_def)
    moreover have "last (drop start log) \<in> set (drop start log)"
      using \<open>start < length log\<close> by (intro last_in_set) simp
    ultimately have "last log = og'" by (simp add: last_drop)
    with that wr(2) show ?thesis by (simp add: last_conv_nth)
  qed
  then show ?thesis by (auto simp: writer_rel_def nth_append)
qed

lemma send_change_simps [simp]:
  "peers (send_change c s) = peers s" "revisions (send_change c s) = revisions s"
  "writers (send_change c s) = writers s" "edit_locks (send_change c s) = edit_locks s"
  "lock_count (send_change c s) = lock_count s" "changes (send_change c s) = changes s @ [c]"
  "current_revision (send_change c s) w = current_revision s w"
  by (simp_all add: send_change_def current_revision_def)

lemma coll_inv_send_change [simp]: "coll_inv (send_change c s) logs = coll_inv s logs"
  by (simp add: coll_inv_def)

lemma advance_inv:
  assumes inv: "coll_inv s logs" and adv: "advance w origin base s = (r, s')"
  shows "coll_inv s' (log_write w origin base logs)
    \<and> r = (if log_ok (logs w) origin base then Inr (length (logs w) + 1) else Inl (Conflict (length (logs w))))"
proof -
  have ok: "writer_base_ok s w origin base (current_revision s w) = log_ok (logs w) origin base"
    by (rule writer_base_ok_log [OF inv])
  have rev: "current_revision s w = length (logs w)" and wr: "writer_rel (writers s w) (logs w)"
    using inv by (auto simp: coll_inv_def)
  show ?thesis
  proof (cases "log_ok (logs w) origin base")
    case False
    with adv ok inv rev show ?thesis by (auto simp: advance_def log_write_def Let_def)
  next
    case True
    let ?new = "case writers s w of None \<Rightarrow> True | Some (writer, _) \<Rightarrow> writer \<noteq> origin"
    from True adv ok rev have r: "r = Inr (length (logs w) + 1)"
      and s': "s' = s\<lparr>writers := (if ?new then (writers s)(w \<mapsto> (origin, length (logs w))) else writers s),
                revisions := (revisions s)(w \<mapsto> length (logs w) + 1)\<rparr>"
      by (auto simp: advance_def Let_def)
    have "writer_rel (writers s' w) (logs w @ [origin])"
      using wr writer_rel_snoc_other [OF wr] writer_rel_snoc_same
      by (cases "writers s w") (auto simp: s')
    with inv True r show ?thesis
      by (auto simp: s' coll_inv_def log_write_def current_revision_def)
  qed
qed

lemma record_inv:
  assumes "coll_inv s logs"
  shows "coll_inv (snd (record_files w og b s)) (log_write w og b logs)"
    and "coll_inv (snd (record_edit w og p t b s)) (log_write w og b logs)"
  using advance_inv [OF assms, of w og b]
  by (auto simp: record_files_def record_edit_def split: prod.splits sum.splits)

lemma collab_step_inv: "coll_inv s logs \<Longrightarrow> coll_inv (collab_step op s) (log_step op logs)"
proof (cases op)
  case (Join w og)
  assume "coll_inv s logs"
  with Join show ?thesis
    by (auto simp: join_def Let_def announce_peers_def coll_inv_def current_revision_def split: option.splits)
next
  case (Leave w og)
  assume inv: "coll_inv s logs"
  show ?thesis
  proof (cases "peers s w")
    case None
    with inv Leave show ?thesis by (simp add: leave_def)
  next
    case (Some p)
    with inv have "finite p" by (auto simp: coll_inv_def)
    with inv Some Leave show ?thesis
      by (auto simp: leave_def Let_def announce_peers_def coll_inv_def current_revision_def card_gt_0_iff)
  qed
next
  case (Lock w)
  assume "coll_inv s logs"
  with Lock show ?thesis
    by (auto simp: edit_lock_def coll_inv_def current_revision_def less_Suc_eq split: option.splits)
qed (simp_all add: record_inv)

lemma collab_run_inv: "coll_inv (collab_run ops) (log_run ops)"
proof -
  have "coll_inv s logs \<Longrightarrow> coll_inv (fold collab_step ops s) (fold log_step ops logs)" for s logs
    by (induction ops arbitrary: s logs) (simp_all add: collab_step_inv)
  then show ?thesis unfolding collab_run_def log_run_def by (simp add: coll_inv_new)
qed

section \<open>The edit lock\<close>

text \<open>An operation that is not a write to \<open>w\<close>: what other connections can do while
  a session holds the edit lock of \<open>w\<close>.\<close>

fun writes_to :: "string \<Rightarrow> collab_op \<Rightarrow> bool" where
  "writes_to w (RecordFiles w' _ _) = (w = w')"
| "writes_to w (RecordEdit w' _ _ _ _) = (w = w')"
| "writes_to w _ = False"

definition frame_eq :: "string \<Rightarrow> collab \<Rightarrow> collab \<Rightarrow> bool" where
  "frame_eq w s t \<longleftrightarrow> current_revision s w = current_revision t w \<and> writers s w = writers t w"

lemma advance_frame: "w \<noteq> w' \<Longrightarrow> frame_eq w s (snd (advance w' og b s))"
  by (auto simp: advance_def Let_def frame_eq_def current_revision_def)

lemma collab_step_frame: "\<not> writes_to w op \<Longrightarrow> frame_eq w s (collab_step op s)"
proof (cases op)
  case (RecordFiles w' og b)
  assume "\<not> writes_to w op"
  with RecordFiles advance_frame [of w w' s og b] show ?thesis
    by (auto simp: record_files_def frame_eq_def split: prod.splits sum.splits)
next
  case (RecordEdit w' og p t b)
  assume "\<not> writes_to w op"
  with RecordEdit advance_frame [of w w' s og b] show ?thesis
    by (auto simp: record_edit_def frame_eq_def split: prod.splits sum.splits)
qed (auto simp: frame_eq_def join_def leave_def edit_lock_def Let_def announce_peers_def current_revision_def
    split: option.splits)

lemma collab_fold_frame:
  "\<forall>op\<in>set ops. \<not> writes_to w op \<Longrightarrow> frame_eq w s (fold collab_step ops s)"
proof (induction ops arbitrary: s)
  case (Cons op ops)
  then have "frame_eq w s (collab_step op s)" "frame_eq w (collab_step op s) (fold collab_step ops (collab_step op s))"
    by (auto simp: collab_step_frame)
  then show ?case by (simp add: frame_eq_def)
qed (simp add: frame_eq_def)

lemma writer_base_ok_frame:
  "frame_eq w s t \<Longrightarrow> writer_base_ok s w og b (current_revision s w) = writer_base_ok t w og b (current_revision t w)"
  unfolding frame_eq_def writer_base_ok_def by metis

lemma advance_accepts:
  "writer_base_ok s w og b (current_revision s w) \<Longrightarrow>
   \<exists>s'. advance w og b s = (Inr (current_revision s w + 1), s')"
  by (simp add: advance_def Let_def)

end
