(* ===== verification/Deps.thy ===== *)
theory Deps
  imports Packs
begin

text \<open>
  src/apps/server-rs/src/languages/deps.rs: what each language's package manager
  is called with, the manifest parsers, and the one manifest edit Atomis makes
  itself (removing an entry of build.zig.zon).  JSON parsing is serde's and a
  parameter.  Each loop over the lines of a manifest is a recursion over them
  with the loop's variables as arguments.
\<close>

section \<open>Line and trimming functions of the standard library\<close>

definition lf :: char where "lf = CHR 0x0A"

definition strip_cr :: "string \<Rightarrow> string" where
  "strip_cr s = (if s \<noteq> [] \<and> last s = CHR 0x0D then butlast s else s)"

text \<open>\<open>str::lines\<close>: no line for what follows a final newline; the carriage return before a
  newline goes with it.\<close>

definition str_lines :: "string \<Rightarrow> string list" where
  "str_lines s = (let ps = split_on lf s
     in map strip_cr (butlast ps) @ (if last ps = [] then [] else [last ps]))"

definition trim_start_chars :: "(char \<Rightarrow> bool) \<Rightarrow> string \<Rightarrow> string" where
  "trim_start_chars P s = dropWhile P s"

definition trim_end_chars :: "(char \<Rightarrow> bool) \<Rightarrow> string \<Rightarrow> string" where
  "trim_end_chars P s = rev (dropWhile P (rev s))"

definition trim_chars :: "(char \<Rightarrow> bool) \<Rightarrow> string \<Rightarrow> string" where
  "trim_chars P s = trim_end_chars P (trim_start_chars P s)"

definition quote_char :: char where "quote_char = CHR 0x22"

fun split_ws_from :: "string \<Rightarrow> string list \<Rightarrow> string list" where
  "split_ws_from word [] = (if word = [] then [] else [word])"
| "split_ws_from word (c # cs) =
     (if is_ws c then (if word = [] then [] else [word]) @ split_ws_from [] cs
      else split_ws_from (word @ c) cs)"

definition split_whitespace :: "string \<Rightarrow> string list" where
  "split_whitespace s = split_ws_from [] (str_chars s)"

fun second :: "'a list \<Rightarrow> 'a option" where
  "second (x # y # xs) = Some y"
| "second _ = None"

section \<open>What a language's package manager is\<close>

record deps_support =
  ds_manifest :: string
  ds_add :: "string list"
  ds_remove :: "string list option"
  ds_fetch_env :: "(string \<times> string) list"
  ds_fetch_after_add :: "string list option"
  ds_runs_untrusted_code :: bool
  ds_input_hint :: string

definition same_name :: "string \<Rightarrow> string" where
  "same_name name = name"

definition go_null_version :: "string \<Rightarrow> string" where
  "go_null_version name = name @ ''@none''"

definition RUST_DEPS :: deps_support where
  "RUST_DEPS = \<lparr>ds_manifest = ''Cargo.toml'', ds_add = [''cargo'', ''add''], ds_remove = Some [''cargo'', ''remove''],
     ds_fetch_env = [(''CARGO_NET_OFFLINE'', ''false'')], ds_fetch_after_add = Some [''cargo'', ''fetch''],
     ds_runs_untrusted_code = False, ds_input_hint = ''crate name, optionally name@version''\<rparr>"

definition GO_DEPS :: deps_support where
  "GO_DEPS = \<lparr>ds_manifest = ''go.mod'', ds_add = [''go'', ''get''], ds_remove = Some [''go'', ''get''],
     ds_fetch_env = [(''GOPROXY'', ''https://proxy.golang.org,direct''), (''GOFLAGS'', ''-mod=mod'')],
     ds_fetch_after_add = None, ds_runs_untrusted_code = False,
     ds_input_hint = ''module path, e.g. github.com/user/repo''\<rparr>"

definition TS_DEPS :: deps_support where
  "TS_DEPS = \<lparr>ds_manifest = ''package.json'', ds_add = [''npm'', ''install''], ds_remove = Some [''npm'', ''uninstall''],
     ds_fetch_env = [], ds_fetch_after_add = None, ds_runs_untrusted_code = True,
     ds_input_hint = ''package name, optionally name@version''\<rparr>"

definition ZIG_DEPS :: deps_support where
  "ZIG_DEPS = \<lparr>ds_manifest = ''build.zig.zon'', ds_add = [''zig'', ''fetch'', ''--save''], ds_remove = None,
     ds_fetch_env = [], ds_fetch_after_add = None, ds_runs_untrusted_code = False,
     ds_input_hint = ''package URL, e.g. git+https://github.com/user/repo''\<rparr>"

definition PY_DEPS :: deps_support where
  "PY_DEPS = \<lparr>ds_manifest = ''pyproject.toml'', ds_add = [''uv'', ''add''], ds_remove = Some [''uv'', ''remove''],
     ds_fetch_env = [], ds_fetch_after_add = None, ds_runs_untrusted_code = True,
     ds_input_hint = ''package name, optionally name==version''\<rparr>"

text \<open>The \<open>deps\<close> field of the packs.\<close>

fun deps_support_of :: "language \<Rightarrow> deps_support option" where
  "deps_support_of Rust = Some RUST_DEPS"
| "deps_support_of Go = Some GO_DEPS"
| "deps_support_of Ts = Some TS_DEPS"
| "deps_support_of Zig = Some ZIG_DEPS"
| "deps_support_of Py = Some PY_DEPS"
| "deps_support_of C = None"
| "deps_support_of Cpp = None"

definition add_arguments :: "language \<Rightarrow> string \<Rightarrow> string list" where
  "add_arguments l name =
     (if l = Rust
      then (case split_once (CHR ''['') name of
              Some (krate, rest) \<Rightarrow> (case strip_suffix rest '']'' of
                  Some features \<Rightarrow> [krate, ''--features'', features]
                | None \<Rightarrow> [name])
            | None \<Rightarrow> [name])
      else [name])"

definition remove_argument :: "language \<Rightarrow> string \<Rightarrow> string" where
  "remove_argument l name =
     (case deps_support_of l of None \<Rightarrow> name
      | Some _ \<Rightarrow> if l = Go then go_null_version name else same_name name)"

section \<open>pyproject.toml\<close>

definition parse_requirement :: "string \<Rightarrow> dependency option" where
  "parse_requirement raw =
     (let requirement = trim (trim_chars (\<lambda>c. c = quote_char) (trim_end_chars (\<lambda>c. c = CHR '','') (trim raw)))
      in if requirement = [] \<or> starts_with requirement ''#'' then None
         else
           let split = (case find_char requirement (\<lambda>c. c \<in> set ''<>=!~[ '') of Some i \<Rightarrow> i | None \<Rightarrow> length requirement);
               name = take split requirement; version = drop split requirement
           in if name \<noteq> [] then Some \<lparr>dep_name = name, dep_version = trim version\<rparr> else None)"

fun pyproject_lines :: "bool \<Rightarrow> bool \<Rightarrow> string list \<Rightarrow> dependency list" where
  "pyproject_lines in_project in_list [] = []"
| "pyproject_lines in_project in_list (line # ls) =
     (let trimmed = trim line in
      if starts_with trimmed ''['' then pyproject_lines (trimmed = ''[project]'') False ls
      else if \<not> in_project then pyproject_lines in_project in_list ls
      else (case strip_prefix trimmed ''dependencies'' of
          Some rest0 \<Rightarrow>
            let rest = trim (trim_start_chars (\<lambda>c. c \<in> set '' ='') rest0)
            in List.map_filter parse_requirement (split_on (CHR '','') (trim_chars (\<lambda>c. c \<in> set ''[]'') rest))
               @ pyproject_lines in_project (\<not> ends_with rest '']'') ls
        | None \<Rightarrow>
            if in_list then
              (if starts_with trimmed '']'' then pyproject_lines in_project False ls
               else (case parse_requirement trimmed of None \<Rightarrow> [] | Some d \<Rightarrow> [d])
                      @ pyproject_lines in_project in_list ls)
            else pyproject_lines in_project in_list ls))"

definition parse_pyproject :: "string \<Rightarrow> dependency list" where
  "parse_pyproject content = pyproject_lines False False (str_lines content)"

section \<open>build.zig.zon\<close>

text \<open>The name an entry's opening line declares, \<open>.name = .{\<close>.\<close>

definition zon_opens :: "string \<Rightarrow> string option" where
  "zon_opens trimmed =
     (case strip_prefix trimmed ''.'' of None \<Rightarrow> None
      | Some rest \<Rightarrow>
          let name = trim (hd (split_on (CHR ''='') rest))
          in if name \<noteq> [] \<and> ends_with trimmed ''.{'' then Some name else None)"

definition zon_hash :: "string \<Rightarrow> string option" where
  "zon_hash trimmed = Option.bind (strip_prefix trimmed ''.hash'') (\<lambda>rest. second (split_on quote_char rest))"

fun set_version :: "string \<Rightarrow> string \<Rightarrow> dependency list \<Rightarrow> dependency list" where
  "set_version name version [] = []"
| "set_version name version (d # ds) =
     (if dep_name d = name then d\<lparr>dep_version := version\<rparr> # ds else d # set_version name version ds)"

text \<open>\<open>current\<close> is \<open>None\<close> at the block's first level: the loop's \<open>depth\<close> is 1 exactly
  while an entry is open.\<close>

fun zon_lines :: "string option \<Rightarrow> dependency list \<Rightarrow> string list \<Rightarrow> dependency list" where
  "zon_lines current found [] = found"
| "zon_lines current found (line # ls) =
     (let trimmed = trim line in
      case current of
        None \<Rightarrow>
          (case zon_opens trimmed of
             Some name \<Rightarrow> zon_lines (Some name) (found @ [\<lparr>dep_name = name, dep_version = []\<rparr>]) ls
           | None \<Rightarrow> if starts_with trimmed ''}'' then found else zon_lines None found ls)
      | Some name \<Rightarrow>
          if starts_with trimmed ''}'' then zon_lines None found ls
          else (case zon_hash trimmed of
             None \<Rightarrow> zon_lines current found ls
           | Some hash \<Rightarrow>
               let version = (case second (split_on (CHR ''-'') hash) of Some v \<Rightarrow> v | None \<Rightarrow> [])
               in zon_lines current (set_version name version found) ls))"

definition parse_build_zon :: "string \<Rightarrow> dependency list" where
  "parse_build_zon content =
     (case find_sub content ''.dependencies'' of
        None \<Rightarrow> []
      | Some start \<Rightarrow> zon_lines None [] (drop 1 (str_lines (drop start content))))"

fun braces_from :: "bool \<Rightarrow> bool \<Rightarrow> string \<Rightarrow> nat \<times> nat" where
  "braces_from in_string escaped [] = (0, 0)"
| "braces_from in_string escaped (c # cs) =
     (if escaped then braces_from in_string False cs
      else if c = CHR 0x5C \<and> in_string then braces_from in_string True cs
      else if c = quote_char then braces_from (\<not> in_string) False cs
      else if c = CHR ''{'' \<and> \<not> in_string
        then (case braces_from in_string False cs of (opens, closes) \<Rightarrow> (opens + 1, closes))
      else if c = CHR ''}'' \<and> \<not> in_string
        then (case braces_from in_string False cs of (opens, closes) \<Rightarrow> (opens, closes + 1))
      else braces_from in_string False cs)"

definition braces_outside_strings :: "string \<Rightarrow> nat \<times> nat" where
  "braces_outside_strings line = braces_from False False line"

text \<open>The loop of \<open>zon_without\<close>: \<open>depth\<close> is \<open>None\<close> while it copies; the result is the kept
  lines and whether a block was dropped.\<close>

fun zon_keep :: "string \<Rightarrow> int option \<Rightarrow> string list \<Rightarrow> string list \<times> bool" where
  "zon_keep opener depth [] = ([], False)"
| "zon_keep opener depth (line # ls) =
     (case depth of
        None \<Rightarrow>
          if starts_with (trim line) opener
          then (fst (zon_keep opener (Some 1) ls), True)
          else (case zon_keep opener None ls of (kept, removed) \<Rightarrow> (line # kept, removed))
      | Some d \<Rightarrow>
          (case braces_outside_strings line of
             (opens, closes) \<Rightarrow>
               let d' = d + int opens - int closes
               in zon_keep opener (if d' \<le> 0 then None else Some d') ls))"

definition zon_without :: "string \<Rightarrow> string \<Rightarrow> string option" where
  "zon_without content name =
     (case zon_keep (''.'' @ name @ '' = .{'') None (str_lines content) of
        (kept, removed) \<Rightarrow> if removed then Some (concat (map (\<lambda>line. line @ [lf]) kept)) else None)"

definition manifest_without :: "language \<Rightarrow> string \<Rightarrow> string \<Rightarrow> string option" where
  "manifest_without l content name = (if l = Zig then zon_without content name else None)"

section \<open>Cargo.toml, go.mod, package.json\<close>

definition strip_quotes :: "string \<Rightarrow> string" where
  "strip_quotes v = trim_chars (\<lambda>c. c = quote_char) (trim v)"

fun find_map :: "('a \<Rightarrow> 'b option) \<Rightarrow> 'a list \<Rightarrow> 'b option" where
  "find_map f [] = None"
| "find_map f (x # xs) = (case f x of Some y \<Rightarrow> Some y | None \<Rightarrow> find_map f xs)"

definition cargo_version :: "string \<Rightarrow> string" where
  "cargo_version v =
     (if starts_with v ''{'' then
        (case Option.bind
            (find_map (\<lambda>part. strip_prefix (trim part) ''version'')
               (split_on (CHR '','') (trim_end_chars (\<lambda>c. c = CHR ''}'') (trim_start_chars (\<lambda>c. c = CHR ''{'') v))))
            (split_once (CHR ''='')) of
           Some (_, version) \<Rightarrow> strip_quotes (trim_end_chars (\<lambda>c. c = CHR ''}'') version)
         | None \<Rightarrow> [])
      else strip_quotes v)"

fun cargo_lines :: "bool \<Rightarrow> string list \<Rightarrow> dependency list" where
  "cargo_lines in_dependencies [] = []"
| "cargo_lines in_dependencies (raw # ls) =
     (let line = trim raw in
      if starts_with line ''['' then
        (case Option.bind (strip_prefix line ''[dependencies.'') (\<lambda>rest. strip_suffix rest '']'') of
           Some name \<Rightarrow> [\<lparr>dep_name = trim name, dep_version = []\<rparr>] | None \<Rightarrow> [])
        @ cargo_lines (line = ''[dependencies]'') ls
      else if \<not> in_dependencies \<or> line = [] \<or> starts_with line ''#'' then cargo_lines in_dependencies ls
      else (case split_once (CHR ''='') line of
          None \<Rightarrow> cargo_lines in_dependencies ls
        | Some (name0, v) \<Rightarrow>
            if trim name0 = [] then cargo_lines in_dependencies ls
            else \<lparr>dep_name = trim name0, dep_version = cargo_version (trim v)\<rparr> # cargo_lines in_dependencies ls))"

fun retain_first :: "string set \<Rightarrow> dependency list \<Rightarrow> dependency list" where
  "retain_first seen [] = []"
| "retain_first seen (d # ds) =
     (if dep_name d \<in> seen then retain_first seen ds
      else d # retain_first (insert (dep_name d) seen) ds)"

definition parse_cargo_toml :: "string \<Rightarrow> dependency list" where
  "parse_cargo_toml content = retain_first {} (cargo_lines False (str_lines content))"

fun go_mod_lines :: "bool \<Rightarrow> string list \<Rightarrow> dependency list" where
  "go_mod_lines in_block [] = []"
| "go_mod_lines in_block (raw # ls) =
     (let line = trim raw in
      if starts_with line ''require ('' then go_mod_lines True ls
      else if in_block \<and> line = '')'' then go_mod_lines False ls
      else if contains line ''// indirect'' then go_mod_lines in_block ls
      else (case (if in_block then Some line else strip_prefix line ''require '') of
          None \<Rightarrow> go_mod_lines in_block ls
        | Some entry \<Rightarrow> (case split_whitespace entry of
              name # version # _ \<Rightarrow>
                if name = [] \<or> starts_with name ''//'' then go_mod_lines in_block ls
                else \<lparr>dep_name = name, dep_version = version\<rparr> # go_mod_lines in_block ls
            | _ \<Rightarrow> go_mod_lines in_block ls)))"

definition parse_go_mod :: "string \<Rightarrow> dependency list" where
  "parse_go_mod content = go_mod_lines False (str_lines content)"

fun json_entries :: "json option \<Rightarrow> (string \<times> json) list" where
  "json_entries (Some (JObj kvs)) = kvs"
| "json_entries _ = []"

definition parse_package_json :: "(string \<Rightarrow> json option) \<Rightarrow> string \<Rightarrow> dependency list" where
  "parse_package_json parse content =
     (case parse content of
        None \<Rightarrow> []
      | Some v \<Rightarrow> concat (map (\<lambda>sect. map (\<lambda>(name, version).
            \<lparr>dep_name = name, dep_version = (case as_str version of Some t \<Rightarrow> t | None \<Rightarrow> [])\<rparr>)
          (json_entries (json_get v sect))) [''dependencies'', ''devDependencies'']))"

fun parse_manifest :: "(string \<Rightarrow> json option) \<Rightarrow> language \<Rightarrow> string \<Rightarrow> dependency list" where
  "parse_manifest parse Rust content = parse_cargo_toml content"
| "parse_manifest parse Go content = parse_go_mod content"
| "parse_manifest parse Ts content = parse_package_json parse content"
| "parse_manifest parse Zig content = parse_build_zon content"
| "parse_manifest parse Py content = parse_pyproject content"
| "parse_manifest parse C content = []"
| "parse_manifest parse Cpp content = []"

section \<open>Removing an entry\<close>

text \<open>The lines that open an entry of this name.\<close>

definition opens_entry :: "string \<Rightarrow> string \<Rightarrow> bool" where
  "opens_entry name line = starts_with (trim line) (''.'' @ name @ '' = .{'')"

definition unlines :: "string list \<Rightarrow> string" where
  "unlines ls = concat (map (\<lambda>line. line @ [lf]) ls)"

lemma zon_keep_lines:
  "zon_keep (''.'' @ name @ '' = .{'') depth ls = (kept, removed) \<Longrightarrow>
     subseq kept ls \<and> list_all (\<lambda>l. \<not> opens_entry name l) kept
     \<and> (depth = None \<longrightarrow> removed = list_ex (opens_entry name) ls \<and> (\<not> removed \<longrightarrow> kept = ls))"
proof (induction ls arbitrary: depth kept removed)
  case (Cons line ls)
  show ?case
  proof (cases depth)
    case None
    show ?thesis
    proof (cases "opens_entry name line")
      case True
      obtain kept' removed' where k: "zon_keep (''.'' @ name @ '' = .{'') (Some 1) ls = (kept', removed')" by force
      with True None Cons.prems have "kept = kept'" "removed" by (auto simp: opens_entry_def)
      with Cons.IH [OF k] None True show ?thesis by auto
    next
      case False
      obtain kept' removed' where k: "zon_keep (''.'' @ name @ '' = .{'') None ls = (kept', removed')" by force
      with False None Cons.prems have "kept = line # kept'" "removed = removed'" by (auto simp: opens_entry_def)
      with Cons.IH [OF k] None False show ?thesis by auto
    qed
  next
    case (Some d)
    obtain opens closes where b: "braces_outside_strings line = (opens, closes)" by force
    define d' where "d' = (if d + int opens - int closes \<le> 0 then None else Some (d + int opens - int closes))"
    have k: "zon_keep (''.'' @ name @ '' = .{'') d' ls = (kept, removed)"
      using Cons.prems Some b by (simp add: d'_def Let_def)
    from Cons.IH [OF k] Some show ?thesis by auto
  qed
qed auto

section \<open>Manifests as zig writes them\<close>

record zon_entry =
  ze_name :: string
  ze_url :: string
  ze_hash :: string

definition quoted :: "string \<Rightarrow> string" where
  "quoted s = quote_char # s @ [quote_char]"

definition zon_entry_lines :: "zon_entry \<Rightarrow> string list" where
  "zon_entry_lines e =
     [replicate 8 (CHR '' '') @ ''.'' @ ze_name e @ '' = .{'',
      replicate 12 (CHR '' '') @ ''.url = '' @ quoted (ze_url e) @ '','',
      replicate 12 (CHR '' '') @ ''.hash = '' @ quoted (ze_hash e) @ '','',
      replicate 8 (CHR '' '') @ ''},'']"

definition zon_manifest :: "zon_entry list \<Rightarrow> string" where
  "zon_manifest es = unlines ([''.{'', ''    .dependencies = .{''] @ concat (map zon_entry_lines es) @ [''    },'', ''}''])"

definition string_char :: "char \<Rightarrow> bool" where
  "string_char c \<longleftrightarrow> 32 \<le> byte c \<and> byte c < 127 \<and> c \<noteq> quote_char \<and> c \<noteq> CHR 0x5C"

definition name_char :: "char \<Rightarrow> bool" where
  "name_char c \<longleftrightarrow> ascii_alpha c \<or> ascii_digit c \<or> c = CHR ''_''"

definition entry_wf :: "zon_entry \<Rightarrow> bool" where
  "entry_wf e \<longleftrightarrow> ze_name e \<noteq> [] \<and> list_all name_char (ze_name e)
     \<and> list_all string_char (ze_url e) \<and> list_all string_char (ze_hash e)"

definition listed_dep :: "zon_entry \<Rightarrow> dependency" where
  "listed_dep e = \<lparr>dep_name = ze_name e,
     dep_version = (case second (split_on (CHR ''-'') (ze_hash e)) of Some v \<Rightarrow> v | None \<Rightarrow> [])\<rparr>"

lemma plain_Cons [simp]: "plain (c # s) \<longleftrightarrow> byte c < 128 \<and> plain s"
  by (simp add: plain_def)

lemma plain_Nil [simp]: "plain []"
  by (simp add: plain_def)

lemma string_plain: "list_all string_char s \<Longrightarrow> plain s"
  by (induction s) (simp_all add: string_char_def)

lemma quote_byte [simp]: "byte quote_char = 34"
  by (simp add: quote_char_def byte_def)

lemma name_string_char:
  assumes "name_char c" shows "string_char c"
proof -
  have "byte c = 95 \<or> (65 \<le> byte c \<and> byte c \<le> 90) \<or> (97 \<le> byte c \<and> byte c \<le> 122) \<or> (48 \<le> byte c \<and> byte c \<le> 57)"
  proof (cases "c = CHR ''_''")
    case True
    then show ?thesis by (simp add: byte_def)
  next
    case False
    then show ?thesis
      using assms unfolding name_char_def ascii_alpha_def ascii_upper_def ascii_lower_def ascii_digit_def by blast
  qed
  then have b: "32 \<le> byte c" "byte c < 127" "byte c \<noteq> 34" "byte c \<noteq> 92" by auto
  have "byte (CHR 0x5C) = 92" by (simp add: byte_def)
  then show ?thesis using b quote_byte unfolding string_char_def by metis
qed

lemma name_string: "list_all name_char s \<Longrightarrow> list_all string_char s"
  using name_string_char by (auto simp: list_all_iff)

lemma entry_trims:
  assumes "entry_wf e"
  shows "trim (replicate 8 (CHR '' '') @ ''.'' @ ze_name e @ '' = .{'') = ''.'' @ ze_name e @ '' = .{''"
    and "trim (replicate 12 (CHR '' '') @ ''.url = '' @ quoted (ze_url e) @ '','') = ''.url = '' @ quoted (ze_url e) @ '',''"
    and "trim (replicate 12 (CHR '' '') @ ''.hash = '' @ quoted (ze_hash e) @ '','') = ''.hash = '' @ quoted (ze_hash e) @ '',''"
    and "trim (replicate 8 (CHR '' '') @ ''},'') = ''},''"
proof -
  have p: "plain (ze_name e)" "plain (ze_url e)" "plain (ze_hash e)"
    using assms by (auto simp: entry_wf_def string_plain name_string)
  show "trim (replicate 8 (CHR '' '') @ ''.'' @ ze_name e @ '' = .{'') = ''.'' @ ze_name e @ '' = .{''"
    by (rule trim_indented) (simp_all add: p byte_def ascii_ws_def)
  show "trim (replicate 12 (CHR '' '') @ ''.url = '' @ quoted (ze_url e) @ '','') = ''.url = '' @ quoted (ze_url e) @ '',''"
    by (rule trim_indented) (simp_all add: p quoted_def ascii_ws_def, simp_all add: byte_def quote_char_def)
  show "trim (replicate 12 (CHR '' '') @ ''.hash = '' @ quoted (ze_hash e) @ '','') = ''.hash = '' @ quoted (ze_hash e) @ '',''"
    by (rule trim_indented) (simp_all add: p quoted_def ascii_ws_def, simp_all add: byte_def quote_char_def)
  show "trim (replicate 8 (CHR '' '') @ ''},'') = ''},''"
    by (rule trim_indented) (simp_all add: byte_def ascii_ws_def)
qed

lemma braces_spaces: "braces_from False False (replicate n (CHR '' '') @ s) = braces_from False False s"
  by (induction n) (simp_all add: quote_char_def)

lemma braces_string:
  "list_all string_char s \<Longrightarrow> braces_from True False (s @ quote_char # t) = braces_from False False t"
  by (induction s) (auto simp: string_char_def quote_char_def)

lemma braces_lines:
  assumes "entry_wf e"
  shows "braces_outside_strings (replicate 12 (CHR '' '') @ ''.url = '' @ quoted (ze_url e) @ '','') = (0, 0)"
    and "braces_outside_strings (replicate 12 (CHR '' '') @ ''.hash = '' @ quoted (ze_hash e) @ '','') = (0, 0)"
    and "braces_outside_strings (replicate 8 (CHR '' '') @ ''},'') = (0, 1)"
proof -
  have w: "list_all string_char (ze_url e)" "list_all string_char (ze_hash e)" using assms by (auto simp: entry_wf_def)
  have q: "quote_char \<noteq> CHR ''.''" by (simp add: quote_char_def)
  show "braces_outside_strings (replicate 12 (CHR '' '') @ ''.url = '' @ quoted (ze_url e) @ '','') = (0, 0)"
    using braces_string [OF w(1), of "'',''"]
    by (simp add: braces_outside_strings_def braces_spaces quoted_def) (simp add: quote_char_def)
  show "braces_outside_strings (replicate 12 (CHR '' '') @ ''.hash = '' @ quoted (ze_hash e) @ '','') = (0, 0)"
    using braces_string [OF w(2), of "'',''"]
    by (simp add: braces_outside_strings_def braces_spaces quoted_def) (simp add: quote_char_def)
  show "braces_outside_strings (replicate 8 (CHR '' '') @ ''},'') = (0, 1)"
    by (simp add: braces_outside_strings_def braces_spaces) (simp add: quote_char_def)
qed

lemma not_name_space: "\<not> name_char (CHR '' '')"
  by (simp add: name_char_def ascii_alpha_def ascii_upper_def ascii_lower_def ascii_digit_def byte_def)

lemma takeWhile_name: "list_all name_char u \<Longrightarrow> takeWhile name_char (u @ CHR '' '' # v) = u"
  by (induction u) (simp_all add: not_name_space)

lemma name_prefix:
  assumes "list_all name_char a" "list_all name_char b"
  shows "starts_with (''.'' @ a @ '' = '' @ t) (''.'' @ b @ '' = .{'') \<longleftrightarrow> a = b \<and> starts_with t ''.{''"
proof
  assume "starts_with (''.'' @ a @ '' = '' @ t) (''.'' @ b @ '' = .{'')"
  then obtain u where u: "a @ '' = '' @ t = b @ '' = .{'' @ u" by (auto simp: starts_with_prefix)
  then have "takeWhile name_char (a @ '' = '' @ t) = takeWhile name_char (b @ '' = .{'' @ u)" by simp
  then have "a = b" using assms takeWhile_name [of a "''= '' @ t"] takeWhile_name [of b "''= .{'' @ u"] by simp
  with u show "a = b \<and> starts_with t ''.{''" by (auto simp: starts_with_prefix)
next
  assume "a = b \<and> starts_with t ''.{''"
  then show "starts_with (''.'' @ a @ '' = '' @ t) (''.'' @ b @ '' = .{'')" by (auto simp: starts_with_prefix)
qed

lemma name_literals: "list_all name_char ''url''" "list_all name_char ''hash''"
  by (simp_all add: name_char_def ascii_alpha_def ascii_upper_def ascii_lower_def byte_def)

lemma field_no_entry:
  assumes "list_all name_char n"
  shows "\<not> starts_with (''.url = '' @ quoted s @ t) (''.'' @ n @ '' = .{'')"
    and "\<not> starts_with (''.hash = '' @ quoted s @ t) (''.'' @ n @ '' = .{'')"
    and "\<not> starts_with ''},'' (''.'' @ n @ '' = .{'')"
proof -
  have q: "\<not> starts_with (quoted s @ t) ''.{''" by (simp add: starts_with_def quoted_def quote_char_def)
  show "\<not> starts_with (''.url = '' @ quoted s @ t) (''.'' @ n @ '' = .{'')"
    using name_prefix [OF name_literals(1) assms, of "quoted s @ t"] q by simp
  show "\<not> starts_with (''.hash = '' @ quoted s @ t) (''.'' @ n @ '' = .{'')"
    using name_prefix [OF name_literals(2) assms, of "quoted s @ t"] q by simp
  show "\<not> starts_with ''},'' (''.'' @ n @ '' = .{'')" by (simp add: starts_with_def)
qed

lemma zon_keep_entry:
  assumes "entry_wf e" "list_all name_char n"
  shows "zon_keep (''.'' @ n @ '' = .{'') None (zon_entry_lines e @ rest) =
     (case zon_keep (''.'' @ n @ '' = .{'') None rest of (kept, removed) \<Rightarrow>
        if ze_name e = n then (kept, True) else (zon_entry_lines e @ kept, removed))"
proof -
  obtain l1 l2 l3 l4 where l: "zon_entry_lines e = [l1, l2, l3, l4]"
    and t: "trim l1 = ''.'' @ ze_name e @ '' = '' @ ''.{''" "trim l2 = ''.url = '' @ quoted (ze_url e) @ '',''"
      "trim l3 = ''.hash = '' @ quoted (ze_hash e) @ '',''" "trim l4 = ''},''"
    and b: "braces_outside_strings l2 = (0, 0)" "braces_outside_strings l3 = (0, 0)"
      "braces_outside_strings l4 = (0, 1)"
    using entry_trims [OF assms(1)] braces_lines [OF assms(1)] unfolding zon_entry_lines_def by force
  have open1: "starts_with (trim l1) (''.'' @ n @ '' = .{'') \<longleftrightarrow> ze_name e = n"
    using name_prefix [of "ze_name e" n "''.{''"] assms unfolding t entry_wf_def by (simp add: starts_with_def)
  have closed: "\<not> starts_with (trim l2) (''.'' @ n @ '' = .{'')" "\<not> starts_with (trim l3) (''.'' @ n @ '' = .{'')"
     "\<not> starts_with (trim l4) (''.'' @ n @ '' = .{'')"
    using field_no_entry [OF assms(2)] unfolding t by simp_all
  show ?thesis
    unfolding l using open1 closed b
    by (cases "ze_name e = n") (auto simp: Let_def split: prod.splits)
qed

lemma zon_keep_manifest:
  assumes "list_all entry_wf es" "list_all name_char n"
  shows "zon_keep (''.'' @ n @ '' = .{'') None (concat (map zon_entry_lines es) @ [''    },'', ''}'']) =
     (concat (map zon_entry_lines (filter (\<lambda>e. ze_name e \<noteq> n) es)) @ [''    },'', ''}''], n \<in> ze_name ` set es)"
  using assms(1)
proof (induction es)
  case Nil
  have "trim ''    },'' = ''},''" using trim_indented [of "''},''" 4] by (simp add: ascii_ws_def byte_def numeral_eq_Suc)
  moreover have "trim ''}'' = ''}''" using trim_indented [of "''}''" 0] by (simp add: ascii_ws_def byte_def)
  ultimately show ?case by (simp add: starts_with_def)
next
  case (Cons e es)
  then show ?case using zon_keep_entry [of e n] assms(2) by auto
qed

lemma split_on_append: "x \<notin> set a \<Longrightarrow> split_on x (a @ x # b) = a # split_on x b"
  by (induction a) (auto split: list.splits)

lemma split_on_none: "x \<notin> set a \<Longrightarrow> split_on x a = [a]"
  by (induction a) auto

lemma name_no: "list_all name_char a \<Longrightarrow> \<not> name_char x \<Longrightarrow> x \<notin> set a"
  by (auto simp: list_all_iff)

lemma zon_opens_entry:
  assumes "entry_wf e"
  shows "zon_opens (''.'' @ ze_name e @ '' = .{'') = Some (ze_name e)"
proof -
  have n: "list_all name_char (ze_name e)" "ze_name e \<noteq> []" using assms by (auto simp: entry_wf_def)
  have "\<not> name_char (CHR ''='')"
    by (simp add: name_char_def ascii_alpha_def ascii_upper_def ascii_lower_def ascii_digit_def byte_def)
  then have "CHR ''='' \<notin> set (ze_name e @ '' '')" using name_no [OF n(1)] by simp
  then have "hd (split_on (CHR ''='') (ze_name e @ '' = .{'')) = ze_name e @ '' ''"
    using split_on_append [of "CHR ''=''" "ze_name e @ '' ''" "'' .{''"] by simp
  moreover have "trim (ze_name e @ '' '') = ze_name e"
  proof -
    have nws: "\<not> ascii_ws c" if "c \<in> set (ze_name e)" for c
    proof -
      have "name_char c" using n(1) that by (simp add: list_all_iff)
      then have "byte c \<ge> 48" using name_string_char [of c]
        by (auto simp: name_char_def ascii_alpha_def ascii_upper_def ascii_lower_def ascii_digit_def) (simp add: byte_def)
      then show ?thesis by (simp add: ascii_ws_def)
    qed
    have pl: "plain (ze_name e @ '' '')" using string_plain [OF name_string [OF n(1)]] by (simp add: byte_def)
    have "dropWhile ascii_ws (ze_name e @ '' '') = ze_name e @ '' ''"
      using n(2) nws by (cases "ze_name e") auto
    moreover have "dropWhile ascii_ws (rev (ze_name e)) = rev (ze_name e)"
      using n(2) nws by (simp add: dropWhile_eq_self_iff hd_rev)
    moreover have "ascii_ws (CHR '' '')" by (simp add: ascii_ws_def byte_def)
    ultimately show ?thesis by (simp add: trim_plain [OF pl])
  qed
  ultimately show ?thesis using n(2)
    by (simp add: zon_opens_def strip_prefix_def starts_with_def Let_def ends_with_def)
qed

lemma zon_hash_lines:
  assumes "entry_wf e"
  shows "zon_hash (''.url = '' @ quoted (ze_url e) @ '','') = None"
    and "zon_hash (''.hash = '' @ quoted (ze_hash e) @ '','') = Some (ze_hash e)"
proof -
  have "quote_char \<notin> set (ze_hash e)" using assms by (auto simp: entry_wf_def list_all_iff string_char_def)
  moreover have "quote_char \<notin> set '' = ''" by (simp add: quote_char_def)
  ultimately have "split_on quote_char ('' = '' @ quoted (ze_hash e) @ '','') = ['' = '', ze_hash e, '','']"
    using split_on_append [of quote_char "'' = ''"] split_on_append [of quote_char "ze_hash e" "'',''"]
    by (simp add: quoted_def) (simp add: quote_char_def)
  then show "zon_hash (''.hash = '' @ quoted (ze_hash e) @ '','') = Some (ze_hash e)"
    by (simp add: zon_hash_def strip_prefix_def starts_with_def)
  show "zon_hash (''.url = '' @ quoted (ze_url e) @ '','') = None"
    by (simp add: zon_hash_def strip_prefix_def starts_with_def)
qed

lemma set_version_last:
  "n \<notin> dep_name ` set ds \<Longrightarrow> set_version n v (ds @ [\<lparr>dep_name = n, dep_version = w\<rparr>]) = ds @ [\<lparr>dep_name = n, dep_version = v\<rparr>]"
  by (induction ds) auto

lemma zon_lines_entry:
  assumes "entry_wf e" "ze_name e \<notin> dep_name ` set found"
  shows "zon_lines None found (zon_entry_lines e @ rest) = zon_lines None (found @ [listed_dep e]) rest"
proof -
  obtain l1 l2 l3 l4 where l: "zon_entry_lines e = [l1, l2, l3, l4]"
    and t: "trim l1 = ''.'' @ ze_name e @ '' = .{''" "trim l2 = ''.url = '' @ quoted (ze_url e) @ '',''"
      "trim l3 = ''.hash = '' @ quoted (ze_hash e) @ '',''" "trim l4 = ''},''"
    using entry_trims [OF assms(1)] unfolding zon_entry_lines_def by force
  have o1: "zon_opens (trim l1) = Some (ze_name e)" using zon_opens_entry [OF assms(1)] unfolding t .
  have h: "zon_hash (trim l2) = None" "zon_hash (trim l3) = Some (ze_hash e)"
    using zon_hash_lines [OF assms(1)] unfolding t by simp_all
  have b: "\<not> starts_with (trim l2) ''}''" "\<not> starts_with (trim l3) ''}''" "starts_with (trim l4) ''}''"
    unfolding t by (simp_all add: starts_with_def)
  show ?thesis
    unfolding l using o1 h b set_version_last [OF assms(2)] by (simp add: Let_def listed_dep_def)
qed

lemma zon_lines_manifest:
  assumes "list_all entry_wf es" "distinct (map ze_name es)" "ze_name ` set es \<inter> dep_name ` set found = {}"
  shows "zon_lines None found (concat (map zon_entry_lines es) @ [''    },'', ''}'']) = found @ map listed_dep es"
  using assms
proof (induction es arbitrary: found)
  case Nil
  have "trim ''    },'' = ''},''" using trim_indented [of "''},''" 4] by (simp add: ascii_ws_def byte_def numeral_eq_Suc)
  moreover have "zon_opens ''},'' = None" by (simp add: zon_opens_def strip_prefix_def starts_with_def)
  ultimately show ?case by (simp add: starts_with_def)
next
  case (Cons e es)
  have "dep_name (listed_dep e) = ze_name e" by (simp add: listed_dep_def)
  then show ?case
    using Cons.prems zon_lines_entry [of e found] Cons.IH [of "found @ [listed_dep e]"] by auto
qed

section \<open>From lines to text\<close>

lemma split_on_unlines:
  "list_all (\<lambda>l. lf \<notin> set l) ls \<Longrightarrow> split_on lf (unlines ls) = ls @ [[]]"
proof (induction ls)
  case (Cons l ls)
  then show ?case using split_on_append [of lf l "unlines ls"] by (simp add: unlines_def)
qed (simp add: unlines_def)

definition clean_line :: "string \<Rightarrow> bool" where
  "clean_line l \<longleftrightarrow> lf \<notin> set l \<and> (l \<noteq> [] \<longrightarrow> last l \<noteq> CHR 0x0D)"

lemma str_lines_unlines: "list_all clean_line ls \<Longrightarrow> str_lines (unlines ls) = ls"
proof -
  assume c: "list_all clean_line ls"
  then have "list_all (\<lambda>l. lf \<notin> set l) ls" by (auto simp: list_all_iff clean_line_def)
  then have "str_lines (unlines ls) = map strip_cr ls" by (simp add: str_lines_def split_on_unlines)
  also have "\<dots> = ls" using c by (induction ls) (auto simp: clean_line_def strip_cr_def)
  finally show ?thesis .
qed

lemma string_no_lf: "list_all string_char s \<Longrightarrow> lf \<notin> set s"
proof
  assume "list_all string_char s" "lf \<in> set s"
  then have "string_char lf" by (auto simp: list_all_iff)
  then show False by (simp add: string_char_def lf_def byte_def)
qed

lemma clean_entry: "entry_wf e \<Longrightarrow> list_all clean_line (zon_entry_lines e)"
proof -
  assume "entry_wf e"
  then have "lf \<notin> set (ze_name e)" "lf \<notin> set (ze_url e)" "lf \<notin> set (ze_hash e)"
    by (auto simp: entry_wf_def string_no_lf name_string)
  then show ?thesis
    by (auto simp: zon_entry_lines_def clean_line_def quoted_def) (auto simp: lf_def quote_char_def)
qed

lemma clean_entries: "list_all entry_wf es \<Longrightarrow> list_all clean_line (concat (map zon_entry_lines es) @ [''    },'', ''}''])"
proof (induction es)
  case Nil
  show ?case by (simp add: clean_line_def lf_def)
qed (use clean_entry in auto)

lemma clean_manifest:
  "list_all entry_wf es \<Longrightarrow>
   list_all clean_line ([''.{'', ''    .dependencies = .{''] @ concat (map zon_entry_lines es) @ [''    },'', ''}''])"
  using clean_entries by (simp add: clean_line_def lf_def)

lemma dependencies_block:
  "find_sub (zon_manifest es) ''.dependencies'' = Some 7"
  "drop 7 (zon_manifest es) = unlines (''.dependencies = .{'' # concat (map zon_entry_lines es) @ [''    },'', ''}''])"
  by (simp_all add: zon_manifest_def unlines_def starts_with_def lf_def)

section \<open>The properties\<close>

text \<open>Removing a dependency from any build.zig.zon: nothing is reported removed unless a
  line opens that entry; the lines kept are lines of the manifest in their order, and none of
  them opens the entry any more.\<close>

theorem zon_removal_only_removes:
  "case zon_without content name of
     None \<Rightarrow> \<not> list_ex (opens_entry name) (str_lines content)
   | Some out \<Rightarrow> list_ex (opens_entry name) (str_lines content)
       \<and> (\<exists>kept. out = concat (map (\<lambda>line. line @ [lf]) kept) \<and> subseq kept (str_lines content)
            \<and> list_all (\<lambda>l. \<not> opens_entry name l) kept)"
proof -
  obtain kept removed where k: "zon_keep (''.'' @ name @ '' = .{'') None (str_lines content) = (kept, removed)" by force
  have "zon_without content name = (if removed then Some (concat (map (\<lambda>line. line @ [lf]) kept)) else None)"
    unfolding zon_without_def k by simp
  with zon_keep_lines [OF k] show ?thesis by (cases removed) auto
qed


definition demo_zon :: "zon_entry list" where
  "demo_zon = [\<lparr>ze_name = ''clap'', ze_url = ''git+https://c'', ze_hash = ''clap-0.12.0-oBaj''\<rparr>,
               \<lparr>ze_name = ''zap'', ze_url = ''git+https://z'', ze_hash = ''zap-2.1-kk''\<rparr>]"


lemma retain_first_props:
  "distinct (map dep_name (retain_first seen ds)) \<and> subseq (retain_first seen ds) ds
   \<and> dep_name ` set (retain_first seen ds) = dep_name ` set ds - seen"
  by (induction ds arbitrary: seen) auto

text \<open>The Cargo list names each dependency once, keeps the order of the manifest, and misses
  none of the declarations it read.\<close>

theorem cargo_names_are_distinct:
  "distinct (map dep_name (parse_cargo_toml content))
   \<and> subseq (parse_cargo_toml content) (cargo_lines False (str_lines content))
   \<and> dep_name ` set (parse_cargo_toml content) = dep_name ` set (cargo_lines False (str_lines content))"
  using retain_first_props [of "{}" "cargo_lines False (str_lines content)"] by (simp add: parse_cargo_toml_def)

end
