(* ===== verification/RuntimeWs.thy ===== *)
theory RuntimeWs
  imports Scheduler Sessions Collab Deps
begin

text \<open>
  src/apps/server-rs/src/ws/runtime.rs: one socket of a session.  A connection's state is the
  scheduler's (which holds the session and the outbox), the hub all connections share, the
  manifest of the workspace's package manager and the dependency gate.  A message is handled
  as a whole; what other connections do to the hub while this one holds the edit lock is an
  argument (\<open>others\<close>).  Handing a run to the scheduler is its request: the scheduler's own
  steps take it from there.
\<close>

section \<open>Messages\<close>

definition run_disabled_message :: "language \<Rightarrow> string" where
  "run_disabled_message l =
     (if l = Rust then ''Run is disabled: Rust 1.75+ is required. Run pnpm run doctor.''
      else ''Run is disabled: Zig 0.16.x is required. Run pnpm run doctor.'')"

definition RECONNECT_GRACE_MS :: nat where "RECONNECT_GRACE_MS = 120 * 1000"

text \<open>The detached task that holds the dependency gate: one command, or the names a new
  session still has to install before its first run.\<close>

datatype deps_task = OneDependency string bool | FirstInstalls "string list"

record conn =
  cn_sched :: sched
  cn_hub :: collab
  cn_manifest :: "string option"
  cn_gate :: bool
  cn_deps_cancelled :: bool
  cn_task :: "deps_task option"

text \<open>What one message meets outside: the clock, the disk, the tree under src/, whether
  \<open>remove_file\<close> worked, the kernel's sandbox, whether the program still reads typed input.\<close>

record msg_env =
  me_now :: nat
  me_disk :: disk_faults
  me_input :: input_faults
  me_tree :: node
  me_removed :: bool
  me_support :: sandbox_support
  me_reading :: bool

definition cn_session :: "conn \<Rightarrow> session" where
  "cn_session c = sd_session (cn_sched c)"

definition put_session :: "session \<Rightarrow> conn \<Rightarrow> conn" where
  "put_session s c = c\<lparr>cn_sched := (cn_sched c)\<lparr>sd_session := s\<rparr>\<rparr>"

definition on_sched :: "(sched \<Rightarrow> sched) \<Rightarrow> conn \<Rightarrow> conn" where
  "on_sched f c = c\<lparr>cn_sched := f (cn_sched c)\<rparr>"

definition out :: "server_event \<Rightarrow> conn \<Rightarrow> conn" where
  "out e c = on_sched (send e) c"

definition request_run :: "nat \<Rightarrow> language \<Rightarrow> bool \<Rightarrow> conn \<Rightarrow> conn" where
  "request_run version target interactive =
     on_sched (\<lambda>s. s\<lparr>sd_waiting := sd_waiting s @
        [\<lparr>rq_version = version, rq_target = Some target, rq_interactive = interactive\<rparr>]\<rparr>)"

definition can_run :: "session \<Rightarrow> language \<Rightarrow> bool" where
  "can_run s l = (case ss_support s l of None \<Rightarrow> False | Some here \<Rightarrow> ls_run here)"

definition server_error :: "string \<Rightarrow> string option \<Rightarrow> server_event" where
  "server_error message details = ServerError True message details"

section \<open>The Dependencies view\<close>

definition deps_catalog :: "(string \<Rightarrow> json option) \<Rightarrow> language \<Rightarrow> string option \<Rightarrow> server_event" where
  "deps_catalog parse l manifest =
     (case deps_support_of l of
        None \<Rightarrow> DepsCatalog l False None None False []
      | Some support \<Rightarrow>
          DepsCatalog l True (Some (ds_manifest support)) (Some (ds_input_hint support))
            (ds_runs_untrusted_code support)
            (parse_manifest parse l (case manifest of None \<Rightarrow> [] | Some t \<Rightarrow> t)))"

text \<open>What a dependency command meets: the two processes' results and output, the manifest
  afterwards, and the error of writing it.\<close>

record deps_io =
  di_result :: process_result
  di_output :: "(stream \<times> string) list"
  di_fetch_result :: process_result
  di_fetch_errors :: "string list"
  di_manifest :: "string option"
  di_write :: "string option"

record deps_process =
  dp_command :: "string list"
  dp_env :: "(string \<times> string) list"
  dp_sandbox :: "sandbox_policy option"

definition deps_sandbox :: "session \<Rightarrow> bool \<Rightarrow> sandbox_policy option" where
  "deps_sandbox s installing =
     (case session_sandbox s (ss_settings s) of
        Some policy \<Rightarrow> if installing then Some (with_fetch_network policy) else Some policy
      | None \<Rightarrow> None)"

definition deps_command :: "deps_support \<Rightarrow> language \<Rightarrow> string \<Rightarrow> bool \<Rightarrow> string list" where
  "deps_command support l name installing =
     (if installing then ds_add support @ add_arguments l name
      else (case ds_remove support of Some r \<Rightarrow> r | None \<Rightarrow> ds_add support) @ [remove_argument l name])"

definition deps_env :: "deps_support \<Rightarrow> bool \<Rightarrow> (string \<times> string) list" where
  "deps_env support installing =
     (if installing then ds_fetch_env support
      else filter (\<lambda>(key, _). key \<noteq> ''CARGO_NET_OFFLINE'' \<and> key \<noteq> ''GOPROXY'') (ds_fetch_env support))"

definition failure_reason :: "(process_result \<Rightarrow> string) \<Rightarrow> string \<Rightarrow> process_result \<Rightarrow> string" where
  "failure_reason show_code command r =
     (if pr_timed_out r then ''timed out''
      else if pr_stderr r = [] then command @ '' exited with '' @ show_code r
      else pr_stderr r)"

text \<open>\<open>run_deps_command\<close>: its result, the events it sends, the processes it starts and the
  manifest it leaves; \<open>show_code\<close> prints an exit code for debugging.\<close>

definition run_deps_command ::
  "(string \<Rightarrow> json option) \<Rightarrow> (process_result \<Rightarrow> string) \<Rightarrow> deps_io \<Rightarrow> session \<Rightarrow> string option \<Rightarrow> string \<Rightarrow> bool
   \<Rightarrow> unit res \<times> server_event list \<times> deps_process list \<times> string option" where
  "run_deps_command parse show_code io s manifest name installing =
     (let l = ss_language s in
      case deps_support_of l of
        None \<Rightarrow> (Inl ''This language has no package manager'', [], [], manifest)
      | Some support \<Rightarrow>
          let sandbox = deps_sandbox s installing in
          if \<not> installing \<and> ds_remove support = None then
            (case manifest of
               None \<Rightarrow> (Inl ''No such file or directory (os error 2)'', [], [], manifest)
             | Some content \<Rightarrow>
                 (case manifest_without l content name of
                    Some updated \<Rightarrow>
                      (case di_write io of
                         Some e \<Rightarrow> (Inl e, [], [], manifest)
                       | None \<Rightarrow> (Inr (), [deps_catalog parse l (Some updated), DepsState DepsIdle (Some name) None],
                                  [], Some updated))
                  | None \<Rightarrow> (Inr (), [deps_catalog parse l manifest,
                        DepsState DepsFailed (Some name) (Some ''not found in the manifest'')], [], manifest)))
          else
            let first = deps_command support l name installing;
                p1 = \<lparr>dp_command = first, dp_env = deps_env support installing, dp_sandbox = sandbox\<rparr>;
                fetches = (if installing \<and> pr_exit_code (di_result io) = Some 0 then ds_fetch_after_add support else None);
                procs = p1 # (case fetches of None \<Rightarrow> []
                    | Some fetch \<Rightarrow> [\<lparr>dp_command = fetch, dp_env = ds_fetch_env support, dp_sandbox = sandbox\<rparr>]);
                result = (case fetches of None \<Rightarrow> di_result io | Some _ \<Rightarrow> di_fetch_result io);
                chatter = map (\<lambda>(st, chunk). DepsOutput st chunk) (di_output io)
                  @ (case fetches of None \<Rightarrow> [] | Some _ \<Rightarrow> map (DepsOutput Stderr) (di_fetch_errors io));
                ending = (if pr_exit_code result = Some 0 then DepsState DepsIdle (Some name) None
                  else DepsState DepsFailed (Some name) (Some (failure_reason show_code (hd first) result)))
            in (Inr (),
                [DepsState (if installing then Installing else Removing) (Some name) None]
                  @ chatter @ [deps_catalog parse l (di_manifest io), ending],
                procs, di_manifest io))"

text \<open>The gate: a second command is refused while one runs.\<close>

definition spawn_deps_command :: "string \<Rightarrow> bool \<Rightarrow> conn \<Rightarrow> unit res \<times> conn" where
  "spawn_deps_command name installing c =
     (if cn_gate c then (Inl ''A dependency operation is already running'', c)
      else (Inr (), c\<lparr>cn_gate := True, cn_task := Some (OneDependency name installing)\<rparr>))"

definition install_then_run :: "string list \<Rightarrow> conn \<Rightarrow> conn" where
  "install_then_run names c =
     (if cn_gate c then c else c\<lparr>cn_gate := True, cn_task := Some (FirstInstalls names)\<rparr>)"

definition run_in_conn ::
  "(string \<Rightarrow> json option) \<Rightarrow> (process_result \<Rightarrow> string) \<Rightarrow> deps_io \<Rightarrow> string \<Rightarrow> bool \<Rightarrow> conn \<Rightarrow> conn" where
  "run_in_conn parse show_code io name installing c =
     (case run_deps_command parse show_code io (cn_session c) (cn_manifest c) name installing of
        (result, events, procs, manifest) \<Rightarrow>
          let c1 = fold out events (c\<lparr>cn_manifest := manifest\<rparr>)
          in (case result of Inl e \<Rightarrow> out (server_error e None) c1 | Inr _ \<Rightarrow> c1))"

text \<open>One step of the detached task; the gate is released when it returns.\<close>

definition deps_step ::
  "(string \<Rightarrow> json option) \<Rightarrow> (process_result \<Rightarrow> string) \<Rightarrow> deps_io \<Rightarrow> conn \<Rightarrow> conn option" where
  "deps_step parse show_code io c =
     (case cn_task c of
        None \<Rightarrow> None
      | Some (OneDependency name installing) \<Rightarrow>
          Some ((run_in_conn parse show_code io name installing c)\<lparr>cn_gate := False, cn_task := None\<rparr>)
      | Some (FirstInstalls []) \<Rightarrow>
          let s = cn_session c; c1 = c\<lparr>cn_gate := False, cn_task := None\<rparr>
          in Some (if can_run s (ss_language s)
                   then request_run (sn_version (ss_snapshot s)) (ss_language s) False c1 else c1)
      | Some (FirstInstalls (name # names)) \<Rightarrow>
          if cn_deps_cancelled c then Some (c\<lparr>cn_gate := False, cn_task := None\<rparr>)
          else Some ((run_in_conn parse show_code io name True c)\<lparr>cn_task := Some (FirstInstalls names)\<rparr>))"

section \<open>Handling one message\<close>

definition after_store_change :: "snapshot \<Rightarrow> string \<Rightarrow> bool \<Rightarrow> conn \<Rightarrow> conn" where
  "after_store_change snap p catalog_changed c =
     (let c1 = (if catalog_changed then out (ProjectFiles (sn_version snap) (sn_files snap)) c else c);
          s = cn_session c;
          l = (case pack_for_path p of Some pk \<Rightarrow> lp_id pk | None \<Rightarrow> ss_language s)
      in if can_run s l then on_sched (document_updated (Some l)) c1
         else out (RunStateEvent (sn_version snap) None Idle) c1)"

text \<open>A store operation and what follows when it succeeded.\<close>

definition store_then :: "snapshot res \<times> session \<Rightarrow> string \<Rightarrow> bool \<Rightarrow> conn \<Rightarrow> unit res \<times> conn" where
  "store_then result p catalog_changed c =
     (case result of
        (Inl e, s) \<Rightarrow> (Inl e, put_session s c)
      | (Inr snap, s) \<Rightarrow> (Inr (), after_store_change snap p catalog_changed (put_session s c)))"

definition type_input :: "bool \<Rightarrow> live_input \<Rightarrow> conn \<Rightarrow> unit res \<times> conn" where
  "type_input reading input c =
     (case write_stdin reading input (cn_sched c) of (r, sc) \<Rightarrow> (r, c\<lparr>cn_sched := sc\<rparr>))"

definition new_settings :: "sandbox_support \<Rightarrow> settings_update \<Rightarrow> session_settings" where
  "new_settings support u =
     \<lparr>se_auto_run = su_auto_run u, se_auto_inspect = su_auto_inspect u, se_debounce_ms = su_debounce_ms u,
      se_timeout_ms = su_timeout_ms u, se_manual_probe_ids = su_manual_probe_ids u,
      se_sandbox = (case su_sandbox u of Some b \<Rightarrow> b | None \<Rightarrow> available support),
      se_network = (su_network u = Some True), se_interactive = False, se_serve = (su_serve u = Some True)\<rparr>"

fun handle_message_inner ::
  "(string \<Rightarrow> json option) \<Rightarrow> msg_env \<Rightarrow> runtime_client_message \<Rightarrow> conn \<Rightarrow> unit res \<times> conn" where
  "handle_message_inner parse env (DepsList _) c =
     (Inr (), out (deps_catalog parse (ss_language (cn_session c)) (cn_manifest c)) c)"
| "handle_message_inner parse env (DepsAdd _ name) c = spawn_deps_command name True c"
| "handle_message_inner parse env (DepsRemove _ name) c = spawn_deps_command name False c"
| "handle_message_inner parse env (DocumentUpdate _ version p source _) c =
     store_then (update (me_disk env) (me_now env) version p source (cn_session c)) p False c"
| "handle_message_inner parse env (FileCreate _ version p source _) c =
     store_then (create_file (me_disk env) (me_now env) version p source (cn_session c)) p True c"
| "handle_message_inner parse env (FileRename _ version p new_path _) c =
     store_then (rename_file (me_disk env) (me_now env) version p new_path (cn_session c)) p True c"
| "handle_message_inner parse env (FileDelete _ version p _) c =
     store_then (delete_file (me_removed env) (me_now env) version p (cn_session c)) p True c"
| "handle_message_inner parse env (WorkspaceReset _ version kind _) c =
     (let c1 = on_sched cancel_internal c
      in store_then (reset_files (me_disk env) (me_now env) version kind (cn_session c1))
           (entry_file (ss_language (cn_session c1))) True c1)"
| "handle_message_inner parse env (RunRequest _ version _ target0 interactive) c =
     (let s = cn_session c; target = (case target0 of Some l \<Rightarrow> l | None \<Rightarrow> ss_language s)
      in if \<not> can_run s target then (Inl (run_disabled_message target), c)
         else if version \<noteq> sn_version (ss_snapshot s) then (Inl ''Run version is not current'', c)
         else (Inr (), request_run version target (interactive = Some True) c))"
| "handle_message_inner parse env (StdinWrite _ data eof) c =
     (case (if data \<noteq> [] then type_input (me_reading env) (LiveData data) c else (Inr (), c)) of
        (Inl e, c1) \<Rightarrow> (Inl e, c1)
      | (Inr _, c1) \<Rightarrow> if eof = Some True then type_input (me_reading env) LiveEof c1 else (Inr (), c1))"
| "handle_message_inner parse env (InputUpdate _ content) c =
     (case set_input (me_input env) content (cn_session c) of
        (Inl e, s) \<Rightarrow> (Inl e, put_session s c)
      | (Inr changed, s) \<Rightarrow>
          (Inr (), if changed then on_sched (document_updated None) (put_session s c) else put_session s c))"
| "handle_message_inner parse env (RunCancel _) c =
     (Inr (), out (RunStateEvent (sn_version (ss_snapshot (cn_session c))) None Cancelled) (on_sched cancel_internal c))"
| "handle_message_inner parse env (SettingsUpdate _ u) c =
     (let s = cn_session c; new = new_settings (me_support env) u;
          switched = (se_serve (ss_settings s) \<noteq> se_serve new);
          c1 = put_session (s\<lparr>ss_settings := new\<rparr>) c
      in (Inr (), if switched then on_sched (document_updated None) c1 else c1))"

text \<open>What of a message is a write to the project: version, path, the source of an update,
  base revision.\<close>

fun mutation :: "runtime_client_message \<Rightarrow> (nat \<times> string \<times> string option \<times> nat option) option" where
  "mutation (DocumentUpdate _ version p source base) = Some (version, p, Some source, base)"
| "mutation (FileCreate _ version p _ base) = Some (version, p, None, base)"
| "mutation (FileRename _ version p _ base) = Some (version, p, None, base)"
| "mutation (FileDelete _ version p base) = Some (version, p, None, base)"
| "mutation (WorkspaceReset _ version _ base) = Some (version, [], None, base)"
| "mutation _ = None"

fun is_run_request :: "runtime_client_message \<Rightarrow> bool" where
  "is_run_request (RunRequest _ _ _ _ _) = True"
| "is_run_request _ = False"

text \<open>After the message: the write is recorded in the hub and acknowledged.\<close>

definition record_mutation :: "nat \<times> string \<times> string option \<times> nat option \<Rightarrow> conn \<Rightarrow> unit res \<times> conn" where
  "record_mutation m c =
     (case m of (version, p, source, base) \<Rightarrow>
        case ss_workspace_id (cn_session c) of
          None \<Rightarrow> (Inr (), out (DocumentSaved version) c)
        | Some w \<Rightarrow>
            (case (case source of
                     Some t \<Rightarrow> record_edit w (ss_id (cn_session c)) p t base (cn_hub c)
                   | None \<Rightarrow> record_files w (ss_id (cn_session c)) base (cn_hub c)) of
               (Inl _, hub) \<Rightarrow> (Inl ''Workspace revision changed while locked'', c\<lparr>cn_hub := hub\<rparr>)
             | (Inr revision, hub) \<Rightarrow>
                 (Inr (), out (DocumentSaved version)
                    (out (DocumentChanged [] [] revision) (c\<lparr>cn_hub := hub\<rparr>)))))"

definition finish_message ::
  "(string \<Rightarrow> json option) \<Rightarrow> msg_env \<Rightarrow> runtime_client_message \<Rightarrow> conn \<Rightarrow> unit res \<times> conn" where
  "finish_message parse env m c =
     (case handle_message_inner parse env m c of
        (Inl e, c1) \<Rightarrow> (Inl e, c1)
      | (Inr _, c1) \<Rightarrow> (case mutation m of None \<Rightarrow> (Inr (), c1) | Some w \<Rightarrow> record_mutation w c1))"

text \<open>The conflict of a write to a shared workspace whose base is stale.\<close>

definition stale_write :: "collab \<Rightarrow> session \<Rightarrow> runtime_client_message \<Rightarrow> (string \<times> nat) option" where
  "stale_write hub s m =
     (case (ss_workspace_id s, mutation m) of
        (Some w, Some (_, p, _, base)) \<Rightarrow>
          (case check_writer_base hub w (ss_id s) base of
             Inl (Conflict current) \<Rightarrow> Some (p, current) | Inr _ \<Rightarrow> None)
      | _ \<Rightarrow> None)"

text \<open>\<open>others\<close> are the hub operations of other connections between this one's check of the
  base revision and its record of the write, all while it holds the edit lock.\<close>

definition handle_message ::
  "(string \<Rightarrow> json option) \<Rightarrow> msg_env \<Rightarrow> collab_op list \<Rightarrow> runtime_client_message \<Rightarrow> conn \<Rightarrow> unit res \<times> conn" where
  "handle_message parse env others m c =
     (let s = cn_session c; needs_lock = (mutation m \<noteq> None \<or> is_run_request m);
          c1 = (case ss_workspace_id s of
                  Some w \<Rightarrow> if needs_lock then c\<lparr>cn_hub := snd (edit_lock w (cn_hub c))\<rparr> else c
                | None \<Rightarrow> c)
      in case stale_write (cn_hub c1) s m of
           Some (p, current) \<Rightarrow> (Inr (), out (DocumentConflict p current) c1)
         | None \<Rightarrow>
             let c2 = c1\<lparr>cn_hub := fold collab_step others (cn_hub c1)\<rparr>
             in (case (if ss_workspace_id s \<noteq> None \<and> needs_lock
                       then refresh_files (me_now env) (me_tree env) s else (Inr (ss_snapshot s), s)) of
                   (Inl e, s1) \<Rightarrow> (Inl e, put_session s1 c2)
                 | (Inr _, s1) \<Rightarrow> finish_message parse env m (put_session s1 c2)))"

section \<open>The message loop\<close>

text \<open>A frame: text with what serde makes of it, or a frame that ends the loop or is passed
  over.\<close>

datatype parsed = NotJson string | NotAMessage string | Message runtime_client_message

datatype frame = TextFrame string parsed | BinaryFrame | CloseFrame | OtherFrame | BrokenFrame

text \<open>\<open>None\<close> ends the loop.\<close>

definition serve_text ::
  "(string \<Rightarrow> json option) \<Rightarrow> msg_env \<Rightarrow> collab_op list \<Rightarrow> string \<Rightarrow> parsed \<Rightarrow> conn \<Rightarrow> conn option" where
  "serve_text parse env others content p c =
     (if length content > max_runtime_message_bytes then None
      else (case p of
          NotJson e \<Rightarrow> Some (out (server_error ''Invalid JSON runtime message'' (Some e)) c)
        | NotAMessage e \<Rightarrow> Some (out (server_error ''Invalid runtime message'' (Some e)) c)
        | Message m \<Rightarrow>
            (case validate m of
               Inl details \<Rightarrow> Some (out (server_error ''Invalid runtime message'' (Some details)) c)
             | Inr _ \<Rightarrow>
                 if session_id m \<noteq> ss_id (cn_session c) then None
                 else (case handle_message parse env others m c of
                         (Inl e, c1) \<Rightarrow> Some (out (server_error e None) c1)
                       | (Inr _, c1) \<Rightarrow> Some c1))))"

fun serve_frame ::
  "(string \<Rightarrow> json option) \<Rightarrow> msg_env \<Rightarrow> collab_op list \<Rightarrow> frame \<Rightarrow> conn \<Rightarrow> conn option" where
  "serve_frame parse env others (TextFrame content p) c = serve_text parse env others content p c"
| "serve_frame parse env others OtherFrame c = Some c"
| "serve_frame parse env others _ c = None"

section \<open>Attaching, detaching, the reconnect grace\<close>

definition run_unavailable :: "language \<Rightarrow> string" where
  "run_unavailable l =
     (if l = Rust then ''Rust 1.75+ is unavailable; Run is disabled. Run pnpm run doctor.''
      else ''Zig 0.16.x is unavailable; Run is disabled. Run pnpm run doctor.'')"

text \<open>A socket joins its workspace: what it is told first.\<close>

definition join_workspace :: "msg_env \<Rightarrow> string \<Rightarrow> conn \<Rightarrow> conn" where
  "join_workspace env w c =
     (let hub1 = snd (edit_lock w (cn_hub c));
          (revision, hub2) = join w (ss_id (cn_session c)) hub1;
          c1 = out (WorkspacePeers (peer_count hub2 w))
                 (out (DocumentChanged [] [] revision) (c\<lparr>cn_hub := hub2\<rparr>))
      in (case refresh_files (me_now env) (me_tree env) (cn_session c1) of
            (Inr snap, s) \<Rightarrow> out (ProjectChanged (sn_files snap) revision) (put_session s c1)
          | (Inl _, s) \<Rightarrow> put_session s c1))"

definition first_run_or_notice :: "conn \<Rightarrow> conn" where
  "first_run_or_notice c =
     (let s = cn_session c; pending = ss_pending_dependencies s;
          c1 = put_session (s\<lparr>ss_pending_dependencies := []\<rparr>) c
      in if pending \<noteq> [] then install_then_run pending c1
         else if can_run s (ss_language s)
         then request_run (sn_version (ss_snapshot s)) (ss_language s) False c1
         else out (server_error (run_unavailable (ss_language s)) None) c1)"

text \<open>A session has one runtime socket: a second one is closed, \<open>None\<close>.\<close>

definition connect :: "msg_env \<Rightarrow> collab \<Rightarrow> string option \<Rightarrow> session \<Rightarrow> conn option" where
  "connect env hub manifest s =
     (if ss_runtime_connected s then None
      else
        let s1 = s\<lparr>ss_runtime_connected := True, ss_attach_generation := ss_attach_generation s + 1\<rparr>;
            c = \<lparr>cn_sched = sched_new s1, cn_hub = hub, cn_manifest = manifest, cn_gate = False,
                 cn_deps_cancelled = False, cn_task = None\<rparr>;
            c1 = (case ss_workspace_id s1 of Some w \<Rightarrow> join_workspace env w c | None \<Rightarrow> c)
        in Some (first_run_or_notice c1))"

definition disconnect :: "conn \<Rightarrow> conn" where
  "disconnect c =
     (let c1 = (on_sched cancel_internal c)\<lparr>cn_deps_cancelled := True\<rparr>; s = cn_session c1;
          c2 = (case ss_workspace_id s of
                  Some w \<Rightarrow> c1\<lparr>cn_hub := leave w (ss_id s) (cn_hub c1)\<rparr> | None \<Rightarrow> c1)
      in put_session (s\<lparr>ss_runtime_connected := False\<rparr>) c2)"

text \<open>The grace is over: \<open>now_session\<close> is the session as it is by then.\<close>

definition grace_over ::
  "(string \<Rightarrow> workspace_meta option) \<Rightarrow> (workspace_meta \<Rightarrow> string) \<Rightarrow> io_faults \<Rightarrow> nat \<Rightarrow> bool
   \<Rightarrow> nat \<Rightarrow> session \<Rightarrow> manager \<Rightarrow> manager" where
  "grace_over parse render touch_io now removed generation now_session m =
     (if ss_attach_generation now_session \<noteq> generation then m
      else destroy parse render touch_io now removed (ss_id now_session) m)"

text \<open>What the hub tells a connection of a workspace; \<open>ProjectChanged\<close> carries the files
  re-read under the lock.\<close>

fun hear_change :: "msg_env \<Rightarrow> string \<Rightarrow> workspace_change \<Rightarrow> conn \<Rightarrow> conn" where
  "hear_change env w (Files w' origin) c =
     (if w' \<noteq> w \<or> origin = ss_id (cn_session c) then c
      else
        let c1 = c\<lparr>cn_hub := snd (edit_lock w (cn_hub c))\<rparr>
        in (case refresh_files (me_now env) (me_tree env) (cn_session c1) of
              (Inr snap, s) \<Rightarrow> out (ProjectChanged (sn_files snap) (current_revision (cn_hub c1) w)) (put_session s c1)
            | (Inl _, s) \<Rightarrow> put_session s c1))"
| "hear_change env w (Peers w' n) c = (if w' \<noteq> w then c else out (WorkspacePeers n) c)"
| "hear_change env w (Document w' origin p t revision) c =
     (if w' \<noteq> w \<or> origin = ss_id (cn_session c) then c else out (DocumentChanged p t revision) c)"

section \<open>What a message keeps\<close>

text \<open>The parts of a session no message changes.\<close>

definition same_shell :: "session \<Rightarrow> session \<Rightarrow> bool" where
  "same_shell s s' \<longleftrightarrow> ss_id s' = ss_id s \<and> ss_token s' = ss_token s \<and> ss_workspace_id s' = ss_workspace_id s
     \<and> ss_attach_generation s' = ss_attach_generation s \<and> ss_runtime_connected s' = ss_runtime_connected s
     \<and> ss_http_port s' = ss_http_port s \<and> ss_language s' = ss_language s"

named_theorems shell_intros

lemma same_shell_refl [simp, shell_intros]: "same_shell s s"
  by (simp add: same_shell_def)

lemma same_shell_trans: "same_shell a b \<Longrightarrow> same_shell b c \<Longrightarrow> same_shell a c"
  by (simp add: same_shell_def)

lemma shell_updates [simp]:
  "same_shell s (s'\<lparr>ss_snapshot := a\<rparr>) = same_shell s s'" "same_shell s (s'\<lparr>ss_disk := d\<rparr>) = same_shell s s'"
  "same_shell s (s'\<lparr>ss_input := i\<rparr>) = same_shell s s'" "same_shell s (s'\<lparr>ss_saved_input := v\<rparr>) = same_shell s s'"
  "same_shell s (s'\<lparr>ss_settings := g\<rparr>) = same_shell s s'"
  "same_shell s (s'\<lparr>ss_pending_dependencies := q\<rparr>) = same_shell s s'"
  "same_shell s (s'\<lparr>ss_live_stdin := l\<rparr>) = same_shell s s'"
  by (simp_all add: same_shell_def)

lemma commit_shell: "same_shell s s' \<Longrightarrow> same_shell s (snd (commit now v fs s'))"
  by (auto simp: commit_def Let_def split: option.split)

lemma write_commit_shell: "same_shell s (snd (write_and_commit io now v p src fs s))"
  by (auto simp: write_and_commit_def commit_shell split: sum.split prod.split)

lemma store_shell:
  "same_shell s (snd (update io now v p src s))" "same_shell s (snd (create_file io now v p src s))"
  "same_shell s (snd (rename_file io now v p q s))" "same_shell s (snd (delete_file r now v p s))"
  "same_shell s (snd (refresh_files now tree s))" "same_shell s (snd (reset_files io now v k s))"
  "same_shell s (snd (set_input ii t s))"
  by (auto simp: update_def create_file_def rename_file_def delete_file_def refresh_files_def reset_files_def
      replace_files_def set_input_def Let_def write_commit_shell commit_shell
      split: sum.split option.split prod.split)

lemma cancel_session [simp]: "sd_session (cancel_internal s) = sd_session s"
  by (simp add: cancel_internal_def)

lemma conn_simps [simp]:
  "cn_session (put_session s c) = s" "cn_session (out e c) = cn_session c"
  "cn_hub (put_session s c) = cn_hub c" "cn_hub (out e c) = cn_hub c" "cn_hub (on_sched f c) = cn_hub c"
  "cn_session (c\<lparr>cn_hub := h\<rparr>) = cn_session c" "cn_session (c\<lparr>cn_gate := g\<rparr>) = cn_session c"
  "cn_session (c\<lparr>cn_task := t\<rparr>) = cn_session c" "cn_session (c\<lparr>cn_manifest := m\<rparr>) = cn_session c"
  "cn_session (c\<lparr>cn_deps_cancelled := b\<rparr>) = cn_session c"
  "cn_session (on_sched cancel_internal c) = cn_session c"
  "cn_session (request_run v l i c) = cn_session c" "cn_hub (request_run v l i c) = cn_hub c"
  "cn_gate (put_session s c) = cn_gate c" "cn_gate (out e c) = cn_gate c" "cn_gate (on_sched f c) = cn_gate c"
  "cn_task (put_session s c) = cn_task c" "cn_task (out e c) = cn_task c" "cn_task (on_sched f c) = cn_task c"
  "cn_gate (request_run v l i c) = cn_gate c" "cn_task (request_run v l i c) = cn_task c"
  by (simp_all add: cn_session_def put_session_def out_def on_sched_def send_def request_run_def)

lemma sched_session [simp]: "sd_session (document_updated l s) = sd_session s"
  by (simp add: document_updated_def arm_def Let_def send_def cancel_internal_def session_version_def)

lemma updated_session [simp]: "cn_session (on_sched (document_updated l) c) = cn_session c"
  by (simp add: cn_session_def on_sched_def)

lemma change_keeps [simp]:
  "cn_session (after_store_change snap p b c) = cn_session c" "cn_hub (after_store_change snap p b c) = cn_hub c"
  "cn_gate (after_store_change snap p b c) = cn_gate c" "cn_task (after_store_change snap p b c) = cn_task c"
  by (simp_all add: after_store_change_def Let_def)

lemma store_then_keeps:
  "cn_session (snd (store_then r p b c)) = snd r" "cn_hub (snd (store_then r p b c)) = cn_hub c"
  "cn_gate (snd (store_then r p b c)) = cn_gate c" "cn_task (snd (store_then r p b c)) = cn_task c"
  by (auto simp: store_then_def split: prod.split sum.split)

lemma type_input_keeps [simp]:
  "cn_session (snd (type_input b i c)) = cn_session c" "cn_hub (snd (type_input b i c)) = cn_hub c"
  "cn_gate (snd (type_input b i c)) = cn_gate c" "cn_task (snd (type_input b i c)) = cn_task c"
  by (simp_all add: type_input_def write_stdin_def Let_def cn_session_def)

lemma spawn_keeps [simp]:
  "cn_session (snd (spawn_deps_command n i c)) = cn_session c" "cn_hub (snd (spawn_deps_command n i c)) = cn_hub c"
  by (simp_all add: spawn_deps_command_def)

lemma stdin_keeps:
  "cn_session (snd (handle_message_inner parse env (StdinWrite sid d eof) c)) = cn_session c
   \<and> cn_hub (snd (handle_message_inner parse env (StdinWrite sid d eof) c)) = cn_hub c
   \<and> cn_gate (snd (handle_message_inner parse env (StdinWrite sid d eof) c)) = cn_gate c
   \<and> cn_task (snd (handle_message_inner parse env (StdinWrite sid d eof) c)) = cn_task c"
proof -
  obtain r c1 where t: "(if d \<noteq> [] then type_input (me_reading env) (LiveData d) c else (Inr (), c)) = (r, c1)"
    by force
  then have "cn_session c1 = cn_session c \<and> cn_hub c1 = cn_hub c \<and> cn_gate c1 = cn_gate c \<and> cn_task c1 = cn_task c"
    using type_input_keeps [of "me_reading env" "LiveData d" c] by (cases "d = []") simp_all
  then show ?thesis
    unfolding handle_message_inner.simps t prod.case by (cases r) simp_all
qed

lemma inner_keeps:
  "same_shell (cn_session c) (cn_session (snd (handle_message_inner parse env m c)))
   \<and> cn_hub (snd (handle_message_inner parse env m c)) = cn_hub c"
proof (cases m)
  case (StdinWrite sid d eof)
  then show ?thesis using stdin_keeps [of parse env sid d eof c] by simp
next
  case (InputUpdate sid t)
  have "same_shell (cn_session c) (snd (set_input (me_input env) t (cn_session c)))" by (rule store_shell)
  then show ?thesis using InputUpdate
    by (cases "set_input (me_input env) t (cn_session c)") (auto split: sum.split)
qed (auto simp: store_then_keeps store_shell Let_def)

section \<open>The dependency gate\<close>

text \<open>The gate is held exactly while a task holds it.\<close>

definition gate_inv :: "conn \<Rightarrow> bool" where
  "gate_inv c \<longleftrightarrow> (cn_gate c \<longleftrightarrow> cn_task c \<noteq> None)"

lemma gate_inner: "gate_inv c \<Longrightarrow> gate_inv (snd (handle_message_inner parse env m c))"
proof (cases m)
  case (StdinWrite sid d eof)
  assume "gate_inv c"
  then show ?thesis using StdinWrite stdin_keeps [of parse env sid d eof c] by (simp add: gate_inv_def)
next
  case (InputUpdate sid t)
  assume "gate_inv c"
  with InputUpdate show ?thesis
    by (cases "set_input (me_input env) t (cn_session c)") (auto simp: gate_inv_def split: sum.split)
qed (auto simp: gate_inv_def store_then_keeps spawn_deps_command_def Let_def)

section \<open>Writing under the edit lock\<close>

lemma edit_lock_frame: "frame_eq w s (snd (edit_lock w' s))"
  by (auto simp: edit_lock_def frame_eq_def current_revision_def split: option.split)

lemma frame_eq_trans: "frame_eq w a b \<Longrightarrow> frame_eq w b c \<Longrightarrow> frame_eq w a c"
  by (simp add: frame_eq_def)

lemma frame_eq_sym: "frame_eq w a b \<Longrightarrow> frame_eq w b a"
  by (simp add: frame_eq_def)

lemma advance_revision:
  assumes "writer_base_ok s w og b (current_revision s w)"
  shows "\<exists>s'. advance w og b s = (Inr (current_revision s w + 1), s') \<and> current_revision s' w = current_revision s w + 1"
  using assms by (auto simp: advance_def Let_def current_revision_def)

lemma record_accepts:
  assumes "writer_base_ok s w og b (current_revision s w)"
  shows "\<exists>s'. (case source of Some t \<Rightarrow> record_edit w og p t b s | None \<Rightarrow> record_files w og b s)
            = (Inr (current_revision s w + 1), s') \<and> current_revision s' w = current_revision s w + 1"
proof -
  obtain s1 where "advance w og b s = (Inr (current_revision s w + 1), s1)" "current_revision s1 w = current_revision s w + 1"
    using advance_revision [OF assms] by blast
  then show ?thesis
    by (auto simp: record_edit_def record_files_def current_revision_def split: option.split)
qed

text \<open>What handling a write to a shared workspace comes to.\<close>

lemma handle_write:
  assumes ws: "ss_workspace_id (cn_session c) = Some w" and mu: "mutation m = Some (version, p, source, base)"
    and others: "\<forall>op\<in>set others. \<not> writes_to w op"
    and base: "writer_base_ok (cn_hub c) w (ss_id (cn_session c)) base (current_revision (cn_hub c) w)"
  defines "hub \<equiv> fold collab_step others (snd (edit_lock w (cn_hub c)))"
  shows "(\<exists>e s1. refresh_files (me_now env) (me_tree env) (cn_session c) = (Inl e, s1)
           \<and> handle_message parse env others m c = (Inl e, put_session s1 (c\<lparr>cn_hub := hub\<rparr>)))
    \<or> (\<exists>snap s1. refresh_files (me_now env) (me_tree env) (cn_session c) = (Inr snap, s1)
       \<and> (let (r, c3) = handle_message_inner parse env m (put_session s1 (c\<lparr>cn_hub := hub\<rparr>)) in
           (\<exists>e. r = Inl e \<and> handle_message parse env others m c = (Inl e, c3))
         \<or> (r = Inr () \<and> (\<exists>hub'. current_revision hub' w = current_revision (cn_hub c) w + 1
              \<and> handle_message parse env others m c = (Inr (), out (DocumentSaved version)
                   (out (DocumentChanged [] [] (current_revision (cn_hub c) w + 1)) (c3\<lparr>cn_hub := hub'\<rparr>)))))))"
proof -
  let ?c1 = "c\<lparr>cn_hub := snd (edit_lock w (cn_hub c))\<rparr>"
  let ?c2 = "c\<lparr>cn_hub := hub\<rparr>"
  have same: "frame_eq w (cn_hub c) (snd (edit_lock w (cn_hub c)))" "frame_eq w (cn_hub c) hub"
    using edit_lock_frame collab_fold_frame [OF others] frame_eq_trans unfolding hub_def by blast+
  have ok1: "writer_base_ok (snd (edit_lock w (cn_hub c))) w (ss_id (cn_session c)) base
       (current_revision (snd (edit_lock w (cn_hub c))) w)"
    using base writer_base_ok_frame [OF same(1)] by simp
  have ok2: "writer_base_ok hub w (ss_id (cn_session c)) base (current_revision hub w)"
    using base writer_base_ok_frame [OF same(2)] by simp
  have rev: "current_revision hub w = current_revision (cn_hub c) w" using same(2) by (simp add: frame_eq_def)
  have pass: "check_writer_base (snd (edit_lock w (cn_hub c))) w (ss_id (cn_session c)) base = Inr ()"
    using ok1 by (simp add: check_writer_base_def Let_def)
  obtain rr s1 where rf: "refresh_files (me_now env) (me_tree env) (cn_session c) = (rr, s1)" by force
  show ?thesis
  proof (cases rr)
    case (Inl e)
    then show ?thesis using rf ws mu pass by (simp add: handle_message_def stale_write_def Let_def hub_def)
  next
    case (Inr snap)
    have sh: "same_shell (cn_session c) s1" using store_shell(5) [of "cn_session c" "me_now env" "me_tree env"] rf by simp
    obtain r c3 where inner: "handle_message_inner parse env m (put_session s1 ?c2) = (r, c3)" by force
    have k: "same_shell s1 (cn_session c3)" "cn_hub c3 = hub"
      using inner_keeps [of "put_session s1 ?c2" parse env m] inner by simp_all
    have ids: "ss_workspace_id (cn_session c3) = Some w" "ss_id (cn_session c3) = ss_id (cn_session c)"
      using same_shell_trans [OF sh k(1)] ws by (simp_all add: same_shell_def)
    show ?thesis
    proof (cases r)
      case (Inl e)
      then show ?thesis using rf Inr ws mu pass inner
        by (simp add: handle_message_def finish_message_def stale_write_def Let_def hub_def)
    next
      case (Inr u)
      obtain hub' where h: "(case source of Some t \<Rightarrow> record_edit w (ss_id (cn_session c)) p t base hub
            | None \<Rightarrow> record_files w (ss_id (cn_session c)) base hub) = (Inr (current_revision (cn_hub c) w + 1), hub')"
        "current_revision hub' w = current_revision (cn_hub c) w + 1"
        using record_accepts [OF ok2, where source = source and p = p] rev by auto
      have "handle_message parse env others m c = record_mutation (version, p, source, base) c3"
        using rf \<open>rr = Inr snap\<close> ws mu pass inner Inr
        by (simp add: handle_message_def finish_message_def stale_write_def Let_def hub_def)
      also have "\<dots> = (Inr (), out (DocumentSaved version)
           (out (DocumentChanged [] [] (current_revision (cn_hub c) w + 1)) (c3\<lparr>cn_hub := hub'\<rparr>)))"
        by (simp only: record_mutation_def prod.case ids k(2) option.case h(1) sum.case)
      finally show ?thesis using rf \<open>rr = Inr snap\<close> inner Inr h(2) by auto
    qed
  qed
qed

lemma handle_conflict:
  assumes "ss_workspace_id (cn_session c) = Some w" "mutation m = Some (version, p, source, base)"
    and "\<not> writer_base_ok (cn_hub c) w (ss_id (cn_session c)) base (current_revision (cn_hub c) w)"
  shows "handle_message parse env others m c = (Inr (), out (DocumentConflict p (current_revision (cn_hub c) w))
           (c\<lparr>cn_hub := snd (edit_lock w (cn_hub c))\<rparr>))"
proof -
  have f: "frame_eq w (cn_hub c) (snd (edit_lock w (cn_hub c)))" by (rule edit_lock_frame)
  then have "check_writer_base (snd (edit_lock w (cn_hub c))) w (ss_id (cn_session c)) base
      = Inl (Conflict (current_revision (cn_hub c) w))"
    using assms(3) writer_base_ok_frame [OF f] by (simp add: check_writer_base_def Let_def frame_eq_def)
  then show ?thesis using assms(1,2) by (simp add: handle_message_def stale_write_def Let_def)
qed

section \<open>The properties\<close>


lemma connect_generation:
  "connect env hub manifest s = Some c \<Longrightarrow>
     ss_attach_generation (cn_session c) = ss_attach_generation s + 1 \<and> ss_id (cn_session c) = ss_id s"
proof -
  assume a: "connect env hub manifest s = Some c"
  have first: "ss_attach_generation (cn_session (first_run_or_notice d)) = ss_attach_generation (cn_session d)
     \<and> ss_id (cn_session (first_run_or_notice d)) = ss_id (cn_session d)" for d
    by (simp add: first_run_or_notice_def Let_def install_then_run_def)
  have joined: "same_shell (cn_session d) (cn_session (join_workspace env w d))" for w d
    using store_shell(5) [of "cn_session d" "me_now env" "me_tree env"]
    by (auto simp: join_workspace_def Let_def split: prod.split sum.split)
  show ?thesis
    using a first joined [unfolded same_shell_def]
    by (auto simp: connect_def Let_def cn_session_def sched_new_def split: if_splits option.splits)
qed

lemma record_session: "cn_session (snd (record_mutation w d)) = cn_session d"
  by (auto simp: record_mutation_def split: prod.split option.split sum.split)

lemma finish_shell: "same_shell (cn_session d) (cn_session (snd (finish_message parse env m d)))"
  using inner_keeps [of d parse env m] record_session
  by (auto simp: finish_message_def split: prod.split sum.split option.split)

lemma handle_shell: "same_shell (cn_session c) (cn_session (snd (handle_message parse env others m c)))"
proof -
  define b where "b = (ss_workspace_id (cn_session c) \<noteq> None \<and> (mutation m \<noteq> None \<or> is_run_request m))"
  obtain rr s1 where rr: "(if b then refresh_files (me_now env) (me_tree env) (cn_session c)
      else (Inr (ss_snapshot (cn_session c)), cn_session c)) = (rr, s1)" by force
  then have rf: "same_shell (cn_session c) s1"
    using store_shell(5) [of "cn_session c" "me_now env" "me_tree env"] by (auto split: if_splits)
  have fin: "same_shell (cn_session c) (cn_session (snd (finish_message parse env m (put_session s1 d))))" for d
    using finish_shell [of "put_session s1 d" parse env m] same_shell_trans [OF rf] by simp
  show ?thesis
    unfolding handle_message_def Let_def b_def [symmetric] rr
    using rf fin by (cases rr) (auto split: option.split)
qed

text \<open>Frames served one after another; the loop ends at a frame that is refused.\<close>

fun serve_all ::
  "(string \<Rightarrow> json option) \<Rightarrow> (msg_env \<times> collab_op list \<times> frame) list \<Rightarrow> conn \<Rightarrow> conn" where
  "serve_all parse [] c = c"
| "serve_all parse ((env, others, f) # fs) c =
     (case serve_frame parse env others f c of None \<Rightarrow> c | Some c' \<Rightarrow> serve_all parse fs c')"

lemma serve_shell: "serve_frame parse env others f c = Some c' \<Longrightarrow> same_shell (cn_session c) (cn_session c')"
proof -
  assume a: "serve_frame parse env others f c = Some c'"
  show ?thesis
  proof (cases f)
    case (TextFrame t p)
    then show ?thesis
      using a handle_shell [of c parse env others]
      by (auto simp: serve_text_def split: if_splits parsed.splits sum.splits prod.splits) 
         (metis snd_conv)+
  qed (use a in auto)
qed

lemma serve_all_shell: "same_shell (cn_session c) (cn_session (serve_all parse fs c))"
proof (induction fs arbitrary: c)
  case (Cons x fs)
  obtain env others f where x: "x = (env, others, f)" by (cases x) auto
  show ?case
  proof (cases "serve_frame parse env others f c")
    case (Some c')
    then show ?thesis using x serve_shell [OF Some] Cons.IH [of c'] same_shell_trans by auto
  qed (simp add: x)
qed simp

lemma disconnect_session: "cn_session (disconnect c) = (cn_session c)\<lparr>ss_runtime_connected := False\<rparr>"
  by (simp add: disconnect_def Let_def split: option.split)

text \<open>C29: a session outlives its socket: when a socket closes and a new one attaches within
  the grace, the old socket's timer leaves every session alone, whatever both sockets served
  and even if the new one is closed again by then; when nobody came back, the timer tears the session down.\<close>

theorem reattached_session_survives:
  assumes "connect env hub manifest s = Some c"
    and "closed = cn_session (disconnect (serve_all parse served c))"
  shows "(\<forall>env2 hub2 manifest2 c2. connect env2 hub2 manifest2 closed = Some c2 \<longrightarrow>
            (\<forall>later \<in> {serve_all parse served2 c2, disconnect (serve_all parse served2 c2)}.
              grace_over parse_meta render touch_io now removed (ss_attach_generation (cn_session c))
                (cn_session later) m = m))
       \<and> grace_over parse_meta render touch_io now removed (ss_attach_generation (cn_session c)) closed m
           = destroy parse_meta render touch_io now removed (ss_id s) m"
proof -
  have gen: "ss_attach_generation closed = ss_attach_generation (cn_session c)" "ss_id closed = ss_id s"
    using serve_all_shell [of c parse served] connect_generation [OF assms(1)]
    by (simp_all add: assms(2) disconnect_session same_shell_def)
  have "ss_attach_generation (cn_session later) \<noteq> ss_attach_generation (cn_session c)"
    if "connect env2 hub2 manifest2 closed = Some c2"
      "later \<in> {serve_all parse served2 c2, disconnect (serve_all parse served2 c2)}" for env2 hub2 manifest2 c2 later
    using that connect_generation [OF that(1)] serve_all_shell [of c2 parse served2] gen
    by (auto simp: same_shell_def disconnect_session)
  then show ?thesis using gen by (auto simp: grace_over_def)
qed

definition demo_env_ws :: msg_env where
  "demo_env_ws = \<lparr>me_now = 5, me_disk = no_faults,
     me_input = \<lparr>if_remove = None, if_mkdir = None, if_write = None, if_rename = None\<rparr>,
     me_tree = DirNode (Some []), me_removed = True, me_support = Unsupported, me_reading = False\<rparr>"

definition shared_conn :: conn where
  "shared_conn = \<lparr>cn_sched = sched_new (demo_session\<lparr>ss_workspace_id := Some ''w''\<rparr>), cn_hub = collab_new,
     cn_manifest = None, cn_gate = False, cn_deps_cancelled = False, cn_task = None\<rparr>"


lemma reattached_session_survives_witness:
  "\<exists>c. connect demo_env_ws collab_new None demo_session = Some c
     \<and> grace_over demo_parse demo_render \<lparr>io_write = None, io_rename = None\<rparr> 0 True
         (ss_attach_generation (cn_session c)) (cn_session (disconnect c)) empty_manager = empty_manager"
proof -
  obtain c where c: "connect demo_env_ws collab_new None demo_session = Some c"
    by (simp add: connect_def demo_session_def)
  show ?thesis
    using reattached_session_survives [OF c, of "cn_session (disconnect c)" "\<lambda>_. None" "[]" "[]" demo_parse demo_render
        "\<lparr>io_write = None, io_rename = None\<rparr>" 0 True empty_manager] c
    by (simp add: destroy_def empty_manager_def)
qed

section \<open>What a dependency command may reach\<close>


definition demo_deps_io :: deps_io where
  "demo_deps_io = \<lparr>di_result = process_result_default\<lparr>pr_exit_code := Some 0\<rparr>,
     di_output = [(Stderr, ''added'')], di_fetch_result = process_result_default,
     di_fetch_errors = [], di_manifest = None, di_write = None\<rparr>"


end
