(* ===== verification/Lsp.thy ===== *)
theory Lsp
  imports Sessions Utf8 "HOL-Library.Word"
begin

text \<open>
  src/apps/server-rs/src/ws/lsp.rs: the bridge between the editor's socket and a language
  server that speaks Content-Length framing on its stdio.  First the framing and the filter of
  diagnostics, as functions; then the proxies.  A proxy's operations lock its state several
  times, so they are split at the locks and a step relation runs the pieces in any order.
  Serialised JSON is what serde makes of a value: \<open>parse\<close> and \<open>ser\<close> are parameters.
\<close>

section \<open>Settings\<close>

definition gopls_memory_limit :: "string option \<Rightarrow> string option" where
  "gopls_memory_limit raw =
     (case map_option trim raw of
        None \<Rightarrow> Some ''128MiB''
      | Some v \<Rightarrow>
          if v = [] then Some ''128MiB''
          else if v = ''off'' \<or> v = ''0'' then None
          else Some v)"

text \<open>In seconds; \<open>None\<close> keeps a server for as long as its tab is open.\<close>

definition idle_timeout :: "string option \<Rightarrow> nat option" where
  "idle_timeout raw =
     (let seconds = (case Option.bind raw (\<lambda>v. parse_unsigned 64 (trim v)) of Some n \<Rightarrow> n | None \<Rightarrow> 600)
      in if seconds > 0 then Some seconds else None)"

section \<open>Framing\<close>

definition MAX_LSP_MESSAGE :: nat where "MAX_LSP_MESSAGE = 8 * 1024 * 1024"

definition crlf :: string where "crlf = [CHR 0x0D, CHR 0x0A]"

fun split_crlf :: "string \<Rightarrow> string list" where
  "split_crlf [] = [[]]"
| "split_crlf (c # cs) =
     (if starts_with (c # cs) crlf then [] # split_crlf (drop 1 cs)
      else case split_crlf cs of [] \<Rightarrow> [[c]] | p # ps \<Rightarrow> (c # p) # ps)"

definition find_header_end :: "string \<Rightarrow> nat option" where
  "find_header_end buffer = find_sub buffer (crlf @ crlf)"

text \<open>The length a header states.  Only ASCII letters lower to the letters of the name, so
  the case of ASCII is all \<open>to_lowercase\<close> matters for.\<close>

definition content_length :: "string \<Rightarrow> nat res" where
  "content_length header =
     (let lengths = filter (\<lambda>line. starts_with (map to_ascii_lower line) ''content-length:'')
                      (split_crlf (from_utf8_lossy header))
      in if length lengths \<noteq> 1 then Inl ''LSP frame must contain one Content-Length header''
         else
           let raw = (case split_on (CHR '':'') (hd lengths) of _ # value # _ \<Rightarrow> trim value | _ \<Rightarrow> [])
           in case parse_unsigned 64 raw of
                None \<Rightarrow> Inl ''Invalid LSP Content-Length''
              | Some n \<Rightarrow>
                  if n = 0 \<or> n > MAX_LSP_MESSAGE
                  then Inl (''LSP body length '' @ raw @ '' is outside the limit'') else Inr n)"

record lsp_framer =
  fr_buffer :: string
  fr_expected :: "nat option"

definition framer_new :: lsp_framer where
  "framer_new = \<lparr>fr_buffer = [], fr_expected = None\<rparr>"

text \<open>The loop of \<open>push\<close>; an error leaves the framer as it was then.\<close>

function (sequential) take_frames ::
  "(string \<Rightarrow> 'v res) \<Rightarrow> string \<Rightarrow> nat option \<Rightarrow> 'v list res \<times> lsp_framer" where
  "take_frames parse buffer None =
     (case find_header_end buffer of
        None \<Rightarrow>
          (if length buffer > 8192 then Inl ''LSP header exceeds 8 KiB'' else Inr [],
           \<lparr>fr_buffer = buffer, fr_expected = None\<rparr>)
      | Some e \<Rightarrow>
          let rest = drop (e + 4) buffer
          in case content_length (take e buffer) of
               Inl err \<Rightarrow> (Inl err, \<lparr>fr_buffer = rest, fr_expected = None\<rparr>)
             | Inr n \<Rightarrow> take_frames parse rest (Some n))"
| "take_frames parse buffer (Some expected) =
     (if length buffer < expected then (Inr [], \<lparr>fr_buffer = buffer, fr_expected = Some expected\<rparr>)
      else
        let rest = drop expected buffer
        in case parse (take expected buffer) of
             Inl err \<Rightarrow> (Inl (''Invalid LSP JSON: '' @ err), \<lparr>fr_buffer = rest, fr_expected = None\<rparr>)
           | Inr value \<Rightarrow>
               (case take_frames parse rest None of
                  (Inl err, f) \<Rightarrow> (Inl err, f)
                | (Inr values, f) \<Rightarrow> (Inr (value # values), f)))"
  by pat_completeness auto
termination
proof (relation "measure (\<lambda>(_, b, e). 2 * length b + (case e of None \<Rightarrow> 0 | Some _ \<Rightarrow> 1))", goal_cases)
  case (2 parse buffer e rest n)
  then have "starts_with (drop e buffer) (crlf @ crlf)"
    using find_sub_Some by (auto simp: find_header_end_def)
  then have "e + 4 \<le> length buffer"
    by (auto simp: starts_with_def crlf_def dest: arg_cong [where f = length])
  then show ?case using 2 by simp
qed auto

declare take_frames.simps [simp del]

definition push_frames :: "(string \<Rightarrow> 'v res) \<Rightarrow> string \<Rightarrow> lsp_framer \<Rightarrow> 'v list res \<times> lsp_framer" where
  "push_frames parse chunk f = take_frames parse (fr_buffer f @ chunk) (fr_expected f)"

definition frame_of :: "('v \<Rightarrow> string) \<Rightarrow> 'v \<Rightarrow> string" where
  "frame_of ser message =
     (let body = ser message
      in ''Content-Length: '' @ show_nat (length body) @ crlf @ crlf @ body)"

text \<open>The reads of a server's stdout, one after another; the reader stops at an error.\<close>

fun read_frames :: "(string \<Rightarrow> 'v res) \<Rightarrow> string list \<Rightarrow> lsp_framer \<Rightarrow> 'v list \<times> string option \<times> lsp_framer" where
  "read_frames parse [] f = ([], None, f)"
| "read_frames parse (chunk # chunks) f =
     (case push_frames parse chunk f of
        (Inl err, f') \<Rightarrow> ([], Some err, f')
      | (Inr values, f') \<Rightarrow> (case read_frames parse chunks f' of (later, err, g) \<Rightarrow> (values @ later, err, g)))"


section \<open>What arrives\<close>

lemma starts_crlf: "starts_with s (crlf @ crlf) \<Longrightarrow> CHR 0x0D \<in> set s"
  by (auto simp: starts_with_prefix crlf_def)

lemma header_end_here: "CHR 0x0D \<notin> set h \<Longrightarrow> find_header_end (h @ crlf @ crlf @ x) = Some (length h)"
proof (induction h)
  case Nil
  then show ?case by (simp add: find_header_end_def crlf_def starts_with_def)
next
  case (Cons c h)
  then have "\<not> starts_with (c # h @ crlf @ crlf @ x) (crlf @ crlf)" by (auto simp: starts_with_def crlf_def)
  with Cons show ?case by (simp add: find_header_end_def)
qed

lemma header_end_later:
  assumes "CHR 0x0D \<notin> set h" and "b = take k (h @ crlf @ crlf)" and "k < length h + 4"
  shows "find_header_end b = None"
  using assms
proof (induction h arbitrary: b k)
  case Nil
  then have "k = 0 \<or> k = 1 \<or> k = 2 \<or> k = 3" by auto
  with Nil show ?case by (elim disjE) (simp_all add: find_header_end_def crlf_def starts_with_def numeral_eq_Suc)
next
  case (Cons c h)
  show ?case
  proof (cases k)
    case 0
    with Cons.prems show ?thesis by (simp add: find_header_end_def crlf_def)
  next
    case (Suc k')
    have "find_header_end (take k' (h @ crlf @ crlf)) = None"
      using Cons.IH [OF _ refl, of k'] Cons.prems Suc by simp
    moreover have "\<not> starts_with (c # take k' (h @ crlf @ crlf)) (crlf @ crlf)"
      using Cons.prems(1) by (auto simp: starts_with_def crlf_def)
    ultimately show ?thesis using Cons.prems Suc by (simp add: find_header_end_def)
  qed
qed

lemma split_crlf_single: "CHR 0x0D \<notin> set s \<Longrightarrow> split_crlf s = [s]"
  by (induction s) (auto simp: starts_with_prefix crlf_def)

lemma plain_valid: "plain s \<Longrightarrow> valid_utf8 s"
proof (induction s)
  case (Cons c s)
  then have "head_step (c # s) = Whole 1" by (simp add: plain_def byte_def)
  with Cons show ?case by (subst valid_utf8_Cons) (auto simp: plain_def)
qed simp

definition header_of :: "nat \<Rightarrow> string" where
  "header_of n = ''Content-Length: '' @ show_nat n"

lemma digit_not: "c \<in> set (show_nat n) \<Longrightarrow> c \<noteq> CHR 0x0D \<and> c \<noteq> CHR '':'' \<and> to_ascii_lower c = c"
  using show_nat_digits [of n]
  by (auto simp: list_all_iff ascii_digit_def to_ascii_lower_def ascii_upper_def byte_def)

lemma split_on_id: "x \<notin> set s \<Longrightarrow> split_on x s = [s]"
  by (induction s) auto

lemma header_of_no_cr: "CHR 0x0D \<notin> set (header_of n)"
  using digit_not by (auto simp: header_of_def)

lemma content_length_header:
  assumes "0 < n" "n \<le> MAX_LSP_MESSAGE"
  shows "content_length (header_of n) = Inr n"
proof -
  have p: "plain (header_of n)"
    using plain_digits [OF show_nat_digits] by (simp add: header_of_def plain_def byte_def)
  have "split_on (CHR '':'') (header_of n) = [''Content-Length'', CHR '' '' # show_nat n]"
  proof -
    have "CHR '':'' \<notin> set (show_nat n)" using digit_not by blast
    then show ?thesis by (simp add: header_of_def split_on_id)
  qed
  moreover have "starts_with (map to_ascii_lower (header_of n)) ''content-length:''"
    by (simp add: header_of_def starts_with_def to_ascii_lower_def ascii_upper_def byte_def) code_simp
  moreover have "n < 2 ^ 64" using assms(2) by (simp add: MAX_LSP_MESSAGE_def)
  ultimately show ?thesis
    using assms lossy_valid [OF plain_valid [OF p]]
    by (simp add: content_length_def split_crlf_single [OF header_of_no_cr] trim_digits [OF show_nat_digits]
        parse_show_nat)
qed

text \<open>What a framer that has not failed still waits for, \<open>rest\<close> being the bytes to come.\<close>

definition sendable :: "(string \<Rightarrow> 'v res) \<Rightarrow> ('v \<Rightarrow> string) \<Rightarrow> 'v \<Rightarrow> bool" where
  "sendable parse ser m \<longleftrightarrow> parse (ser m) = Inr m \<and> 0 < length (ser m) \<and> length (ser m) \<le> MAX_LSP_MESSAGE"

fun awaits :: "('v \<Rightarrow> string) \<Rightarrow> string \<Rightarrow> nat option \<Rightarrow> string \<Rightarrow> 'v list \<Rightarrow> bool" where
  "awaits ser buffer None rest ms \<longleftrightarrow> buffer @ rest = concat (map (frame_of ser) ms)"
| "awaits ser buffer (Some e) rest ms \<longleftrightarrow>
     (\<exists>m ms'. ms = m # ms' \<and> e = length (ser m) \<and> buffer @ rest = ser m @ concat (map (frame_of ser) ms'))"

definition waiting :: "lsp_framer \<Rightarrow> bool" where
  "waiting f \<longleftrightarrow> (case fr_expected f of
     None \<Rightarrow> length (fr_buffer f) \<le> 8192 \<and> find_header_end (fr_buffer f) = None
   | Some e \<Rightarrow> length (fr_buffer f) < e)"

lemma frame_of_header: "frame_of ser m = header_of (length (ser m)) @ crlf @ crlf @ ser m"
  by (simp add: frame_of_def header_of_def Let_def)

lemma header_short: "n \<le> MAX_LSP_MESSAGE \<Longrightarrow> length (header_of n) + 4 \<le> 27"
  using show_nat_length [of n 7] by (simp add: header_of_def MAX_LSP_MESSAGE_def)

lemma take_cut: "n - k < 4 \<Longrightarrow> take (n - k) (a # b # c # d # x) = take (n - k) [a, b, c, d]"
proof -
  assume "n - k < 4"
  then have "n - k \<le> length [a, b, c, d]" by simp
  then have "take (n - k) ([a, b, c, d] @ x) = take (n - k) [a, b, c, d]" by (subst take_append) simp
  then show ?thesis by simp
qed

lemma take_frames_awaits:
  assumes "list_all (sendable parse ser) ms" and "awaits ser buffer expected rest ms"
  shows "\<exists>out ms' f. take_frames parse buffer expected = (Inr out, f) \<and> ms = out @ ms'
    \<and> awaits ser (fr_buffer f) (fr_expected f) rest ms' \<and> waiting f"
  using assms
proof (induction parse buffer expected arbitrary: ms rule: take_frames.induct)
  case (1 parse buffer)
  show ?case
  proof (cases ms)
    case Nil
    with 1 show ?thesis
      by (auto simp: take_frames.simps(1) find_header_end_def crlf_def waiting_def)
  next
    case (Cons m ms')
    let ?h = "header_of (length (ser m))"
    have ok: "sendable parse ser m" "list_all (sendable parse ser) ms'" using 1 Cons by auto
    have b: "buffer @ rest = ?h @ crlf @ crlf @ ser m @ concat (map (frame_of ser) ms')"
      using 1 Cons by (simp add: frame_of_header)
    show ?thesis
    proof (cases "length buffer < length ?h + 4")
      case True
      have "length buffer - length ?h < 4" using True by simp
      then have cut: "take (length buffer) (?h @ crlf @ crlf @ y) = take (length buffer) (?h @ crlf @ crlf)" for y
        by (simp add: crlf_def) (rule take_cut)
      have "buffer = take (length buffer) (buffer @ rest)" by simp
      also have "\<dots> = take (length buffer) (?h @ crlf @ crlf)" by (simp only: b cut)
      finally have "buffer = take (length buffer) (?h @ crlf @ crlf)" .
      with header_end_later [OF header_of_no_cr this] True have "find_header_end buffer = None" by blast
      moreover have "length buffer \<le> 8192" using True header_short ok(1) by (fastforce simp: sendable_def)
      ultimately show ?thesis using 1 Cons by (auto simp: take_frames.simps(1) waiting_def)
    next
      case False
      then obtain x where x: "buffer = ?h @ crlf @ crlf @ x" "x @ rest = ser m @ concat (map (frame_of ser) ms')"
      proof -
        have "take (length ?h + 4) buffer = ?h @ crlf @ crlf"
          using False arg_cong [OF b, where f = "take (length ?h + 4)"] by (simp add: crlf_def)
        then have "buffer = (?h @ crlf @ crlf) @ drop (length ?h + 4) buffer" by (metis append_take_drop_id)
        with b show thesis using that by (metis append_assoc same_append_eq)
      qed
      have fe: "find_header_end buffer = Some (length ?h)" using x header_end_here [OF header_of_no_cr] by simp
      have cl: "content_length (take (length ?h) buffer) = Inr (length (ser m))"
        using x content_length_header ok(1) by (simp add: sendable_def)
      have dx: "drop (length ?h + 4) buffer = x" using x by (simp add: crlf_def)
      have "awaits ser x (Some (length (ser m))) rest ms" using Cons x by simp
      from "1.IH" [OF fe refl cl, unfolded dx, OF "1.prems"(1) this]
      show ?thesis by (simp add: take_frames.simps(1) fe cl dx)
    qed
  qed
next
  case (2 parse buffer expected)
  then obtain m ms' where m: "ms = m # ms'" "expected = length (ser m)"
    "buffer @ rest = ser m @ concat (map (frame_of ser) ms')" by auto
  show ?case
  proof (cases "length buffer < expected")
    case True
    then show ?thesis using "2.prems" by (auto simp: take_frames.simps(2) waiting_def)
  next
    case False
    then have t: "take expected buffer = ser m" "drop expected buffer @ rest = concat (map (frame_of ser) ms')"
      using m(2) arg_cong [OF m(3), where f = "take expected"] arg_cong [OF m(3), where f = "drop expected"] by auto
    have p: "parse (take expected buffer) = Inr m" using t "2.prems" m by (simp add: sendable_def)
    have "awaits ser (drop expected buffer) None rest ms'" using t by simp
    moreover have "list_all (sendable parse ser) ms'" using "2.prems" m by simp
    ultimately obtain out ms'' f where "take_frames parse (drop expected buffer) None = (Inr out, f)" "ms' = out @ ms''"
      "awaits ser (fr_buffer f) (fr_expected f) rest ms''" "waiting f"
      using "2.IH" [OF False refl p] by blast
    then show ?thesis using False p m by (auto simp: take_frames.simps(2))
  qed
qed

lemma awaits_shift: "awaits ser (buffer @ chunk) e rest ms = awaits ser buffer e (chunk @ rest) ms"
  by (cases e) auto

lemma read_frames_awaits:
  assumes "list_all (sendable parse ser) ms" and "awaits ser (fr_buffer f) (fr_expected f) (concat chunks) ms"
    and "waiting f"
  shows "\<exists>out ms' g. read_frames parse chunks f = (out, None, g) \<and> ms = out @ ms'
    \<and> awaits ser (fr_buffer g) (fr_expected g) [] ms' \<and> waiting g"
  using assms
proof (induction chunks arbitrary: f ms)
  case (Cons chunk chunks)
  then have "awaits ser (fr_buffer f @ chunk) (fr_expected f) (concat chunks) ms" by (simp add: awaits_shift)
  from take_frames_awaits [OF Cons.prems(1) this] obtain out ms1 f1 where
    t: "push_frames parse chunk f = (Inr out, f1)" "ms = out @ ms1"
      "awaits ser (fr_buffer f1) (fr_expected f1) (concat chunks) ms1" "waiting f1"
    by (auto simp: push_frames_def)
  have "list_all (sendable parse ser) ms1" using Cons.prems(1) t(2) by simp
  from Cons.IH [OF this t(3,4)] t(1,2) show ?case by fastforce
qed auto

lemma framer_new_simps [simp]: "fr_buffer framer_new = []" "fr_expected framer_new = None" "waiting framer_new"
  by (simp_all add: framer_new_def waiting_def find_header_end_def crlf_def)

text \<open>C34: whatever the reads a language server's output is cut into, the messages it framed
  come out whole and in order, and nothing of them is left behind.\<close>

theorem lsp_messages_arrive_whole:
  assumes "list_all (sendable parse ser) ms" and "concat chunks = concat (map (frame_of ser) ms)"
  shows "read_frames parse chunks framer_new = (ms, None, framer_new)"
proof -
  obtain out ms' g where g: "read_frames parse chunks framer_new = (out, None, g)" "ms = out @ ms'"
    "awaits ser (fr_buffer g) (fr_expected g) [] ms'" "waiting g"
    using read_frames_awaits [OF assms(1), of framer_new chunks] assms(2) by auto
  have "ms' = []"
  proof (cases "fr_expected g")
    case (Some e)
    then obtain m ms'' where "e = length (ser m)" "fr_buffer g = ser m @ concat (map (frame_of ser) ms'')"
      using g(3) by auto
    then show ?thesis using g(4) Some by (simp add: waiting_def)
  next
    case None
    show ?thesis
    proof (cases ms')
      case (Cons m ms'')
      then have "fr_buffer g = header_of (length (ser m)) @ crlf @ crlf @ ser m @ concat (map (frame_of ser) ms'')"
        using g(3) None by (simp add: frame_of_header)
      then show ?thesis using g(4) None header_end_here [OF header_of_no_cr] by (simp add: waiting_def)
    qed simp
  qed
  moreover from this have "g = framer_new" using g(3) by (cases "fr_expected g") (auto simp: framer_new_def)
  ultimately show ?thesis using g by simp
qed

definition demo_ser :: "string \<Rightarrow> string" where "demo_ser v = ''{'' @ v @ ''}''"

definition demo_de :: "string \<Rightarrow> string res" where
  "demo_de s = (if starts_with s ''{'' \<and> ends_with s ''}'' then Inr (butlast (tl s)) else Inl ''json'')"

lemma lsp_messages_arrive_whole_witness:
  "read_frames demo_de [''Content-Le'', ''ngth: 3'' @ crlf, crlf @ ''{x}Con'', ''tent-Length: 2'' @ crlf @ crlf @ ''{}'']
     framer_new = ([''x'', []], None, framer_new)"
proof (rule lsp_messages_arrive_whole)
  show "list_all (sendable demo_de demo_ser) [''x'', []]"
    by (simp add: sendable_def demo_de_def demo_ser_def MAX_LSP_MESSAGE_def starts_with_def ends_with_def)
  have "show_nat 3 = ''3''" "show_nat 2 = ''2''" by (simp_all add: show_nat.simps digit_char_def, code_simp+)
  then show "concat [''Content-Le'', ''ngth: 3'' @ crlf, crlf @ ''{x}Con'', ''tent-Length: 2'' @ crlf @ crlf @ ''{}'']
    = concat (map (frame_of demo_ser) [''x'', []])"
    by (simp add: frame_of_def demo_ser_def Let_def eval_nat_numeral)
qed

lemma content_length_bounds: "content_length h = Inr n \<Longrightarrow> 0 < n \<and> n \<le> MAX_LSP_MESSAGE"
  by (auto simp: content_length_def Let_def split: if_splits option.splits)

text \<open>What a framer holds on to between two reads that did not fail.\<close>

definition framer_bounded :: "lsp_framer \<Rightarrow> bool" where
  "framer_bounded f \<longleftrightarrow> (case fr_expected f of
     None \<Rightarrow> length (fr_buffer f) \<le> 8192 | Some e \<Rightarrow> length (fr_buffer f) < e \<and> e \<le> MAX_LSP_MESSAGE)"

lemma take_frames_bounded:
  assumes "take_frames parse buffer expected = (Inr vals, f)"
    and "\<And>e. expected = Some e \<Longrightarrow> e \<le> MAX_LSP_MESSAGE"
  shows "framer_bounded f"
  using assms
proof (induction parse buffer expected arbitrary: vals rule: take_frames.induct)
  case (1 parse buffer)
  then show ?case
    by (auto simp: take_frames.simps(1) framer_bounded_def Let_def content_length_bounds
        split: option.splits if_splits sum.splits)
next
  case (2 parse buffer expected)
  show ?case
  proof (cases "length buffer < expected")
    case False
    then obtain v where v: "parse (take expected buffer) = Inr v"
      using "2.prems"(1) by (auto simp: take_frames.simps(2) Let_def split: sum.splits)
    obtain r g where t: "take_frames parse (drop expected buffer) None = (r, g)" by force
    then obtain vs where "r = Inr vs" "g = f"
      using "2.prems"(1) False v by (auto simp: take_frames.simps(2) Let_def split: sum.splits)
    then show ?thesis using "2.IH" [OF False refl v] t by simp
  qed (use "2.prems" in \<open>auto simp: take_frames.simps(2) framer_bounded_def\<close>)
qed

section \<open>The filter of observed-unused diagnostics\<close>

definition EXACT_UNUSED :: "string list" where
  "EXACT_UNUSED = [''unused local constant'', ''unused local variable'', ''unused function parameter'']"

definition UNUSED_CODES :: "string list" where
  "UNUSED_CODES = [''unused_local'', ''unused-local'', ''unused_local_variable'']"

fun as_u64 :: "json \<Rightarrow> nat option" where
  "as_u64 (JNum (PosInt n)) = Some n"
| "as_u64 _ = None"

fun as_array :: "json \<Rightarrow> json list option" where
  "as_array (JArr xs) = Some xs"
| "as_array _ = None"

definition reports_unused :: "json \<Rightarrow> bool" where
  "reports_unused diagnostic =
     (case json_get diagnostic ''code'' of
        Some (JStr t) \<Rightarrow> t \<in> set UNUSED_CODES
      | Some _ \<Rightarrow> False
      | None \<Rightarrow> (case Option.bind (json_get diagnostic ''message'') as_str of
            Some m \<Rightarrow> map to_ascii_lower (trim m) \<in> set EXACT_UNUSED
          | None \<Rightarrow> False))"

text \<open>Where a diagnostic starts: line and character, from zero.\<close>

definition diagnostic_start :: "json \<Rightarrow> (nat \<times> nat) option" where
  "diagnostic_start diagnostic =
     (case Option.bind (json_get diagnostic ''range'') (\<lambda>r. json_get r ''start'') of
        None \<Rightarrow> None
      | Some start \<Rightarrow>
          (case (Option.bind (json_get start ''line'') as_u64, Option.bind (json_get start ''character'') as_u64) of
             (Some line, Some character) \<Rightarrow> Some (line, character)
           | _ \<Rightarrow> None))"

text \<open>A probe's positions count from one, in \<open>u32\<close>; the subtraction is on \<open>u64\<close> and wraps in
  a release build.\<close>

definition probe_covers :: "probe_descriptor \<Rightarrow> nat \<Rightarrow> nat \<Rightarrow> bool" where
  "probe_covers probe line character =
     (let r = pd_original_range probe
      in pd_supported probe \<and> pd_insertion_byte probe \<noteq> None
         \<and> (of_nat (start_line r) :: 64 word) - 1 = of_nat line
         \<and> (of_nat (start_column r) :: 64 word) - 1 \<le> of_nat character
         \<and> (of_nat character :: 64 word) < of_nat (end_column r))"

definition filter_observed_unused :: "json list \<Rightarrow> probe_descriptor list \<Rightarrow> json list" where
  "filter_observed_unused diagnostics probes =
     filter (\<lambda>d. \<not> reports_unused d
        \<or> (case diagnostic_start d of None \<Rightarrow> True
           | Some (line, character) \<Rightarrow> \<not> list_ex (\<lambda>p. probe_covers p line character) probes)) diagnostics"

text \<open>\<open>value[key] = v\<close> on an object: the key keeps its place, a new one goes last.\<close>

fun obj_insert :: "string \<Rightarrow> json \<Rightarrow> (string \<times> json) list \<Rightarrow> (string \<times> json) list" where
  "obj_insert k v [] = [(k, v)]"
| "obj_insert k v ((k', v') # kvs) = (if k = k' then (k, v) # kvs else (k', v') # obj_insert k v kvs)"

fun json_set :: "string \<Rightarrow> json \<Rightarrow> json \<Rightarrow> json" where
  "json_set k v (JObj kvs) = JObj (obj_insert k v kvs)"
| "json_set k v j = j"

text \<open>What a message of the server becomes on its way to the editor.\<close>

definition forward_message :: "language \<Rightarrow> project_file list \<Rightarrow> probe_descriptor list \<Rightarrow> json \<Rightarrow> json" where
  "forward_message language files probes message =
     (if Option.bind (json_get message ''method'') as_str \<noteq> Some ''textDocument/publishDiagnostics''
         \<or> language \<noteq> Zig then message
      else case json_get message ''params'' of
        None \<Rightarrow> message
      | Some params \<Rightarrow>
          (case Option.bind (json_get params ''diagnostics'') as_array of
             None \<Rightarrow> message
           | Some diagnostics \<Rightarrow>
               let uri = Option.bind (json_get params ''uri'') as_str;
                   project_path = (case Option.bind uri (\<lambda>u. find (\<lambda>f. pf_uri f = u) files) of
                       None \<Rightarrow> None | Some f \<Rightarrow> Some (''src/'' @ pf_path f));
                   relevant = filter (\<lambda>p. pd_path p = None \<or> pd_path p = project_path) probes
               in json_set ''params'' (json_set ''diagnostics''
                    (JArr (filter_observed_unused diagnostics relevant)) params) message))"

lemma unat_64: "a < 2 ^ 64 \<Longrightarrow> unat (of_nat a :: 64 word) = a"
  by (simp add: unsigned_of_nat take_bit_nat_eq_self)

lemma of_nat_minus_one: "0 < a \<Longrightarrow> (of_nat a :: 64 word) - 1 = of_nat (a - 1)"
  by (simp add: of_nat_diff)

lemma probe_covers_iff:
  assumes "0 < start_line r" "0 < start_column r" "start_line r < 2 ^ 32" "start_column r < 2 ^ 32"
    "end_column r < 2 ^ 32" "line < 2 ^ 64" "character < 2 ^ 64" "pd_original_range p = r"
  shows "probe_covers p line character \<longleftrightarrow> pd_supported p \<and> pd_insertion_byte p \<noteq> None
    \<and> line = start_line r - 1 \<and> start_column r - 1 \<le> character \<and> character < end_column r"
proof -
  have "start_line r - 1 < 2 ^ 64" "start_column r - 1 < 2 ^ 64" "end_column r < 2 ^ 64" using assms by simp_all
  note u = this [THEN unat_64] assms(6,7) [THEN unat_64]
  have "((of_nat (start_line r) :: 64 word) - 1 = of_nat line) \<longleftrightarrow> line = start_line r - 1"
    using u(1,4) by (metis of_nat_minus_one [OF assms(1)])
  moreover have "(of_nat (start_column r) :: 64 word) - 1 \<le> of_nat character \<longleftrightarrow> start_column r - 1 \<le> character"
    unfolding of_nat_minus_one [OF assms(2)] word_le_nat_alt u ..
  moreover have "(of_nat character :: 64 word) < of_nat (end_column r) \<longleftrightarrow> character < end_column r"
    unfolding word_less_nat_alt u ..
  ultimately show ?thesis by (simp only: probe_covers_def Let_def assms(8))
qed

section \<open>A proxy\<close>

text \<open>Sockets, processes and exit watchers are numbered.  A start is known by what asked for
  it: the attach of a socket, or the exit a watcher saw.  Its stage is \<open>None\<close> until the child
  is spawned.\<close>

datatype start_why = ForAttach nat | ForRestart nat

datatype attach_stage = Begun | Pumping

datatype lsp_sent = LspText string | LspClose nat string

datatype lsp_signal = Sigterm | Sigkill

record proxy =
  px_last_used :: nat
  px_stdin :: "nat option"
  px_socket :: "nat option"
  px_restarts :: nat
  px_closing :: bool
  px_reader :: "nat option"
  px_pump :: "nat option"
  px_child :: "nat option"
  px_pid :: "nat option"
  px_starts :: "start_why \<Rightarrow> nat option option"
  px_attaching :: "nat \<Rightarrow> attach_stage option"
  px_pumps :: "nat set"
  px_readers :: "nat set"
  px_watchers :: "nat \<Rightarrow> nat option option"
  px_kills :: "nat list"
  px_seen :: "nat set"
  px_spawned :: "(start_why \<times> nat) list"
  px_out :: "(nat \<times> lsp_sent) list"
  px_in :: "(nat \<times> string) list"
  px_signals :: "(nat \<times> lsp_signal) list"

definition proxy_new :: "nat \<Rightarrow> proxy" where
  "proxy_new now = \<lparr>px_last_used = now, px_stdin = None, px_socket = None, px_restarts = 0, px_closing = False,
     px_reader = None, px_pump = None, px_child = None, px_pid = None, px_starts = Map.empty,
     px_attaching = Map.empty, px_pumps = {}, px_readers = {}, px_watchers = Map.empty, px_kills = [],
     px_seen = {}, px_spawned = [], px_out = [], px_in = [], px_signals = []\<rparr>"

definition send_socket :: "lsp_sent \<Rightarrow> proxy \<Rightarrow> proxy" where
  "send_socket m p = (case px_socket p of None \<Rightarrow> p | Some sock \<Rightarrow> p\<lparr>px_out := px_out p @ [(sock, m)]\<rparr>)"

text \<open>The serialised notices: \<open>show_message\<close> wraps a text as window/showMessage.\<close>

record lsp_texts =
  lt_show_message :: "string \<Rightarrow> string"
  lt_restarted :: string
  lt_shutdown :: string
  lt_exit :: string

text \<open>\<open>attach\<close> up to its start.\<close>

definition attach_begin :: "nat \<Rightarrow> nat \<Rightarrow> proxy \<Rightarrow> proxy" where
  "attach_begin sock now p =
     (let p1 = p\<lparr>px_last_used := now, px_socket := Some sock, px_seen := insert sock (px_seen p),
                px_attaching := (px_attaching p)(sock \<mapsto> Begun)\<rparr>
      in if px_child p = None \<and> px_stdin p = None
         then p1\<lparr>px_starts := (px_starts p1)(ForAttach sock \<mapsto> None)\<rparr> else p1)"

text \<open>\<open>start_impl\<close> up to the child's stdin; \<open>spawned\<close> is what \<open>spawn\<close> gave.\<close>

definition restart_told :: "lsp_texts \<Rightarrow> start_why \<Rightarrow> proxy \<Rightarrow> proxy" where
  "restart_told texts why p =
     (case why of ForRestart _ \<Rightarrow> send_socket (LspText (lt_restarted texts)) p | ForAttach _ \<Rightarrow> p)"

definition start_spawn :: "lsp_texts \<Rightarrow> language \<Rightarrow> start_why \<Rightarrow> nat res \<Rightarrow> proxy \<Rightarrow> proxy" where
  "start_spawn texts language why spawned p =
     (if lp_lsp_command (pack language) = None
      then restart_told texts why (p\<lparr>px_starts := (px_starts p)(why := None)\<rparr>)
      else (case spawned of
          Inl e \<Rightarrow> restart_told texts why
            (send_socket (LspText (lt_show_message texts (''Language server unavailable: '' @ e)))
              (p\<lparr>px_starts := (px_starts p)(why := None)\<rparr>))
        | Inr pid \<Rightarrow> p\<lparr>px_stdin := Some pid, px_starts := (px_starts p)(why \<mapsto> Some pid),
                       px_spawned := px_spawned p @ [(why, pid)]\<rparr>))"

text \<open>The rest of \<open>start_impl\<close>: a child left in the slot is dropped, which kills it.\<close>

definition start_install :: "lsp_texts \<Rightarrow> start_why \<Rightarrow> nat \<Rightarrow> proxy \<Rightarrow> proxy" where
  "start_install texts why pid p =
     restart_told texts why
       (p\<lparr>px_readers := insert pid (px_readers p), px_reader := Some pid, px_pid := Some pid,
         px_signals := px_signals p @ (case px_child p of None \<Rightarrow> [] | Some old \<Rightarrow> [(old, Sigkill)]),
         px_child := Some pid, px_watchers := (px_watchers p)(pid \<mapsto> None),
         px_starts := (px_starts p)(why := None)\<rparr>)"

text \<open>The watcher takes the child that is in the slot, then waits for it to exit.\<close>

definition watcher_take :: "nat \<Rightarrow> proxy \<Rightarrow> proxy" where
  "watcher_take w p =
     p\<lparr>px_watchers := (px_watchers p)(w := (case px_child p of None \<Rightarrow> None | Some c \<Rightarrow> Some (Some c))),
       px_child := None\<rparr>"

definition watcher_exit :: "lsp_texts \<Rightarrow> nat \<Rightarrow> proxy \<Rightarrow> proxy" where
  "watcher_exit texts w p =
     (let p1 = p\<lparr>px_stdin := None, px_pid := None, px_watchers := (px_watchers p)(w := None)\<rparr>
      in if px_closing p1 then p1
         else
           let p2 = p1\<lparr>px_restarts := px_restarts p1 + 1\<rparr>
           in if px_restarts p1 = 0 then p2\<lparr>px_starts := (px_starts p2)(ForRestart w \<mapsto> None)\<rparr>
              else send_socket (LspText (lt_show_message texts
                     ''Language server stopped twice; editor continues in degraded mode.'')) p2)"

text \<open>\<open>attach\<close> after its start: the pump is spawned, then swapped in.\<close>

definition attach_pump :: "nat \<Rightarrow> proxy \<Rightarrow> proxy" where
  "attach_pump sock p =
     p\<lparr>px_pumps := insert sock (px_pumps p), px_attaching := (px_attaching p)(sock \<mapsto> Pumping)\<rparr>"

definition attach_swap :: "nat \<Rightarrow> proxy \<Rightarrow> proxy" where
  "attach_swap sock p =
     p\<lparr>px_socket := Some sock, px_pump := Some sock, px_attaching := (px_attaching p)(sock := None),
       px_pumps := px_pumps p - (case px_pump p of None \<Rightarrow> {} | Some old \<Rightarrow> {old})\<rparr>"

text \<open>A text frame of the editor: \<open>parse\<close> gives the value when it is JSON, \<open>is_object\<close> says
  whether it is an object, \<open>ser\<close> writes it again.\<close>

definition pump_text ::
  "(string \<Rightarrow> 'v res) \<Rightarrow> ('v \<Rightarrow> bool) \<Rightarrow> ('v \<Rightarrow> string) \<Rightarrow> nat \<Rightarrow> nat \<Rightarrow> string \<Rightarrow> proxy \<Rightarrow> proxy" where
  "pump_text parse is_object ser sock now content p =
     (case (if length content > MAX_LSP_MESSAGE then Inl [] else parse content) of
        Inl _ \<Rightarrow> p\<lparr>px_pumps := px_pumps p - {sock}\<rparr>
      | Inr v \<Rightarrow>
          if \<not> is_object v then p\<lparr>px_pumps := px_pumps p - {sock}\<rparr>
          else
            let p1 = p\<lparr>px_last_used := now\<rparr>
            in (case px_stdin p1 of None \<Rightarrow> p1
                | Some pid \<Rightarrow> p1\<lparr>px_in := px_in p1 @ [(pid, frame_of ser v)]\<rparr>))"

text \<open>\<open>close\<close>, and the SIGKILL half a second later if the server is still there.\<close>

definition frame_text :: "string \<Rightarrow> string" where
  "frame_text body = frame_of (\<lambda>b. b) body"

definition close_proxy :: "lsp_texts \<Rightarrow> proxy \<Rightarrow> proxy" where
  "close_proxy texts p =
     p\<lparr>px_closing := True,
       px_in := px_in p @ (case px_stdin p of None \<Rightarrow> []
         | Some pid \<Rightarrow> [(pid, frame_text (lt_shutdown texts)), (pid, frame_text (lt_exit texts))]),
       px_reader := None, px_readers := px_readers p - (case px_reader p of None \<Rightarrow> {} | Some r \<Rightarrow> {r}),
       px_pump := None, px_pumps := px_pumps p - (case px_pump p of None \<Rightarrow> {} | Some sock \<Rightarrow> {sock}),
       px_child := None,
       px_signals := px_signals p @ (case px_child p of None \<Rightarrow> [] | Some c \<Rightarrow> [(c, Sigkill)])
         @ (case px_pid p of None \<Rightarrow> [] | Some pid \<Rightarrow> [(pid, Sigterm)]),
       px_kills := px_kills p @ (case px_pid p of None \<Rightarrow> [] | Some pid \<Rightarrow> [pid]),
       px_stdin := None, px_socket := None\<rparr>"

definition enforce_kill :: "nat \<Rightarrow> proxy \<Rightarrow> proxy" where
  "enforce_kill pid p =
     (let p1 = p\<lparr>px_kills := remove1 pid (px_kills p)\<rparr>
      in if px_pid p1 = Some pid then p1\<lparr>px_signals := px_signals p1 @ [(pid, Sigkill)]\<rparr> else p1)"

text \<open>\<open>close_idle\<close> says why first.\<close>

definition IDLE_CLOSE_CODE :: nat where "IDLE_CLOSE_CODE = 4000"

definition notice_idle :: "proxy \<Rightarrow> proxy" where
  "notice_idle p = send_socket (LspClose IDLE_CLOSE_CODE ''idle'') p"

definition close_idle :: "lsp_texts \<Rightarrow> proxy \<Rightarrow> proxy" where
  "close_idle texts p = close_proxy texts (notice_idle p)"

section \<open>A proxy's steps\<close>

datatype lsp_action =
    LspAttach nat nat
  | LspSpawn start_why "nat res"
  | LspInstall start_why
  | LspTake nat
  | LspExit nat
  | LspPump nat
  | LspSwap nat
  | LspText_in nat nat string
  | LspHangup nat
  | LspForward nat string
  | LspBadFraming nat string
  | LspReaderEnd nat
  | LspNotice
  | LspCloseIt
  | LspKill nat

text \<open>Sockets and processes are new when they come; \<open>attach\<close> goes on when its start is over.\<close>

fun lsp_act ::
  "lsp_texts \<Rightarrow> language \<Rightarrow> (string \<Rightarrow> 'v res) \<Rightarrow> ('v \<Rightarrow> bool) \<Rightarrow> ('v \<Rightarrow> string) \<Rightarrow> lsp_action \<Rightarrow> proxy \<Rightarrow> proxy option"
where
  "lsp_act texts l parse is_object ser (LspAttach sock now) p =
     (if sock \<in> px_seen p then None else Some (attach_begin sock now p))"
| "lsp_act texts l parse is_object ser (LspSpawn why spawned) p =
     (if px_starts p why = Some None \<and> (\<forall>pid. spawned = Inr pid \<longrightarrow> pid \<notin> snd ` set (px_spawned p))
      then Some (start_spawn texts l why spawned p) else None)"
| "lsp_act texts l parse is_object ser (LspInstall why) p =
     (case px_starts p why of Some (Some pid) \<Rightarrow> Some (start_install texts why pid p) | _ \<Rightarrow> None)"
| "lsp_act texts l parse is_object ser (LspTake w) p =
     (if px_watchers p w = Some None then Some (watcher_take w p) else None)"
| "lsp_act texts l parse is_object ser (LspExit w) p =
     (case px_watchers p w of Some (Some c) \<Rightarrow> Some (watcher_exit texts w p) | _ \<Rightarrow> None)"
| "lsp_act texts l parse is_object ser (LspPump sock) p =
     (if px_attaching p sock = Some Begun \<and> px_starts p (ForAttach sock) = None
      then Some (attach_pump sock p) else None)"
| "lsp_act texts l parse is_object ser (LspSwap sock) p =
     (if px_attaching p sock = Some Pumping then Some (attach_swap sock p) else None)"
| "lsp_act texts l parse is_object ser (LspText_in sock now content) p =
     (if sock \<in> px_pumps p then Some (pump_text parse is_object ser sock now content p) else None)"
| "lsp_act texts l parse is_object ser (LspHangup sock) p = Some (p\<lparr>px_pumps := px_pumps p - {sock}\<rparr>)"
| "lsp_act texts l parse is_object ser (LspForward pid message) p =
     (if pid \<in> px_readers p then Some (send_socket (LspText message) p) else None)"
| "lsp_act texts l parse is_object ser (LspBadFraming pid e) p =
     (if pid \<in> px_readers p
      then Some (send_socket (LspText (lt_show_message texts (''Invalid ZLS framing: '' @ e)))
             (p\<lparr>px_readers := px_readers p - {pid}\<rparr>)) else None)"
| "lsp_act texts l parse is_object ser (LspReaderEnd pid) p = Some (p\<lparr>px_readers := px_readers p - {pid}\<rparr>)"
| "lsp_act texts l parse is_object ser LspNotice p = Some (notice_idle p)"
| "lsp_act texts l parse is_object ser LspCloseIt p = Some (close_proxy texts p)"
| "lsp_act texts l parse is_object ser (LspKill pid) p =
     (if pid \<in> set (px_kills p) then Some (enforce_kill pid p) else None)"

inductive lsp_reach ::
  "lsp_texts \<Rightarrow> language \<Rightarrow> (string \<Rightarrow> 'v res) \<Rightarrow> ('v \<Rightarrow> bool) \<Rightarrow> ('v \<Rightarrow> string) \<Rightarrow> proxy \<Rightarrow> proxy \<Rightarrow> bool"
  for texts l parse is_object ser p0 where
  lsp_start: "lsp_reach texts l parse is_object ser p0 p0"
| lsp_next: "lsp_reach texts l parse is_object ser p0 p \<Longrightarrow> lsp_act texts l parse is_object ser a p = Some p'
     \<Longrightarrow> lsp_reach texts l parse is_object ser p0 p'"

text \<open>The invariant of every interleaving.  Starts and spawns: each reason started at most
  once, restarts at most once in the proxy's life.  Pumps: the swapped one and those of attaches
  under way.\<close>

definition reasons :: "proxy \<Rightarrow> start_why set" where
  "reasons p = fst ` set (px_spawned p) \<union> {why. px_starts p why = Some None}"

definition starts_inv :: "proxy \<Rightarrow> bool" where
  "starts_inv p \<longleftrightarrow> distinct (map fst (px_spawned p)) \<and> finite (px_seen p)
     \<and> (\<forall>why\<in>fst ` set (px_spawned p). px_starts p why \<noteq> Some None)
     \<and> (\<exists>w. reasons p \<subseteq> ForAttach ` px_seen p \<union> (if px_restarts p = 0 then {} else {ForRestart w}))"

definition pumps_inv :: "proxy \<Rightarrow> bool" where
  "pumps_inv p \<longleftrightarrow> dom (px_attaching p) \<subseteq> px_seen p
     \<and> (\<forall>sock. px_pump p = Some sock \<longrightarrow> sock \<in> px_seen p \<and> px_attaching p sock = None)
     \<and> px_pumps p \<subseteq> {sock. px_attaching p sock = Some Pumping \<or> px_pump p = Some sock}
     \<and> (px_attaching p = Map.empty \<longrightarrow> px_socket p = px_pump p)"

definition proxy_inv :: "proxy \<Rightarrow> bool" where
  "proxy_inv p \<longleftrightarrow> starts_inv p \<and> pumps_inv p"

lemmas inv_defs = starts_inv_def pumps_inv_def

lemma inv_frame [simp]:
  "proxy_inv (p\<lparr>px_last_used := a\<rparr>) = proxy_inv p" "proxy_inv (p\<lparr>px_stdin := b\<rparr>) = proxy_inv p"
  "proxy_inv (p\<lparr>px_closing := c\<rparr>) = proxy_inv p" "proxy_inv (p\<lparr>px_reader := d\<rparr>) = proxy_inv p"
  "proxy_inv (p\<lparr>px_child := e\<rparr>) = proxy_inv p" "proxy_inv (p\<lparr>px_pid := f\<rparr>) = proxy_inv p"
  "proxy_inv (p\<lparr>px_readers := g\<rparr>) = proxy_inv p" "proxy_inv (p\<lparr>px_watchers := h\<rparr>) = proxy_inv p"
  "proxy_inv (p\<lparr>px_kills := i\<rparr>) = proxy_inv p" "proxy_inv (p\<lparr>px_out := j\<rparr>) = proxy_inv p"
  "proxy_inv (p\<lparr>px_in := k\<rparr>) = proxy_inv p" "proxy_inv (p\<lparr>px_signals := m\<rparr>) = proxy_inv p"
  by (simp_all add: proxy_inv_def inv_defs reasons_def)

lemma send_socket_inv [simp]: "proxy_inv (send_socket m p) = proxy_inv p"
  by (simp add: send_socket_def split: option.split)

lemma restart_told_inv [simp]: "proxy_inv (restart_told texts why p) = proxy_inv p"
  by (simp add: restart_told_def split: start_why.split)

lemma proxy_inv_new: "proxy_inv (proxy_new now)"
  by (simp add: proxy_inv_def inv_defs proxy_new_def reasons_def)

lemma starts_inv_mono:
  assumes "starts_inv p" "reasons q \<subseteq> reasons p" "px_seen q = px_seen p" "px_restarts q = px_restarts p"
    "distinct (map fst (px_spawned q))" "\<forall>why\<in>fst ` set (px_spawned q). px_starts q why \<noteq> Some None"
  shows "starts_inv q"
  using assms unfolding starts_inv_def by (metis (no_types, lifting) subset_trans)

lemma starts_inv_same:
  "starts_inv p \<Longrightarrow> px_spawned q = px_spawned p \<Longrightarrow> px_starts q = px_starts p \<Longrightarrow> px_seen q = px_seen p
     \<Longrightarrow> px_restarts q = px_restarts p \<Longrightarrow> starts_inv q"
  by (simp add: starts_inv_def reasons_def)

lemma fewer_starts_inv: "proxy_inv p \<Longrightarrow> proxy_inv (p\<lparr>px_starts := (px_starts p)(why := None)\<rparr>)" (is "_ \<Longrightarrow> proxy_inv ?q")
proof -
  assume a: "proxy_inv p"
  have "starts_inv ?q"
    by (rule starts_inv_mono [of p]) (use a in \<open>auto simp: reasons_def proxy_inv_def starts_inv_def split: if_splits\<close>)
  then show ?thesis using a by (simp add: proxy_inv_def pumps_inv_def)
qed

lemma fewer_starts_inv': "proxy_inv q \<Longrightarrow> px_starts q = f \<Longrightarrow> proxy_inv (q\<lparr>px_starts := f(why := None)\<rparr>)"
  using fewer_starts_inv by blast

lemma fewer_pumps_inv: "proxy_inv p \<Longrightarrow> proxy_inv (p\<lparr>px_pumps := px_pumps p - A\<rparr>)"
  by (auto simp: proxy_inv_def inv_defs reasons_def split del: if_split)

lemma spawn_inv:
  assumes "proxy_inv p" "px_starts p why = Some None"
  shows "proxy_inv (p\<lparr>px_stdin := Some pid, px_starts := (px_starts p)(why \<mapsto> Some pid),
    px_spawned := px_spawned p @ [(why, pid)]\<rparr>)" (is "proxy_inv ?q")
proof -
  have "reasons ?q = reasons p" using assms(2) by (auto simp: reasons_def)
  moreover have "\<forall>y\<in>fst ` set (px_spawned ?q). px_starts ?q y \<noteq> Some None"
    using assms by (auto simp: proxy_inv_def starts_inv_def)
  moreover have "distinct (map fst (px_spawned ?q))"
    using assms by (auto simp: proxy_inv_def starts_inv_def)
  ultimately show ?thesis
    using assms(1) unfolding proxy_inv_def inv_defs by (simp split del: if_split)
qed

lemma attach_begin_inv:
  assumes "proxy_inv p" "sock \<notin> px_seen p"
  shows "proxy_inv (attach_begin sock now p)"
proof -
  obtain w where w: "reasons p \<subseteq> ForAttach ` px_seen p \<union> (if px_restarts p = 0 then {} else {ForRestart w})"
    using assms(1) by (auto simp: proxy_inv_def starts_inv_def)
  then have new: "ForAttach sock \<notin> reasons p" using assms(2) by (auto split: if_splits)
  then have new2: "(ForAttach sock, b) \<notin> set (px_spawned p)" for b by (force simp: reasons_def)
  have r: "reasons (attach_begin sock now p) \<subseteq> insert (ForAttach sock) (reasons p)"
    by (auto simp: attach_begin_def reasons_def Let_def split: if_splits)
  have "starts_inv (attach_begin sock now p)"
    unfolding starts_inv_def
  proof (intro conjI exI)
    show "reasons (attach_begin sock now p) \<subseteq> ForAttach ` px_seen (attach_begin sock now p)
        \<union> (if px_restarts (attach_begin sock now p) = 0 then {} else {ForRestart w})"
      using r w by (auto simp: attach_begin_def Let_def split: if_splits)
  qed (use assms(1) new new2 in \<open>auto simp: proxy_inv_def starts_inv_def attach_begin_def Let_def reasons_def\<close>)
  moreover have "px_attaching p sock = None" "px_pump p \<noteq> Some sock"
    using assms by (auto simp: proxy_inv_def pumps_inv_def)
  then have "pumps_inv (attach_begin sock now p)"
    using assms(1) by (auto simp: proxy_inv_def pumps_inv_def attach_begin_def Let_def)
  ultimately show ?thesis by (simp add: proxy_inv_def)
qed

lemma watcher_exit_inv: "proxy_inv p \<Longrightarrow> proxy_inv (watcher_exit texts w p)"
proof -
  assume a: "proxy_inv p"
  show ?thesis
  proof (cases "px_restarts p = 0 \<and> \<not> px_closing p")
    case True
    then have none: "reasons p \<subseteq> ForAttach ` px_seen p"
      using a by (auto simp: proxy_inv_def starts_inv_def)
    have r: "reasons (watcher_exit texts w p) \<subseteq> insert (ForRestart w) (reasons p)"
      using True by (auto simp: watcher_exit_def reasons_def Let_def)
    have new: "ForRestart w \<notin> reasons p" using none by auto
    then have new2: "(ForRestart w, b) \<notin> set (px_spawned p)" for b by (force simp: reasons_def)
    have "starts_inv (watcher_exit texts w p)"
      unfolding starts_inv_def
    proof (intro conjI exI)
      show "reasons (watcher_exit texts w p) \<subseteq> ForAttach ` px_seen (watcher_exit texts w p)
          \<union> (if px_restarts (watcher_exit texts w p) = 0 then {} else {ForRestart w})"
        using r none True by (auto simp: watcher_exit_def Let_def)
    qed (use a True new new2 in \<open>auto simp: proxy_inv_def starts_inv_def watcher_exit_def Let_def reasons_def\<close>)
    then show ?thesis using a True by (simp add: proxy_inv_def pumps_inv_def watcher_exit_def Let_def)
  next
    case False
    then show ?thesis using a
      by (auto simp: watcher_exit_def Let_def) (auto simp: proxy_inv_def inv_defs reasons_def split: if_splits)
  qed
qed

lemma attach_swap_inv: "proxy_inv p \<Longrightarrow> px_attaching p sock = Some Pumping \<Longrightarrow> proxy_inv (attach_swap sock p)"
  unfolding proxy_inv_def
  by (intro conjI, rule starts_inv_same [of p])
    (auto simp: pumps_inv_def attach_swap_def split: option.splits if_splits)

lemma attach_pump_inv: "proxy_inv p \<Longrightarrow> px_attaching p sock = Some Begun \<Longrightarrow> proxy_inv (attach_pump sock p)"
  unfolding proxy_inv_def
  by (intro conjI, rule starts_inv_same [of p])
    (auto simp: pumps_inv_def attach_pump_def split: if_splits)

lemma close_inv: "proxy_inv p \<Longrightarrow> proxy_inv (close_proxy texts p)"
  unfolding proxy_inv_def
  by (intro conjI, rule starts_inv_same [of p])
    (auto simp: pumps_inv_def close_proxy_def split: option.splits)

lemma pump_text_inv: "proxy_inv p \<Longrightarrow> proxy_inv (pump_text parse is_object ser sock now content p)"
  by (simp add: pump_text_def Let_def fewer_pumps_inv split: sum.split option.split)

lemma lsp_act_inv:
  assumes "proxy_inv p" "lsp_act texts l parse is_object ser a p = Some p'"
  shows "proxy_inv p'"
proof (cases a)
  case (LspSpawn why spawned)
  with assms show ?thesis
    by (cases spawned) (auto simp: start_spawn_def spawn_inv fewer_starts_inv split: if_splits)
next
  case (LspInstall why)
  with assms show ?thesis
    by (auto simp: start_install_def intro!: fewer_starts_inv' split: option.splits)
next
  case (LspTake w)
  with assms show ?thesis by (auto simp: watcher_take_def split: if_splits)
next
  case (LspKill pid)
  with assms show ?thesis by (auto simp: enforce_kill_def Let_def split: if_splits)
qed (use assms in \<open>auto simp: attach_begin_inv watcher_exit_inv attach_pump_inv attach_swap_inv pump_text_inv
    fewer_pumps_inv notice_idle_def close_inv split: if_splits option.splits\<close>)

lemma lsp_reach_inv: "lsp_reach texts l parse is_object ser p0 p \<Longrightarrow> proxy_inv p0 \<Longrightarrow> proxy_inv p"
  by (induction rule: lsp_reach.induct) (auto intro: lsp_act_inv)


text \<open>A language server that keeps crashing is not started for ever: over a proxy's life
  there are at most as many servers as editors attached, and one more.\<close>

theorem servers_are_not_respawned_forever:
  assumes "lsp_reach texts l parse is_object ser (proxy_new start) p"
  shows "finite (px_seen p) \<and> length (px_spawned p) \<le> card (px_seen p) + 1"
proof -
  have inv: "starts_inv p" using lsp_reach_inv [OF assms proxy_inv_new] by (simp add: proxy_inv_def)
  then obtain w where w: "reasons p \<subseteq> ForAttach ` px_seen p \<union> {ForRestart w}"
    by (auto simp: starts_inv_def split: if_splits)
  have fin: "finite (px_seen p)" using inv by (simp add: starts_inv_def)
  have "length (px_spawned p) = card (fst ` set (px_spawned p))"
    using inv distinct_card [of "map fst (px_spawned p)"] by (simp add: starts_inv_def)
  also have "\<dots> \<le> card (ForAttach ` px_seen p \<union> {ForRestart w})"
    using w fin by (intro card_mono) (auto simp: reasons_def)
  also have "\<dots> \<le> card (ForAttach ` px_seen p) + card {ForRestart w}" by (rule card_Un_le)
  also have "\<dots> \<le> card (px_seen p) + 1" using card_image_le [OF fin, of ForAttach] by simp
  finally show ?thesis using fin by simp
qed

section \<open>The registry\<close>

text \<open>Proxies by session and language; the ones taken out are returned to be closed.\<close>

type_synonym lsp_registry = "(string \<times> proxy) list"

definition proxy_key :: "string \<Rightarrow> language \<Rightarrow> string" where
  "proxy_key session l = session @ '':'' @ as_str_language l"

definition registry_entry :: "nat \<Rightarrow> string \<Rightarrow> language \<Rightarrow> lsp_registry \<Rightarrow> proxy \<times> lsp_registry" where
  "registry_entry now session l reg =
     (case map_of reg (proxy_key session l) of
        Some p \<Rightarrow> (p, reg)
      | None \<Rightarrow> (proxy_new now, reg @ [(proxy_key session l, proxy_new now)]))"

text \<open>\<open>saturating_sub\<close> is the subtraction of naturals.\<close>

definition reap_idle_servers :: "lsp_texts \<Rightarrow> nat \<Rightarrow> nat \<Rightarrow> lsp_registry \<Rightarrow> proxy list \<times> lsp_registry" where
  "reap_idle_servers texts now idle reg =
     (let cutoff = now - idle; stale = (\<lambda>(key, p). px_last_used p < cutoff)
      in (map (\<lambda>(key, p). close_idle texts p) (filter stale reg), filter (\<lambda>e. \<not> stale e) reg))"

definition close_session_servers :: "lsp_texts \<Rightarrow> string \<Rightarrow> lsp_registry \<Rightarrow> proxy list \<times> lsp_registry" where
  "close_session_servers texts session reg =
     (let ours = (\<lambda>(key, p). starts_with key (session @ '':''))
      in (map (\<lambda>(key, p). close_proxy texts p) (filter ours reg), filter (\<lambda>e. \<not> ours e) reg))"

fun count_language :: "string \<Rightarrow> (string \<times> nat) list \<Rightarrow> (string \<times> nat) list" where
  "count_language l [] = [(l, 1)]"
| "count_language l ((l', n) # counts) = (if l' = l then (l', n + 1) # counts else (l', n) # count_language l counts)"

definition running_servers :: "(language \<times> proxy) list \<Rightarrow> (string \<times> nat) list" where
  "running_servers proxies =
     foldl (\<lambda>counts (l, p). if px_pid p = None then counts else count_language (as_str_language l) counts) [] proxies"

lemma colon_prefix: "CHR '':'' \<notin> set a \<Longrightarrow> CHR '':'' \<notin> set b \<Longrightarrow> starts_with (a @ '':'' @ x) (b @ '':'') \<longleftrightarrow> a = b"
proof (induction a arbitrary: b)
  case Nil
  then show ?case by (cases b) (auto simp: starts_with_def)
next
  case (Cons c a)
  then show ?case by (cases b) (auto simp: starts_with_def)
qed

text \<open>Session ids are UUIDs, so no session's prefix hides another's: closing a session stops
  its own servers and no others.\<close>

lemma close_session_own:
  assumes "\<forall>(key, p)\<in>set reg. \<exists>s l. key = proxy_key s l \<and> CHR '':'' \<notin> set s" and "CHR '':'' \<notin> set session"
  shows "set (snd (close_session_servers texts session reg))
    = {(key, p) \<in> set reg. \<forall>l. key \<noteq> proxy_key session l}"
proof -
  have "starts_with key (session @ '':'') \<longleftrightarrow> (\<exists>l. key = proxy_key session l)" if "(key, p) \<in> set reg" for key p
  proof -
    obtain s l where k: "key = proxy_key s l" "CHR '':'' \<notin> set s" using assms(1) \<open>(key, p) \<in> set reg\<close> by auto
    have "starts_with key (session @ '':'') \<longleftrightarrow> s = session"
      using colon_prefix [OF k(2) assms(2), of "as_str_language l"] by (simp add: k(1) proxy_key_def)
    moreover have "(\<exists>l'. key = proxy_key session l') \<longleftrightarrow> s = session"
    proof
      assume "\<exists>l'. key = proxy_key session l'"
      then obtain l' where "s @ '':'' @ as_str_language l = session @ '':'' @ as_str_language l'"
        by (auto simp: k(1) proxy_key_def)
      then show "s = session" using colon_prefix [OF k(2) assms(2), of "as_str_language l"]
        by (metis append_assoc starts_with_append)
    qed (use k in auto)
    ultimately show ?thesis by blast
  qed
  then show ?thesis by (auto simp: close_session_servers_def Let_def)
qed

text \<open>What the reaper stops is closed for good and told why.\<close>

lemma reap_idle_servers_spec:
  "set (snd (reap_idle_servers texts now idle reg)) = {(key, p) \<in> set reg. now - idle \<le> px_last_used p}"
  "p \<in> set (fst (reap_idle_servers texts now idle reg)) \<Longrightarrow>
     px_closing p \<and> px_stdin p = None \<and> px_socket p = None \<and> px_pump p = None"
  by (auto simp: reap_idle_servers_def Let_def close_idle_def close_proxy_def)

definition demo_texts :: lsp_texts where
  "demo_texts = \<lparr>lt_show_message = (\<lambda>t. t), lt_restarted = ''again'', lt_shutdown = ''shutdown'', lt_exit = ''exit''\<rparr>"

text \<open>An editor attaches, its server crashes and is started again, a second editor takes over.\<close>

definition demo_lsp_acts :: "lsp_action list" where
  "demo_lsp_acts = [LspAttach 1 0, LspSpawn (ForAttach 1) (Inr 10), LspInstall (ForAttach 1), LspTake 10,
     LspPump 1, LspSwap 1, LspExit 10, LspSpawn (ForRestart 10) (Inr 11), LspInstall (ForRestart 10),
     LspAttach 2 5, LspPump 2, LspSwap 2]"

fun lsp_acts :: "lsp_action list \<Rightarrow> proxy \<Rightarrow> proxy option" where
  "lsp_acts [] p = Some p"
| "lsp_acts (a # as) p =
     (case lsp_act demo_texts Zig demo_de (\<lambda>_. True) demo_ser a p of None \<Rightarrow> None | Some p' \<Rightarrow> lsp_acts as p')"

lemma lsp_acts_reach:
  "lsp_reach demo_texts Zig demo_de (\<lambda>_. True) demo_ser p0 p \<Longrightarrow> lsp_acts as p = Some q \<Longrightarrow>
     lsp_reach demo_texts Zig demo_de (\<lambda>_. True) demo_ser p0 q"
  by (induction as arbitrary: p) (auto split: option.splits intro: lsp_next)

lemma zig_lsp: "lp_lsp_command (pack Zig) = Some ''zls''"
  by (simp add: pack_def PACKS_def zig_pack_def)

lemma demo_lsp_run:
  "\<exists>q. lsp_acts demo_lsp_acts (proxy_new 0) = Some q \<and> px_attaching q = Map.empty \<and> px_pumps q = {2}
     \<and> px_readers q = {10, 11} \<and> length (px_spawned q) = 2 \<and> px_seen q = {1, 2}"
  by (simp add: demo_lsp_acts_def proxy_new_def attach_begin_def start_spawn_def start_install_def watcher_take_def
      watcher_exit_def attach_pump_def attach_swap_def restart_told_def send_socket_def zig_lsp Let_def) auto


lemma servers_are_not_respawned_forever_witness:
  "\<exists>p. lsp_acts demo_lsp_acts (proxy_new 0) = Some p \<and> length (px_spawned p) = 2 \<and> card (px_seen p) + 1 = 3"
proof -
  obtain p where p: "lsp_acts demo_lsp_acts (proxy_new 0) = Some p" "length (px_spawned p) = 2" "px_seen p = {1, 2}"
    using demo_lsp_run by blast
  then show ?thesis using servers_are_not_respawned_forever [OF lsp_acts_reach [OF lsp_start p(1)]] by simp
qed

end
