(* ===== verification/Preferences.thy ===== *)
theory Preferences
  imports Workspace "HOL-Library.AList"
begin

text \<open>
  src/apps/server-rs/src/domain/preferences.rs: the key-value settings every
  device of the server shares, one JSON file merged key by key.  \<open>parse\<close> and
  \<open>render\<close> are serde's reading and writing of the object; \<open>merge_at\<close> holds
  WRITE_LOCK from its read to its write, so it is one step.  The specification
  is a map with a patch applied to it.
\<close>

section \<open>Operations\<close>

definition PREFERENCES_FILE :: string where "PREFERENCES_FILE = ''preferences.json''"

definition MAX_KEYS :: nat where "MAX_KEYS = 64"
definition MAX_KEY_BYTES :: nat where "MAX_KEY_BYTES = 128"
definition MAX_VALUE_BYTES :: nat where "MAX_VALUE_BYTES = 16 * 1024"

type_synonym preferences = "(string \<times> string) list"

definition preferences_path :: "string option \<Rightarrow> path \<Rightarrow> path" where
  "preferences_path explicit data =
     (case explicit of Some e \<Rightarrow> path_of e | None \<Rightarrow> path_join data PREFERENCES_FILE)"

text \<open>\<open>file\<close> is the text of the file, \<open>None\<close> when it cannot be read.\<close>

definition read_at :: "(string \<Rightarrow> preferences option) \<Rightarrow> string option \<Rightarrow> preferences" where
  "read_at parse file = (case Option.bind file parse of None \<Rightarrow> [] | Some p \<Rightarrow> p)"

fun check_patch :: "preferences_patch \<Rightarrow> unit res" where
  "check_patch [] = Inr ()"
| "check_patch ((key, value) # rest) =
     (if key = [] \<or> length key > MAX_KEY_BYTES then Inl ''Invalid preference key''
      else if (case value of None \<Rightarrow> False | Some v \<Rightarrow> length v > MAX_VALUE_BYTES)
      then Inl ''Preference value is too large''
      else check_patch rest)"

fun apply_patch :: "preferences_patch \<Rightarrow> preferences \<Rightarrow> preferences" where
  "apply_patch [] stored = stored"
| "apply_patch ((key, Some value) # rest) stored = apply_patch rest (AList.update key value stored)"
| "apply_patch ((key, None) # rest) stored = apply_patch rest (AList.delete key stored)"

record pref_faults =
  pf_mkdir :: "string option"
  pf_write :: "string option"
  pf_rename :: "string option"

definition first_fault :: "pref_faults \<Rightarrow> string option" where
  "first_fault io = (case pf_mkdir io of Some e \<Rightarrow> Some e | None \<Rightarrow>
     (case pf_write io of Some e \<Rightarrow> Some e | None \<Rightarrow> pf_rename io))"

text \<open>The result and the file afterwards; the temporary beside it is not read by anyone.\<close>

definition merge_at ::
  "(string \<Rightarrow> preferences option) \<Rightarrow> (preferences \<Rightarrow> string) \<Rightarrow> pref_faults \<Rightarrow> preferences_patch
   \<Rightarrow> string option \<Rightarrow> preferences res \<times> string option" where
  "merge_at parse render io patch file =
     (case check_patch patch of
        Inl e \<Rightarrow> (Inl e, file)
      | Inr _ \<Rightarrow>
          let stored = apply_patch patch (read_at parse file)
          in if length stored > MAX_KEYS then (Inl ''Too many preferences'', file)
             else (case first_fault io of
                     Some e \<Rightarrow> (Inl e, file)
                   | None \<Rightarrow> (Inr stored, Some (render stored))))"

section \<open>The specification\<close>

definition patched :: "preferences_patch \<Rightarrow> (string \<Rightarrow> string option) \<Rightarrow> string \<Rightarrow> string option" where
  "patched patch m key = (case map_of patch key of None \<Rightarrow> m key | Some value \<Rightarrow> value)"

lemma apply_patch_map:
  "distinct (map fst patch) \<Longrightarrow> map_of (apply_patch patch stored) = patched patch (map_of stored)"
proof (induction patch stored rule: apply_patch.induct)
  case (2 key v rest stored)
  then have "map_of rest key = None" by (simp add: map_of_eq_None_iff)
  with 2 show ?case by (auto simp: patched_def fun_eq_iff update_conv')
next
  case (3 key rest stored)
  then have "map_of rest key = None" by (simp add: map_of_eq_None_iff)
  with 3 show ?case by (auto simp: patched_def fun_eq_iff delete_conv')
qed (simp add: patched_def fun_eq_iff)

lemma apply_patch_distinct:
  "distinct (map fst stored) \<Longrightarrow> distinct (map fst (apply_patch patch stored))"
  by (induction patch stored rule: apply_patch.induct) (simp_all add: distinct_update distinct_delete)

lemma check_patch_Inr:
  "check_patch patch = Inr () \<longleftrightarrow>
     (\<forall>(k, v)\<in>set patch. k \<noteq> [] \<and> length k \<le> MAX_KEY_BYTES
        \<and> (\<forall>t. v = Some t \<longrightarrow> length t \<le> MAX_VALUE_BYTES))"
  by (induction patch rule: check_patch.induct) (auto split: option.splits)

section \<open>Properties\<close>

text \<open>Saving preferences merges: an accepted patch changes exactly the keys it
  names (a null removes one) and leaves every key another device set, at most 64
  keys are stored, and the next read gives what the call returned; a refused
  one leaves the file as it was.\<close>
theorem preferences_merge:
  assumes "\<And>p. parse (render p) = Some p" and "distinct (map fst patch)"
    and "merge_at parse render io patch file = (r, file')"
  shows "(\<exists>stored. r = Inr stored \<and> read_at parse file' = stored \<and> length stored \<le> MAX_KEYS
            \<and> map_of stored = patched patch (map_of (read_at parse file)))
    \<or> (\<exists>e. r = Inl e \<and> file' = file)"
  using assms(2,3)
  by (auto simp: merge_at_def Let_def read_at_def assms(1) apply_patch_map
      split: sum.splits if_splits option.splits)

definition enc_text :: "string \<Rightarrow> string" where
  "enc_text s = enc_nat (length s) @ s"

definition demo_render_prefs :: "preferences \<Rightarrow> string" where
  "demo_render_prefs p = enc_nat (length p) @ concat (map (\<lambda>(k, v). enc_text k @ enc_text v) p)"

definition dec_text :: "string \<Rightarrow> string \<times> string" where
  "dec_text s = (case dec_nat s of (n, r) \<Rightarrow> (take n r, drop n r))"

fun dec_pairs :: "nat \<Rightarrow> string \<Rightarrow> preferences" where
  "dec_pairs 0 s = []"
| "dec_pairs (Suc n) s = (case dec_text s of (k, s1) \<Rightarrow> case dec_text s1 of (v, s2) \<Rightarrow> (k, v) # dec_pairs n s2)"

definition demo_parse_prefs :: "string \<Rightarrow> preferences option" where
  "demo_parse_prefs s = (case dec_nat s of (n, r) \<Rightarrow> Some (dec_pairs n r))"

lemma dec_pairs_enc: "dec_pairs (length p) (concat (map (\<lambda>(k, v). enc_text k @ enc_text v) p)) = p"
  by (induction p) (auto simp: enc_text_def dec_text_def)

lemma demo_codec_prefs: "demo_parse_prefs (demo_render_prefs p) = Some p"
  by (simp add: demo_parse_prefs_def demo_render_prefs_def dec_pairs_enc)

lemma preferences_merge_witness:
  "(\<exists>stored. fst (merge_at demo_parse_prefs demo_render_prefs
          \<lparr>pf_mkdir = None, pf_write = None, pf_rename = None\<rparr> [(''theme'', Some ''dark'')]
          (Some (demo_render_prefs [(''font'', ''14'')]))) = Inr stored
      \<and> map_of stored ''font'' = Some ''14'' \<and> map_of stored ''theme'' = Some ''dark'')"
  using preferences_merge [OF demo_codec_prefs, of "[(''theme'', Some ''dark'')]"
      "\<lparr>pf_mkdir = None, pf_write = None, pf_rename = None\<rparr>" "Some (demo_render_prefs [(''font'', ''14'')])"
      "fst (merge_at demo_parse_prefs demo_render_prefs
          \<lparr>pf_mkdir = None, pf_write = None, pf_rename = None\<rparr> [(''theme'', Some ''dark'')]
          (Some (demo_render_prefs [(''font'', ''14'')])))"]
  by (auto simp: patched_def read_at_def demo_codec_prefs merge_at_def Let_def first_fault_def
      MAX_KEY_BYTES_def MAX_VALUE_BYTES_def MAX_KEYS_def)

end
