(* ===== verification/Http.thy ===== *)
theory Http
  imports Sessions Preferences
begin

text \<open>
  src/apps/server-rs/src/http and the parts of main.rs a request passes through: the guards,
  every route's handler, the proxy to a program run as a server, and the cache headers.  The
  state is \<open>AppState\<close> with the files its handlers keep; what a handler meets outside is one
  record, \<open>http_io\<close>.  A handler gives its answer and the state it leaves.  The http crate's
  \<open>to_str\<close>, its URI parser and axum's routing are arguments.
\<close>

section \<open>State, requests, answers\<close>

type_synonym headers = "(string \<times> string) list"

record http_server =
  hs_manager :: manager
  hs_port :: nat
  hs_token :: "string option"
  hs_env :: env_vars
  hs_preferences :: "string option"
  hs_preference_changes :: "preferences_patch list"

record http_io =
  hi_readable :: "string \<Rightarrow> bool"
  hi_parse_meta :: "string \<Rightarrow> workspace_meta option"
  hi_render_meta :: "workspace_meta \<Rightarrow> string"
  hi_parse_prefs :: "string \<Rightarrow> preferences option"
  hi_render_prefs :: "preferences \<Rightarrow> string"
  hi_now :: nat
  hi_touch :: io_faults
  hi_create :: create_env
  hi_disk :: disk_faults
  hi_input :: input_faults
  hi_prefs :: pref_faults
  hi_removed :: bool
  hi_workspace_bytes :: string
  hi_make_dir :: "string option"
  hi_write_meta :: io_faults
  hi_delete :: "(string \<times> files) option"
  hi_entries :: "string list"
  hi_checks :: json
  hi_metrics :: string
  hi_isolated :: bool

datatype http_answer =
    Status nat
  | Failed nat string
  | Health bool
  | Checks json
  | MetricsText string
  | Created create_session_response
  | Alive
  | WorkspaceList "workspace_meta list"
  | WorkspaceIs workspace_meta
  | Stored preferences
  | RuntimeSocket session
  | LspSocket session language
  | ClosedSocket nat string

definition header_value :: "http_io \<Rightarrow> headers \<Rightarrow> string \<Rightarrow> string option" where
  "header_value io h name =
     (case map_of h name of None \<Rightarrow> None | Some v \<Rightarrow> if hi_readable io v then Some v else None)"

section \<open>Guards\<close>

definition host_ok :: "http_io \<Rightarrow> http_server \<Rightarrow> headers \<Rightarrow> bool" where
  "host_ok io st h =
     valid_host (header_value io h ''host'') (unwrap_or_default (allowed_origins (hs_env st)))
       (unwrap_or_default (dev_origin (hs_env st)))"

definition origin_ok :: "http_io \<Rightarrow> http_server \<Rightarrow> headers \<Rightarrow> bool" where
  "origin_ok io st h =
     (if \<not> host_ok io st h then False
      else valid_origin (hs_env st) (header_value io h ''origin'') (hs_port st))"

definition origin_ok_read :: "http_io \<Rightarrow> http_server \<Rightarrow> headers \<Rightarrow> bool" where
  "origin_ok_read io st h =
     (if \<not> host_ok io st h then False
      else (case map_of h ''origin'' of None \<Rightarrow> True | Some _ \<Rightarrow> origin_ok io st h))"

definition guard_token :: "http_io \<Rightarrow> http_server \<Rightarrow> headers \<Rightarrow> string option \<Rightarrow> bool" where
  "guard_token io st h query = token_ok (hs_token st) (header_value io h ''authorization'') query"

definition allowed :: "http_io \<Rightarrow> http_server \<Rightarrow> headers \<Rightarrow> bool" where
  "allowed io st h \<longleftrightarrow> origin_ok io st h \<and> guard_token io st h None"

definition allowed_read :: "http_io \<Rightarrow> http_server \<Rightarrow> headers \<Rightarrow> bool" where
  "allowed_read io st h \<longleftrightarrow> origin_ok_read io st h \<and> guard_token io st h None"

section \<open>Sessions\<close>

definition destroy_session :: "http_io \<Rightarrow> string \<Rightarrow> http_server \<Rightarrow> http_server" where
  "destroy_session io sid st =
     st\<lparr>hs_manager := destroy (hi_parse_meta io) (hi_render_meta io) (hi_touch io) (hi_now io) (hi_removed io) sid
          (hs_manager st)\<rparr>"

definition store_session :: "session \<Rightarrow> http_server \<Rightarrow> http_server" where
  "store_session s st =
     st\<lparr>hs_manager := (hs_manager st)\<lparr>mg_sessions := AList.update (ss_id s) s (mg_sessions (hs_manager st))\<rparr>\<rparr>"

text \<open>What the body of a new session is refused for.\<close>

fun first_error :: "string list \<Rightarrow> string option" where
  "first_error [] = None"
| "first_error (name # names) =
     (case validate_dependency_name name of Inl e \<Rightarrow> Some e | Inr _ \<Rightarrow> first_error names)"

definition check_dependencies :: "create_session_request \<Rightarrow> unit res" where
  "check_dependencies rq =
     (case rq_dependencies rq of
        None \<Rightarrow> Inr ()
      | Some names \<Rightarrow>
          if rq_workspace rq \<noteq> None then Inl ''A workspace installs its own dependencies''
          else if length names > max_session_dependencies then Inl ''Too many dependencies''
          else (case first_error names of Some e \<Rightarrow> Inl e | None \<Rightarrow> Inr ()))"

definition check_input :: "create_session_request \<Rightarrow> unit res" where
  "check_input rq =
     (case rq_input rq of
        None \<Rightarrow> Inr ()
      | Some text \<Rightarrow>
          if rq_workspace rq \<noteq> None then Inl ''A workspace keeps its own input''
          else if length text > max_input_bytes then Inl ''Input exceeds 512 KiB''
          else Inr ())"

definition check_recovery :: "create_session_request \<Rightarrow> unit res" where
  "check_recovery rq =
     (case rq_files rq of
        None \<Rightarrow> Inr ()
      | Some fs \<Rightarrow>
          if rq_workspace rq \<noteq> None then Inl ''Recovery cannot overwrite an existing workspace''
          else validate_source_files fs)"

definition check_create :: "create_session_request \<Rightarrow> unit res" where
  "check_create rq =
     and_then (check_dependencies rq) (\<lambda>_. and_then (check_input rq) (\<lambda>_. check_recovery rq))"

definition restore_files ::
  "http_io \<Rightarrow> source_file list option \<Rightarrow> create_session_response \<Rightarrow> session \<Rightarrow> http_server
   \<Rightarrow> (create_session_response \<times> session) res \<times> http_server" where
  "restore_files io files response s st =
     (case files of
        None \<Rightarrow> (Inr (response, s), st)
      | Some fs \<Rightarrow>
          (case replace_files (hi_disk io) (hi_now io) 1 fs s of
             (Inl e, s1) \<Rightarrow> (Inl e, destroy_session io (cr_session_id response) (store_session s1 st))
           | (Inr snap, s1) \<Rightarrow>
               (Inr (response\<lparr>cr_files := sn_files snap, cr_initial_source := sn_source snap\<rparr>, s1),
                store_session s1 st)))"

definition restore_new_session ::
  "http_io \<Rightarrow> create_session_response \<Rightarrow> source_file list option \<Rightarrow> string option \<Rightarrow> http_server
   \<Rightarrow> create_session_response res \<times> http_server" where
  "restore_new_session io response files input st =
     (if files = None \<and> input = None then (Inr response, st)
      else case authenticate (hs_manager st) (cr_session_id response) (cr_auth_token response) of
        None \<Rightarrow> (Inl ''Session vanished'', st)
      | Some s \<Rightarrow>
          (case restore_files io files response s st of
             (Inl e, st1) \<Rightarrow> (Inl e, st1)
           | (Inr (response1, s1), st1) \<Rightarrow>
               (case input of
                  None \<Rightarrow> (Inr response1, st1)
                | Some text \<Rightarrow>
                    (case set_input (hi_input io) text s1 of
                       (Inl e, s2) \<Rightarrow> (Inl e, store_session s2 st1)
                     | (Inr _, s2) \<Rightarrow> (Inr (response1\<lparr>cr_input := text\<rparr>), store_session s2 st1)))))"

definition set_pending :: "create_session_response \<Rightarrow> string list option \<Rightarrow> http_server \<Rightarrow> http_server" where
  "set_pending response names st =
     (case names of
        None \<Rightarrow> st
      | Some ns \<Rightarrow>
          if ns = [] then st
          else (case authenticate (hs_manager st) (cr_session_id response) (cr_auth_token response) of
                  None \<Rightarrow> st
                | Some s \<Rightarrow> store_session (s\<lparr>ss_pending_dependencies := map trim ns\<rparr>) st))"

text \<open>\<open>body\<close> is what serde makes of the request's JSON, \<open>{}\<close> when there is none.\<close>

definition create_session_route ::
  "http_io \<Rightarrow> headers \<Rightarrow> create_session_request option \<Rightarrow> http_server \<Rightarrow> http_answer \<times> http_server" where
  "create_session_route io h body st =
     (if \<not> allowed io st h then (Failed 403 ''Origin is not allowed'', st)
      else case body of
        None \<Rightarrow> (Failed 400 ''Invalid session request'', st)
      | Some rq \<Rightarrow>
          (case check_create rq of
             Inl e \<Rightarrow> (Failed 400 e, st)
           | Inr _ \<Rightarrow>
               (case create (hi_parse_meta io) (hi_render_meta io) (hi_touch io) (hi_create io)
                       (case rq_language rq of None \<Rightarrow> Zig | Some l \<Rightarrow> l)
                       (case rq_scaffold rq of None \<Rightarrow> Demo | Some k \<Rightarrow> k) (rq_workspace rq) (hs_manager st) of
                  (Inl e, m) \<Rightarrow> (Failed 500 e, st\<lparr>hs_manager := m\<rparr>)
                | (Inr response, m) \<Rightarrow>
                    (case restore_new_session io response (rq_files rq) (rq_input rq) (st\<lparr>hs_manager := m\<rparr>) of
                       (Inl e, st1) \<Rightarrow> (Failed 500 e, st1)
                     | (Inr response1, st1) \<Rightarrow>
                         (Created response1, set_pending response1 (rq_dependencies rq) st1)))))"

definition session_alive ::
  "http_io \<Rightarrow> headers \<Rightarrow> string \<Rightarrow> string \<Rightarrow> http_server \<Rightarrow> http_answer \<times> http_server" where
  "session_alive io h sid token st =
     (if \<not> allowed_read io st h then (Status 403, st)
      else if authenticate (hs_manager st) sid token \<noteq> None then (Alive, st)
      else (Status 404, st))"

section \<open>Workspaces and preferences\<close>

definition list_workspaces_route :: "http_io \<Rightarrow> headers \<Rightarrow> http_server \<Rightarrow> http_answer \<times> http_server" where
  "list_workspaces_route io h st =
     (if \<not> allowed_read io st h then (Status 403, st)
      else (WorkspaceList (list_workspaces (hi_parse_meta io) (mg_registry (hs_manager st)) (hi_entries io)), st))"

record create_workspace_request =
  wr_name :: "string option"
  wr_language :: "language option"
  wr_scaffold :: "workspace_scaffold option"
  wr_files :: "source_file list option"

definition put_workspace :: "string \<Rightarrow> files option \<Rightarrow> http_server \<Rightarrow> http_server" where
  "put_workspace wid dir st =
     st\<lparr>hs_manager := (hs_manager st)\<lparr>mg_registry := (mg_registry (hs_manager st))(wid := dir)\<rparr>\<rparr>"

text \<open>The result of \<open>remove_dir_all\<close> is ignored.\<close>

definition drop_workspace :: "http_io \<Rightarrow> string \<Rightarrow> http_server \<Rightarrow> http_server" where
  "drop_workspace io wid st = (if hi_removed io then put_workspace wid None st else st)"

text \<open>The throwaway session that scaffolds a new workspace.\<close>

definition scaffold_workspace ::
  "http_io \<Rightarrow> create_workspace_request \<Rightarrow> workspace_meta \<Rightarrow> http_server \<Rightarrow> http_answer \<times> http_server" where
  "scaffold_workspace io rq meta st =
     (let wid = wm_id meta
      in case create (hi_parse_meta io) (hi_render_meta io) (hi_touch io) (hi_create io) (wm_language meta)
              (case wr_scaffold rq of None \<Rightarrow> Demo | Some k \<Rightarrow> k) (Some wid) (hs_manager st) of
           (Inl e, m) \<Rightarrow> (Failed 500 e, drop_workspace io wid (st\<lparr>hs_manager := m\<rparr>))
         | (Inr response, m) \<Rightarrow>
             (case restore_new_session io response (wr_files rq) None (st\<lparr>hs_manager := m\<rparr>) of
                (Inl e, st1) \<Rightarrow> (Failed 500 e, drop_workspace io wid st1)
              | (Inr _, st1) \<Rightarrow> (WorkspaceIs meta, destroy_session io (cr_session_id response) st1)))"

definition create_workspace_route ::
  "http_io \<Rightarrow> headers \<Rightarrow> create_workspace_request option \<Rightarrow> http_server \<Rightarrow> http_answer \<times> http_server" where
  "create_workspace_route io h body st =
     (if \<not> allowed io st h then (Status 403, st)
      else case body of
        None \<Rightarrow> (Failed 400 ''Invalid workspace request'', st)
      | Some rq \<Rightarrow>
          (case (case wr_files rq of None \<Rightarrow> Inr () | Some fs \<Rightarrow> validate_source_files fs) of
             Inl e \<Rightarrow> (Failed 400 e, st)
           | Inr _ \<Rightarrow>
               (case sanitize_name (case wr_name rq of None \<Rightarrow> [] | Some n \<Rightarrow> n) of
                  None \<Rightarrow> (Failed 400 ''A workspace needs a name'', st)
                | Some name \<Rightarrow>
                    let wid = random_hex (hi_workspace_bytes io);
                        dir0 = (case mg_registry (hs_manager st) wid of None \<Rightarrow> Map.empty | Some d \<Rightarrow> d);
                        meta = \<lparr>wm_id = wid, wm_name = name,
                                wm_language = (case wr_language rq of None \<Rightarrow> Zig | Some l \<Rightarrow> l),
                                wm_created_at = hi_now io, wm_updated_at = hi_now io\<rparr>
                    in (case hi_make_dir io of
                          Some e \<Rightarrow> (Failed 500 e, st)
                        | None \<Rightarrow>
                            (case write_meta (hi_write_meta io) (hi_render_meta io) meta dir0 of
                               (Inl e, dir) \<Rightarrow> (Failed 500 e, put_workspace wid (Some dir) st)
                             | (Inr _, dir) \<Rightarrow> scaffold_workspace io rq meta (put_workspace wid (Some dir) st))))))"

definition rename_workspace_route ::
  "http_io \<Rightarrow> headers \<Rightarrow> string \<Rightarrow> string \<Rightarrow> http_server \<Rightarrow> http_answer \<times> http_server" where
  "rename_workspace_route io h wid name st =
     (if \<not> allowed io st h then (Status 403, st)
      else case rename (hi_parse_meta io) (hi_render_meta io) (hi_write_meta io) (hi_now io) wid name
              (mg_registry (hs_manager st)) of
        (r, reg) \<Rightarrow>
          ((case r of Inl e \<Rightarrow> Failed 400 e | Inr meta \<Rightarrow> WorkspaceIs meta),
           st\<lparr>hs_manager := (hs_manager st)\<lparr>mg_registry := reg\<rparr>\<rparr>))"

definition delete_workspace_route :: "http_io \<Rightarrow> headers \<Rightarrow> string \<Rightarrow> http_server \<Rightarrow> http_answer \<times> http_server" where
  "delete_workspace_route io h wid st =
     (if \<not> allowed io st h then (Status 403, st)
      else case delete (hi_parse_meta io) (hi_delete io) wid (mg_registry (hs_manager st)) of
        (r, reg) \<Rightarrow>
          ((case r of Inl e \<Rightarrow> Failed 400 e | Inr _ \<Rightarrow> Status 204),
           st\<lparr>hs_manager := (hs_manager st)\<lparr>mg_registry := reg\<rparr>\<rparr>))"

definition get_preferences_route :: "http_io \<Rightarrow> headers \<Rightarrow> http_server \<Rightarrow> http_answer \<times> http_server" where
  "get_preferences_route io h st =
     (if \<not> allowed_read io st h then (Status 403, st)
      else (Stored (read_at (hi_parse_prefs io) (hs_preferences st)), st))"

text \<open>A patch is announced to the open sockets only once it is stored.\<close>

definition put_preferences_route ::
  "http_io \<Rightarrow> headers \<Rightarrow> preferences_patch option \<Rightarrow> http_server \<Rightarrow> http_answer \<times> http_server" where
  "put_preferences_route io h body st =
     (if \<not> allowed io st h then (Status 403, st)
      else case body of
        None \<Rightarrow> (Failed 400 ''Invalid preferences request'', st)
      | Some patch \<Rightarrow>
          (case merge_at (hi_parse_prefs io) (hi_render_prefs io) (hi_prefs io) patch (hs_preferences st) of
             (Inl e, file) \<Rightarrow> (Failed 400 e, st\<lparr>hs_preferences := file\<rparr>)
           | (Inr stored, file) \<Rightarrow>
               (Stored stored, st\<lparr>hs_preferences := file,
                  hs_preference_changes := hs_preference_changes st @ [patch]\<rparr>)))"

section \<open>Sockets and reports\<close>

record ws_query =
  wq_session_id :: string
  wq_token :: string
  wq_access :: "string option"
  wq_lang :: "string option"

definition ws_runtime_route :: "http_io \<Rightarrow> headers \<Rightarrow> ws_query \<Rightarrow> http_server \<Rightarrow> http_answer \<times> http_server" where
  "ws_runtime_route io h q st =
     (if \<not> origin_ok io st h \<or> \<not> guard_token io st h (wq_access q) then (Status 403, st)
      else case authenticate (hs_manager st) (wq_session_id q) (wq_token q) of
        None \<Rightarrow> (Status 401, st)
      | Some s \<Rightarrow> (RuntimeSocket s, st))"

definition ws_lsp_route :: "http_io \<Rightarrow> headers \<Rightarrow> ws_query \<Rightarrow> http_server \<Rightarrow> http_answer \<times> http_server" where
  "ws_lsp_route io h q st =
     (if \<not> origin_ok io st h \<or> \<not> guard_token io st h (wq_access q) then (Status 403, st)
      else case authenticate (hs_manager st) (wq_session_id q) (wq_token q) of
        None \<Rightarrow> (Status 401, st)
      | Some s \<Rightarrow>
          let l = (case Option.bind (wq_lang q) parse_language of None \<Rightarrow> Zig | Some l \<Rightarrow> l)
          in if \<not> (case ss_support s l of None \<Rightarrow> False | Some here \<Rightarrow> ls_lsp here)
             then (ClosedSocket 1011 (if l = Rust then ''rust-analyzer is required'' else ''ZLS 0.16.x is required''), st)
             else (LspSocket s l, st))"

definition health :: "http_io \<Rightarrow> http_server \<Rightarrow> http_answer \<times> http_server" where
  "health io st = (Health (hi_isolated io), st)"

definition doctor_route :: "http_io \<Rightarrow> headers \<Rightarrow> http_server \<Rightarrow> http_answer \<times> http_server" where
  "doctor_route io h st = (if \<not> allowed_read io st h then (Status 403, st) else (Checks (hi_checks io), st))"

definition metrics_route :: "http_io \<Rightarrow> headers \<Rightarrow> http_server \<Rightarrow> http_answer \<times> http_server" where
  "metrics_route io h st =
     (if \<not> allowed_read io st h then (Status 403, st) else (MetricsText (hi_metrics io), st))"

section \<open>The proxy to a program run as a server\<close>

definition PROXY_TIMEOUT_S :: nat where "PROXY_TIMEOUT_S = 30"

definition HOP_BY_HOP :: "string list" where
  "HOP_BY_HOP = [''connection'', ''keep-alive'', ''proxy-authenticate'', ''proxy-authorization'', ''te'',
     ''trailer'', ''transfer-encoding'', ''upgrade'']"

text \<open>Header names are lower case, as the http crate keeps them.\<close>

definition forwardable :: "string \<Rightarrow> bool" where
  "forwardable name \<longleftrightarrow> name \<notin> set HOP_BY_HOP \<and> name \<noteq> ''host'' \<and> \<not> starts_with name ''x-atomis-''"

definition SANDBOX_CSP :: string where
  "SANDBOX_CSP = ''sandbox allow-scripts allow-forms allow-popups''"

record proxy_request =
  pq_method :: string
  pq_session :: string
  pq_path :: string
  pq_query :: "string option"
  pq_headers :: headers
  pq_body :: string

record upstream_request =
  ur_method :: string
  ur_uri :: string
  ur_headers :: headers
  ur_body :: string

datatype upstream_answer = Unanswered | NothingListens | Answered nat headers string

datatype proxy_answer = Refused nat string | Reply nat headers string

definition safe_method :: "string \<Rightarrow> bool" where
  "safe_method m \<longleftrightarrow> m \<in> {''GET'', ''HEAD'', ''OPTIONS''}"

definition upstream_of :: "session \<Rightarrow> proxy_request \<Rightarrow> upstream_request" where
  "upstream_of s rq =
     \<lparr>ur_method = pq_method rq,
      ur_uri = ''http://127.0.0.1:'' @ show_nat (ss_http_port s) @ ''/'' @ pq_path rq
        @ (case pq_query rq of None \<Rightarrow> [] | Some q \<Rightarrow> ''?'' @ q),
      ur_headers = filter (\<lambda>(name, _). forwardable name) (pq_headers rq)
        @ [(''host'', ''127.0.0.1:'' @ show_nat (ss_http_port s))],
      ur_body = pq_body rq\<rparr>"

definition reply_of :: "nat \<Rightarrow> upstream_answer \<Rightarrow> proxy_answer" where
  "reply_of port answer =
     (case answer of
        Unanswered \<Rightarrow> Refused 504 (''The program did not answer within '' @ show_nat PROXY_TIMEOUT_S @ '' s'')
      | NothingListens \<Rightarrow> Refused 502 (''Nothing is listening on port '' @ show_nat port
          @ ''. Turn on '' @ [CHR 0x22] @ ''Run as a server'' @ [CHR 0x22]
          @ '' and listen on the PORT environment variable ('' @ show_nat port @ '').'')
      | Answered status h body \<Rightarrow>
          Reply status (filter (\<lambda>(name, _). forwardable name) h @ [(''content-security-policy'', SANDBOX_CSP)]) body)"

text \<open>\<open>valid_uri\<close> is \<open>parse::<Uri>\<close>; the answer comes with what was asked upstream, if anything
  was, and the state: the session's clock of its last request.\<close>

definition forward ::
  "http_io \<Rightarrow> (string \<Rightarrow> bool) \<Rightarrow> (upstream_request \<Rightarrow> upstream_answer) \<Rightarrow> proxy_request \<Rightarrow> http_server
   \<Rightarrow> proxy_answer \<times> upstream_request option \<times> http_server" where
  "forward io valid_uri ask rq st =
     (let h = pq_headers rq;
          origin = (if safe_method (pq_method rq) then origin_ok_read io st h else origin_ok io st h);
          bearer = map_option (\<lambda>token. ''Bearer '' @ token) (header_value io h ''x-atomis-token'')
      in if \<not> origin \<or> \<not> token_ok (hs_token st) bearer None then (Refused 403 ''Not allowed'', None, st)
         else case authenticate (hs_manager st) (pq_session rq)
                     (unwrap_or_default (header_value io h ''x-atomis-session'')) of
           None \<Rightarrow> (Refused 404 ''Unknown session'', None, st)
         | Some s \<Rightarrow>
             let st1 = store_session (s\<lparr>ss_last_http_ms := hi_now io\<rparr>) st; up = upstream_of s rq
             in if \<not> valid_uri (ur_uri up) then (Refused 400 ''Invalid path'', None, st1)
                else (reply_of (ss_http_port s) (ask up), Some up, st1))"

section \<open>The built page\<close>

text \<open>Of a response: its status, its content type and the cache policy it has.\<close>

record served =
  sv_status :: nat
  sv_content_type :: "string option"
  sv_cache_control :: "string option"

definition cache_headers :: "string \<Rightarrow> served \<Rightarrow> served" where
  "cache_headers p response =
     (if starts_with p ''/api/'' \<or> starts_with p ''/ws/''
         \<or> \<not> (200 \<le> sv_status response \<and> sv_status response < 300) then response
      else
        let is_html = (case sv_content_type response of None \<Rightarrow> False | Some v \<Rightarrow> starts_with v ''text/html'')
        in if starts_with p ''/assets/'' \<and> is_html
           then \<lparr>sv_status = 404, sv_content_type = None, sv_cache_control = None\<rparr>
           else
             let policy = (if starts_with p ''/assets/'' then ''public, max-age=31536000, immutable'' else ''no-cache'')
             in response\<lparr>sv_cache_control :=
                  (case sv_cache_control response of None \<Rightarrow> Some policy | Some v \<Rightarrow> Some v)\<rparr>)"

text \<open>The port to listen on: ATOMIS_PORT, else PORT, else 4317.\<close>

fun find_port :: "string option list \<Rightarrow> nat option" where
  "find_port [] = None"
| "find_port (v # vs) =
     (case Option.bind v (\<lambda>raw. parse_unsigned 16 (trim raw)) of Some n \<Rightarrow> Some n | None \<Rightarrow> find_port vs)"

definition chosen_port :: "string option \<Rightarrow> string option \<Rightarrow> nat" where
  "chosen_port atomis_port port = (case find_port [atomis_port, port] of Some n \<Rightarrow> n | None \<Rightarrow> 4317)"

section \<open>What the guards keep out\<close>

datatype http_request =
    PostSession "create_session_request option"
  | GetSession string string
  | GetWorkspaces
  | PostWorkspace "create_workspace_request option"
  | PatchWorkspace string string
  | DeleteWorkspace string
  | GetPreferences
  | PutPreferences "preferences_patch option"
  | RuntimeWs ws_query
  | LspWs ws_query
  | GetDoctor
  | GetMetrics

fun serve :: "http_io \<Rightarrow> headers \<Rightarrow> http_request \<Rightarrow> http_server \<Rightarrow> http_answer \<times> http_server" where
  "serve io h (PostSession body) st = create_session_route io h body st"
| "serve io h (GetSession sid token) st = session_alive io h sid token st"
| "serve io h GetWorkspaces st = list_workspaces_route io h st"
| "serve io h (PostWorkspace body) st = create_workspace_route io h body st"
| "serve io h (PatchWorkspace wid name) st = rename_workspace_route io h wid name st"
| "serve io h (DeleteWorkspace wid) st = delete_workspace_route io h wid st"
| "serve io h GetPreferences st = get_preferences_route io h st"
| "serve io h (PutPreferences body) st = put_preferences_route io h body st"
| "serve io h (RuntimeWs q) st = ws_runtime_route io h q st"
| "serve io h (LspWs q) st = ws_lsp_route io h q st"
| "serve io h GetDoctor st = doctor_route io h st"
| "serve io h GetMetrics st = metrics_route io h st"

text \<open>The token a request presents: the header's bearer, else, on a socket, the query's.\<close>

fun presented_token :: "http_io \<Rightarrow> headers \<Rightarrow> http_request \<Rightarrow> string option" where
  "presented_token io h rq =
     (case Option.bind (header_value io h ''authorization'') (\<lambda>v. strip_prefix v ''Bearer '') of
        Some b \<Rightarrow> Some b
      | None \<Rightarrow> (case rq of RuntimeWs q \<Rightarrow> wq_access q | LspWs q \<Rightarrow> wq_access q | _ \<Rightarrow> None))"

definition mutating :: "http_request \<Rightarrow> bool" where
  "mutating rq \<longleftrightarrow> (case rq of GetSession _ _ \<Rightarrow> False | GetWorkspaces \<Rightarrow> False | GetPreferences \<Rightarrow> False
     | GetDoctor \<Rightarrow> False | GetMetrics \<Rightarrow> False | _ \<Rightarrow> True)"

definition trusted :: "http_io \<Rightarrow> headers \<Rightarrow> http_request \<Rightarrow> http_server \<Rightarrow> bool" where
  "trusted io h rq st \<longleftrightarrow>
     valid_host (header_value io h ''host'') (unwrap_or_default (allowed_origins (hs_env st)))
       (unwrap_or_default (dev_origin (hs_env st)))
     \<and> (valid_origin (hs_env st) (header_value io h ''origin'') (hs_port st)
        \<or> \<not> mutating rq \<and> map_of h ''origin'' = None)
     \<and> (case hs_token st of None \<Rightarrow> True | Some secret \<Rightarrow> presented_token io h rq = Some secret)"

lemma guard_token_iff:
  "guard_token io st h query \<longleftrightarrow> (case hs_token st of None \<Rightarrow> True
     | Some secret \<Rightarrow> (case Option.bind (header_value io h ''authorization'') (\<lambda>v. strip_prefix v ''Bearer '') of
           Some b \<Rightarrow> Some b | None \<Rightarrow> query) = Some secret)"
  by (auto simp: guard_token_def token_ok_def Let_def timing_safe_eq_iff split: option.splits)

section \<open>Properties\<close>

text \<open>C31: only trusted requests act: a request from another page (an Origin that is not the
  server's, or a Host it does not answer to, which is what DNS rebinding leaves) or without the
  configured token is refused by every route but the health check before it reads or changes
  anything; only reads do without an Origin.\<close>

theorem only_trusted_requests_act:
  assumes "\<not> trusted io h rq st"
  shows "snd (serve io h rq st) = st
    \<and> fst (serve io h rq st) \<in> {Status 403, Failed 403 ''Origin is not allowed''}"
proof -
  have reads: "allowed_read io st h \<Longrightarrow> \<not> mutating rq \<Longrightarrow> \<exists>q. rq = RuntimeWs q \<or> rq = LspWs q"
    using assms by (cases rq)
      (auto simp: trusted_def allowed_read_def origin_ok_read_def origin_ok_def host_ok_def guard_token_iff mutating_def
        split: option.splits if_splits)
  have writes: "allowed io st h \<Longrightarrow> mutating rq \<Longrightarrow> \<exists>q. rq = RuntimeWs q \<or> rq = LspWs q"
    using assms by (cases rq)
      (auto simp: trusted_def allowed_def origin_ok_def host_ok_def guard_token_iff mutating_def
        split: option.splits if_splits)
  show ?thesis
  proof (cases "\<exists>q. rq = RuntimeWs q \<or> rq = LspWs q")
    case True
    then obtain q where q: "rq = RuntimeWs q \<or> rq = LspWs q" by blast
    then have "\<not> origin_ok io st h \<or> \<not> guard_token io st h (wq_access q)"
      using assms by (auto simp: trusted_def origin_ok_def host_ok_def guard_token_iff split: option.splits if_splits)
    then show ?thesis using q by (auto simp: ws_runtime_route_def ws_lsp_route_def)
  next
    case False
    then have "mutating rq \<Longrightarrow> \<not> allowed io st h" "\<not> mutating rq \<Longrightarrow> \<not> allowed_read io st h"
      using reads writes by blast+
    then show ?thesis using False
      by (cases rq) (auto simp: mutating_def create_session_route_def session_alive_def list_workspaces_route_def
        create_workspace_route_def rename_workspace_route_def delete_workspace_route_def get_preferences_route_def
        put_preferences_route_def doctor_route_def metrics_route_def)
  qed
qed


lemma update_last: "k \<notin> fst ` set al \<Longrightarrow> AList.update k v (al @ [(k, w)]) = al @ [(k, v)]"
  by (induction al) auto

lemma check_create_workspace:
  "check_create rq = Inr u \<Longrightarrow> rq_workspace rq \<noteq> None \<Longrightarrow> rq_files rq = None \<and> rq_input rq = None"
  by (auto simp: check_create_def check_dependencies_def check_input_def check_recovery_def and_then_Inr_iff
      split: option.splits if_splits)

lemma replace_files_id: "replace_files d now v fs s = (r, s') \<Longrightarrow> ss_id s' = ss_id s \<and> ss_workspace_id s' = ss_workspace_id s"
  by (auto simp: replace_files_def commit_def Let_def split: sum.splits if_splits option.splits)

text \<open>C33: a session request that is refused, or fails half way (a recovery the store does not
  take), leaves exactly the sessions that were there.\<close>

theorem failed_request_leaves_no_session:
  assumes "create_session_route io h body st = (Failed code e, st')"
    and "length (ce_id_bytes (hi_create io)) = 16" and "length (ce_token_bytes (hi_create io)) = 32"
    and "map_of (mg_sessions (hs_manager st)) (random_hex (ce_id_bytes (hi_create io))) = None"
  shows "mg_sessions (hs_manager st') = mg_sessions (hs_manager st)"
proof (cases "st' = st")
  case False
  then obtain rq u where rq: "allowed io st h" "body = Some rq" "check_create rq = Inr u"
    using assms(1) by (auto simp: create_session_route_def split: if_splits option.splits sum.splits)
  obtain r m where c: "create (hi_parse_meta io) (hi_render_meta io) (hi_touch io) (hi_create io)
      (case rq_language rq of None \<Rightarrow> Zig | Some l \<Rightarrow> l) (case rq_scaffold rq of None \<Rightarrow> Demo | Some k \<Rightarrow> k)
      (rq_workspace rq) (hs_manager st) = (r, m)" by force
  show ?thesis
  proof (cases r)
    case (Inl err)
    then have "m = hs_manager st"
      using c by (auto simp: create_def Let_def split: sum.splits option.splits)
    then show ?thesis using assms(1) rq c Inl by (simp add: create_session_route_def)
  next
    case (Inr response)
    let ?st = "st\<lparr>hs_manager := m\<rparr>"
    obtain found s where s: "s = created_session (hi_create io) (case rq_language rq of None \<Rightarrow> Zig | Some l \<Rightarrow> l)
        (case rq_scaffold rq of None \<Rightarrow> Demo | Some k \<Rightarrow> k) (rq_workspace rq) found (hs_manager st)"
      and resp: "response = create_response (hi_create io) s (map_option snd found)"
      and m: "mg_sessions m = AList.update (ss_id s) s (mg_sessions (hs_manager st))"
      and opens: "authenticate m (ss_id s) (ss_token s) = Some s"
      using create_opens [OF c [unfolded Inr] assms(2,3)] by metis
    have fresh: "ss_id s \<notin> fst ` set (mg_sessions (hs_manager st))"
      using assms(4) by (simp add: s map_of_eq_None_iff)
    obtain r1 st1 where restored: "restore_new_session io response (rq_files rq) (rq_input rq) ?st = (r1, st1)" by force
    have fails: "r1 = Inl e" "st' = st1"
      using assms(1) rq c Inr restored by (auto simp: create_session_route_def split: sum.splits)
    have auth: "authenticate (hs_manager ?st) (cr_session_id response) (cr_auth_token response) = Some s"
      using opens by (simp add: resp create_response_def)
    have ws: "ss_workspace_id s = None"
      using check_create_workspace [OF rq(3)] restored fails by (cases "rq_workspace rq") (auto simp: s restore_new_session_def)
    obtain fs s1 err where fs: "rq_files rq = Some fs" "replace_files (hi_disk io) (hi_now io) 1 fs s = (Inl err, s1)"
      "st1 = destroy_session io (cr_session_id response) (store_session s1 ?st)"
    proof -
      obtain r2 st2 where r2: "restore_files io (rq_files rq) response s ?st = (r2, st2)" by force
      show thesis
      proof (cases r2)
        case (Inl err)
        with r2 restored auth fails that show ?thesis
          by (auto simp: restore_files_def restore_new_session_def split: option.splits sum.splits prod.splits if_splits)
      next
        case (Inr pr)
        obtain response1 s1 where pr: "pr = (response1, s1)" by force
        have "ss_workspace_id s1 = None"
          using r2 Inr pr ws replace_files_id
          by (auto simp: restore_files_def split: option.splits sum.splits prod.splits)
        then have "\<exists>x s2. set_input (hi_input io) t s1 = (Inr x, s2)" for t by (auto simp: set_input_def)
        then have False
          using restored auth fails r2 Inr pr
          by (auto simp: restore_new_session_def split: option.splits sum.splits prod.splits if_splits) (metis Inl_Inr_False fst_conv)
        then show ?thesis ..
      qed
    qed
    have ids: "ss_id s1 = ss_id s" "cr_session_id response = ss_id s"
      using replace_files_id [OF fs(2)] by (simp_all add: resp create_response_def)
    have "mg_sessions (hs_manager (store_session s1 ?st)) = mg_sessions (hs_manager st) @ [(ss_id s, s1)]"
      using fresh by (simp add: store_session_def ids m update_fresh update_last)
    then have "mg_sessions (hs_manager st1) = filter (\<lambda>p. fst p \<noteq> ss_id s) (mg_sessions (hs_manager st) @ [(ss_id s, s1)])"
      by (simp add: fs(3) destroy_session_def destroy_sessions ids)
    also have "\<dots> = mg_sessions (hs_manager st)" using fresh by (force intro!: filter_True)
    finally show ?thesis using fails by simp
  qed
qed simp

text \<open>What a browser may keep for ever is an asset that is there, never the fallback page.\<close>

lemma immutable_is_an_asset:
  assumes "sv_cache_control response = None"
    and "sv_cache_control (cache_headers p response) = Some ''public, max-age=31536000, immutable''"
  shows "starts_with p ''/assets/'' \<and> \<not> (\<exists>v. sv_content_type response = Some v \<and> starts_with v ''text/html'')
    \<and> sv_status (cache_headers p response) = sv_status response"
  using assms by (auto simp: cache_headers_def Let_def split: if_splits option.splits)

section \<open>Examples\<close>

definition demo_io :: http_io where
  "demo_io = \<lparr>hi_readable = (\<lambda>_. True), hi_parse_meta = demo_parse, hi_render_meta = demo_render,
     hi_parse_prefs = (\<lambda>_. None), hi_render_prefs = (\<lambda>_. []), hi_now = 9,
     hi_touch = \<lparr>io_write = None, io_rename = None\<rparr>, hi_create = demo_env,
     hi_disk = no_faults, hi_input = \<lparr>if_remove = None, if_mkdir = None, if_write = None, if_rename = None\<rparr>,
     hi_prefs = \<lparr>pf_mkdir = None, pf_write = None, pf_rename = None\<rparr>, hi_removed = True,
     hi_workspace_bytes = replicate 16 (CHR ''c''), hi_make_dir = None,
     hi_write_meta = \<lparr>io_write = None, io_rename = None\<rparr>, hi_delete = None, hi_entries = [],
     hi_checks = JNull, hi_metrics = [], hi_isolated = True\<rparr>"

definition demo_server :: http_server where
  "demo_server = \<lparr>hs_manager = empty_manager, hs_port = 4317, hs_token = Some ''secret'',
     hs_env = \<lparr>node_env = None, allowed_origins = None, dev_origin = None\<rparr>, hs_preferences = None,
     hs_preference_changes = []\<rparr>"

definition own_page :: headers where
  "own_page = [(''host'', ''localhost''), (''origin'', local_origin ''localhost'' 4317),
     (''authorization'', ''Bearer secret'')]"

lemma rebound_host: "\<not> valid_host (Some ''evil.com'') [] []"
proof -
  have "trim ''evil.com'' = ''evil.com''"
    using trim_indented [of "''evil.com''" 0] by (simp add: plain_def ascii_ws_def byte_def)
  then show ?thesis
    by (simp add: valid_host_def host_without_port_def starts_with_def rsplit_once_def loopback_hosts_def
        eq_ignore_case_def to_ascii_lower_def ascii_upper_def byte_def entry_admits_def)
qed

lemma only_trusted_requests_act_witness:
  "snd (serve demo_io [(''host'', ''evil.com'')] (DeleteWorkspace ''w'') demo_server) = demo_server"
proof -
  have "\<not> trusted demo_io [(''host'', ''evil.com'')] (DeleteWorkspace ''w'') demo_server"
    using rebound_host by (simp add: trusted_def header_value_def demo_io_def demo_server_def unwrap_or_default_def)
  from only_trusted_requests_act [OF this] show ?thesis by simp
qed

lemma own_page_host: "valid_host (Some ''localhost'') [] []"
proof -
  have "trim ''localhost'' = ''localhost''"
    using trim_indented [of "''localhost''" 0] by (simp add: plain_def ascii_ws_def byte_def)
  then show ?thesis
    by (simp add: valid_host_def host_without_port_def starts_with_def rsplit_once_def loopback_hosts_def
        eq_ignore_case_def)
qed

lemma own_page_origin: "valid_origin (hs_env demo_server) (Some (local_origin ''localhost'' 4317)) 4317"
  by (simp add: valid_origin_def valid_origin_with_def loopback_hosts_def)

lemma own_page_allowed: "allowed demo_io demo_server own_page"
  using own_page_host own_page_origin
  by (simp add: allowed_def origin_ok_def host_ok_def header_value_def guard_token_iff own_page_def demo_io_def
      demo_server_def unwrap_or_default_def strip_prefix_def starts_with_def)

lemma failed_request_leaves_no_session_witness:
  "\<exists>e st'. create_session_route demo_io own_page
      (Some \<lparr>rq_language = None, rq_scaffold = None, rq_workspace = None,
         rq_files = Some [\<lparr>sf_path = ''a.zig'', sf_source = ''x''\<rparr>], rq_input = None, rq_dependencies = None\<rparr>)
      demo_server = (Failed 500 e, st') \<and> mg_sessions (hs_manager st') = []"
proof -
  let ?rq = "\<lparr>rq_language = None, rq_scaffold = None, rq_workspace = None,
         rq_files = Some [\<lparr>sf_path = ''a.zig'', sf_source = ''x''\<rparr>], rq_input = None, rq_dependencies = None\<rparr>"
  have v: "validate_source_files [\<lparr>sf_path = ''a.zig'', sf_source = ''x''\<rparr>] = Inr ()"
  proof -
    have "valid_project_path ''a.zig'' = Inr ()" by code_simp
    then show ?thesis
      by (simp add: validate_source_files_def max_source_bytes_def max_project_files_def max_project_bytes_def starts_with_def)
  qed
  then have ok: "check_create ?rq = Inr ()"
    by (simp add: check_create_def check_dependencies_def check_input_def check_recovery_def)
  obtain resp m where c: "create demo_parse demo_render \<lparr>io_write = None, io_rename = None\<rparr> demo_env Zig Demo None
      empty_manager = (Inr resp, m)"
    by (simp add: create_def resolve_workspace_def demo_env_def Let_def)
  have ids: "length (ce_id_bytes demo_env) = 16" "length (ce_token_bytes demo_env) = 32" by (simp_all add: demo_env_def)
  obtain found :: "(path \<times> workspace_meta) option" and s where s: "resp = create_response demo_env s (map_option snd found)"
    "authenticate m (ss_id s) (ss_token s) = Some s"
    by (rule create_opens [OF c ids]) blast
  have "''a.zig'' \<noteq> entry_file l" for l by (cases l) simp_all
  then have bad: "replace_files no_faults 9 1 [\<lparr>sf_path = ''a.zig'', sf_source = ''x''\<rparr>] s
      = (Inl ''Recovery is missing the language entry file'', s)"
    using v by (simp add: replace_files_def)
  have "\<exists>e st'. create_session_route demo_io own_page (Some ?rq) demo_server = (Failed 500 e, st')"
    using own_page_allowed ok c s bad
    by (simp add: create_session_route_def demo_io_def demo_server_def restore_new_session_def restore_files_def
        create_response_def)
  then obtain e st' where f: "create_session_route demo_io own_page (Some ?rq) demo_server = (Failed 500 e, st')" by blast
  have "mg_sessions (hs_manager st') = mg_sessions (hs_manager demo_server)"
    by (rule failed_request_leaves_no_session [OF f])
      (simp_all add: demo_io_def demo_env_def demo_server_def empty_manager_def)
  then show ?thesis using f by (simp add: demo_server_def empty_manager_def)
qed

definition program_server :: http_server where
  "program_server = demo_server\<lparr>hs_manager := empty_manager\<lparr>mg_sessions :=
     [(replicate 32 (CHR ''a''), demo_session\<lparr>ss_id := replicate 32 (CHR ''a''), ss_token := ''tok'', ss_http_port := 20001\<rparr>)]\<rparr>\<rparr>"

definition login_request :: proxy_request where
  "login_request = \<lparr>pq_method = ''POST'', pq_session = replicate 32 (CHR ''a''), pq_path = ''login'', pq_query = None,
     pq_headers = [(''host'', ''localhost''), (''origin'', local_origin ''localhost'' 4317),
       (''x-atomis-token'', ''secret''), (''x-atomis-session'', ''tok''), (''authorization'', ''Basic dTpw'')],
     pq_body = ''{}''\<rparr>"


end
