(* ===== verification/Regex.thy ===== *)
theory Regex
  imports Prelude
begin

text \<open>
  The regular expressions the runners and diagnostics parsers are written with.
  A pattern of the source is a term of \<open>rx\<close>; \<open>matches\<close> gives its matches from a
  position in the order of preference the regex crate documents (greedy
  repetition tries the longest first, an alternation its left side first), so
  the first is the match reported, and \<open>captures\<close> takes the leftmost position
  that has one.  A class is a predicate on one character, given by its bytes;
  \<open>\d\<close> and \<open>\w\<close> are taken on ASCII, \<open>\s\<close> is the Unicode white space.
\<close>

section \<open>Patterns\<close>

datatype rx =
    Cls "string \<Rightarrow> bool"
  | Eps
  | Seq rx rx
  | Alt rx rx
  | Star rx
  | LazyStar rx
  | Cap nat rx
  | AtStart
  | AtLineStart
  | AtEnd
  | WordBoundary

text \<open>A position: what lies before it, what follows, and the groups captured so
  far, each with where it starts.\<close>

type_synonym rx_pos = "string \<times> string \<times> (nat \<times> nat \<times> string) list"

definition word_class :: "string \<Rightarrow> bool" where
  "word_class c = (case c of [b] \<Rightarrow> ascii_alpha b \<or> ascii_digit b \<or> b = CHR ''_'' | _ \<Rightarrow> False)"

definition digit_class :: "string \<Rightarrow> bool" where
  "digit_class c = (case c of [b] \<Rightarrow> ascii_digit b | _ \<Rightarrow> False)"

definition any_char :: "string \<Rightarrow> bool" where
  "any_char c \<longleftrightarrow> c \<noteq> [CHR 0x0A]"

definition one_of :: "string \<Rightarrow> string \<Rightarrow> bool" where
  "one_of bs c = (case c of [b] \<Rightarrow> b \<in> set bs | _ \<Rightarrow> False)"

definition none_of :: "string \<Rightarrow> string \<Rightarrow> bool" where
  "none_of bs c \<longleftrightarrow> \<not> one_of bs c"

fun lit :: "string \<Rightarrow> rx" where
  "lit [] = Eps"
| "lit (b # bs) = Seq (Cls (\<lambda>c. c = [b])) (lit bs)"

definition plus :: "rx \<Rightarrow> rx" where
  "plus r = Seq r (Star r)"

definition opt :: "rx \<Rightarrow> rx" where
  "opt r = Alt r Eps"

definition lazy_plus :: "rx \<Rightarrow> rx" where
  "lazy_plus r = Seq r (LazyStar r)"

fun seqs :: "rx list \<Rightarrow> rx" where
  "seqs [] = Eps"
| "seqs [r] = r"
| "seqs (r # rs) = Seq r (seqs rs)"

fun alts :: "rx list \<Rightarrow> rx" where
  "alts [] = Cls (\<lambda>_. False)"
| "alts [r] = r"
| "alts (r # rs) = Alt r (alts rs)"

abbreviation digits :: rx where
  "digits \<equiv> plus (Cls digit_class)"

abbreviation spaces :: rx where
  "spaces \<equiv> Star (Cls is_ws)"

section \<open>Matching\<close>

text \<open>Repetition: every round consumes something, so the length of what follows
  bounds the rounds.\<close>

fun stars :: "(rx_pos \<Rightarrow> rx_pos list) \<Rightarrow> nat \<Rightarrow> rx_pos \<Rightarrow> rx_pos list" where
  "stars f 0 p = [p]"
| "stars f (Suc n) p =
     concat (map (stars f n) (filter (\<lambda>q. length (fst (snd q)) < length (fst (snd p))) (f p))) @ [p]"

fun lazy_stars :: "(rx_pos \<Rightarrow> rx_pos list) \<Rightarrow> nat \<Rightarrow> rx_pos \<Rightarrow> rx_pos list" where
  "lazy_stars f 0 p = [p]"
| "lazy_stars f (Suc n) p =
     p # concat (map (lazy_stars f n) (filter (\<lambda>q. length (fst (snd q)) < length (fst (snd p))) (f p)))"

definition next_char :: "(string \<Rightarrow> bool) \<Rightarrow> rx_pos \<Rightarrow> rx_pos list" where
  "next_char P p =
     (case p of (pre, rest, caps) \<Rightarrow>
        (case rest of [] \<Rightarrow> []
         | b # _ \<Rightarrow>
             let w = utf8_width b; c = take w rest in if P c then [(pre @ c, drop w rest, caps)] else []))"

definition word_before :: "string \<Rightarrow> bool" where
  "word_before pre \<longleftrightarrow> pre \<noteq> [] \<and> word_class [last pre]"

definition word_after :: "string \<Rightarrow> bool" where
  "word_after rest \<longleftrightarrow> rest \<noteq> [] \<and> word_class [hd rest]"

primrec matches :: "rx \<Rightarrow> rx_pos \<Rightarrow> rx_pos list" where
  "matches (Cls P) = next_char P"
| "matches Eps = (\<lambda>p. [p])"
| "matches (Seq a b) = (\<lambda>p. concat (map (matches b) (matches a p)))"
| "matches (Alt a b) = (\<lambda>p. matches a p @ matches b p)"
| "matches (Star r) = (\<lambda>p. stars (matches r) (length (fst (snd p))) p)"
| "matches (LazyStar r) = (\<lambda>p. lazy_stars (matches r) (length (fst (snd p))) p)"
| "matches (Cap i r) = (\<lambda>p.
     map (\<lambda>(pre, rest, caps). (pre, rest, (i, length (fst p), drop (length (fst p)) pre) # caps)) (matches r p))"
| "matches AtStart = (\<lambda>p. if fst p = [] then [p] else [])"
| "matches AtLineStart = (\<lambda>p. if fst p = [] \<or> last (fst p) = CHR 0x0A then [p] else [])"
| "matches AtEnd = (\<lambda>p. if fst (snd p) = [] then [p] else [])"
| "matches WordBoundary = (\<lambda>p. if word_before (fst p) \<noteq> word_after (fst (snd p)) then [p] else [])"

text \<open>The groups of a match: group 0 is the whole of it, a group that took no part is absent.\<close>

type_synonym groups = "(nat \<times> nat \<times> string) list"

definition group :: "groups \<Rightarrow> nat \<Rightarrow> string option" where
  "group caps i = map_option snd (map_of caps i)"

definition group_text :: "groups \<Rightarrow> nat \<Rightarrow> string" where
  "group_text caps i = (case group caps i of Some s \<Rightarrow> s | None \<Rightarrow> [])"

definition match_at :: "rx \<Rightarrow> string \<Rightarrow> string \<Rightarrow> (string \<times> string \<times> groups) option" where
  "match_at r pre rest = (case matches (Cap 0 r) (pre, rest, []) of [] \<Rightarrow> None | p # _ \<Rightarrow> Some p)"

function find_from :: "rx \<Rightarrow> string \<Rightarrow> string \<Rightarrow> (string \<times> string \<times> groups) option" where
  "find_from r pre rest =
     (case match_at r pre rest of
        Some p \<Rightarrow> Some p
      | None \<Rightarrow>
          (case rest of [] \<Rightarrow> None
           | b # _ \<Rightarrow> find_from r (pre @ take (utf8_width b) rest) (drop (utf8_width b) rest)))"
  by pat_completeness auto
termination
  by (relation "measure (\<lambda>(r, pre, rest). length rest)") auto

declare find_from.simps [simp del]

definition captures :: "rx \<Rightarrow> string \<Rightarrow> groups option" where
  "captures r s = map_option (\<lambda>(pre, rest, caps). caps) (find_from r [] s)"

definition is_match :: "rx \<Rightarrow> string \<Rightarrow> bool" where
  "is_match r s \<longleftrightarrow> captures r s \<noteq> None"

text \<open>\<open>captures_iter\<close>: the next match starts where the last one ended.  The patterns
  iterated never match the empty string; one that did would end the walk.\<close>

function captures_from :: "rx \<Rightarrow> string \<Rightarrow> string \<Rightarrow> groups list" where
  "captures_from r pre rest =
     (case find_from r pre rest of
        None \<Rightarrow> []
      | Some (pre', rest', caps) \<Rightarrow>
          caps # (if length rest' < length rest then captures_from r pre' rest' else []))"
  by pat_completeness auto
termination
  by (relation "measure (\<lambda>(r, pre, rest). length rest)") auto

declare captures_from.simps [simp del]

definition captures_iter :: "rx \<Rightarrow> string \<Rightarrow> groups list" where
  "captures_iter r s = captures_from r [] s"

section \<open>Matches cover what they consume\<close>

definition sound_pos :: "rx_pos \<Rightarrow> rx_pos \<Rightarrow> bool" where
  "sound_pos p q \<longleftrightarrow> (\<exists>t. fst q = fst p @ t \<and> fst (snd p) = t @ fst (snd q))"

lemma sound_pos_refl [simp]: "sound_pos p p"
  by (simp add: sound_pos_def)

lemma sound_pos_trans: "sound_pos p q \<Longrightarrow> sound_pos q r \<Longrightarrow> sound_pos p r"
  by (force simp: sound_pos_def)

lemma stars_sound:
  assumes "\<And>p q. q \<in> set (f p) \<Longrightarrow> sound_pos p q"
  shows "q \<in> set (stars f n p) \<Longrightarrow> sound_pos p q"
proof (induction n arbitrary: p)
  case (Suc n)
  then consider "q = p" | x where "x \<in> set (f p)" "q \<in> set (stars f n x)" by (auto simp del: split_paired_Ex)
  then show ?case
  proof cases
    case 2
    with Suc.IH [of x] assms [of x p] show ?thesis by (rule_tac sound_pos_trans)
  qed simp
qed simp

lemma lazy_stars_sound:
  assumes "\<And>p q. q \<in> set (f p) \<Longrightarrow> sound_pos p q"
  shows "q \<in> set (lazy_stars f n p) \<Longrightarrow> sound_pos p q"
proof (induction n arbitrary: p)
  case (Suc n)
  then consider "q = p" | x where "x \<in> set (f p)" "q \<in> set (lazy_stars f n x)" by (auto simp del: split_paired_Ex)
  then show ?case
  proof cases
    case 2
    with Suc.IH [of x] assms [of x p] show ?thesis by (rule_tac sound_pos_trans)
  qed simp
qed simp

lemma next_char_sound: "q \<in> set (next_char P p) \<Longrightarrow> sound_pos p q"
  by (auto simp: next_char_def sound_pos_def Let_def split: prod.splits list.splits if_splits)

lemma matches_sound: "q \<in> set (matches r p) \<Longrightarrow> sound_pos p q"
proof (induction r arbitrary: p q)
  case (Cls P)
  then show ?case by (simp add: next_char_sound)
next
  case (Seq a b)
  then obtain x where "x \<in> set (matches a p)" "q \<in> set (matches b x)" by (auto simp del: split_paired_Ex)
  with Seq.IH(1) [of x p] Seq.IH(2) [of q x] show ?case by (rule_tac sound_pos_trans)
next
  case (Star r)
  then show ?case using stars_sound [of "matches r"] by simp
next
  case (LazyStar r)
  then show ?case using lazy_stars_sound [of "matches r"] by simp
next
  case (Cap i r)
  then obtain x where x: "x \<in> set (matches r p)"
      "q = (fst x, fst (snd x), (i, length (fst p), drop (length (fst p)) (fst x)) # snd (snd x))"
    by (auto simp: case_prod_beta simp del: split_paired_Ex)
  from Cap.IH [OF x(1)] x(2) show ?case by (simp add: sound_pos_def)
qed (auto split: if_splits)

section \<open>Matching plain text\<close>

lemma next_char_plain:
  "byte b < 128 \<Longrightarrow> next_char P (pre, b # rest, caps) = (if P [b] then [(pre @ [b], rest, caps)] else [])"
  by (simp add: next_char_def utf8_width_def)

lemma next_char_Nil [simp]: "next_char P (pre, [], caps) = []"
  by (simp add: next_char_def)

text \<open>A literal of ASCII bytes.\<close>

lemma matches_lit:
  "plain l \<Longrightarrow> matches (lit l) (pre, s, caps) =
     (if take (length l) s = l then [(pre @ l, drop (length l) s, caps)] else [])"
proof (induction l arbitrary: pre s)
  case (Cons b l)
  show ?case
  proof (cases s)
    case (Cons c s')
    show ?thesis
    proof (cases "byte c < 128")
      case True
      then show ?thesis using Cons.IH Cons.prems Cons by (simp add: next_char_plain plain_def)
    next
      case False
      then have "c \<noteq> b" using Cons.prems by (auto simp: plain_def)
      with False Cons show ?thesis
        by (auto simp: next_char_def Let_def utf8_width_def)
    qed
  qed simp
qed simp

text \<open>A greedy repetition of one class offers every prefix, the longest first.\<close>

definition run_length :: "(string \<Rightarrow> bool) \<Rightarrow> string \<Rightarrow> nat" where
  "run_length P s = length (takeWhile (\<lambda>b. P [b]) s)"

lemma stars_class:
  "plain s \<Longrightarrow> length s \<le> n \<Longrightarrow> stars (next_char P) n (pre, s, caps) =
     map (\<lambda>i. (pre @ take i s, drop i s, caps)) (rev [0..<Suc (run_length P s)])"
proof (induction n arbitrary: pre s)
  case (Suc n)
  show ?case
  proof (cases s)
    case (Cons b s')
    show ?thesis
    proof (cases "P [b]")
      case True
      have "rev [0..<Suc (Suc m)] = map Suc (rev [0..<Suc m]) @ [0]" for m
        by (metis map_Suc_upt rev.simps(2) rev_map upt_conv_Cons zero_less_Suc One_nat_def)
      with True show ?thesis
        using Suc Cons by (simp add: next_char_plain plain_def run_length_def comp_def del: upt_Suc)
    next
      case False
      then show ?thesis using Suc.prems Cons by (simp add: next_char_plain plain_def run_length_def)
    qed
  qed (simp add: run_length_def)
qed (simp add: run_length_def)

lemma matches_star_class:
  "plain s \<Longrightarrow> matches (Star (Cls P)) (pre, s, caps) =
     map (\<lambda>i. (pre @ take i s, drop i s, caps)) (rev [0..<Suc (run_length P s)])"
  by (simp add: stars_class del: upt_Suc)

text \<open>When only one of those prefixes lets the rest match, that is the match.\<close>

lemma concat_single:
  assumes "i \<in> set xs" "distinct xs" "\<And>j. j \<in> set xs \<Longrightarrow> j \<noteq> i \<Longrightarrow> f j = []"
  shows "concat (map f xs) = f i"
  using assms
proof (induction xs)
  case (Cons x xs)
  show ?case
  proof (cases "x = i")
    case True
    then have "concat (map f xs) = []" using Cons.prems by (auto simp: concat_eq_Nil_conv)
    with True show ?thesis by simp
  next
    case False
    with Cons show ?thesis by simp
  qed
qed simp

lemma matches_star_then:
  assumes "plain s" "i \<le> run_length P s"
    "\<And>j. j \<le> run_length P s \<Longrightarrow> j \<noteq> i \<Longrightarrow> matches r (pre @ take j s, drop j s, caps) = []"
  shows "matches (Seq (Star (Cls P)) r) (pre, s, caps) = matches r (pre @ take i s, drop i s, caps)"
proof -
  have "matches (Seq (Star (Cls P)) r) (pre, s, caps)
      = concat (map (\<lambda>j. matches r (pre @ take j s, drop j s, caps)) (rev [0..<Suc (run_length P s)]))"
    using assms(1) by (simp add: stars_class comp_def del: upt_Suc)
  also have "\<dots> = matches r (pre @ take i s, drop i s, caps)"
    by (rule concat_single) (use assms in auto)
  finally show ?thesis .
qed

section \<open>Captured runs of a class\<close>

lemma plain_drop [simp]: "plain s \<Longrightarrow> plain (drop i s)"
  by (auto simp: plain_def list_all_iff dest: in_set_dropD)

lemma matches_plus_class:
  assumes "plain s"
  shows "matches (plus (Cls P)) (pre, s, caps) =
    map (\<lambda>i. (pre @ take i s, drop i s, caps)) (rev [1..<Suc (run_length P s)])"
proof (cases s)
  case (Cons b s')
  show ?thesis
  proof (cases "P [b]")
    case True
    have "rev [Suc 0..<Suc (Suc m)] = map Suc (rev [0..<Suc m])" for m
      by (simp only: rev_map [symmetric] map_Suc_upt)
    with True assms Cons show ?thesis
      by (simp add: plus_def next_char_plain plain_def run_length_def stars_class comp_def del: upt_Suc)
  next
    case False
    with assms Cons show ?thesis by (simp add: plus_def next_char_plain plain_def run_length_def)
  qed
qed (simp add: plus_def run_length_def)

lemma matches_cap: "matches (Seq (Cap i r) r') (pre, s, caps) =
    concat (map (\<lambda>(pre', rest, caps'). matches r' (pre', rest, (i, length pre, drop (length pre) pre') # caps')) (matches r (pre, s, caps)))"
  by (simp add: comp_def, intro arg_cong [where f = concat] map_cong) auto

text \<open>A captured run of a class whose next character is not in it, before something that
  cannot start with a character of the class.\<close>

lemma matches_captured_run:
  assumes "plain (ds @ rest)" "ds \<noteq> []" "\<And>c. c \<in> set ds \<Longrightarrow> P [c]" "rest = [] \<or> \<not> P [hd rest]"
    "\<And>k. 0 < k \<Longrightarrow> k < length ds \<Longrightarrow>
       matches r (pre @ take k ds, drop k ds @ rest, (i, length pre, take k ds) # caps) = []"
  shows "matches (Seq (Cap i (plus (Cls P))) r) (pre, ds @ rest, caps) =
     matches r (pre @ ds, rest, (i, length pre, ds) # caps)"
proof -
  have n: "run_length P (ds @ rest) = length ds"
  proof -
    have tw: "takeWhile (\<lambda>b. P [b]) ds = ds" using assms(3) by (simp add: takeWhile_eq_all_conv)
    show ?thesis
      using assms(3,4) takeWhile_append2 [of ds "\<lambda>b. P [b]" rest]
      by (cases rest) (simp_all add: run_length_def tw)
  qed
  have "matches (Seq (Cap i (plus (Cls P))) r) (pre, ds @ rest, caps) =
      concat (map (\<lambda>k. matches r (pre @ take k (ds @ rest), drop k (ds @ rest), (i, length pre, take k (ds @ rest)) # caps))
        (rev [1..<Suc (length ds)]))"
    unfolding matches_cap matches_plus_class [OF assms(1)] n by (simp add: comp_def del: upt_Suc)
  also have "\<dots> = matches r (pre @ ds, rest, (i, length pre, ds) # caps)"
  proof (subst concat_single [where i = "length ds"])
    show "length ds \<in> set (rev [1..<Suc (length ds)])" using assms(2) by (cases ds) simp_all
  qed (use assms(5) in \<open>auto simp: less_Suc_eq\<close>)
  finally show ?thesis .
qed

lemma matches_lit_then:
  "plain l \<Longrightarrow> matches (Seq (lit l) r) (pre, s, caps) =
     (if take (length l) s = l then matches r (pre @ l, drop (length l) s, caps) else [])"
  by (simp add: matches_lit)

lemma digit_class_single [simp]: "digit_class [c] = ascii_digit c"
  by (simp add: digit_class_def)

lemma any_char_single [simp]: "any_char [c] \<longleftrightarrow> c \<noteq> CHR 0x0A"
  by (simp add: any_char_def)

lemma captures_at_start:
  assumes "matches r ([], s, []) = (pre, rest, caps) # ps"
  shows "captures r s = Some ((0, 0, pre) # caps)"
  by (subst captures_def, subst find_from.simps) (simp add: match_at_def assms)

lemma concat_map_concat: "concat (map g (concat (map h xs))) = concat (map (\<lambda>x. concat (map g (h x))) xs)"
  by (induction xs) simp_all

end
