(* ===== verification/Parsing.thy ===== *)
theory Parsing
  imports Regex Runner Deps
begin

text \<open>
  What the parsers of compiler output, test reports and sources share: a few
  more functions of \<open>str\<close>, numbers read from captured groups, and the paths
  of the project behind those of its generated mirror.
\<close>

section \<open>More of str\<close>

definition replace_char :: "char \<Rightarrow> char \<Rightarrow> string \<Rightarrow> string" where
  "replace_char a b s = map (\<lambda>c. if c = a then b else c) s"

abbreviation slashed :: "string \<Rightarrow> string" where
  "slashed s \<equiv> replace_char (CHR 0x5C) (CHR ''/'') s"

text \<open>\<open>str::rfind\<close> of a string, \<open>trim_end_matches\<close> of a character.\<close>

fun rfind_sub :: "string \<Rightarrow> string \<Rightarrow> nat option" where
  "rfind_sub [] p = (if p = [] then Some 0 else None)"
| "rfind_sub (c # cs) p =
     (case rfind_sub cs p of Some i \<Rightarrow> Some (Suc i)
      | None \<Rightarrow> if starts_with (c # cs) p then Some 0 else None)"

definition trim_end_char :: "char \<Rightarrow> string \<Rightarrow> string" where
  "trim_end_char x s = rev (dropWhile (\<lambda>c. c = x) (rev s))"

definition split_lines :: "string \<Rightarrow> string list" where
  "split_lines s = split_on lf s"

text \<open>\<open>capture.get(i).and_then(|m| m.as_str().parse().ok()).unwrap_or(1)\<close> as a u32.\<close>

definition number_or_one :: "string option \<Rightarrow> nat" where
  "number_or_one t = (case Option.bind t (parse_unsigned 32) of Some n \<Rightarrow> n | None \<Rightarrow> 1)"

definition basic_diagnostic :: "string \<Rightarrow> string option \<Rightarrow> severity \<Rightarrow> nat \<Rightarrow> nat \<Rightarrow> string \<Rightarrow> app_diagnostic" where
  "basic_diagnostic message p severity line column source =
     \<lparr>ad_message = message, ad_path = p, ad_severity = severity, ad_line = line, ad_column = column,
      ad_end_line = None, ad_end_column = None, ad_code = None, ad_source = Some source\<rparr>"

lemma rfind_sub_Some:
  "rfind_sub s p = Some i \<Longrightarrow> i + length p \<le> length s \<and> take (length p) (drop i s) = p"
proof (induction s arbitrary: i)
  case (Cons c cs)
  show ?case
  proof (cases "rfind_sub cs p")
    case None
    with Cons.prems have "i = 0" "starts_with (c # cs) p" by (auto split: if_splits)
    moreover from this(2) obtain t where "c # cs = p @ t" by (auto simp: starts_with_prefix)
    then have "length (c # cs) = length (p @ t)" "take (length p) (c # cs) = p" by simp_all
    ultimately show ?thesis by simp
  qed (use Cons in auto)
qed (auto split: if_splits)

lemma rfind_sub_None: "rfind_sub s p = None \<longleftrightarrow> \<not> contains s p"
proof (induction s)
  case (Cons c cs)
  then show ?case by (auto simp: contains_def split: option.splits)
qed (simp add: contains_def)

lemma replace_char_append [simp]: "replace_char a b (s @ t) = replace_char a b s @ replace_char a b t"
  by (simp add: replace_char_def)

lemma replace_char_id: "a \<notin> set s \<Longrightarrow> replace_char a b s = s"
  by (auto simp: replace_char_def intro: map_idI)

lemma find_sub_length: "find_sub s p = Some i \<Longrightarrow> i + length p \<le> length s"
proof -
  assume "find_sub s p = Some i"
  from find_sub_Some [OF this] obtain t where "i \<le> length s" "drop i s = p @ t"
    by (auto simp: starts_with_prefix)
  then have "length (drop i s) = length (p @ t)" "i \<le> length s" by simp_all
  then show ?thesis by simp
qed

section \<open>Well-formed diagnostics\<close>

text \<open>What every parser promises the editor: a path, if any, is below src/, and the numbers
  fit the u32s of the protocol.\<close>

definition wf_diagnostic :: "app_diagnostic \<Rightarrow> bool" where
  "wf_diagnostic d \<longleftrightarrow> (case ad_path d of None \<Rightarrow> True | Some p \<Rightarrow> starts_with p ''src/'')
     \<and> ad_line d < 2 ^ 32 \<and> ad_column d < 2 ^ 32
     \<and> (case ad_end_line d of None \<Rightarrow> True | Some n \<Rightarrow> n < 2 ^ 32)
     \<and> (case ad_end_column d of None \<Rightarrow> True | Some n \<Rightarrow> n < 2 ^ 32)"

lemma parse_unsigned_bound: "parse_unsigned w t = Some n \<Longrightarrow> n < 2 ^ w"
  by (auto simp: parse_unsigned_def Let_def split: if_splits list.splits)

lemma parse_unsigned_32: "parse_unsigned 32 t = Some n \<Longrightarrow> n < 4294967296"
  using parse_unsigned_bound [of 32 t n] by simp

lemma number_or_one_bound: "number_or_one t < 2 ^ 32"
  by (auto simp: number_or_one_def dest: parse_unsigned_bound split: option.split bind_splits)

lemma number_or_one_bound' [simp]: "number_or_one t < 4294967296"
  using number_or_one_bound [of t] by simp

lemma dedupe_from_subset: "set (dedupe_from seen ds) \<subseteq> set ds"
  by (induction ds arbitrary: seen) auto

lemma dedupe_diagnostics_wf: "list_all wf_diagnostic ds \<Longrightarrow> list_all wf_diagnostic (dedupe_diagnostics ds)"
  using dedupe_from_subset [of "{}" ds] by (auto simp: dedupe_diagnostics_def list_all_iff)

lemma find_sub_least:
  "starts_with (drop k s) p \<Longrightarrow> k < length s \<or> p = [] \<Longrightarrow> \<exists>i \<le> k. find_sub s p = Some i"
proof (induction s arbitrary: k)
  case (Cons c cs)
  show ?case
  proof (cases "starts_with (c # cs) p")
    case False
    with Cons.prems obtain k' where k: "k = Suc k'" by (cases k) auto
    with Cons.prems Cons.IH [of k'] obtain i where "i \<le> k'" "find_sub cs p = Some i" by auto
    with False k show ?thesis by auto
  qed simp
qed (auto simp: starts_with_def)

section \<open>Tests found in sources\<close>

fun tests_from :: "(nat \<Rightarrow> string \<Rightarrow> test_case option) \<Rightarrow> nat \<Rightarrow> string list \<Rightarrow> test_case list" where
  "tests_from f i [] = []"
| "tests_from f i (line # lines) =
     (case f i line of Some t \<Rightarrow> [t] | None \<Rightarrow> []) @ tests_from f (i + 1) lines"


lemma tests_from_Some:
  "t \<in> set (tests_from f i ls) \<Longrightarrow> \<exists>k < length ls. f (i + k) (ls ! k) = Some t"
proof (induction f i ls rule: tests_from.induct)
  case (2 f i line lines)
  then consider "f i line = Some t" | "t \<in> set (tests_from f (i + 1) lines)" by (auto split: option.splits)
  then show ?case
  proof cases
    case 2
    with "2.IH" obtain k where "k < length lines" "f (i + 1 + k) (lines ! k) = Some t" by blast
    then show ?thesis by (intro exI [of _ "Suc k"]) simp
  qed (intro exI [of _ 0], simp)
qed simp

text \<open>The id of a test is its file and line; files have distinct paths, so ids are distinct.\<close>

definition id_of_line :: "string \<Rightarrow> nat \<Rightarrow> string" where
  "id_of_line p i = p @ '':'' @ show_nat (i + 1)"

lemma id_of_line_inject [simp]: "id_of_line p i = id_of_line q j \<longleftrightarrow> p = q \<and> i = j"
proof
  assume e: "id_of_line p i = id_of_line q j"
  have f: "takeWhile ascii_digit (rev (id_of_line a n)) = rev (show_nat (n + 1))" for a n
  proof -
    have d: "\<forall>c \<in> set (rev (show_nat (n + 1))). ascii_digit c"
      using show_nat_digits [of "n + 1"] by (simp add: list_all_iff)
    have "rev (id_of_line a n) = rev (show_nat (n + 1)) @ CHR '':'' # rev a" by (simp add: id_of_line_def)
    moreover have "\<not> ascii_digit (CHR '':'')" by (simp add: ascii_digit_def byte_def)
    ultimately show ?thesis using takeWhile_append2 [of "rev (show_nat (n + 1))" ascii_digit "CHR '':'' # rev a"] d by auto
  qed
  have "rev (show_nat (i + 1)) = rev (show_nat (j + 1))" using f [of p i] f [of q j] e by metis
  then have "i = j" by simp
  with e show "p = q \<and> i = j" by (simp add: id_of_line_def)
qed simp

lemma tests_from_ids:
  assumes "\<And>i line t. f i line = Some t \<Longrightarrow> tc_test_id t = id_of_line p i"
  shows "distinct (map tc_test_id (tests_from f i ls))"
    and "t \<in> set (tests_from f i ls) \<Longrightarrow> \<exists>k \<ge> i. tc_test_id t = id_of_line p k"
proof -
  have later: "t \<in> set (tests_from f i ls) \<Longrightarrow> \<exists>k \<ge> i. tc_test_id t = id_of_line p k" for t i ls
    using tests_from_Some [of t f i ls] assms by fastforce
  then show "t \<in> set (tests_from f i ls) \<Longrightarrow> \<exists>k \<ge> i. tc_test_id t = id_of_line p k" .
  show "distinct (map tc_test_id (tests_from f i ls))"
  proof (induction ls arbitrary: i)
    case (Cons line ls)
    have "id_of_line p i \<notin> tc_test_id ` set (tests_from f (Suc i) ls)"
      using later [of _ "Suc i" ls] by fastforce
    then show ?case using Cons.IH [of "Suc i"] assms [of i line] by (auto split: option.split)
  qed simp
qed

lemma catalog_ids_by_file:
  assumes "distinct (map pf_path files)"
    "\<And>fl. fl \<in> set files \<Longrightarrow> distinct (map tc_test_id (g fl))"
    "\<And>fl t. fl \<in> set files \<Longrightarrow> t \<in> set (g fl) \<Longrightarrow> \<exists>k. tc_test_id t = id_of_line (pf_path fl) k"
  shows "distinct (map tc_test_id (concat (map g files)))"
  using assms
proof (induction files)
  case (Cons fl files)
  have "tc_test_id t \<noteq> tc_test_id u"
    if t: "t \<in> set (g fl)" and h: "h \<in> set files" and u: "u \<in> set (g h)" for t h u
  proof -
    have "pf_path h \<noteq> pf_path fl" using Cons.prems(1) imageI [OF h, of pf_path] by auto
    moreover obtain k k' where "tc_test_id t = id_of_line (pf_path fl) k" "tc_test_id u = id_of_line (pf_path h) k'"
      using Cons.prems(3) t h u by (meson list.set_intros)
    ultimately show ?thesis by simp
  qed
  moreover have "distinct (map tc_test_id (concat (map g files)))" using Cons by simp
  ultimately show ?case using Cons.prems(2) [of fl] by (auto simp: disjoint_iff)
qed simp

lemma catalog_ids:
  assumes "distinct (map pf_path files)"
    "\<And>fl i line t. fl \<in> set files \<Longrightarrow> f fl i line = Some t \<Longrightarrow> tc_test_id t = id_of_line (pf_path fl) i"
  shows "distinct (map tc_test_id (concat (map (\<lambda>fl. tests_from (f fl) 0 (ls fl)) files)))"
proof (rule catalog_ids_by_file [OF assms(1)])
  fix fl assume fl: "fl \<in> set files"
  show "distinct (map tc_test_id (tests_from (f fl) 0 (ls fl)))" by (rule tests_from_ids(1)) (rule assms(2) [OF fl])
  fix t assume "t \<in> set (tests_from (f fl) 0 (ls fl))"
  then show "\<exists>k. tc_test_id t = id_of_line (pf_path fl) k"
    using tests_from_ids(2) [where f = "f fl" and p = "pf_path fl"] assms(2) [OF fl] by blast
qed

end
