(* ===== verification/LanguageRun.thy ===== *)
theory LanguageRun
  imports Parsing "HOL-Library.AList"
begin

text \<open>
  What the runners of the languages (src/apps/server-rs/src/languages/*/run.rs) are built from:
  phases that emit events, start processes and either go on with a value or end the run; the
  instrumentation, compilation and execution phases as every runner writes them; the two ways of
  running tests (a report read afterwards, a channel read as it comes).  A process is the request
  that starts it and, as an argument, how it went.
\<close>

section \<open>The project's file behind one of its mirror\<close>

definition mirror_path :: "string \<Rightarrow> string option" where
  "mirror_path file =
     (let normalized = slashed file in
      (case strip_prefix normalized ''generated/'' of
         Some rest \<Rightarrow> Some (''src/'' @ rest)
       | None \<Rightarrow>
           if starts_with normalized ''src/'' then Some normalized
           else (case rfind_sub normalized ''/generated/'' of
                   Some i \<Rightarrow> Some (''src/'' @ drop (i + length ''/generated/'') normalized)
                 | None \<Rightarrow> map_option (\<lambda>i. drop (i + 1) normalized) (rfind_sub normalized ''/src/''))))"

lemma mirror_path_src: "mirror_path file = Some p \<Longrightarrow> starts_with p ''src/''"
proof -
  have cut: "starts_with (drop (Suc i) s) ''src/''" if "rfind_sub s ''/src/'' = Some i" for i s
  proof -
    from rfind_sub_Some [OF that] have "take (length ''/src/'') (drop i s) = ''/src/''" by blast
    then obtain t where "drop i s = ''/src/'' @ t" by (metis append_take_drop_id)
    then have "drop (Suc i) s = ''src/'' @ t" by (metis append_Cons drop_Suc list.sel(3) tl_drop append.simps(2))
    then show ?thesis by (simp add: starts_with_def)
  qed
  assume "mirror_path file = Some p"
  then show ?thesis
    by (auto simp: mirror_path_def Let_def starts_with_def cut split: option.splits if_splits
        dest: cut [unfolded starts_with_def])
qed

text \<open>\<open>[/\]\<close> and the characters of a path in a traceback.\<close>

definition slash :: rx where
  "slash = Cls (one_of [CHR ''/'', CHR 0x5C])"

definition path_char :: "string \<Rightarrow> bool" where
  "path_char c \<longleftrightarrow> word_class c \<or> one_of ''./-'' c"

section \<open>Phases of a run\<close>

record spawn =
  sq_program :: string
  sq_args :: "string list"
  sq_cwd :: path
  sq_limits :: process_limits
  sq_probe_fd :: bool
  sq_env :: "(string \<times> string) list"
  sq_sandbox :: "sandbox_policy option"
  sq_stdin :: child_stdin

text \<open>\<open>lg_probes\<close> are the lists written to the session's \<open>probes\<close>, in order.\<close>

record run_log =
  lg_events :: "runner_event list"
  lg_spawned :: "spawn list"
  lg_probes :: "probe_descriptor list list"

type_synonym 'a phase = "run_log \<times> (runner_outcome + 'a)"

definition andthen :: "'a phase \<Rightarrow> ('a \<Rightarrow> 'b phase) \<Rightarrow> 'b phase" where
  "andthen m f =
     (case m of
        (l, Inl outcome) \<Rightarrow> (l, Inl outcome)
      | (l, Inr a) \<Rightarrow>
          (case f a of (l', r) \<Rightarrow>
             (\<lparr>lg_events = lg_events l @ lg_events l', lg_spawned = lg_spawned l @ lg_spawned l',
               lg_probes = lg_probes l @ lg_probes l'\<rparr>, r)))"

definition gives :: "'a \<Rightarrow> 'a phase" where
  "gives a = (\<lparr>lg_events = [], lg_spawned = [], lg_probes = []\<rparr>, Inr a)"

definition emits :: "runner_event list \<Rightarrow> unit phase" where
  "emits es = (\<lparr>lg_events = es, lg_spawned = [], lg_probes = []\<rparr>, Inr ())"

definition starts :: "spawn list \<Rightarrow> unit phase" where
  "starts qs = (\<lparr>lg_events = [], lg_spawned = qs, lg_probes = []\<rparr>, Inr ())"

definition keeps :: "probe_descriptor list \<Rightarrow> unit phase" where
  "keeps probes = (\<lparr>lg_events = [], lg_spawned = [], lg_probes = [probes]\<rparr>, Inr ())"

definition ends :: "run_result \<Rightarrow> terminal_state \<Rightarrow> 'a phase" where
  "ends metrics terminal = (\<lparr>lg_events = [], lg_spawned = [], lg_probes = []\<rparr>,
     Inl \<lparr>ro_result = metrics, ro_terminal_state = terminal\<rparr>)"

definition superseded :: "run_result \<Rightarrow> 'a phase" where
  "superseded metrics = (\<lparr>lg_events = [], lg_spawned = [], lg_probes = []\<rparr>,
     Inl (cancelled_outcome metrics ''superseded''))"

abbreviation first :: "unit phase \<Rightarrow> 'a phase \<Rightarrow> 'a phase" where
  "first m k \<equiv> andthen m (\<lambda>_. k)"

section \<open>The run's surroundings\<close>

text \<open>How a process went: its result, \<open>duration_ms\<close>, and whether the run's token was
  cancelled when the runner looked after it.\<close>

record finished =
  fn_result :: process_result
  fn_ms :: millis
  fn_cancelled :: bool

text \<open>The program: why it could not be started, if so; else what the supervisor's loop met.\<close>

record program_run =
  px_fault :: "string option"
  px_polls :: "poll list"
  px_started :: nat
  px_pid :: nat
  px_ms :: millis
  px_cancelled :: bool

record run_input =
  ri_session :: session
  ri_snapshot :: snapshot
  ri_settings :: session_settings
  ri_project_root :: path
  ri_from_str :: "string \<Rightarrow> instrumentation_output res"
  ri_probe_json :: "string \<Rightarrow> raw_probe_event res"
  ri_test_json :: "string \<Rightarrow> test_envelope res"
  ri_json :: "string \<Rightarrow> json option"
  ri_answer :: "nat \<Rightarrow> instrument_answer"
  ri_instrument_ms :: millis
  ri_program :: program_run
  ri_tests_cancelled :: bool

definition at :: "run_input \<Rightarrow> string \<Rightarrow> string" where
  "at w rel = show_path (path_join (ss_root (ri_session w)) rel)"

definition files_of :: "run_input \<Rightarrow> project_file list" where
  "files_of w = sn_files (ri_snapshot w)"

definition policy_of :: "run_input \<Rightarrow> sandbox_policy option" where
  "policy_of w = session_sandbox (ri_session w) (ri_settings w)"

text \<open>A tool run in the session's directory, and one run in its sources' directory.\<close>

definition tool :: "run_input \<Rightarrow> string \<Rightarrow> string list \<Rightarrow> process_limits \<Rightarrow> (string \<times> string) list \<Rightarrow> spawn" where
  "tool w program args limits env =
     \<lparr>sq_program = program, sq_args = args, sq_cwd = ss_root (ri_session w), sq_limits = limits,
      sq_probe_fd = False, sq_env = env, sq_sandbox = policy_of w, sq_stdin = StdinNull\<rparr>"

definition in_sources :: "run_input \<Rightarrow> spawn \<Rightarrow> spawn" where
  "in_sources w q = q\<lparr>sq_cwd := path_join (ss_root (ri_session w)) ''src''\<rparr>"

definition test_timeout :: "run_input \<Rightarrow> nat" where
  "test_timeout w = max (se_timeout_ms (ri_settings w)) 3000"

text \<open>\<open>String::ends_with\<close> after \<open>to_lowercase\<close>, for a suffix of ASCII letters that no other
  character lowers to.\<close>

definition ends_lower :: "string \<Rightarrow> string \<Rightarrow> bool" where
  "ends_lower s tail \<longleftrightarrow> ends_with (map to_ascii_lower s) tail"

section \<open>Instrumentation\<close>

text \<open>The commands of the files that did not go through a worker.\<close>

fun instrument_spawns :: "run_input \<Rightarrow> instrument_config \<Rightarrow> string \<Rightarrow> nat \<Rightarrow> project_file list \<Rightarrow> spawn list" where
  "instrument_spawns w config command n [] = []"
| "instrument_spawns w config command n (file # files) =
     (if \<not> ic_instruments config (pf_path file) then instrument_spawns w config command n files
      else (case ri_answer w (n + 1) of
              WorkerAnswer json cancelled \<Rightarrow>
                if cancelled then [] else instrument_spawns w config command (n + 1) files
            | CliAnswer result cancelled \<Rightarrow>
                tool w command
                  (instrument_args config (ri_session w) (ri_settings w) (sn_version (ri_snapshot w)) file (n + 1))
                  (process_limits_new (ic_timeout_ms config) (1024 * 1024) (512 * 1024))
                  [(''NODE_COMPILE_CACHE'', at w ''.node-compile-cache'')]
                # (if pr_cancelled result \<or> cancelled then []
                   else instrument_spawns w config command (n + 1) files)))"

definition instrumented :: "run_input \<Rightarrow> run_result \<Rightarrow> instrument_outcome \<Rightarrow> (instrument_outcome \<times> run_result) phase" where
  "instrumented w metrics0 outcome =
     (let metrics = metrics0\<lparr>instrumentation_ms := ri_instrument_ms w\<rparr> in
      if in_cancelled outcome then superseded metrics
      else first (keeps (in_probes outcome))
        (first (emits [Catalog (in_probes outcome), DiagnosticEvent ''atomis-instrumenter'' (in_diagnostics outcome)])
           (if in_diagnostics outcome \<noteq> []
            then ends (metrics\<lparr>rr_reason := Some ''instrumentation error''\<rparr>) TCompileError
            else gives (outcome, metrics))))"

definition instrument :: "run_input \<Rightarrow> instrument_config \<Rightarrow> string \<Rightarrow> run_result \<Rightarrow> (instrument_outcome \<times> run_result) phase" where
  "instrument w config command metrics =
     (case instrument_files (ri_from_str w) config (ri_answer w) (ri_snapshot w) of
        (outcome, events) \<Rightarrow>
          first (starts (instrument_spawns w config command 0 (files_of w)))
            (first (emits events) (instrumented w metrics outcome)))"

text \<open>How the runners open: the tests are found (\<open>qs\<close> are what is started for them at once) and the
  files instrumented.\<close>

definition opens ::
  "run_input \<Rightarrow> spawn list \<Rightarrow> test_case list \<Rightarrow> instrument_config \<Rightarrow> string \<Rightarrow> (instrument_outcome \<times> run_result) phase" where
  "opens w qs catalog config command =
     first (emits [StateEvent Instrumenting])
       (first (starts qs)
         (first (emits [TestCatalogEvent catalog]) (instrument w config command run_result_default)))"

section \<open>Compilation\<close>

definition compiled :: "run_result \<Rightarrow> finished \<Rightarrow> app_diagnostic list \<Rightarrow> run_result phase" where
  "compiled metrics0 compile diagnostics =
     (let r = fn_result compile; metrics = metrics0\<lparr>compilation_ms := fn_ms compile\<rparr> in
      if pr_cancelled r \<or> fn_cancelled compile then superseded metrics
      else first (emits [DiagnosticEvent ''compiler'' diagnostics])
        (if pr_exit_code r \<noteq> Some 0 \<or> pr_limit r \<noteq> None
         then first (emits (if diagnostics = [] then [OutputEvent Stderr (pr_stderr r) ErrorOutput None] else []))
           (ends (metrics\<lparr>rr_exit_code := pr_exit_code r, rr_signal := pr_signal r, rr_timed_out := pr_timed_out r,
                    rr_reason := Some (compile_failure_reason r)\<rparr>) TCompileError)
         else gives metrics))"

section \<open>Execution\<close>

definition program_spawn :: "run_input \<Rightarrow> string \<Rightarrow> string list \<Rightarrow> (string \<times> string) list \<Rightarrow> spawn" where
  "program_spawn w program args env =
     (tool w program args (process_limits_new (program_timeout_ms (ri_settings w)) (512 * 1024) (512 * 1024)) env)
       \<lparr>sq_cwd := path_join (ss_root (ri_session w)) ''src'', sq_probe_fd := True,
        sq_stdin := fst (session_stdin (ri_session w))\<rparr>"

fun is_live :: "child_stdin \<Rightarrow> bool" where
  "is_live (StdinLive _) = True"
| "is_live _ = False"

definition execute :: "run_input \<Rightarrow> spawn \<Rightarrow> bool \<Rightarrow> instrument_outcome \<Rightarrow> execute_outcome" where
  "execute w q parse_stdout outcome =
     (let x = ri_program w in
      (case px_fault x of
         Some message \<Rightarrow> \<lparr>xo_result = failed_result message, xo_probe_error = None, xo_events = []\<rparr>
       | None \<Rightarrow>
           execute_program (probe_handler (ri_probe_json w)) (in_probes outcome) (in_file_ids outcome) parse_stdout
             \<lparr>ro_limits = sq_limits q, ro_started = px_started x, ro_pid = px_pid x,
              ro_quiet = is_live (sq_stdin q), ro_probe_fd = sq_probe_fd q\<rparr> (px_polls x)))"

text \<open>What follows the program: its classification, the runtime diagnostic, the tests.\<close>

definition concluded :: "run_input \<Rightarrow> run_result \<Rightarrow> execute_outcome \<Rightarrow> (string \<Rightarrow> app_diagnostic) \<Rightarrow> unit phase \<Rightarrow> unit phase" where
  "concluded w metrics0 execution located tests =
     (case classify_execution metrics0 execution (px_ms (ri_program w)) (px_cancelled (ri_program w)) of
        (Some outcome, _) \<Rightarrow> ends (ro_result outcome) (ro_terminal_state outcome)
      | (None, metrics) \<Rightarrow>
          let r = xo_result execution in
          if pr_exit_code r \<noteq> Some 0 \<or> pr_signal r \<noteq> None
          then first (emits [DiagnosticEvent ''runtime'' [located (pr_stderr r)]])
            (first tests (ends (metrics\<lparr>rr_reason := Some ''abnormal exit''\<rparr>) TRuntimeError))
          else first (emits [DiagnosticEvent ''runtime'' []]) (first tests (ends metrics TSucceeded)))"

definition run_program ::
  "run_input \<Rightarrow> run_result \<Rightarrow> instrument_outcome \<Rightarrow> spawn \<Rightarrow> bool \<Rightarrow> (string \<Rightarrow> app_diagnostic) \<Rightarrow> unit phase \<Rightarrow> unit phase" where
  "run_program w metrics outcome q parse_stdout located tests =
     (let execution = execute w q parse_stdout outcome in
      first (starts [q]) (first (emits (xo_events execution)) (concluded w metrics execution located tests)))"

text \<open>The diagnostic of a program that ended badly: where its stderr says it did.\<close>

definition runtime_diagnostic :: "string \<Rightarrow> string option \<Rightarrow> nat \<Rightarrow> nat \<Rightarrow> app_diagnostic" where
  "runtime_diagnostic message file line column =
     basic_diagnostic message (map_option (\<lambda>f. ''src/'' @ f) file) SevError line column ''runtime''"

section \<open>Tests read from a report\<close>

record suite_result =
  st_name :: string
  st_status :: test_status
  st_ms :: millis
  st_message :: "string option"

record tally =
  tl_passed :: nat
  tl_failed :: nat
  tl_skipped :: nat

definition tally_new :: tally where
  "tally_new = \<lparr>tl_passed = 0, tl_failed = 0, tl_skipped = 0\<rparr>"

fun count_status :: "test_status \<Rightarrow> tally \<Rightarrow> tally" where
  "count_status Passed t = t\<lparr>tl_passed := tl_passed t + 1\<rparr>"
| "count_status Failed t = t\<lparr>tl_failed := tl_failed t + 1\<rparr>"
| "count_status _ t = t\<lparr>tl_skipped := tl_skipped t + 1\<rparr>"

fun report_results ::
  "(string \<Rightarrow> test_case option) \<Rightarrow> suite_result list \<Rightarrow> string set \<Rightarrow> tally \<Rightarrow> runner_event list \<times> string set \<times> tally" where
  "report_results matched [] reported counts = ([], reported, counts)"
| "report_results matched (r # rs) reported counts =
     (let m = matched (st_name r);
          (events, reported', counts') =
             report_results matched rs (case m of Some t \<Rightarrow> insert (tc_test_id t) reported | None \<Rightarrow> reported)
               (count_status (st_status r) counts)
      in (TestResultEvent (map_option tc_test_id m) (st_name r) (st_status r) (st_ms r) (st_message r) # events,
          reported', counts'))"

definition suite_events ::
  "(string \<Rightarrow> test_case option) \<Rightarrow> test_case list \<Rightarrow> suite_result list \<Rightarrow> bool \<Rightarrow> millis \<Rightarrow> runner_event list" where
  "suite_events matched catalog results timed_out duration =
     (let (events, reported, counts) = report_results matched results {} tally_new;
          late = (if timed_out then report_timed_out_remainder catalog reported else [])
      in events @ late @
         [TestSummaryEvent (tl_passed counts) (tl_failed counts + length late) (tl_skipped counts) 0 duration])"


text \<open>The report of a suite started with the run: \<open>suite\<close> is none when its task was lost, \<open>lost\<close> what is
  shown of one that failed without a result.\<close>

definition suite_tests ::
  "run_input \<Rightarrow> (string \<Rightarrow> test_case option) \<Rightarrow> test_case list \<Rightarrow> finished option \<Rightarrow> (string \<Rightarrow> suite_result list)
   \<Rightarrow> (process_result \<Rightarrow> runner_event list) \<Rightarrow> unit phase" where
  "suite_tests w matched catalog suite results_of lost =
     (if catalog = [] \<or> ri_tests_cancelled w then gives ()
      else first (emits [StateEvent Testing])
        (case suite of
           None \<Rightarrow> gives ()
         | Some execution \<Rightarrow>
             let r = fn_result execution in
             if pr_cancelled r \<or> fn_cancelled execution then gives ()
             else
               let results = results_of (pr_stdout r) in
               first (emits (if results = [] \<and> pr_exit_code r \<noteq> Some 0 then lost r else []))
                 (emits (suite_events matched catalog results (pr_timed_out r) (fn_ms execution)))))"

section \<open>Tests read from a channel\<close>

text \<open>\<open>started\<close> is the map of the tests begun and not reported, by index.\<close>

record channel_state =
  ch_started :: "(nat \<times> string) list"
  ch_passed :: nat
  ch_failed :: nat
  ch_skipped :: nat
  ch_leaked :: nat
  ch_stderr :: string
  ch_reported :: "string set"
  ch_summary :: "(nat \<times> nat \<times> nat \<times> nat) option"
  ch_reader :: "raw_test_event reader"
  ch_events :: "runner_event list"

definition channel_new :: channel_state where
  "channel_new = \<lparr>ch_started = [], ch_passed = 0, ch_failed = 0, ch_skipped = 0, ch_leaked = 0,
     ch_stderr = [], ch_reported = {}, ch_summary = None, ch_reader = reader_new, ch_events = []\<rparr>"

text \<open>What differs between the languages: the catalog entry of a reported name, the status
  that is shown, and whether a failing test is shown with what it printed.\<close>

record channel_rules =
  cr_match :: "string \<Rightarrow> test_case option"
  cr_status :: "raw_test_status \<Rightarrow> test_status"
  cr_messages :: bool
  cr_leaks :: bool

definition failing :: "test_status \<Rightarrow> bool" where
  "failing s \<longleftrightarrow> s = Failed \<or> s = Leaked"

fun count_channel :: "test_status \<Rightarrow> channel_state \<Rightarrow> channel_state" where
  "count_channel Passed s = s\<lparr>ch_passed := ch_passed s + 1\<rparr>"
| "count_channel Failed s = s\<lparr>ch_failed := ch_failed s + 1\<rparr>"
| "count_channel Leaked s = s\<lparr>ch_leaked := ch_leaked s + 1\<rparr>"
| "count_channel _ s = s\<lparr>ch_skipped := ch_skipped s + 1\<rparr>"

fun on_test_event :: "channel_rules \<Rightarrow> raw_test_event \<Rightarrow> channel_state \<Rightarrow> channel_state" where
  "on_test_event rules (TestStart index name) s =
     s\<lparr>ch_started := AList.update index name (ch_started s), ch_stderr := []\<rparr>"
| "on_test_event rules (RawTestResult index name status duration error) s =
     (let matched = cr_match rules name; shown = cr_status rules status;
          tail = trim (ch_stderr s);
          message = (if cr_messages rules \<and> failing shown
                     then (if tail = [] then error else Some (truncate_chars tail 1200)) else None);
          s1 = count_channel shown (s\<lparr>ch_started := AList.delete index (ch_started s)\<rparr>)
      in s1\<lparr>ch_reported := (case matched of Some t \<Rightarrow> insert (tc_test_id t) (ch_reported s1) | None \<Rightarrow> ch_reported s1),
            ch_events := ch_events s1 @ [TestResultEvent (map_option tc_test_id matched)
               (case matched of Some t \<Rightarrow> tc_name t | None \<Rightarrow> name) shown duration message],
            ch_stderr := []\<rparr>)"
| "on_test_event rules (RawTestSummary passed failed skipped leaked) s =
     s\<lparr>ch_summary := Some (passed, failed, skipped, if cr_leaks rules then leaked else 0)\<rparr>"

text \<open>The reader hands on its events as it finds them.\<close>

definition channel_read :: "channel_rules \<Rightarrow> raw_test_event reader \<Rightarrow> channel_state \<Rightarrow> channel_state" where
  "channel_read rules r s =
     fold (on_test_event rules) (drop (length (rd_out (ch_reader s))) (rd_out r)) (s\<lparr>ch_reader := r\<rparr>)"

fun channel_callback :: "channel_rules \<Rightarrow> raw_test_event handler \<Rightarrow> callback \<Rightarrow> channel_state \<Rightarrow> channel_state" where
  "channel_callback rules h (OnStderr chunk) s = s\<lparr>ch_stderr := ch_stderr s @ chunk\<rparr>"
| "channel_callback rules h (OnProbe chunk) s = channel_read rules (push_bytes h chunk (ch_reader s)) s"
| "channel_callback rules h _ s = s"

text \<open>How the test process went, and in which order the map of started tests is walked.\<close>

record test_run =
  tr_fault :: "string option"
  tr_polls :: "poll list"
  tr_begun :: nat
  tr_pid :: nat
  tr_ms :: millis
  tr_cancelled :: bool
  tr_order :: "(nat \<times> string) list \<Rightarrow> string list"

definition supervised :: "spawn \<Rightarrow> test_run \<Rightarrow> process_result \<times> callback list" where
  "supervised q t =
     (case tr_fault t of
        Some message \<Rightarrow> (failed_result message, [])
      | None \<Rightarrow>
          let opts = \<lparr>ro_limits = sq_limits q, ro_started = tr_begun t, ro_pid = tr_pid t, ro_quiet = False,
                      ro_probe_fd = sq_probe_fd q\<rparr>
          in finish_run (snd (run_loop opts (tr_polls t) (run_start opts))))"

definition run_channel :: "channel_rules \<Rightarrow> raw_test_event handler \<Rightarrow> spawn \<Rightarrow> test_run \<Rightarrow> process_result \<times> channel_state" where
  "run_channel rules h q t =
     (case supervised q t of (result, calls) \<Rightarrow> (result, fold (channel_callback rules h) calls channel_new))"

text \<open>What is reported once the process is gone.  \<open>show_stderr\<close>: what the process wrote is
  shown when it failed without a summary.\<close>

definition channel_events ::
  "channel_rules \<Rightarrow> bool \<Rightarrow> test_case list \<Rightarrow> test_run \<Rightarrow> process_result \<Rightarrow> string option \<Rightarrow> channel_state \<Rightarrow> runner_event list" where
  "channel_events rules show_stderr catalog t result read_error s =
     (let started = tr_order t (ch_started s);
          lookup = (\<lambda>name. map_option (\<lambda>c. (tc_test_id c, tc_name c)) (cr_match rules name));
          (aborted, reported) =
             report_aborted_tests started (ch_stderr s) (pr_stderr result) (pr_timed_out result) lookup (ch_reported s);
          stderr = (if started = [] then ch_stderr s else []);
          late = (if pr_timed_out result then report_timed_out_remainder catalog reported else []);
          lost = (if show_stderr \<and> ch_summary s = None \<and> pr_exit_code result \<noteq> Some 0 \<and> trim stderr \<noteq> []
                  then [OutputEvent Stderr stderr ErrorOutput None] else []);
          broken = (case read_error of
             Some message \<Rightarrow> [OutputEvent Stderr (''test channel error: '' @ message @ [CHR 0x0A]) ErrorOutput None]
           | None \<Rightarrow> []);
          (passed, failed, skipped, leaked) =
             (case ch_summary s of Some counts \<Rightarrow> counts
              | None \<Rightarrow> (ch_passed s, ch_failed s + length aborted + length late, ch_skipped s, ch_leaked s))
      in aborted @ late @ lost @ broken @ [TestSummaryEvent passed failed skipped leaked (tr_ms t)])"

text \<open>\<open>error_of\<close> is what the runner makes of the reader at the end: an unfinished line is an
  error when it calls \<open>end\<close>.\<close>

definition channel_tests ::
  "run_input \<Rightarrow> channel_rules \<Rightarrow> bool \<Rightarrow> (raw_test_event handler \<Rightarrow> raw_test_event reader \<Rightarrow> string option)
   \<Rightarrow> test_case list \<Rightarrow> spawn \<Rightarrow> test_run \<Rightarrow> unit phase" where
  "channel_tests w rules show_stderr error_of catalog q t =
     (let h = test_handler (ri_test_json w);
          (result, s) = run_channel rules h q t;
          read_error = error_of h (ch_reader s)
      in first (starts [q])
           (first (emits (ch_events s))
             (if pr_cancelled result \<or> tr_cancelled t then gives ()
              else emits (channel_events rules show_stderr catalog t result read_error s))))"

text \<open>The distinct paths of a catalog, in its order.\<close>

fun keep_first :: "string list \<Rightarrow> string list \<Rightarrow> string list" where
  "keep_first seen [] = seen"
| "keep_first seen (p # ps) = keep_first (if p \<in> set seen then seen else seen @ [p]) ps"

definition test_paths :: "run_input \<Rightarrow> test_case list \<Rightarrow> string list" where
  "test_paths w catalog = keep_first [] (map (\<lambda>t. at w (tc_path t)) catalog)"

definition ended_error :: "raw_test_event handler \<Rightarrow> raw_test_event reader \<Rightarrow> string option" where
  "ended_error h r = rd_error (end_reader h r)"

definition test_spawn :: "run_input \<Rightarrow> string \<Rightarrow> string list \<Rightarrow> (string \<times> string) list \<Rightarrow> spawn" where
  "test_spawn w program args env =
     (tool w program args (process_limits_new (test_timeout w) (512 * 1024) (512 * 1024)) env)
       \<lparr>sq_cwd := path_join (ss_root (ri_session w)) ''src'', sq_probe_fd := True\<rparr>"


section \<open>Judging a phase\<close>

fun event_ok :: "string list \<Rightarrow> runner_event \<Rightarrow> bool" where
  "event_ok ids (DiagnosticEvent owner ds) \<longleftrightarrow> list_all wf_diagnostic ds"
| "event_ok ids (TestCatalogEvent catalog) \<longleftrightarrow> map tc_test_id catalog = ids \<and> distinct ids"
| "event_ok ids (TestResultEvent (Some i) name status duration message) \<longleftrightarrow> i \<in> set ids"
| "event_ok ids _ \<longleftrightarrow> True"

text \<open>The rungs of a run, and the ones a list of events climbs.\<close>

fun rung :: "run_state \<Rightarrow> nat" where
  "rung Instrumenting = 0"
| "rung Compiling = 1"
| "rung Running = 2"
| "rung Testing = 3"
| "rung _ = 4"

fun states_of :: "runner_event list \<Rightarrow> run_state list" where
  "states_of (StateEvent st # es) = st # states_of es"
| "states_of (_ # es) = states_of es"
| "states_of [] = []"

lemma states_of_append [simp]: "states_of (es @ fs) = states_of es @ states_of fs"
  by (induction es rule: states_of.induct) simp_all

definition rungs :: "'a phase \<Rightarrow> nat list" where
  "rungs m = map rung (states_of (lg_events (fst m)))"

definition clean_exit :: "run_result \<Rightarrow> bool" where
  "clean_exit r \<longleftrightarrow> rr_exit_code r = Some 0 \<and> rr_signal r = None \<and> \<not> rr_timed_out r \<and> \<not> rr_cancelled r"

text \<open>\<open>judged w ids lo m hi\<close>: entered with every state so far below \<open>lo\<close>, the phase starts
  only confined processes, emits only well-formed events, climbs, calls a run a success only
  after a clean exit and a compile error only before it ran, and hands on below \<open>hi\<close>.\<close>

definition judged :: "run_input \<Rightarrow> string list \<Rightarrow> nat \<Rightarrow> 'a phase \<Rightarrow> nat \<Rightarrow> bool" where
  "judged w ids lo m hi \<longleftrightarrow>
     list_all (\<lambda>q. sq_sandbox q = policy_of w) (lg_spawned (fst m))
     \<and> list_all (event_ok ids) (lg_events (fst m))
     \<and> sorted_wrt (<) (rungs m) \<and> (\<forall>n \<in> set (rungs m). lo \<le> n \<and> n < 4)
     \<and> (case snd m of
          Inr a \<Rightarrow> lo \<le> hi \<and> (\<forall>n \<in> set (rungs m). n < hi)
        | Inl outcome \<Rightarrow> (ro_terminal_state outcome = TSucceeded \<longrightarrow> clean_exit (ro_result outcome))
            \<and> (ro_terminal_state outcome = TCompileError \<longrightarrow> lo \<le> 2 \<and> (\<forall>n \<in> set (rungs m). n < 2)))"

lemma judged_gives: "lo \<le> hi \<Longrightarrow> judged w ids lo (gives a) hi"
  by (simp add: judged_def gives_def rungs_def)

lemma judged_ends:
  "(terminal = TSucceeded \<Longrightarrow> clean_exit metrics) \<Longrightarrow> (terminal = TCompileError \<Longrightarrow> lo \<le> 2)
   \<Longrightarrow> judged w ids lo (ends metrics terminal) hi"
  by (simp add: judged_def ends_def rungs_def)

lemma judged_superseded: "judged w ids lo (superseded metrics) hi"
  by (simp add: judged_def superseded_def rungs_def cancelled_outcome_def)

lemma judged_starts: "list_all (\<lambda>q. sq_sandbox q = policy_of w) qs \<Longrightarrow> lo \<le> hi \<Longrightarrow> judged w ids lo (starts qs) hi"
  by (simp add: judged_def starts_def rungs_def)

lemma judged_keeps: "lo \<le> hi \<Longrightarrow> judged w ids lo (keeps probes) hi"
  by (simp add: judged_def keeps_def rungs_def)

lemma judged_emits:
  "list_all (event_ok ids) es \<Longrightarrow> states_of es = [] \<Longrightarrow> lo \<le> hi \<Longrightarrow> judged w ids lo (emits es) hi"
  by (simp add: judged_def emits_def rungs_def)

lemma judged_state: "rung st < 4 \<Longrightarrow> lo \<le> rung st \<Longrightarrow> rung st < hi \<Longrightarrow> judged w ids lo (emits [StateEvent st]) hi"
  by (simp add: judged_def emits_def rungs_def)

lemma judged_andthen:
  assumes "judged w ids lo m mid" "\<And>a. snd m = Inr a \<Longrightarrow> judged w ids mid (f a) hi"
  shows "judged w ids lo (andthen m f) hi"
proof (cases m)
  case (Pair l r)
  show ?thesis
  proof (cases r)
    case (Inl outcome)
    with assms(1) Pair show ?thesis by (simp add: andthen_def judged_def rungs_def)
  next
    case (Inr a)
    obtain l' r' where f: "f a = (l', r')" by (cases "f a")
    have m: "judged w ids lo (l, Inr a) mid" and k: "judged w ids mid (l', r') hi"
      using assms Pair Inr f by simp_all
    have r: "rungs (andthen m f) = rungs (l, Inr a) @ rungs (l', r')"
      using Pair Inr f by (simp add: andthen_def rungs_def)
    have "sorted_wrt (<) (rungs (andthen m f))"
      using m k unfolding r by (fastforce simp: judged_def sorted_wrt_append)
    with m k Pair Inr f r show ?thesis
      by (fastforce simp: judged_def andthen_def split: sum.splits)
  qed
qed


section \<open>The shared phases, judged\<close>

text \<open>Events of the program and of the instrumenter: output and probes only.\<close>

fun plain_event :: "runner_event \<Rightarrow> bool" where
  "plain_event (OutputEvent _ _ _ _) = True"
| "plain_event (ProbeEvent _ _ _) = True"
| "plain_event _ = False"

lemma plain_event_ok: "plain_event e \<Longrightarrow> event_ok ids e"
  by (cases e) auto

lemma plain_states: "list_all plain_event es \<Longrightarrow> states_of es = []"
  by (induction es rule: states_of.induct) auto

lemma judged_plain: "list_all plain_event es \<Longrightarrow> lo \<le> hi \<Longrightarrow> judged w ids lo (emits es) hi"
  by (rule judged_emits) (auto simp: plain_states list_all_iff plain_event_ok)

lemma forward_all_plain: "list_all plain_event (fst (forward_all raws f))"
proof (induction raws arbitrary: f)
  case (Cons raw raws)
  obtain e f1 where f1: "forward_probe raw f = (e, f1)" by force
  moreover obtain es f2 where "forward_all raws f1 = (es, f2)" by force
  moreover from f1 have "plain_event e" by (auto simp: forward_probe_def Let_def)
  ultimately show ?case using Cons.IH [of f1] by simp
qed simp

lemma new_output_plain: "list_all plain_event (new_output old s)"
  by (simp add: new_output_def output_of_def list_all_iff)

lemma with_stdout_plain: "list_all plain_event (ex_events s) \<Longrightarrow> list_all plain_event (ex_events (with_stdout p s))"
  by (simp add: with_stdout_def new_output_plain)

lemma with_stderr_plain: "list_all plain_event (ex_events s) \<Longrightarrow> list_all plain_event (ex_events (with_stderr p s))"
  by (simp add: with_stderr_def new_output_plain)

lemma push_probe_plain: "list_all plain_event (ex_events s) \<Longrightarrow> list_all plain_event (ex_events (push_probe h chunk s))"
  using forward_all_plain by (fastforce simp: push_probe_def Let_def split: prod.split dest: arg_cong [where f = fst])

lemma on_callback_plain:
  "list_all plain_event (ex_events s) \<Longrightarrow> list_all plain_event (ex_events (on_callback h ps interactive c s))"
  by (cases c) (simp_all add: with_stdout_plain with_stderr_plain push_probe_plain Let_def)

lemma callbacks_plain:
  "list_all plain_event (ex_events s) \<Longrightarrow> list_all plain_event (ex_events (fold (on_callback h ps interactive) cs s))"
  by (induction cs arbitrary: s) (simp_all add: on_callback_plain)

lemma execute_plain: "list_all plain_event (xo_events (execute w q ps outcome))"
  by (auto simp: execute_def execute_program_def exec_finish_def Let_def exec_start_def
      intro!: with_stdout_plain with_stderr_plain callbacks_plain split: option.split prod.split)

text \<open>serde reads the numbers of the instrumenter's answer as u32s.\<close>

definition reads_u32 :: "(string \<Rightarrow> instrumentation_output res) \<Rightarrow> bool" where
  "reads_u32 from_str \<longleftrightarrow> (\<forall>json metadata. from_str json = Inr metadata \<longrightarrow>
     list_all (\<lambda>d. (case pg_line d of None \<Rightarrow> True | Some n \<Rightarrow> n < 2 ^ 32)
       \<and> (case pg_column d of None \<Rightarrow> True | Some n \<Rightarrow> n < 2 ^ 32)) (io_parse_diagnostics metadata))"

lemma src_path [simp]: "starts_with (CHR ''s'' # CHR ''r'' # CHR ''c'' # CHR ''/'' # p) ''src/''"
  by (simp add: starts_with_def)

lemma wf_basic:
  "(case p of None \<Rightarrow> True | Some q \<Rightarrow> starts_with q ''src/'') \<Longrightarrow> line < 2 ^ 32 \<Longrightarrow> column < 2 ^ 32
   \<Longrightarrow> wf_diagnostic (basic_diagnostic m p sev line column source)"
  by (simp add: wf_diagnostic_def basic_diagnostic_def)

lemma wf_filtered:
  "(\<And>line d. f line = Some d \<Longrightarrow> wf_diagnostic d) \<Longrightarrow> list_all wf_diagnostic (List.map_filter f ls)"
  by (induction ls) (auto simp: List.map_filter_simps split: option.split)

lemma wf_runtime: "line < 2 ^ 32 \<Longrightarrow> column < 2 ^ 32 \<Longrightarrow> wf_diagnostic (runtime_diagnostic m file line column)"
  unfolding runtime_diagnostic_def by (rule wf_basic) (simp_all split: option.split)

lemma find_in: "find P xs = Some x \<Longrightarrow> x \<in> set xs"
  by (metis find_Some_iff nth_mem)

lemma wf_instrument_error [simp]: "wf_diagnostic (instrument_error source_name p m)"
  by (simp add: wf_diagnostic_def instrument_error_def)

lemma wf_parse_error:
  "(case pg_line d of None \<Rightarrow> True | Some n \<Rightarrow> n < 2 ^ 32) \<and> (case pg_column d of None \<Rightarrow> True | Some n \<Rightarrow> n < 2 ^ 32)
   \<Longrightarrow> wf_diagnostic (parse_error source_name p d)"
  by (auto simp: wf_diagnostic_def parse_error_def instrument_error_def split: option.splits)

lemma record_metadata_wf:
  assumes "reads_u32 from_str" "list_all wf_diagnostic (in_diagnostics outcome)"
  shows "list_all wf_diagnostic (in_diagnostics (record_metadata from_str config p json version outcome))"
proof (cases "from_str json")
  case (Inr metadata)
  with assms(1) have "list_all wf_diagnostic (map (parse_error (ic_source_name config) p) (io_parse_diagnostics metadata))"
    unfolding reads_u32_def list_all_iff by (fastforce intro!: wf_parse_error)
  with assms(2) Inr show ?thesis by (simp add: record_metadata_def Let_def)
qed (use assms in \<open>simp add: record_metadata_def\<close>)

lemma instrument_loop_wf:
  assumes from_str: "reads_u32 from_str"
  shows "list_all wf_diagnostic (in_diagnostics outcome)
    \<Longrightarrow> instrument_loop from_str config version answer n fs outcome = (o2, events)
    \<Longrightarrow> list_all wf_diagnostic (in_diagnostics o2) \<and> list_all plain_event events"
proof (induction fs arbitrary: n outcome o2 events)
  case (Cons fl fs)
  let ?o1 = "outcome\<lparr>in_file_ids := (in_file_ids outcome)(n + 1 \<mapsto> ''src/'' @ pf_path fl)\<rparr>"
  have o1: "list_all wf_diagnostic (in_diagnostics ?o1)" using Cons.prems(1) by simp
  have read: "list_all wf_diagnostic (in_diagnostics (record_metadata from_str config (pf_path fl) json version ?o1))" for json
    by (rule record_metadata_wf [OF from_str o1])
  show ?case
  proof (cases "ic_instruments config (pf_path fl)")
    case True
    show ?thesis
    proof (cases "answer (n + 1)")
      case (WorkerAnswer json cancelled)
      show ?thesis
      proof (cases cancelled)
        case False
        with True WorkerAnswer Cons.prems(2) show ?thesis by (intro Cons.IH [OF read]) (simp add: Let_def)
      qed (use True WorkerAnswer Cons.prems o1 in \<open>auto simp: Let_def\<close>)
    next
      case (CliAnswer result cancelled)
      consider "pr_cancelled result \<or> cancelled" | "\<not> (pr_cancelled result \<or> cancelled)" "pr_exit_code result = Some 0"
        | "\<not> (pr_cancelled result \<or> cancelled)" "pr_exit_code result \<noteq> Some 0" by blast
      then show ?thesis
      proof cases
        case 1
        with True CliAnswer Cons.prems o1 show ?thesis by (auto simp: Let_def)
      next
        case 2
        with True CliAnswer Cons.prems(2) show ?thesis by (intro Cons.IH [OF read]) (simp add: Let_def)
      next
        case 3
        let ?o2 = "?o1\<lparr>in_diagnostics := in_diagnostics ?o1 @
            [instrument_error (ic_source_name config) (pf_path fl) ''Instrumentation failed'']\<rparr>"
        obtain o3 es where l: "instrument_loop from_str config version answer (n + 1) fs ?o2 = (o3, es)" by force
        have "list_all wf_diagnostic (in_diagnostics ?o2)" using o1 by simp
        from Cons.IH [OF this l] l 3 True CliAnswer Cons.prems(2) show ?thesis by (auto simp: Let_def)
      qed
    qed
  qed (use Cons in simp)
qed simp

lemma instrument_files_wf:
  assumes "reads_u32 from_str" "instrument_files from_str config answer snap = (o2, events)"
  shows "list_all wf_diagnostic (in_diagnostics o2) \<and> list_all plain_event events"
  using instrument_loop_wf [OF assms(1) _ assms(2) [unfolded instrument_files_def]] by simp

lemma instrument_spawns_confined:
  "list_all (\<lambda>q. sq_sandbox q = policy_of w) (instrument_spawns w config command n fs)"
proof (induction fs arbitrary: n)
  case (Cons fl fs)
  show ?case by (cases "ri_answer w (n + 1)") (simp_all add: Cons.IH tool_def)
qed simp

lemma judged_instrumented:
  assumes "list_all wf_diagnostic (in_diagnostics outcome)" "lo \<le> 2"
  shows "judged w ids lo (instrumented w metrics outcome) lo"
  unfolding instrumented_def Let_def using assms
  by (auto intro!: judged_superseded judged_andthen [where mid = lo] judged_keeps judged_emits judged_ends judged_gives)

lemma judged_instrument:
  assumes "reads_u32 (ri_from_str w)" "lo \<le> 2"
  shows "judged w ids lo (instrument w config command metrics) lo"
proof (cases "instrument_files (ri_from_str w) config (ri_answer w) (ri_snapshot w)")
  case (Pair outcome events)
  with instrument_files_wf [OF assms(1)] have wf: "list_all wf_diagnostic (in_diagnostics outcome)"
    "list_all plain_event events" by auto
  with Pair assms(2) show ?thesis
    unfolding instrument_def
    by (auto intro!: judged_andthen [where mid = lo] judged_starts judged_plain instrument_spawns_confined judged_instrumented)
qed

lemma judged_opens:
  assumes "reads_u32 (ri_from_str w)" "distinct (map tc_test_id catalog)" "list_all (\<lambda>q. sq_sandbox q = policy_of w) qs"
  shows "judged w (map tc_test_id catalog) 0 (opens w qs catalog config command) 1"
proof -
  have "judged w (map tc_test_id catalog) 1 (emits [TestCatalogEvent catalog]) 1"
    using assms(2) by (intro judged_emits) simp_all
  with assms show ?thesis
    unfolding opens_def
    by (auto intro!: judged_andthen [where mid = 1] judged_state judged_starts judged_instrument)
qed

lemma judged_compiled:
  assumes "list_all wf_diagnostic ds" "lo \<le> 2"
  shows "judged w ids lo (compiled metrics compile ds) lo"
  unfolding compiled_def Let_def using assms
  by (auto intro!: judged_superseded judged_andthen [where mid = lo] judged_emits judged_ends judged_gives)

lemma classify_stops:
  "classify_execution metrics execution ms cancelled = (Some outcome, m) \<Longrightarrow>
     ro_terminal_state outcome \<in> {TCancelled, TTimedOut, TRuntimeError}"
  by (auto simp: classify_execution_def Let_def split: if_splits)

lemma classify_goes_on:
  "classify_execution metrics execution ms cancelled = (None, m) \<Longrightarrow>
     rr_exit_code m = pr_exit_code (xo_result execution) \<and> rr_signal m = pr_signal (xo_result execution)
     \<and> \<not> rr_timed_out m \<and> \<not> rr_cancelled m"
  by (auto simp: classify_execution_def Let_def split: if_splits)

lemma judged_concluded:
  assumes "\<And>stderr. wf_diagnostic (located stderr)" "judged w ids 3 tests 4"
  shows "judged w ids 3 (concluded w metrics execution located tests) 4"
proof -
  obtain stop m where c: "classify_execution metrics execution (px_ms (ri_program w)) (px_cancelled (ri_program w)) = (stop, m)"
    by force
  show ?thesis
  proof (cases stop)
    case (Some outcome)
    with c classify_stops [of metrics execution] show ?thesis
      unfolding concluded_def by (fastforce intro!: judged_ends)
  next
    case None
    with c classify_goes_on [of metrics execution] have m: "rr_exit_code m = pr_exit_code (xo_result execution)"
      "rr_signal m = pr_signal (xo_result execution)" "\<not> rr_timed_out m" "\<not> rr_cancelled m" by blast+
    have e: "judged w ids 3 (emits [DiagnosticEvent owner ds]) 3" if "list_all wf_diagnostic ds" for owner ds
      using that by (intro judged_emits) simp_all
    from c None m assms e show ?thesis
      unfolding concluded_def Let_def
      by (auto simp: clean_exit_def intro!: judged_andthen [OF _ judged_andthen [OF assms(2)], of 3] judged_ends)
  qed
qed

lemma judged_run_program:
  assumes "\<And>stderr. wf_diagnostic (located stderr)" "judged w ids 3 tests 4" "sq_sandbox q = policy_of w"
  shows "judged w ids 3 (run_program w metrics outcome q parse_stdout located tests) 4"
  unfolding run_program_def Let_def using assms
  by (auto intro!: judged_andthen [where mid = 3] judged_starts judged_plain execute_plain judged_concluded)

text \<open>A runner that builds and then runs, after its opening; one that runs at once.\<close>

lemma judged_running:
  assumes "\<And>stderr. wf_diagnostic (located stderr)" "judged w ids 3 tests 4" "sq_sandbox q = policy_of w" "lo \<le> 2"
  shows "judged w ids lo (first (emits [StateEvent Running]) (run_program w metrics outcome q parse_stdout located tests)) 4"
  using assms by (auto intro!: judged_andthen [OF judged_state] judged_run_program)

lemma judged_building:
  assumes "judged w ids 2 build 2" "\<And>c. list_all wf_diagnostic (parse c)"
    "\<And>stderr. wf_diagnostic (located stderr)" "judged w ids 3 tests 4" "sq_sandbox q = policy_of w"
  shows "judged w ids 1 (first (emits [StateEvent Compiling])
     (andthen build (\<lambda>compile. andthen (compiled metrics compile (parse compile))
       (\<lambda>m. first (emits [StateEvent Running]) (run_program w m outcome q parse_stdout located tests))))) 4"
  by (rule judged_andthen [OF judged_state [of _ _ 2]], simp, simp, simp, rule judged_andthen [OF assms(1)],
      rule judged_andthen [OF judged_compiled [OF assms(2)]], simp, rule judged_running [OF assms(3-5)]) simp

lemma program_spawn_confined [simp]: "sq_sandbox (program_spawn w program args env) = policy_of w"
  by (simp add: program_spawn_def tool_def)

lemma tool_confined [simp]: "sq_sandbox (tool w program args limits env) = policy_of w"
  by (simp add: tool_def)

lemma in_sources_confined [simp]: "sq_sandbox (in_sources w q) = sq_sandbox q"
  by (simp add: in_sources_def)

lemma test_spawn_confined [simp]: "sq_sandbox (test_spawn w program args env) = policy_of w"
  by (simp add: test_spawn_def)


section \<open>Reported tests\<close>

text \<open>The results among the events, by status.\<close>

fun results_with :: "(test_status \<Rightarrow> bool) \<Rightarrow> runner_event list \<Rightarrow> nat" where
  "results_with P [] = 0"
| "results_with P (TestResultEvent i name status duration message # es) = (if P status then 1 else 0) + results_with P es"
| "results_with P (_ # es) = results_with P es"

lemma results_with_append [simp]: "results_with P (es @ fs) = results_with P es + results_with P fs"
  by (induction P es rule: results_with.induct) simp_all

definition counted_failed :: "test_status \<Rightarrow> bool" where
  "counted_failed s \<longleftrightarrow> s = Failed \<or> s = TestTimedOut"

definition adds_up :: "nat \<Rightarrow> nat \<Rightarrow> nat \<Rightarrow> nat \<Rightarrow> runner_event list \<Rightarrow> bool" where
  "adds_up passed failed skipped leaked es \<longleftrightarrow>
     passed = results_with (\<lambda>s. s = Passed) es \<and> failed = results_with counted_failed es
     \<and> skipped = results_with (\<lambda>s. s = Skipped) es \<and> leaked = results_with (\<lambda>s. s = Leaked) es"

definition from_catalog :: "test_case list \<Rightarrow> (string \<Rightarrow> test_case option) \<Rightarrow> bool" where
  "from_catalog catalog matched \<longleftrightarrow> (\<forall>name t. matched name = Some t \<longrightarrow> t \<in> set catalog)"

lemma report_results_ok:
  assumes "from_catalog catalog matched" "report_results matched rs reported counts = (es, reported', counts')"
  shows "list_all (event_ok (map tc_test_id catalog)) es \<and> states_of es = []"
  using assms(2)
proof (induction rs arbitrary: reported counts es)
  case (Cons r rs)
  obtain es1 where e: "es = TestResultEvent (map_option tc_test_id (matched (st_name r))) (st_name r) (st_status r) (st_ms r) (st_message r) # es1"
    and ih: "list_all (event_ok (map tc_test_id catalog)) es1 \<and> states_of es1 = []"
    using Cons by (auto simp: Let_def split: prod.splits)
  with assms(1) show ?case by (cases "matched (st_name r)") (auto simp: from_catalog_def)
qed simp

lemma timed_out_remainder_ok:
  "list_all (event_ok (map tc_test_id catalog)) (report_timed_out_remainder catalog reported)
   \<and> states_of (report_timed_out_remainder catalog reported) = []"
proof -
  have "states_of (map (\<lambda>t. TestResultEvent (Some (tc_test_id t)) (tc_name t) TestTimedOut 0 None) ts) = []" for ts
    by (induction ts) simp_all
  then show ?thesis by (simp add: report_timed_out_remainder_def list_all_iff)
qed

lemma timed_out_remainder_counts:
  "results_with P (report_timed_out_remainder catalog reported) =
     (if P TestTimedOut then length (report_timed_out_remainder catalog reported) else 0)"
proof -
  have "results_with P (map (\<lambda>t. TestResultEvent (Some (tc_test_id t)) (tc_name t) TestTimedOut 0 None) ts) =
      (if P TestTimedOut then length ts else 0)" for ts :: "test_case list"
    by (induction ts) simp_all
  then show ?thesis by (simp add: report_timed_out_remainder_def)
qed

lemma report_results_counts:
  assumes "report_results matched rs reported counts = (es, reported', counts')" "\<forall>r\<in>set rs. st_status r \<in> {Passed, Failed, Skipped}"
  shows "tl_passed counts' = tl_passed counts + results_with (\<lambda>s. s = Passed) es
    \<and> tl_failed counts' = tl_failed counts + results_with counted_failed es
    \<and> tl_skipped counts' = tl_skipped counts + results_with (\<lambda>s. s = Skipped) es
    \<and> results_with (\<lambda>s. s = Leaked) es = 0"
  using assms
proof (induction rs arbitrary: reported counts es)
  case (Cons r rs)
  obtain es1 where e: "es = TestResultEvent (map_option tc_test_id (matched (st_name r))) (st_name r) (st_status r) (st_ms r) (st_message r) # es1"
    and rest: "report_results matched rs (case matched (st_name r) of Some t \<Rightarrow> insert (tc_test_id t) reported | None \<Rightarrow> reported)
        (count_status (st_status r) counts) = (es1, reported', counts')"
    using Cons.prems by (auto simp: Let_def split: prod.splits)
  have "st_status r \<in> {Passed, Failed, Skipped}" using Cons.prems(2) by simp
  then consider "st_status r = Passed" | "st_status r = Failed" | "st_status r = Skipped" by blast
  then show ?case
    using Cons.IH [OF rest] Cons.prems(2) e by cases (auto simp: counted_failed_def)
qed simp

lemma suite_events_ok:
  assumes "from_catalog catalog matched"
  shows "list_all (event_ok (map tc_test_id catalog)) (suite_events matched catalog rs timed_out duration)
    \<and> states_of (suite_events matched catalog rs timed_out duration) = []"
proof -
  obtain es reported counts where r: "report_results matched rs {} tally_new = (es, reported, counts)" by (metis prod_cases3)
  with report_results_ok [OF assms r] timed_out_remainder_ok [of catalog reported] show ?thesis
    by (simp add: suite_events_def Let_def)
qed

theorem suite_events_add_up:
  assumes "\<forall>r\<in>set rs. st_status r \<in> {Passed, Failed, Skipped}"
  shows "\<exists>es p f s. suite_events matched catalog rs timed_out duration = es @ [TestSummaryEvent p f s 0 duration]
    \<and> adds_up p f s 0 es \<and> (timed_out \<longrightarrow> (\<forall>t\<in>set catalog. \<exists>name status ms message.
        TestResultEvent (Some (tc_test_id t)) name status ms message \<in> set es))"
proof -
  obtain es reported counts where r: "report_results matched rs {} tally_new = (es, reported, counts)" by (metis prod_cases3)
  define late where "late = (if timed_out then report_timed_out_remainder catalog reported else [])"
  have e: "suite_events matched catalog rs timed_out duration =
      (es @ late) @ [TestSummaryEvent (tl_passed counts) (tl_failed counts + length late) (tl_skipped counts) 0 duration]"
    by (simp add: suite_events_def r late_def Let_def)
  have up: "adds_up (tl_passed counts) (tl_failed counts + length late) (tl_skipped counts) 0 (es @ late)"
    using report_results_counts [OF r assms]
    by (simp add: adds_up_def late_def tally_new_def timed_out_remainder_counts counted_failed_def)
  have told: "x \<in> reported \<longleftrightarrow> x \<in> reported0 \<or> (\<exists>name status ms message. TestResultEvent (Some x) name status ms message \<in> set es)"
    if "report_results matched rs reported0 counts0 = (es, reported, counts)" for x rs reported0 counts0 es
    using that
  proof (induction rs arbitrary: reported0 counts0 es)
    case (Cons q rs)
    obtain es1 where e: "es = TestResultEvent (map_option tc_test_id (matched (st_name q))) (st_name q) (st_status q) (st_ms q) (st_message q) # es1"
      and rest: "report_results matched rs (case matched (st_name q) of Some t \<Rightarrow> insert (tc_test_id t) reported0 | None \<Rightarrow> reported0)
          (count_status (st_status q) counts0) = (es1, reported, counts)"
      using Cons.prems by (auto simp: Let_def split: prod.splits)
    from Cons.IH [OF rest] e show ?case by (cases "matched (st_name q)") auto
  qed simp
  have every: "\<exists>name status ms message. TestResultEvent (Some (tc_test_id t)) name status ms message \<in> set (es @ late)"
    if t: "t \<in> set catalog" and out: timed_out for t
  proof (cases "tc_test_id t \<in> reported")
    case True
    with told [OF r] show ?thesis by auto
  next
    case False
    with t out have "TestResultEvent (Some (tc_test_id t)) (tc_name t) TestTimedOut 0 None \<in> set late"
      by (auto simp: late_def report_timed_out_remainder_def)
    then show ?thesis by auto
  qed
  show ?thesis
    using up every e by (intro exI [of _ "es @ late"] exI [of _ "tl_passed counts"]
        exI [of _ "tl_failed counts + length late"] exI [of _ "tl_skipped counts"]) simp
qed


lemma judged_suite_tests:
  assumes "from_catalog catalog matched" "\<And>r. list_all (event_ok (map tc_test_id catalog)) (lost r) \<and> states_of (lost r) = []"
  shows "judged w (map tc_test_id catalog) 3 (suite_tests w matched catalog suite results_of lost) 4"
  using suite_events_ok [OF assms(1)] assms(2)
  unfolding suite_tests_def Let_def
  by (auto intro!: judged_gives judged_andthen [where mid = 4] judged_emits judged_state split: option.split)

section \<open>The channel, judged\<close>

definition rules_ok :: "test_case list \<Rightarrow> channel_rules \<Rightarrow> bool" where
  "rules_ok catalog rules \<longleftrightarrow> from_catalog catalog (cr_match rules)
     \<and> (\<forall>s. cr_status rules s \<in> {Passed, Failed, Skipped, Leaked})"

definition channel_ok :: "test_case list \<Rightarrow> channel_state \<Rightarrow> bool" where
  "channel_ok catalog s \<longleftrightarrow> list_all (event_ok (map tc_test_id catalog)) (ch_events s) \<and> states_of (ch_events s) = []
     \<and> adds_up (ch_passed s) (ch_failed s) (ch_skipped s) (ch_leaked s) (ch_events s)"

lemma channel_new_ok: "channel_ok catalog channel_new"
  by (simp add: channel_ok_def channel_new_def adds_up_def)

lemma channel_ok_frame [simp]:
  "channel_ok catalog (s\<lparr>ch_started := a\<rparr>) = channel_ok catalog s"
  "channel_ok catalog (s\<lparr>ch_stderr := b\<rparr>) = channel_ok catalog s"
  "channel_ok catalog (s\<lparr>ch_reader := r\<rparr>) = channel_ok catalog s"
  "channel_ok catalog (s\<lparr>ch_reported := d\<rparr>) = channel_ok catalog s"
  "channel_ok catalog (s\<lparr>ch_summary := e\<rparr>) = channel_ok catalog s"
  by (simp_all add: channel_ok_def)

lemma on_test_event_ok:
  assumes "rules_ok catalog rules" "channel_ok catalog s"
  shows "channel_ok catalog (on_test_event rules e s)"
proof (cases e)
  case (RawTestResult index name status duration error)
  have m: "event_ok (map tc_test_id catalog) (TestResultEvent (map_option tc_test_id (cr_match rules name)) a b c d)" for a b c d
    using assms(1) by (cases "cr_match rules name") (auto simp: rules_ok_def from_catalog_def)
  have "cr_status rules status \<in> {Passed, Failed, Skipped, Leaked}" using assms(1) by (simp add: rules_ok_def)
  then consider "cr_status rules status = Passed" | "cr_status rules status = Failed"
    | "cr_status rules status = Skipped" | "cr_status rules status = Leaked" by blast
  then show ?thesis
    using assms(2) m by cases (simp_all add: RawTestResult Let_def channel_ok_def adds_up_def counted_failed_def)
qed (use assms in simp_all)

lemma test_events_ok:
  "rules_ok catalog rules \<Longrightarrow> channel_ok catalog s \<Longrightarrow> channel_ok catalog (fold (on_test_event rules) es s)"
  by (induction es arbitrary: s) (simp_all add: on_test_event_ok)

lemma channel_callbacks_ok:
  "rules_ok catalog rules \<Longrightarrow> channel_ok catalog s \<Longrightarrow> channel_ok catalog (fold (channel_callback rules h) cs s)"
proof (induction cs arbitrary: s)
  case (Cons c cs)
  then have "channel_ok catalog (channel_callback rules h c s)"
    by (cases c) (simp_all add: channel_read_def test_events_ok)
  with Cons show ?case by simp
qed simp

lemma run_channel_ok:
  "rules_ok catalog rules \<Longrightarrow> run_channel rules h q t = (result, s) \<Longrightarrow> channel_ok catalog s"
  by (auto simp: run_channel_def channel_new_ok channel_callbacks_ok split: prod.splits)

lemma aborted_ok:
  assumes "from_catalog catalog matched"
    "report_aborted_tests started buffer whole timed_out (\<lambda>n. map_option (\<lambda>c. (tc_test_id c, tc_name c)) (matched n)) reported = (es, reported')"
  shows "list_all (event_ok (map tc_test_id catalog)) es \<and> states_of es = []
    \<and> results_with counted_failed es = length es
    \<and> (\<forall>P. \<not> P TestTimedOut \<and> \<not> P Failed \<longrightarrow> results_with P es = 0) \<and> length es = length started"
  using assms(2)
proof (induction started arbitrary: buffer reported es)
  case (Cons name started)
  let ?m = "matched name"
  obtain es1 status message where e: "es = TestResultEvent (map_option tc_test_id ?m)
        (case ?m of Some c \<Rightarrow> tc_name c | None \<Rightarrow> name) status 0 message # es1"
      "status \<in> {TestTimedOut, Failed}"
    and rest: "report_aborted_tests started [] whole timed_out (\<lambda>n. map_option (\<lambda>c. (tc_test_id c, tc_name c)) (matched n))
        (case map_option (\<lambda>c. (tc_test_id c, tc_name c)) ?m of Some (i, _) \<Rightarrow> insert i reported | None \<Rightarrow> reported) = (es1, reported')"
    using Cons.prems by (cases ?m) (auto simp: Let_def split: prod.splits)
  have "event_ok (map tc_test_id catalog) (TestResultEvent (map_option tc_test_id ?m) a b c d)" for a b c d
    using assms(1) by (cases ?m) (auto simp: from_catalog_def)
  with Cons.IH [OF rest] e show ?case by (auto simp: counted_failed_def)
qed simp

lemma channel_events_ok:
  assumes "rules_ok catalog rules" "channel_ok catalog s"
  shows "list_all (event_ok (map tc_test_id catalog)) (channel_events rules show_stderr catalog t result read_error s)
    \<and> states_of (channel_events rules show_stderr catalog t result read_error s) = []"
proof -
  obtain es reported where a: "report_aborted_tests (tr_order t (ch_started s)) (ch_stderr s) (pr_stderr result)
      (pr_timed_out result) (\<lambda>n. map_option (\<lambda>c. (tc_test_id c, tc_name c)) (cr_match rules n)) (ch_reported s) = (es, reported)"
    by force
  have "from_catalog catalog (cr_match rules)" using assms(1) by (simp add: rules_ok_def)
  from aborted_ok [OF this a] timed_out_remainder_ok [of catalog reported] show ?thesis
    by (auto simp: channel_events_def a Let_def split: option.split prod.split)
qed

text \<open>Without a summary from the test process, the counts are those of the results.\<close>

lemma channel_counts_add_up:
  assumes "rules_ok catalog rules" "channel_ok catalog s" "ch_summary s = None"
  shows "\<exists>es p f k l. channel_events rules show_stderr catalog t result read_error s = es @ [TestSummaryEvent p f k l (tr_ms t)]
    \<and> adds_up p f k l (ch_events s @ es)"
proof -
  obtain aborted reported where a: "report_aborted_tests (tr_order t (ch_started s)) (ch_stderr s) (pr_stderr result)
      (pr_timed_out result) (\<lambda>n. map_option (\<lambda>c. (tc_test_id c, tc_name c)) (cr_match rules n)) (ch_reported s) = (aborted, reported)"
    by force
  have "from_catalog catalog (cr_match rules)" using assms(1) by (simp add: rules_ok_def)
  note ab = aborted_ok [OF this a]
  define late where "late = (if pr_timed_out result then report_timed_out_remainder catalog reported else [])"
  have late: "results_with counted_failed late = length late" "\<not> P TestTimedOut \<Longrightarrow> results_with P late = 0" for P
    by (simp_all add: late_def timed_out_remainder_counts counted_failed_def)
  obtain other where e: "channel_events rules show_stderr catalog t result read_error s =
      (aborted @ late @ other) @ [TestSummaryEvent (ch_passed s) (ch_failed s + length aborted + length late) (ch_skipped s)
        (ch_leaked s) (tr_ms t)]" and other: "\<And>P. results_with P other = 0"
    by (rule that [of "(if show_stderr \<and> pr_exit_code result \<noteq> Some 0
         \<and> trim (if tr_order t (ch_started s) = [] then ch_stderr s else []) \<noteq> []
         then [OutputEvent Stderr (if tr_order t (ch_started s) = [] then ch_stderr s else []) ErrorOutput None] else [])
       @ (case read_error of Some message \<Rightarrow> [OutputEvent Stderr (''test channel error: '' @ message @ [CHR 0x0A]) ErrorOutput None]
          | None \<Rightarrow> [])"])
      (simp_all add: channel_events_def a Let_def late_def [symmetric] assms(3) split: option.split)
  have "adds_up (ch_passed s) (ch_failed s + length aborted + length late) (ch_skipped s) (ch_leaked s)
      (ch_events s @ aborted @ late @ other)"
    using assms(2) ab late other by (simp add: channel_ok_def adds_up_def)
  with e show ?thesis by blast
qed

lemma judged_channel_tests:
  assumes "rules_ok catalog rules" "sq_sandbox q = policy_of w" "lo \<le> 4"
  shows "judged w (map tc_test_id catalog) lo (channel_tests w rules show_stderr error_of catalog q t) 4"
proof -
  obtain result s where r: "run_channel rules (test_handler (ri_test_json w)) q t = (result, s)" by force
  have ok: "channel_ok catalog s" by (rule run_channel_ok [OF assms(1) r])
  note out = channel_events_ok [OF assms(1) ok]
  show ?thesis
    using ok out assms(2,3) unfolding channel_tests_def Let_def r
    by (auto simp: channel_ok_def intro!: judged_andthen [where mid = lo] judged_starts judged_emits judged_gives)
qed


section \<open>What every runner promises\<close>

text \<open>The outside world the promises need: numbers of the instrumenter's answers are u32s and the
  files of the snapshot have distinct paths (the store's invariant).\<close>

definition fair :: "run_input \<Rightarrow> bool" where
  "fair w \<longleftrightarrow> reads_u32 (ri_from_str w) \<and> distinct (map pf_path (files_of w))"

definition outcome_of :: "'a phase \<Rightarrow> runner_outcome option" where
  "outcome_of m = (case snd m of Inl outcome \<Rightarrow> Some outcome | Inr _ \<Rightarrow> None)"

lemma outcome_ends [simp]: "outcome_of (ends metrics terminal) = Some \<lparr>ro_result = metrics, ro_terminal_state = terminal\<rparr>"
  by (simp add: outcome_of_def ends_def)

lemma outcome_superseded [simp]: "outcome_of (superseded metrics) = Some (cancelled_outcome metrics ''superseded'')"
  by (simp add: outcome_of_def superseded_def)

lemma outcome_andthen: "(\<And>a. outcome_of (f a) \<noteq> None) \<Longrightarrow> outcome_of (andthen m f) \<noteq> None"
proof -
  assume f: "\<And>a. outcome_of (f a) \<noteq> None"
  obtain l r where m: "m = (l, r)" by (cases m)
  show ?thesis
  proof (cases r)
    case (Inr a)
    obtain l' r' where fa: "f a = (l', r')" by (cases "f a")
    with f [of a] m Inr show ?thesis by (auto simp: outcome_of_def andthen_def split: sum.splits)
  qed (use m in \<open>simp add: outcome_of_def andthen_def\<close>)
qed

lemma outcome_concluded: "outcome_of (concluded w metrics execution located tests) \<noteq> None"
  unfolding concluded_def Let_def
  by (auto intro!: outcome_andthen simp del: not_None_eq split: prod.split option.split)

lemma outcome_run_program: "outcome_of (run_program w metrics outcome q parse_stdout located tests) \<noteq> None"
  unfolding run_program_def Let_def by (intro outcome_andthen outcome_concluded)

lemma events_emits [simp]: "lg_events (fst (andthen (emits es) f)) = es @ lg_events (fst (f ()))"
  by (simp add: andthen_def emits_def split: prod.split)

lemma opens_events:
  "lg_events (fst (andthen (opens w qs catalog config command) f)) =
     StateEvent Instrumenting # TestCatalogEvent catalog
       # lg_events (fst (andthen (instrument w config command run_result_default) f))"
  by (cases "instrument w config command run_result_default")
    (simp add: opens_def andthen_def emits_def starts_def split: sum.split prod.split)

lemma events_starts [simp]: "lg_events (fst (andthen (starts qs) f)) = lg_events (fst (f ()))"
  by (simp add: andthen_def starts_def split: prod.split)

fun strictly_climbs :: "run_state list \<Rightarrow> bool" where
  "strictly_climbs (a # b # sts) \<longleftrightarrow> rung a < rung b \<and> strictly_climbs (b # sts)"
| "strictly_climbs _ \<longleftrightarrow> True"

lemma strictly_climbs_sorted: "sorted_wrt (<) (map rung sts) \<Longrightarrow> strictly_climbs sts"
  by (induction sts rule: strictly_climbs.induct) auto

locale language_run =
  fixes run :: "'w \<Rightarrow> unit phase"
    and input :: "'w \<Rightarrow> run_input"
    and catalog :: "'w \<Rightarrow> test_case list"
  assumes run_judged: "fair (input w) \<Longrightarrow> judged (input w) (map tc_test_id (catalog w)) 0 (run w) 4"
    and run_ends: "outcome_of (run w) \<noteq> None"
    and run_announces: "\<exists>rest. lg_events (fst (run w)) =
      StateEvent Instrumenting # TestCatalogEvent (catalog w) # rest"
begin

definition told :: "'w \<Rightarrow> runner_event list" where
  "told w = lg_events (fst (run w))"

lemma run_confined: "fair (input w) \<Longrightarrow> q \<in> set (lg_spawned (fst (run w))) \<Longrightarrow> sq_sandbox q = policy_of (input w)"
  using run_judged [of w] by (auto simp: judged_def list_all_iff)

lemma run_diagnostics: "fair (input w) \<Longrightarrow> DiagnosticEvent owner ds \<in> set (told w) \<Longrightarrow> list_all wf_diagnostic ds"
  using run_judged [of w] by (auto simp: judged_def list_all_iff told_def)

lemma run_results:
  "fair (input w) \<Longrightarrow> TestResultEvent (Some i) name status duration message \<in> set (told w)
   \<Longrightarrow> i \<in> set (map tc_test_id (catalog w))"
  using run_judged [of w] unfolding judged_def list_all_iff told_def by fastforce

lemma run_catalog: "fair (input w) \<Longrightarrow> distinct (map tc_test_id (catalog w))"
  using run_judged [of w] run_announces [of w] by (fastforce simp: judged_def list_all_iff)

lemma run_climbs: "fair (input w) \<Longrightarrow> strictly_climbs (states_of (told w)) \<and> hd (states_of (told w)) = Instrumenting
    \<and> (\<forall>st \<in> set (states_of (told w)). st \<in> {Instrumenting, Compiling, Running, Testing})"
proof -
  assume f: "fair (input w)"
  have "rung st < 4 \<Longrightarrow> st \<in> {Instrumenting, Compiling, Running, Testing}" for st by (cases st) simp_all
  then show ?thesis
    using run_judged [OF f] run_announces [of w]
    by (fastforce simp: judged_def rungs_def told_def intro!: strictly_climbs_sorted)
qed

lemma run_success:
  "fair (input w) \<Longrightarrow> outcome_of (run w) = Some outcome \<Longrightarrow> ro_terminal_state outcome = TSucceeded
   \<Longrightarrow> clean_exit (ro_result outcome)"
  using run_judged [of w] by (auto simp: judged_def outcome_of_def split: sum.splits)

lemma run_compile_error:
  assumes "fair (input w)" "outcome_of (run w) = Some outcome" "ro_terminal_state outcome = TCompileError"
  shows "Running \<notin> set (states_of (told w))"
proof
  assume "Running \<in> set (states_of (told w))"
  then have "rung Running \<in> set (rungs (run w))" unfolding rungs_def told_def by (metis imageI set_map)
  moreover have "\<forall>n \<in> set (rungs (run w)). n < 2"
    using run_judged [OF assms(1)] assms(2,3) by (auto simp: judged_def outcome_of_def split: sum.splits)
  ultimately show False by force
qed

end

end
