(* ===== verification/GoDirect.thy ===== *)
theory GoDirect
  imports LanguageRun
begin

text \<open>
  src/apps/server-rs/src/languages/go/direct.rs: building a Go session with the compiler and the
  linker instead of \<open>go build\<close>, when its module and sources need nothing else.  The result is none
  when \<open>go build\<close> must be run.
\<close>

section \<open>Which sessions qualify\<close>

definition first_word :: "string \<Rightarrow> string" where
  "first_word line = (case split_whitespace line of [] \<Rightarrow> [] | w # _ \<Rightarrow> w)"

fun language_lines :: "string option \<Rightarrow> string list \<Rightarrow> string option" where
  "language_lines version [] = version"
| "language_lines version (line # lines) =
     (let word = first_word line in
      if word = ''module'' \<or> word = [] \<or> word = ''//'' then language_lines version lines
      else if word = ''go'' then language_lines (map_option (\<lambda>v. ''go'' @ v) (second (split_whitespace line))) lines
      else if starts_with word ''//'' then language_lines version lines
      else None)"

definition language_version :: "string \<Rightarrow> string option" where
  "language_version go_mod = language_lines None (map trim (str_lines go_mod))"

text \<open>The path a line of an import declaration names.\<close>

definition spec_path :: "string \<Rightarrow> string option" where
  "spec_path spec = second (split_on quote_char spec)"

text \<open>One source: \<open>in_block\<close> inside \<open>import (...)\<close>; none for cgo.\<close>

fun import_lines :: "bool \<Rightarrow> string list \<Rightarrow> string list option" where
  "import_lines in_block [] = Some []"
| "import_lines in_block (line # lines) =
     (let read = (\<lambda>in_block' spec.
            (case spec_path spec of
               Some p \<Rightarrow> if p = ''C'' then None
                 else map_option (\<lambda>ps. (if p = [] then [] else [p]) @ ps) (import_lines in_block' lines)
             | None \<Rightarrow> import_lines in_block' lines))
      in if in_block then
           (if starts_with line '')'' then import_lines False lines else read True line)
         else (case strip_prefix line ''import'' of
                 None \<Rightarrow> import_lines False lines
               | Some after \<Rightarrow>
                   let rest = trim after in
                   if starts_with rest ''('' then read True (trim (trim_start_chars (\<lambda>c. c = CHR ''('') rest))
                   else read False rest))"

text \<open>A \<open>BTreeSet\<close> as the sorted list of its elements.\<close>

fun bytes_less :: "string \<Rightarrow> string \<Rightarrow> bool" where
  "bytes_less [] t = (t \<noteq> [])"
| "bytes_less (a # s) [] = False"
| "bytes_less (a # s) (b # t) = (byte a < byte b \<or> byte a = byte b \<and> bytes_less s t)"

fun insert_sorted :: "string \<Rightarrow> string list \<Rightarrow> string list" where
  "insert_sorted x [] = [x]"
| "insert_sorted x (y # ys) = (if x = y then y # ys else if bytes_less x y then x # y # ys else y # insert_sorted x ys)"

fun imports_from :: "string list \<Rightarrow> string list \<Rightarrow> string list option" where
  "imports_from found [] = Some found"
| "imports_from found (source # sources) =
     (case import_lines False (map trim (str_lines source)) of
        None \<Rightarrow> None
      | Some ps \<Rightarrow> imports_from (fold insert_sorted ps found) sources)"

definition imports_of :: "string list \<Rightarrow> string list option" where
  "imports_of sources = imports_from [] sources"

section \<open>The package's files\<close>

text \<open>An entry of generated/: its name, what reading it gives, whether it is a directory when
  that can be told.\<close>

record dir_entry =
  de_name :: string
  de_source :: "string option"
  de_is_dir :: "bool option"

definition constrained :: "string \<Rightarrow> bool" where
  "constrained source \<longleftrightarrow> contains source ''//go:build'' \<or> contains source ''// +build''"

fun package_files :: "dir_entry list \<Rightarrow> (string \<times> string) list option" where
  "package_files [] = Some []"
| "package_files (e # es) =
     (if ends_with (de_name e) ''.go'' \<and> \<not> ends_with (de_name e) ''_test.go''
      then (case de_source e of
              None \<Rightarrow> None
            | Some source \<Rightarrow>
                if constrained source then None
                else map_option (\<lambda>fs. (''./generated/'' @ de_name e, source) # fs) (package_files es))
      else (case de_is_dir e of None \<Rightarrow> None | Some dir \<Rightarrow> if dir then None else package_files es))"

fun sort_names :: "string list \<Rightarrow> string list" where
  "sort_names [] = []"
| "sort_names (x # xs) =
     (let ys = sort_names xs in takeWhile (\<lambda>y. bytes_less y x) ys @ x # dropWhile (\<lambda>y. bytes_less y x) ys)"

section \<open>The build\<close>

record toolchain =
  tc_dir :: path
  tc_env :: "(string \<times> string) list"

definition TOOL_ENV :: "string list" where
  "TOOL_ENV = [''GOROOT'', ''GOOS'', ''GOARCH'', ''GOAMD64'', ''GO386'', ''GOARM'', ''GOARM64'',
     ''GOMIPS'', ''GOMIPS64'', ''GOPPC64'', ''GORISCV64'', ''GOEXPERIMENT'']"

text \<open>What \<open>go env -json\<close> answered, as its JSON object; none when it failed.\<close>

definition toolchain_of :: "json option \<Rightarrow> toolchain option" where
  "toolchain_of answer =
     (let value_of = (\<lambda>name. Option.bind answer (\<lambda>j. Option.bind (json_get j name) as_str)) in
      (case value_of ''GOTOOLDIR'' of
         None \<Rightarrow> None
       | Some dir \<Rightarrow>
           if dir = [] then None
           else Some \<lparr>tc_dir = path_of dir,
             tc_env = concat (map (\<lambda>name. case value_of name of Some v \<Rightarrow> if v = [] then [] else [(name, v)] | None \<Rightarrow> []) TOOL_ENV)\<rparr>))"

text \<open>The world of one build: what reading and writing its files gives, the configuration stored
  for the session, and how each of its processes went.\<close>

record direct_world =
  dw_go_mod :: "string option"
  dw_go_env :: "json option"
  dw_entries :: "dir_entry list option"
  dw_resolved :: "string option"
  dw_importcfg_exists :: bool
  dw_list :: finished
  dw_write_importcfg :: bool
  dw_compile :: finished
  dw_read_importcfg :: "string option"
  dw_write_link :: bool
  dw_link :: finished

record direct_result =
  dr_spawned :: "spawn list"
  dr_resolved :: "string option"
  dr_build :: "finished option"

definition go_tool :: "run_input \<Rightarrow> (string \<times> string) list \<Rightarrow> string \<Rightarrow> string list \<Rightarrow> spawn" where
  "go_tool w env program args = tool w program args (process_limits_new 60000 (512 * 1024) (1024 * 1024)) env"

definition list_args :: "string list \<Rightarrow> string list" where
  "list_args imports =
     [''list'', ''-export'', ''-deps'', ''-f'', ''{{if .Export}}packagefile {{.ImportPath}}={{.Export}}{{end}}'', ''runtime'']
     @ imports"

definition compile_args :: "run_input \<Rightarrow> string \<Rightarrow> string list \<Rightarrow> string list" where
  "compile_args w lang files =
     [''-o'', at w ''target/main.a'', ''-p'', ''main'', ''-lang='' @ lang, ''-complete'', ''-nolocalimports'',
      ''-importcfg'', at w ''target/importcfg'', ''-pack''] @ files"

definition link_args :: "run_input \<Rightarrow> string list \<Rightarrow> string list" where
  "link_args w ldflags =
     [''-o'', at w ''target/go-bin'', ''-importcfg'', at w ''target/importcfg.link'', ''-buildmode=exe'']
     @ ldflags @ [at w ''target/main.a'']"

text \<open>The compiler's stdout is passed on as stderr.\<close>

definition compiler_output :: "process_result \<Rightarrow> process_result" where
  "compiler_output r = (if pr_stdout r = [] then r else r\<lparr>pr_stderr := pr_stdout r @ pr_stderr r, pr_stdout := []\<rparr>)"

definition nothing_built :: "spawn list \<Rightarrow> string option \<Rightarrow> direct_result" where
  "nothing_built spawned resolved = \<lparr>dr_spawned = spawned, dr_resolved = resolved, dr_build = None\<rparr>"

definition link_step :: "run_input \<Rightarrow> direct_world \<Rightarrow> toolchain \<Rightarrow> (string \<times> string) list \<Rightarrow> spawn list \<Rightarrow> string option \<Rightarrow> finished \<Rightarrow> direct_result" where
  "link_step w d tools env spawned resolved compile =
     (case dw_read_importcfg d of
        None \<Rightarrow> nothing_built spawned resolved
      | Some config \<Rightarrow>
          if \<not> dw_write_link d then nothing_built spawned resolved
          else
            let link = dw_link d;
                spawned' = spawned @ [go_tool w env (show_path (path_join (tc_dir tools) ''link'')) (link_args w [''-s'', ''-w''])]
            in if pr_cancelled (fn_result link) \<or> pr_timed_out (fn_result link)
               then \<lparr>dr_spawned = spawned', dr_resolved = resolved, dr_build = Some link\<rparr>
               else if pr_exit_code (fn_result link) \<noteq> Some 0 then nothing_built spawned' None
               else \<lparr>dr_spawned = spawned', dr_resolved = resolved,
                     dr_build = Some (compile\<lparr>fn_ms := fn_ms compile + fn_ms link, fn_cancelled := fn_cancelled link\<rparr>)\<rparr>)"

definition compile_step :: "run_input \<Rightarrow> direct_world \<Rightarrow> toolchain \<Rightarrow> (string \<times> string) list \<Rightarrow> string \<Rightarrow> string list
   \<Rightarrow> bool \<Rightarrow> millis \<Rightarrow> spawn list \<Rightarrow> string option \<Rightarrow> direct_result" where
  "compile_step w d tools env lang files cached started_ms spawned resolved =
     (let spawned' = spawned @ [go_tool w env (show_path (path_join (tc_dir tools) ''compile'')) (compile_args w lang files)];
          compile = (dw_compile d)\<lparr>fn_ms := fn_ms (dw_compile d) + started_ms,
                                   fn_result := compiler_output (fn_result (dw_compile d))\<rparr>;
          r = fn_result compile
      in if pr_cancelled r \<or> pr_timed_out r then \<lparr>dr_spawned = spawned', dr_resolved = resolved, dr_build = Some compile\<rparr>
         else if pr_exit_code r \<noteq> Some 0
         then (if contains (pr_stderr r) ''could not import'' \<and> cached then nothing_built spawned' None
               else if pr_exit_code r = None then nothing_built spawned' resolved
               else \<lparr>dr_spawned = spawned', dr_resolved = resolved, dr_build = Some compile\<rparr>)
         else link_step w d tools env spawned' resolved compile)"

definition direct_build :: "run_input \<Rightarrow> (string \<times> string) list \<Rightarrow> direct_world \<Rightarrow> direct_result" where
  "direct_build w env d =
     (case Option.bind (dw_go_mod d) language_version of
        None \<Rightarrow> nothing_built [] (dw_resolved d)
      | Some lang \<Rightarrow>
     (case toolchain_of (dw_go_env d) of
        None \<Rightarrow> nothing_built [] (dw_resolved d)
      | Some tools \<Rightarrow>
     (case Option.bind (dw_entries d) package_files of
        None \<Rightarrow> nothing_built [] (dw_resolved d)
      | Some package \<Rightarrow>
     (case imports_of (map snd package) of
        None \<Rightarrow> nothing_built [] (dw_resolved d)
      | Some imports \<Rightarrow>
          let tool_env = env @ tc_env tools;
              files = sort_names (map fst package);
              key = join_with '' '' imports;
              cached = (dw_resolved d = Some key \<and> dw_importcfg_exists d);
              listing = go_tool w tool_env ''go'' (list_args imports)
          in if cached then compile_step w d tools tool_env lang files True 0 [] (dw_resolved d)
             else if pr_exit_code (fn_result (dw_list d)) \<noteq> Some 0 \<or> \<not> dw_write_importcfg d
             then nothing_built [listing] (dw_resolved d)
             else compile_step w d tools tool_env lang files False (fn_ms (dw_list d)) [listing] (Some key)))))"

text \<open>The session's configuration is forgotten with the session.\<close>

definition forget_resolved :: "direct_world \<Rightarrow> direct_world" where
  "forget_resolved d = d\<lparr>dw_resolved := None\<rparr>"

section \<open>What a direct build is\<close>

lemma link_step_confined:
  "list_all (\<lambda>q. sq_sandbox q = policy_of w) spawned \<Longrightarrow>
   list_all (\<lambda>q. sq_sandbox q = policy_of w) (dr_spawned (link_step w d tools env spawned resolved compile))"
  by (auto simp: link_step_def nothing_built_def Let_def go_tool_def split: option.split)

lemma compile_step_confined:
  "list_all (\<lambda>q. sq_sandbox q = policy_of w) spawned \<Longrightarrow>
   list_all (\<lambda>q. sq_sandbox q = policy_of w) (dr_spawned (compile_step w d tools env lang files cached ms spawned resolved))"
  by (auto simp: compile_step_def nothing_built_def Let_def go_tool_def intro!: link_step_confined)

lemma direct_build_confined:
  "list_all (\<lambda>q. sq_sandbox q = policy_of w) (dr_spawned (direct_build w env d))"
  by (auto simp: direct_build_def nothing_built_def Let_def go_tool_def intro!: compile_step_confined split: option.split)

end
