(* ===== verification/GoRunner.thy ===== *)
theory GoRunner
  imports GoDirect
begin

text \<open>
  src/apps/server-rs/src/languages/go/run.rs: \<open>go test\<close> is started with the run, the project's
  files are instrumented and built (directly or by \<open>go build\<close>), the program is run, and the
  events of \<open>go test -json\<close> become results.
\<close>

section \<open>Commands\<close>

text \<open>\<open>shared\<close>: the toolchain cache's directory for Go, when it could be created.\<close>

definition go_cache :: "path option \<Rightarrow> path \<Rightarrow> path" where
  "go_cache shared root = (case shared of Some dir \<Rightarrow> dir | None \<Rightarrow> path_join root ''.gocache'')"

definition LDFLAGS :: string where
  "LDFLAGS = ''-ldflags=-s -w''"

definition go_env :: "path option \<Rightarrow> path \<Rightarrow> (string \<times> string) list" where
  "go_env shared root = [(''GOCACHE'', show_path (go_cache shared root)), (''GOFLAGS'', ''-mod=mod -buildvcs=false''),
     (''GOPROXY'', ''off''), (''GO111MODULE'', ''on''), (''CGO_ENABLED'', ''0'')]"

record go_world = run_input +
  gw_cache :: "path option"
  gw_direct :: direct_world
  gw_build :: finished
  gw_suite :: "finished option"
  gw_ms :: "json \<Rightarrow> millis option"

definition go_build_env :: "go_world \<Rightarrow> (string \<times> string) list" where
  "go_build_env w = go_env (gw_cache w) (ss_root (ri_session w))"

definition go_start_tests :: "go_world \<Rightarrow> spawn" where
  "go_start_tests w = tool (run_input.truncate w) ''go'' [''test'', ''-json'', ''-count=1'', ''-vet=off'', LDFLAGS, ''./src'']
     (process_limits_new (max (se_timeout_ms (ri_settings w) + 60000) 10000) (4 * 1024 * 1024) (512 * 1024)) (go_build_env w)"

section \<open>Parsers\<close>

definition go_test_line :: rx where
  "go_test_line = seqs [AtStart, lit ''func '', Cap 1 (Seq (lit ''Test'') (Star (Cls word_class))), spaces, lit ''('']"

definition go_test :: "project_file \<Rightarrow> nat \<Rightarrow> string \<Rightarrow> test_case option" where
  "go_test file index line =
     (case captures go_test_line line of
        None \<Rightarrow> None
      | Some c \<Rightarrow>
          if group_text c 1 = ''TestMain'' then None
          else Some \<lparr>tc_test_id = pf_path file @ '':'' @ show_nat (index + 1), tc_path = ''src/'' @ pf_path file,
                     tc_name = group_text c 1, tc_line = index + 1, tc_column = 1\<rparr>)"

definition discover_go_tests :: "project_file list \<Rightarrow> test_case list" where
  "discover_go_tests files =
     concat (map (\<lambda>file. tests_from (go_test file) 0 (split_lines (pf_source file)))
       (filter (\<lambda>file. ends_with (pf_path file) ''_test.go'') files))"

definition go_project_path :: "string \<Rightarrow> string option" where
  "go_project_path = mirror_path"

definition go_location :: rx where
  "go_location = seqs [AtStart, Cap 1 (Seq (lazy_plus (Cls any_char)) (lit ''.go'')), lit '':'', Cap 2 digits,
     opt (Seq (lit '':'') (Cap 3 digits)), lit '': '', Cap 4 (plus (Cls any_char)), AtEnd]"

definition go_diagnostic :: "string \<Rightarrow> app_diagnostic option" where
  "go_diagnostic line =
     (if starts_with line ''#'' \<or> trim line = [] then None
      else map_option (\<lambda>c. basic_diagnostic (group_text c 4) (go_project_path (group_text c 1)) SevError
             (number_or_one (group c 2)) (number_or_one (group c 3)) ''go'')
           (captures go_location (trim line)))"

definition parse_go_diagnostics :: "string \<Rightarrow> app_diagnostic list" where
  "parse_go_diagnostics stderr = dedupe_diagnostics (List.map_filter go_diagnostic (split_lines stderr))"

definition banner :: rx where
  "banner = seqs [AtStart, alts [lit ''=== RUN'', Seq (lit ''--- '') (alts [lit ''FAIL'', lit ''PASS'', lit ''SKIP'']),
     Seq (lit ''=== '') (alts [lit ''PAUSE'', lit ''CONT''])]]"

definition json_text :: "json \<Rightarrow> string \<Rightarrow> string option" where
  "json_text j key = Option.bind (json_get j key) as_str"

text \<open>The events of a line that is a JSON object.\<close>

definition json_lines :: "(string \<Rightarrow> json option) \<Rightarrow> string \<Rightarrow> json list" where
  "json_lines json_of out =
     List.map_filter (\<lambda>line. if starts_with (trim_start line) ''{'' then json_of line else None) (split_lines out)"

definition failure_text :: "string list option \<Rightarrow> string option" where
  "failure_text lines =
     (case map_option (\<lambda>ls. truncate_chars (join_with [lf] (filter (\<lambda>l. l \<noteq> []) (map trim ls))) 1200) lines of
        Some m \<Rightarrow> if m = [] then None else Some m
      | None \<Rightarrow> None)"

fun go_status :: "string \<Rightarrow> test_status option" where
  "go_status action = (if action = ''pass'' then Some Passed else if action = ''fail'' then Some Failed
     else if action = ''skip'' then Some Skipped else None)"

text \<open>\<open>output\<close>: the lines each test has printed so far.\<close>

fun go_events :: "(json \<Rightarrow> millis option) \<Rightarrow> (string \<Rightarrow> string list option) \<Rightarrow> json list \<Rightarrow> suite_result list" where
  "go_events ms output [] = []"
| "go_events ms output (event # events) =
     (case json_text event ''Test'' of
        None \<Rightarrow> go_events ms output events
      | Some test \<Rightarrow>
          let action = (case json_text event ''Action'' of Some a \<Rightarrow> a | None \<Rightarrow> []) in
          if action = ''output''
          then (case json_text event ''Output'' of
                  None \<Rightarrow> go_events ms output events
                | Some printed \<Rightarrow>
                    if is_match banner (trim printed) then go_events ms output events
                    else go_events ms (output(test \<mapsto> (case output test of Some ls \<Rightarrow> ls | None \<Rightarrow> []) @ [trim_end printed])) events)
          else (case go_status action of
                  None \<Rightarrow> go_events ms output events
                | Some status \<Rightarrow>
                    \<lparr>st_name = test, st_status = status,
                     st_ms = (case Option.bind (json_get event ''Elapsed'') ms of Some t \<Rightarrow> t | None \<Rightarrow> 0),
                     st_message = (if status = Failed then failure_text (output test) else None)\<rparr>
                    # go_events ms output events))"

definition parse_go_test_events :: "(string \<Rightarrow> json option) \<Rightarrow> (json \<Rightarrow> millis option) \<Rightarrow> string \<Rightarrow> suite_result list" where
  "parse_go_test_events json_of ms out = go_events ms Map.empty (json_lines json_of out)"

section \<open>Tests\<close>

text \<open>The row of a result: its own, or for a subtest the one of its parent.\<close>

definition go_match :: "test_case list \<Rightarrow> string \<Rightarrow> test_case option" where
  "go_match catalog name =
     (case find (\<lambda>c. tc_name c = name) catalog of
        Some t \<Rightarrow> Some t
      | None \<Rightarrow> find (\<lambda>c. tc_name c = hd (split_on (CHR ''/'') name)) catalog)"

definition lost_build :: "go_world \<Rightarrow> process_result \<Rightarrow> runner_event list" where
  "lost_build w r =
     (let joined = concat (List.map_filter (\<lambda>j. json_text j ''Output'') (json_lines (ri_json w) (pr_stdout r)));
          diagnostics = parse_go_diagnostics (pr_stderr r @ [lf] @ joined)
      in if diagnostics = [] then [OutputEvent Stderr (pr_stderr r) ErrorOutput None]
         else [DiagnosticEvent ''compiler'' diagnostics])"

definition go_run_tests :: "go_world \<Rightarrow> test_case list \<Rightarrow> unit phase" where
  "go_run_tests w catalog =
     suite_tests (run_input.truncate w) (go_match catalog) catalog (gw_suite w)
       (parse_go_test_events (ri_json w) (gw_ms w)) (lost_build w)"

section \<open>The run\<close>

definition go_config :: instrument_config where
  "go_config = \<lparr>ic_source_name = ''golive-instrument'',
     ic_instruments = (\<lambda>p. ends_lower p ''.go'' \<and> \<not> ends_with p ''_test.go''),
     ic_command_prefix_args = [], ic_extra_args = (\<lambda>_. []), ic_timeout_ms = 5000\<rparr>"

definition go_panic :: rx where
  "go_panic = seqs [Alt AtStart (Cls is_ws), opt (Seq (Star (Cls any_char)) slash), alts [lit ''generated'', lit ''src''], slash,
     Cap 1 (Seq (plus (Cls path_char)) (lit ''.go'')), lit '':'', Cap 2 digits]"

definition go_located :: "string \<Rightarrow> app_diagnostic" where
  "go_located stderr =
     (let location = captures go_panic stderr in
      runtime_diagnostic ''Program panicked or exited abnormally'' (Option.bind location (\<lambda>c. group c 1))
        (number_or_one (Option.bind location (\<lambda>c. group c 2))) 1)"

definition go_executable :: "go_world \<Rightarrow> string" where
  "go_executable w = at (run_input.truncate w) ''target/go-bin''"

text \<open>The compiler and the linker, or \<open>go build\<close>.\<close>

definition go_compile :: "go_world \<Rightarrow> finished phase" where
  "go_compile w =
     (let v = run_input.truncate w; direct = direct_build v (go_build_env w) (gw_direct w) in
      first (starts (dr_spawned direct))
        (case dr_build direct of
           Some compile \<Rightarrow> gives compile
         | None \<Rightarrow>
             first (starts [tool v ''go'' [''build'', LDFLAGS, ''-o'', go_executable w, ''./generated'']
                      (process_limits_new 60000 (512 * 1024) (1024 * 1024)) (go_build_env w)])
               (gives (gw_build w))))"

definition go_catalog :: "go_world \<Rightarrow> test_case list" where
  "go_catalog w = discover_go_tests (files_of (run_input.truncate w))"

definition go_run :: "go_world \<Rightarrow> unit phase" where
  "go_run w =
     (let v = run_input.truncate w; catalog = go_catalog w in
      andthen (opens v (if catalog = [] then [] else [go_start_tests w]) catalog go_config
                 (show_path (instrumenter_path (ri_project_root w) Go)))
        (\<lambda>(outcome, metrics).
      first (emits [StateEvent Compiling])
      (andthen (go_compile w) (\<lambda>compile.
      andthen (compiled metrics compile (parse_go_diagnostics (pr_stderr (fn_result compile)))) (\<lambda>metrics.
      first (emits [StateEvent Running])
        (run_program v metrics outcome (program_spawn v (go_executable w) [] (program_env (ri_session w) (ri_settings w)))
           True go_located (go_run_tests w catalog)))))))"

section \<open>What the parsers give\<close>

lemma go_diagnostics_wf: "list_all wf_diagnostic (parse_go_diagnostics stderr)"
  unfolding parse_go_diagnostics_def
proof (intro dedupe_diagnostics_wf wf_filtered)
  fix line d assume "go_diagnostic line = Some d"
  then show "wf_diagnostic d"
    by (auto simp: go_diagnostic_def go_project_path_def split: if_splits option.split intro!: wf_basic mirror_path_src)
qed

lemma go_located_wf: "wf_diagnostic (go_located stderr)"
  unfolding go_located_def Let_def by (rule wf_runtime) simp_all

lemma go_match_in: "from_catalog catalog (go_match catalog)"
  by (auto simp: from_catalog_def go_match_def dest: find_in split: option.splits)

lemma go_catalog_ids: "distinct (map pf_path files) \<Longrightarrow> distinct (map tc_test_id (discover_go_tests files))"
  unfolding discover_go_tests_def
  by (rule catalog_ids [where f = go_test])
    (auto simp: distinct_map_filter go_test_def id_of_line_def split: option.splits if_splits)

lemma judged_go_tests: "judged (run_input.truncate w) (map tc_test_id catalog) 3 (go_run_tests w catalog) 4"
  unfolding go_run_tests_def
  by (rule judged_suite_tests) (simp_all add: go_match_in lost_build_def Let_def go_diagnostics_wf)

lemma judged_go_compile: "judged (run_input.truncate w) ids lo (go_compile w) lo"
  unfolding go_compile_def Let_def
  by (auto intro!: judged_andthen [where mid = lo] judged_starts judged_gives direct_build_confined split: option.split)

lemma go_run_judged:
  assumes "fair (run_input.truncate w)"
  shows "judged (run_input.truncate w) (map tc_test_id (go_catalog w)) 0 (go_run w) 4"
proof -
  have opens: "distinct (map tc_test_id (go_catalog w))" "reads_u32 (ri_from_str (run_input.truncate w))"
    using assms by (simp_all add: fair_def go_catalog_def go_catalog_ids)
  show ?thesis
    unfolding go_run_def Let_def
  proof (rule judged_andthen [OF judged_opens [OF opens(2,1)]], simp add: go_start_tests_def, clarify)
    fix outcome metrics
    show "judged (run_input.truncate w) (map tc_test_id (go_catalog w)) 1
       (first (emits [StateEvent Compiling])
        (andthen (go_compile w) (\<lambda>compile.
         andthen (compiled metrics compile (parse_go_diagnostics (pr_stderr (fn_result compile)))) (\<lambda>metrics.
         first (emits [StateEvent Running])
          (run_program (run_input.truncate w) metrics outcome
            (program_spawn (run_input.truncate w) (go_executable w) [] (program_env (ri_session w) (ri_settings w)))
            True go_located (go_run_tests w (go_catalog w))))))) 4"
      by (intro judged_building judged_go_compile go_diagnostics_wf go_located_wf judged_go_tests) simp
  qed
qed

interpretation go: language_run go_run run_input.truncate go_catalog
proof
  show "fair (run_input.truncate w) \<Longrightarrow> judged (run_input.truncate w) (map tc_test_id (go_catalog w)) 0 (go_run w) 4" for w :: go_world
    by (rule go_run_judged)
  show "outcome_of (go_run w) \<noteq> None" for w :: go_world
    unfolding go_run_def Let_def by (auto intro!: outcome_andthen outcome_run_program simp del: not_None_eq)
  show "\<exists>rest. lg_events (fst (go_run w)) = StateEvent Instrumenting # TestCatalogEvent (go_catalog w) # rest" for w :: go_world
    unfolding go_run_def Let_def by (simp add: opens_events)
qed

end
