(* ===== verification/RustRunner.thy ===== *)
theory RustRunner
  imports LanguageRun
begin

text \<open>
  src/apps/server-rs/src/languages/rust/run.rs: rustc is run directly when the manifest declares no
  dependencies and there is no build script, cargo otherwise; its JSON messages become diagnostics;
  the tests are built beside the program, run by libtest, and its output folded into results.
\<close>

section \<open>Commands\<close>

definition cargo_env_in :: "path \<Rightarrow> string \<Rightarrow> (string \<times> string) list" where
  "cargo_env_in root target = [(''CARGO_NET_OFFLINE'', ''true''), (''CARGO_TARGET_DIR'', show_path (path_join root target)),
     (''CARGO_TERM_COLOR'', ''never'')]"

definition cargo_env :: "path \<Rightarrow> (string \<times> string) list" where
  "cargo_env root = cargo_env_in root ''target''"

datatype direct_kind = ProgramBuild | TestsBuild

text \<open>Crate name, source, target directory and output.\<close>

fun layout :: "direct_kind \<Rightarrow> string \<times> string \<times> string \<times> string" where
  "layout ProgramBuild = (''atomis_session'', ''generated/main.rs'', ''target'', ''debug/atomis-session'')"
| "layout TestsBuild = (''atomis_check'', ''src/main.rs'', ''target-tests'', ''debug/atomis-check-test'')"

fun dependency_lines :: "bool \<Rightarrow> string list \<Rightarrow> bool" where
  "dependency_lines in_dependencies [] = False"
| "dependency_lines in_dependencies (line # lines) =
     (if starts_with line ''['' then
        (let inside = contains line ''dependencies'' in
         if inside \<and> contains (trim_chars (\<lambda>c. c = CHR ''['' \<or> c = CHR '']'') line) ''dependencies.'' then True
         else dependency_lines inside lines)
      else if in_dependencies \<and> line \<noteq> [] \<and> \<not> starts_with line ''#'' then True
      else dependency_lines in_dependencies lines)"

definition manifest_declares_dependencies :: "string \<Rightarrow> bool" where
  "manifest_declares_dependencies manifest = dependency_lines False (map trim (str_lines manifest))"

definition edition_of :: "string \<Rightarrow> string" where
  "edition_of manifest =
     (case Option.bind (find_map (\<lambda>line. strip_prefix (trim line) ''edition'') (str_lines manifest))
            (\<lambda>rest. second (split_on quote_char rest)) of
        Some e \<Rightarrow> e | None \<Rightarrow> ''2021'')"

definition direct_args :: "path \<Rightarrow> bool \<Rightarrow> string \<Rightarrow> direct_kind \<Rightarrow> string list option" where
  "direct_args root build_script manifest build =
     (if build_script \<or> manifest_declares_dependencies manifest then None
      else (case layout build of (crate_name, source, target_dir, output) \<Rightarrow>
        let target = path_join root target_dir in
        Some ([''--crate-name'', crate_name, ''--edition='' @ edition_of manifest, source]
          @ (if build = TestsBuild then [''--test''] else [''--crate-type'', ''bin''])
          @ [''--error-format=json'', ''--json=diagnostic-rendered-ansi'', ''-C'', ''embed-bitcode=no'',
             ''-C'', ''codegen-units=1'', ''-C'', ''strip=debuginfo'', ''-C'',
             ''incremental='' @ show_path (path_join target ''direct-incremental''),
             ''-o'', show_path (path_join target output)])))"

definition in_quotes :: "string \<Rightarrow> string" where
  "in_quotes s = [quote_char] @ s @ [quote_char]"

definition message_type :: string where
  "message_type = in_quotes ''$message_type'' @ '':'' @ in_quotes ''diagnostic''"

definition as_cargo_messages :: "string \<Rightarrow> string" where
  "as_cargo_messages rustc_stderr =
     concat (map (\<lambda>line. ''{'' @ in_quotes ''reason'' @ '':'' @ in_quotes ''compiler-message'' @ '','' @ in_quotes ''message''
                     @ '':'' @ line @ ''}'' @ [lf])
       (filter (\<lambda>line. starts_with (trim_start line) ''{'' \<and> contains line message_type) (str_lines rustc_stderr)))"

section \<open>Test discovery\<close>

definition ident_head :: "string \<Rightarrow> bool" where
  "ident_head c \<longleftrightarrow> word_class c \<and> \<not> digit_class c"

definition rust_ident :: rx where
  "rust_ident = Seq (Cls ident_head) (Star (Cls word_class))"

definition test_attr :: rx where
  "test_attr = seqs [AtStart, spaces, lit ''#['', spaces, Star (Seq rust_ident (lit ''::'')), lit ''test'', WordBoundary]"

definition fn_line :: rx where
  "fn_line = seqs [AtStart, spaces, opt (Seq (lit ''pub'') (plus (Cls is_ws))), opt (Seq (lit ''async'') (plus (Cls is_ws))),
     lit ''fn'', plus (Cls is_ws), Cap 1 rust_ident]"

definition other_attr :: rx where
  "other_attr = seqs [AtStart, spaces, lit ''#['']"

definition rust_case :: "project_file \<Rightarrow> nat \<Rightarrow> string \<Rightarrow> groups \<Rightarrow> test_case" where
  "rust_case file index line c =
     \<lparr>tc_test_id = pf_path file @ '':'' @ show_nat (index + 1), tc_path = ''src/'' @ pf_path file,
      tc_name = group_text c 1, tc_line = index + 1, tc_column = length line - length (trim_start line) + 1\<rparr>"

text \<open>The function an attribute belongs to, and how many lines were looked at before it.\<close>

fun lookahead :: "project_file \<Rightarrow> nat \<Rightarrow> string list \<Rightarrow> (test_case \<times> nat) option" where
  "lookahead file index [] = None"
| "lookahead file index (line # lines) =
     (case captures fn_line line of
        Some c \<Rightarrow> Some (rust_case file index line c, 0)
      | None \<Rightarrow>
          if \<not> is_match other_attr line \<and> trim line \<noteq> [] then None
          else map_option (\<lambda>(t, k). (t, k + 1)) (lookahead file (index + 1) lines))"

function rust_tests :: "project_file \<Rightarrow> nat \<Rightarrow> string list \<Rightarrow> test_case list" where
  "rust_tests file index [] = []"
| "rust_tests file index (line # lines) =
     (if \<not> is_match test_attr line then rust_tests file (index + 1) lines
      else (case lookahead file (index + 1) lines of
              Some (t, k) \<Rightarrow> t # rust_tests file (index + 2 + k) (drop (k + 1) lines)
            | None \<Rightarrow> rust_tests file (index + 1) lines))"
  by pat_completeness auto
termination
  by (relation "measure (\<lambda>(file, index, lines). length lines)") auto

definition discover_rust_tests :: "project_file list \<Rightarrow> test_case list" where
  "discover_rust_tests files =
     concat (map (\<lambda>file. rust_tests file 0 (split_lines (pf_source file)))
       (filter (\<lambda>file. ends_with (pf_path file) ''.rs'') files))"

section \<open>The test behind a reported name\<close>

function split_str :: "string \<Rightarrow> string \<Rightarrow> string list" where
  "split_str s sep =
     (if sep = [] then [s]
      else (case find_sub s sep of
              None \<Rightarrow> [s]
            | Some i \<Rightarrow> take i s # split_str (drop (i + length sep) s) sep))"
  by pat_completeness auto
termination
proof (relation "measure (\<lambda>(s, sep). length s)", simp)
  fix s sep :: string and i
  assume "sep \<noteq> []" "find_sub s sep = Some i"
  with find_sub_length [of s sep i] have "sep \<noteq> []" "i + length sep \<le> length s" by auto
  then show "((drop (i + length sep) s, sep), s, sep) \<in> measure (\<lambda>(s, sep). length s)" by (cases sep) auto
qed

declare split_str.simps [simp del]

definition rust_stem :: "test_case \<Rightarrow> string list" where
  "rust_stem c =
     (let inner = (case strip_prefix (tc_path c) ''src/'' of Some p \<Rightarrow> p | None \<Rightarrow> tc_path c)
      in split_on (CHR ''/'') (case strip_suffix inner ''.rs'' of Some p \<Rightarrow> p | None \<Rightarrow> tc_path c))"

definition match_rust_test_name :: "test_case list \<Rightarrow> string \<Rightarrow> test_case option" where
  "match_rust_test_name catalog runner_name =
     (let segments = split_str runner_name ''::'';
          title = last segments; modules = butlast segments;
          by_title = filter (\<lambda>c. tc_name c = title) catalog
      in (case by_title of
            [] \<Rightarrow> None
          | [c] \<Rightarrow> Some c
          | _ \<Rightarrow> Some (hd (sort_key (\<lambda>c. - int (length (filter (\<lambda>m. m \<in> set (rust_stem c)) modules))) by_title))))"

section \<open>Cargo's messages\<close>

definition cargo_project_path :: "string \<Rightarrow> string option" where
  "cargo_project_path = mirror_path"

fun as_bool :: "json \<Rightarrow> bool option" where
  "as_bool (JBool b) = Some b"
| "as_bool _ = None"

definition aborting :: rx where
  "aborting = seqs [lit ''aborting due to '', digits, lit '' previous error'']"

definition get_text :: "json \<Rightarrow> string \<Rightarrow> string option" where
  "get_text j key = Option.bind (json_get j key) as_str"

definition get_u64 :: "json \<Rightarrow> string \<Rightarrow> nat option" where
  "get_u64 j key = Option.bind (json_get j key) as_u64"

definition cargo_severity :: "string \<Rightarrow> severity option" where
  "cargo_severity level =
     (if starts_with level ''error'' then Some SevError else if level = ''warning'' then Some SevWarning else None)"

definition primary_span :: "json \<Rightarrow> json option" where
  "primary_span message =
     (case Option.bind (json_get message ''spans'') as_array of
        None \<Rightarrow> None
      | Some spans \<Rightarrow>
          (case find (\<lambda>span. Option.bind (json_get span ''is_primary'') as_bool = Some True) spans of
             Some span \<Rightarrow> Some span
           | None \<Rightarrow> (case spans of [] \<Rightarrow> None | span # _ \<Rightarrow> Some span)))"

text \<open>\<open>as u32\<close> keeps the low 32 bits.\<close>

definition as_u32 :: "nat \<Rightarrow> nat" where
  "as_u32 n = n mod 2 ^ 32"

definition string_code :: "json \<Rightarrow> json option" where
  "string_code message =
     (case Option.bind (json_get message ''code'') (\<lambda>c. json_get c ''code'') of
        Some (JStr s) \<Rightarrow> Some (JStr s) | _ \<Rightarrow> None)"

definition cargo_message :: "json \<Rightarrow> app_diagnostic option" where
  "cargo_message parsed =
     (if get_text parsed ''reason'' \<noteq> Some ''compiler-message'' then None
      else
        Option.bind (json_get parsed ''message'') (\<lambda>message.
        Option.bind (get_text message ''message'') (\<lambda>tx.
        Option.bind (cargo_severity (case get_text message ''level'' of Some l \<Rightarrow> l | None \<Rightarrow> [])) (\<lambda>severity.
          if is_match aborting tx then None
          else
            Option.bind (primary_span message) (\<lambda>primary.
            Option.bind (get_text primary ''file_name'') (\<lambda>file_name.
            Option.bind (get_u64 primary ''line_start'') (\<lambda>line_start.
              Some \<lparr>ad_message = tx, ad_path = cargo_project_path file_name, ad_severity = severity,
                    ad_line = as_u32 line_start,
                    ad_column = as_u32 (case get_u64 primary ''column_start'' of Some n \<Rightarrow> n | None \<Rightarrow> 1),
                    ad_end_line = map_option as_u32 (get_u64 primary ''line_end''),
                    ad_end_column = map_option as_u32 (get_u64 primary ''column_end''),
                    ad_code = string_code message, ad_source = Some ''rustc''\<rparr>)))))))"

definition object_line :: "(string \<Rightarrow> json option) \<Rightarrow> string \<Rightarrow> json option" where
  "object_line json_of line = (if starts_with (trim_start line) ''{'' then json_of line else None)"

definition parse_cargo_diagnostics :: "(string \<Rightarrow> json option) \<Rightarrow> string \<Rightarrow> app_diagnostic list" where
  "parse_cargo_diagnostics json_of out =
     dedupe_diagnostics (List.map_filter (\<lambda>line. Option.bind (object_line json_of line) cargo_message) (split_lines out))"

text \<open>The last artifact of that name that is a test.\<close>

definition test_artifact :: "string \<Rightarrow> json \<Rightarrow> string option" where
  "test_artifact target_name parsed =
     (if get_text parsed ''reason'' = Some ''compiler-artifact''
        \<and> Option.bind (json_get parsed ''profile'') (\<lambda>p. Option.bind (json_get p ''test'') as_bool) = Some True
        \<and> Option.bind (json_get parsed ''target'') (\<lambda>t. get_text t ''name'') = Some target_name
      then get_text parsed ''executable'' else None)"

definition find_test_executable :: "(string \<Rightarrow> json option) \<Rightarrow> string \<Rightarrow> string \<Rightarrow> string option" where
  "find_test_executable json_of out target_name =
     (case List.map_filter (\<lambda>line. Option.bind (object_line json_of line) (test_artifact target_name)) (split_lines out) of
        [] \<Rightarrow> None | paths \<Rightarrow> Some (last paths))"


section \<open>The output of libtest\<close>

definition not_space :: "string \<Rightarrow> bool" where
  "not_space c \<longleftrightarrow> \<not> is_ws c"

definition libtest_line :: rx where
  "libtest_line = seqs [AtStart, lit ''test '', Cap 1 (plus (Cls not_space)), lit '' ... '',
     Cap 2 (alts [lit ''ok'', lit ''FAILED'', lit ''ignored'']), opt (Seq (lit '','') (Star (Cls any_char))), AtEnd]"

definition parse_libtest_line :: "string \<Rightarrow> (string \<times> string) option" where
  "parse_libtest_line line =
     Option.bind (captures libtest_line (trim line)) (\<lambda>c.
       case (group c 1, group c 2) of (Some name, Some status) \<Rightarrow> Some (name, status) | _ \<Rightarrow> None)"

definition block_name :: "string \<Rightarrow> string option" where
  "block_name line = Option.bind (strip_prefix line ''---- '') (\<lambda>rest. strip_suffix rest '' stdout ----'')"

definition ends_block :: "string \<Rightarrow> bool" where
  "ends_block line \<longleftrightarrow> starts_with line ''---- '' \<and> ends_with line '' stdout ----''
     \<or> line = ''failures:'' \<or> starts_with line ''note:''"

function failure_blocks :: "string list \<Rightarrow> (string \<times> string) list" where
  "failure_blocks [] = []"
| "failure_blocks (line # lines) =
     (case block_name line of
        None \<Rightarrow> failure_blocks lines
      | Some name \<Rightarrow>
          (name, truncate_chars (trim (join_with [lf] (takeWhile (\<lambda>l. \<not> ends_block l) lines))) 1200)
          # failure_blocks (dropWhile (\<lambda>l. \<not> ends_block l) lines))"
  by pat_completeness auto
termination
  by (relation "measure length") (auto simp: le_imp_less_Suc length_dropWhile_le)

text \<open>A later block of the same test replaces an earlier one.\<close>

definition extract_failure_messages :: "string \<Rightarrow> string \<Rightarrow> string option" where
  "extract_failure_messages out = map_of (rev (failure_blocks (split_lines out)))"

definition libtest_summary :: rx where
  "libtest_summary = seqs [AtLineStart, lit ''test result: '', alts [lit ''ok'', lit ''FAILED''], lit ''. '',
     Cap 1 digits, lit '' passed; '', Cap 2 digits, lit '' failed; '', Cap 3 digits, lit '' ignored'']"

definition group_u32 :: "groups \<Rightarrow> nat \<Rightarrow> nat option" where
  "group_u32 c i = Option.bind (group c i) (parse_unsigned 32)"

definition parse_libtest_summary :: "string \<Rightarrow> (nat \<times> nat \<times> nat) option" where
  "parse_libtest_summary out =
     Option.bind (captures libtest_summary out) (\<lambda>c.
       case (group_u32 c 1, group_u32 c 2, group_u32 c 3) of
         (Some passed, Some failed, Some ignored) \<Rightarrow> Some (passed, failed, ignored) | _ \<Rightarrow> None)"

text \<open>The callback on stdout: complete lines are read until a block of failure details begins.\<close>

record libtest_state =
  lt_full :: string
  lt_buffer :: string
  lt_details :: bool
  lt_arrivals :: "(string \<times> string) list"

definition libtest_new :: libtest_state where
  "libtest_new = \<lparr>lt_full = [], lt_buffer = [], lt_details = False, lt_arrivals = []\<rparr>"

definition libtest_take :: "string \<Rightarrow> libtest_state \<Rightarrow> libtest_state" where
  "libtest_take line s =
     (let details = (lt_details s \<or> starts_with line ''---- '' \<and> ends_with line '' ----'')
      in s\<lparr>lt_details := details,
           lt_arrivals := lt_arrivals s @
             (if details then [] else case parse_libtest_line line of Some r \<Rightarrow> [r] | None \<Rightarrow> [])\<rparr>)"

function libtest_lines :: "libtest_state \<Rightarrow> libtest_state" where
  "libtest_lines s =
     (case find_char (lt_buffer s) (\<lambda>c. c = lf) of
        None \<Rightarrow> s
      | Some i \<Rightarrow> libtest_lines (libtest_take (take i (lt_buffer s)) (s\<lparr>lt_buffer := drop (Suc i) (lt_buffer s)\<rparr>)))"
  by pat_completeness auto
termination
  by (relation "measure (\<lambda>s. length (lt_buffer s))") (auto simp: libtest_take_def Let_def dest!: find_char_Some)

declare libtest_lines.simps [simp del]

fun libtest_callback :: "callback \<Rightarrow> libtest_state \<Rightarrow> libtest_state" where
  "libtest_callback (OnStdout chunk) s =
     libtest_lines (s\<lparr>lt_full := lt_full s @ chunk, lt_buffer := lt_buffer s @ chunk\<rparr>)"
| "libtest_callback _ s = s"

section \<open>The world of a run\<close>

text \<open>\<open>rw_clock\<close> is when each result line was read, since the tests started.\<close>

record rust_world = run_input +
  rw_manifest :: "string option"
  rw_build_script :: bool
  rw_rustc :: finished
  rw_cargo :: finished
  rw_test_rustc :: finished
  rw_test_cargo :: finished
  rw_test_joined :: bool
  rw_write_json :: "json \<Rightarrow> string"
  rw_test_run :: test_run
  rw_clock :: "nat \<Rightarrow> millis"

definition root_of :: "rust_world \<Rightarrow> path" where
  "root_of w = ss_root (ri_session w)"

definition manifest_of :: "rust_world \<Rightarrow> string" where
  "manifest_of w = (case rw_manifest w of Some m \<Rightarrow> m | None \<Rightarrow> [])"

definition rustc_limits :: process_limits where
  "rustc_limits = process_limits_new 60000 (512 * 1024) (8 * 1024 * 1024)"

definition cargo_limits :: process_limits where
  "cargo_limits = process_limits_new 60000 (8 * 1024 * 1024) (512 * 1024)"

definition with_messages :: "finished \<Rightarrow> finished" where
  "with_messages f = f\<lparr>fn_result := (fn_result f)\<lparr>pr_stdout := as_cargo_messages (pr_stderr (fn_result f))\<rparr>\<rparr>"

definition rustc_ran :: "finished \<Rightarrow> bool" where
  "rustc_ran f \<longleftrightarrow> pr_exit_code (fn_result f) \<noteq> None \<or> pr_cancelled (fn_result f) \<or> pr_timed_out (fn_result f)"

definition artifact :: "string \<Rightarrow> json" where
  "artifact executable = JObj [(''executable'', JStr executable), (''profile'', JObj [(''test'', JBool True)]),
     (''reason'', JStr ''compiler-artifact''), (''target'', JObj [(''name'', JStr ''atomis-check'')])]"

definition tests_executable :: "rust_world \<Rightarrow> string" where
  "tests_executable w = at (run_input.truncate w) ''target-tests/debug/atomis-check-test''"

text \<open>The build of the tests: what it starts and what it gives.\<close>

definition test_build :: "rust_world \<Rightarrow> spawn list \<times> finished" where
  "test_build w =
     (let v = run_input.truncate w; env = cargo_env_in (root_of w) ''target-tests'';
          cargo = tool v ''cargo'' [''test'', ''--bin'', ''atomis-check'', ''--no-run'', ''--message-format=json'', ''--quiet'', ''--offline'']
                    cargo_limits env
      in (case direct_args (root_of w) (rw_build_script w) (manifest_of w) TestsBuild of
            None \<Rightarrow> ([cargo], rw_test_cargo w)
          | Some args \<Rightarrow>
              let rustc = tool v ''rustc'' args rustc_limits env; build = rw_test_rustc w
              in if \<not> rustc_ran build then ([rustc, cargo], rw_test_cargo w)
                 else
                   let b = with_messages build; r = fn_result b
                   in ([rustc],
                       if pr_exit_code r = Some 0
                       then b\<lparr>fn_result := r\<lparr>pr_stdout := pr_stdout r @ rw_write_json w (artifact (tests_executable w)) @ [lf]\<rparr>\<rparr>
                       else b)))"

section \<open>Tests\<close>

fun rust_status :: "string \<Rightarrow> test_status" where
  "rust_status s = (if s = ''ok'' then Passed else if s = ''ignored'' then Skipped else Failed)"

fun rust_results ::
  "test_case list \<Rightarrow> (string \<Rightarrow> string option) \<Rightarrow> (nat \<Rightarrow> millis) \<Rightarrow> nat \<Rightarrow> millis \<Rightarrow> (string \<times> string) list
   \<Rightarrow> string set \<Rightarrow> tally \<Rightarrow> runner_event list \<times> string set \<times> tally" where
  "rust_results catalog messages clock n previous [] reported counts = ([], reported, counts)"
| "rust_results catalog messages clock n previous ((name, status) # arrivals) reported counts =
     (let m = match_rust_test_name catalog name; shown = rust_status status; at_ms = clock n;
          (events, reported', counts') =
             rust_results catalog messages clock (n + 1) at_ms arrivals
               (case m of Some t \<Rightarrow> insert (tc_test_id t) reported | None \<Rightarrow> reported) (count_status shown counts)
      in (TestResultEvent (map_option tc_test_id m) (case m of Some t \<Rightarrow> tc_name t | None \<Rightarrow> name) shown
            (max (at_ms - previous) 0) (if shown = Failed then messages name else None) # events, reported', counts'))"

text \<open>The catalog's rows that were not reported, when the process did not end by itself.\<close>

definition rust_remainder :: "test_case list \<Rightarrow> string set \<Rightarrow> process_result \<Rightarrow> runner_event list" where
  "rust_remainder catalog reported r =
     (if pr_timed_out r \<or> pr_exit_code r = None
      then map (\<lambda>t. TestResultEvent (Some (tc_test_id t)) (tc_name t) (if pr_timed_out r then TestTimedOut else Failed) 0 None)
             (filter (\<lambda>t. tc_test_id t \<notin> reported) catalog)
      else [])"

definition rust_events :: "rust_world \<Rightarrow> test_case list \<Rightarrow> process_result \<Rightarrow> libtest_state \<Rightarrow> runner_event list" where
  "rust_events w catalog r s =
     (let (events, reported, counts) =
            rust_results catalog (extract_failure_messages (lt_full s)) (rw_clock w) 0 0 (lt_arrivals s) {} tally_new;
          late = rust_remainder catalog reported r;
          failed = tl_failed counts + length late;
          summary = parse_libtest_summary (lt_full s)
      in events @ late @
         [TestSummaryEvent (case summary of Some (p, _, _) \<Rightarrow> p | None \<Rightarrow> tl_passed counts)
            (case summary of Some (_, f, _) \<Rightarrow> if pr_timed_out r then failed else f | None \<Rightarrow> failed)
            (case summary of Some (_, _, k) \<Rightarrow> k | None \<Rightarrow> tl_skipped counts) 0 (tr_ms (rw_test_run w))])"

definition run_libtest :: "spawn \<Rightarrow> test_run \<Rightarrow> process_result \<times> libtest_state" where
  "run_libtest q t = (case supervised q t of (result, calls) \<Rightarrow> (result, fold libtest_callback calls libtest_new))"

definition unbuilt_tests :: "rust_world \<Rightarrow> finished \<Rightarrow> runner_event list" where
  "unbuilt_tests w build =
     (let r = fn_result build; diagnostics = parse_cargo_diagnostics (ri_json w) (pr_stdout r) in
      [if diagnostics = [] then OutputEvent Stderr (pr_stderr r) ErrorOutput None else DiagnosticEvent ''compiler'' diagnostics,
       TestSummaryEvent 0 0 0 0 (fn_ms build)])"

definition rust_run_tests :: "rust_world \<Rightarrow> test_case list \<Rightarrow> unit phase" where
  "rust_run_tests w catalog =
     (if catalog = [] \<or> ri_tests_cancelled w then gives ()
      else first (emits [StateEvent Testing])
        (if \<not> rw_test_joined w then gives ()
         else
           let build = snd (test_build w); r = fn_result build in
           if pr_cancelled r \<or> fn_cancelled build then gives ()
           else if pr_exit_code r \<noteq> Some 0 then emits (unbuilt_tests w build)
           else (case find_test_executable (ri_json w) (pr_stdout r) ''atomis-check'' of
                   None \<Rightarrow> emits [OutputEvent Stderr (''test binary not found in cargo output'' @ [lf]) ErrorOutput None]
                 | Some executable \<Rightarrow>
                     let v = run_input.truncate w; t = rw_test_run w;
                         q = in_sources v (tool v executable [''--test-threads=1'']
                               (process_limits_new (test_timeout v) (1024 * 1024) (512 * 1024)) []);
                         (result, s) = run_libtest q t
                     in first (starts [q])
                          (if pr_cancelled result \<or> tr_cancelled t then gives ()
                           else emits (rust_events w catalog result s)))))"

section \<open>The run\<close>

definition rust_config :: instrument_config where
  "rust_config = \<lparr>ic_source_name = ''rustlive-instrument'', ic_instruments = (\<lambda>p. ends_lower p ''.rs''),
     ic_command_prefix_args = [], ic_extra_args = (\<lambda>p. if p = ''main.rs'' then [''--entry''] else []), ic_timeout_ms = 5000\<rparr>"

definition rust_panic :: rx where
  "rust_panic = seqs [lit ''panicked at '', opt (Seq (Star (Cls any_char)) slash), alts [lit ''generated'', lit ''src''], slash,
     Cap 1 (Seq (lazy_plus (Cls any_char)) (lit ''.rs'')), lit '':'', Cap 2 digits, lit '':'', Cap 3 digits]"

definition rust_located :: "string \<Rightarrow> app_diagnostic" where
  "rust_located stderr =
     (let location = captures rust_panic stderr in
      runtime_diagnostic ''Program panicked or exited abnormally'' (Option.bind location (\<lambda>c. group c 1))
        (number_or_one (Option.bind location (\<lambda>c. group c 2))) (number_or_one (Option.bind location (\<lambda>c. group c 3))))"

text \<open>rustc when it may be run directly and does run, cargo otherwise.\<close>

definition rust_compile :: "rust_world \<Rightarrow> finished phase" where
  "rust_compile w =
     (let v = run_input.truncate w; env = cargo_env (root_of w);
          cargo = tool v ''cargo'' [''build'', ''--bin'', ''atomis-session'', ''--message-format=json'', ''--quiet'', ''--offline'']
                    cargo_limits env
      in (case direct_args (root_of w) (rw_build_script w) (manifest_of w) ProgramBuild of
            None \<Rightarrow> first (starts [cargo]) (gives (rw_cargo w))
          | Some args \<Rightarrow>
              first (starts [tool v ''rustc'' args rustc_limits env])
                (if rustc_ran (rw_rustc w) then gives (with_messages (rw_rustc w))
                 else first (starts [cargo]) (gives (rw_cargo w)))))"

definition rust_catalog :: "rust_world \<Rightarrow> test_case list" where
  "rust_catalog w = discover_rust_tests (files_of (run_input.truncate w))"

definition rust_run :: "rust_world \<Rightarrow> unit phase" where
  "rust_run w =
     (let v = run_input.truncate w; catalog = rust_catalog w in
      andthen (opens v (if catalog = [] then [] else fst (test_build w)) catalog rust_config
                 (show_path (instrumenter_path (ri_project_root w) Rust)))
        (\<lambda>(outcome, metrics).
      first (emits [StateEvent Compiling])
      (andthen (rust_compile w) (\<lambda>compile.
      andthen (compiled metrics compile (parse_cargo_diagnostics (ri_json w) (pr_stdout (fn_result compile)))) (\<lambda>metrics.
      first (emits [StateEvent Running])
        (run_program v metrics outcome
           (program_spawn v (at v ''target/debug/atomis-session'') [] (program_env (ri_session w) (ri_settings w)))
           True rust_located (rust_run_tests w catalog)))))))"


section \<open>What the parsers give\<close>

lemma as_u32_bound: "as_u32 n < 2 ^ 32"
  by (simp add: as_u32_def)

lemma cargo_message_wf: "cargo_message parsed = Some d \<Longrightarrow> wf_diagnostic d"
  using as_u32_bound
  by (auto simp: cargo_message_def wf_diagnostic_def cargo_project_path_def bind_eq_Some_conv
      split: if_splits option.split intro: mirror_path_src)

lemma cargo_diagnostics_wf: "list_all wf_diagnostic (parse_cargo_diagnostics json_of out)"
  unfolding parse_cargo_diagnostics_def
  by (intro dedupe_diagnostics_wf wf_filtered) (auto simp: bind_eq_Some_conv intro: cargo_message_wf)

lemma rust_located_wf: "wf_diagnostic (rust_located stderr)"
  unfolding rust_located_def Let_def by (rule wf_runtime) simp_all

lemma lookahead_Some: "lookahead fl i ls = Some (t, k) \<Longrightarrow> tc_test_id t = id_of_line (pf_path fl) (i + k)"
proof (induction fl i ls arbitrary: k rule: lookahead.induct)
  case (2 fl index line lines)
  then show ?case
    by (auto simp: rust_case_def id_of_line_def split: option.splits if_splits)
qed simp

lemma rust_tests_ids:
  "distinct (map tc_test_id (rust_tests fl i ls)) \<and>
   (\<forall>t \<in> set (rust_tests fl i ls). \<exists>k \<ge> i. tc_test_id t = id_of_line (pf_path fl) k)"
proof (induction fl i ls rule: rust_tests.induct)
  case (2 fl index line lines)
  show ?case
  proof (cases "is_match test_attr line")
    case False
    with 2(1) show ?thesis by (auto dest: Suc_leD)
  next
    case True
    show ?thesis
    proof (cases "lookahead fl (index + 1) lines")
      case None
      with True 2(2) show ?thesis by (auto dest: Suc_leD)
    next
      case (Some r)
      obtain t k where r: "r = (t, k)" by (cases r)
      have id: "tc_test_id t = id_of_line (pf_path fl) (index + 1 + k)" using lookahead_Some Some r by blast
      have ih: "distinct (map tc_test_id (rust_tests fl (index + 2 + k) (drop (k + 1) lines)))"
        "\<forall>u \<in> set (rust_tests fl (index + 2 + k) (drop (k + 1) lines)). \<exists>j \<ge> index + 2 + k. tc_test_id u = id_of_line (pf_path fl) j"
        using 2(3) [OF _ Some r [symmetric]] True by blast+
      have "tc_test_id t \<notin> tc_test_id ` set (rust_tests fl (index + 2 + k) (drop (k + 1) lines))"
        using ih(2) id by fastforce
      with True Some r id ih show ?thesis by (fastforce intro: le_trans)
    qed
  qed
qed simp

lemma rust_catalog_ids: "distinct (map pf_path files) \<Longrightarrow> distinct (map tc_test_id (discover_rust_tests files))"
  unfolding discover_rust_tests_def
proof (rule catalog_ids_by_file)
  fix fl t assume "t \<in> set (rust_tests fl 0 (split_lines (pf_source fl)))"
  with rust_tests_ids [of fl 0] show "\<exists>k. tc_test_id t = id_of_line (pf_path fl) k" by blast
qed (use rust_tests_ids in \<open>auto simp: distinct_map_filter\<close>)

lemma hd_sort_key: "xs \<noteq> [] \<Longrightarrow> hd (sort_key f xs) \<in> set xs"
  by (metis hd_in_set length_0_conv length_sort set_sort)

lemma match_rust_in: "match_rust_test_name catalog name = Some t \<Longrightarrow> t \<in> set catalog"
proof -
  define by_title where "by_title = filter (\<lambda>c. tc_name c = last (split_str name ''::'')) catalog"
  define score where "score = (\<lambda>c. - int (length (filter (\<lambda>m. m \<in> set (rust_stem c)) (butlast (split_str name ''::'')))))"
  assume "match_rust_test_name catalog name = Some t"
  then have m: "(case by_title of [] \<Rightarrow> None | [c] \<Rightarrow> Some c | _ \<Rightarrow> Some (hd (sort_key score by_title))) = Some t"
    unfolding match_rust_test_name_def Let_def by_title_def score_def .
  have "t \<in> set by_title"
  proof (cases by_title rule: list.exhaust)
    case (Cons c cs)
    show ?thesis
    proof (cases cs)
      case (Cons d ds)
      with \<open>by_title = c # cs\<close> m have "t = hd (sort_key score by_title)" by simp
      then show ?thesis using hd_sort_key [of by_title score] \<open>by_title = c # cs\<close> by simp
    qed (use m Cons in simp)
  qed (use m in simp)
  then show ?thesis by (simp add: by_title_def)
qed

lemma rust_results_ok:
  "rust_results catalog messages clock n previous arrivals reported counts = (es, reported', counts')
   \<Longrightarrow> list_all (event_ok (map tc_test_id catalog)) es \<and> states_of es = []"
proof (induction arrivals arbitrary: n previous reported counts es)
  case (Cons r arrivals)
  obtain name status where r: "r = (name, status)" by (cases r)
  let ?m = "match_rust_test_name catalog name"
  have "event_ok (map tc_test_id catalog) (TestResultEvent (map_option tc_test_id ?m) a b c d)" for a b c d
    using match_rust_in by (cases ?m) auto
  with Cons r show ?case by (fastforce simp: Let_def split: prod.splits)
qed simp

lemma rust_remainder_ok:
  "list_all (event_ok (map tc_test_id catalog)) (rust_remainder catalog reported r) \<and> states_of (rust_remainder catalog reported r) = []"
proof -
  have "states_of (map (\<lambda>t. TestResultEvent (Some (tc_test_id t)) (tc_name t) b 0 None) ts) = []" for b and ts :: "test_case list"
    by (induction ts) simp_all
  then show ?thesis by (auto simp: rust_remainder_def list_all_iff)
qed

lemma rust_events_ok:
  "list_all (event_ok (map tc_test_id catalog)) (rust_events w catalog r s) \<and> states_of (rust_events w catalog r s) = []"
proof -
  obtain es reported counts where e: "rust_results catalog (extract_failure_messages (lt_full s)) (rw_clock w) 0 0
      (lt_arrivals s) {} tally_new = (es, reported, counts)" by (metis prod_cases3)
  from rust_results_ok [OF e] rust_remainder_ok [of catalog reported r] show ?thesis
    by (simp add: rust_events_def e Let_def)
qed

lemma test_build_confined: "list_all (\<lambda>q. sq_sandbox q = policy_of (run_input.truncate w)) (fst (test_build w))"
  by (auto simp: test_build_def Let_def split: option.split)

lemma judged_rust_tests: "judged (run_input.truncate w) (map tc_test_id catalog) 3 (rust_run_tests w catalog) 4"
proof -
  have un: "list_all (event_ok ids) (unbuilt_tests w b) \<and> states_of (unbuilt_tests w b) = []" for ids b
    by (simp add: unbuilt_tests_def Let_def cargo_diagnostics_wf)
  show ?thesis
    using rust_events_ok [of catalog w] un
    unfolding rust_run_tests_def Let_def
    by (auto intro!: judged_gives judged_andthen [where mid = 4] judged_starts judged_emits judged_state
        split: option.split prod.split)
qed

lemma judged_rust_compile: "judged (run_input.truncate w) ids lo (rust_compile w) lo"
  unfolding rust_compile_def Let_def
  by (auto intro!: judged_andthen [where mid = lo] judged_starts judged_gives split: option.split)

lemma rust_run_judged:
  assumes "fair (run_input.truncate w)"
  shows "judged (run_input.truncate w) (map tc_test_id (rust_catalog w)) 0 (rust_run w) 4"
proof -
  have opens: "distinct (map tc_test_id (rust_catalog w))" "reads_u32 (ri_from_str (run_input.truncate w))"
    using assms by (simp_all add: fair_def rust_catalog_def rust_catalog_ids)
  show ?thesis
    unfolding rust_run_def Let_def
  proof (rule judged_andthen [OF judged_opens [OF opens(2,1)]], simp add: test_build_confined, clarify)
    fix outcome metrics
    show "judged (run_input.truncate w) (map tc_test_id (rust_catalog w)) 1
       (first (emits [StateEvent Compiling])
        (andthen (rust_compile w) (\<lambda>compile.
         andthen (compiled metrics compile (parse_cargo_diagnostics (ri_json w) (pr_stdout (fn_result compile)))) (\<lambda>metrics.
         first (emits [StateEvent Running])
          (run_program (run_input.truncate w) metrics outcome
            (program_spawn (run_input.truncate w) (at (run_input.truncate w) ''target/debug/atomis-session'') []
              (program_env (ri_session w) (ri_settings w)))
            True rust_located (rust_run_tests w (rust_catalog w))))))) 4"
      by (intro judged_building judged_rust_compile cargo_diagnostics_wf rust_located_wf judged_rust_tests) simp
  qed
qed

interpretation rust: language_run rust_run run_input.truncate rust_catalog
proof
  show "fair (run_input.truncate w) \<Longrightarrow> judged (run_input.truncate w) (map tc_test_id (rust_catalog w)) 0 (rust_run w) 4"
    for w :: rust_world by (rule rust_run_judged)
  show "outcome_of (rust_run w) \<noteq> None" for w :: rust_world
    unfolding rust_run_def Let_def by (auto intro!: outcome_andthen outcome_run_program simp del: not_None_eq)
  show "\<exists>rest. lg_events (fst (rust_run w)) = StateEvent Instrumenting # TestCatalogEvent (rust_catalog w) # rest" for w :: rust_world
    unfolding rust_run_def Let_def by (simp add: opens_events)
qed

end
