(* ===== verification/TsRunner.thy ===== *)
theory TsRunner
  imports LanguageRun
begin

text \<open>
  src/apps/server-rs/src/languages/ts/run.rs: \<open>node --test\<close> is started with the run, the program and
  the type checker run side by side, and the TAP report becomes results.
\<close>

section \<open>Test discovery\<close>

definition is_code :: "string \<Rightarrow> bool" where
  "is_code p \<longleftrightarrow> ends_with p ''.ts'' \<or> ends_with p ''.js'' \<or> ends_with p ''.mjs''"

definition is_test_file :: "string \<Rightarrow> bool" where
  "is_test_file p \<longleftrightarrow> ends_with p ''.test.ts'' \<or> ends_with p ''.test.js'' \<or> ends_with p ''.test.mjs''"

definition single_quote :: char where "single_quote = CHR 0x27"
definition backtick :: char where "backtick = CHR 0x60"
definition escape_char :: char where "escape_char = CHR 0x5C"

definition quoted_by :: "char \<Rightarrow> rx" where
  "quoted_by q = seqs [lit [q], Star (Alt (Cls (none_of [q, escape_char])) (Seq (lit [escape_char]) (Cls any_char))), lit [q]]"

definition ts_test_line :: rx where
  "ts_test_line = seqs [AtStart, spaces, alts [lit ''test'', lit ''it''], spaces, lit ''('', spaces,
     Cap 1 (alts [quoted_by quote_char, quoted_by single_quote,
       seqs [lit [backtick], Star (Cls (none_of [backtick])), lit [backtick]]])]"

fun unescaped :: "string list \<Rightarrow> string" where
  "unescaped [] = []"
| "unescaped (c # cs) =
     (if c = [escape_char] then (case cs of [] \<Rightarrow> [] | d # ds \<Rightarrow> d @ unescaped ds) else c @ unescaped cs)"

definition indent_of :: "string \<Rightarrow> nat" where
  "indent_of line = length line - length (trim_start line)"

definition ts_test :: "project_file \<Rightarrow> nat \<Rightarrow> string \<Rightarrow> test_case option" where
  "ts_test file index line =
     map_option (\<lambda>c.
       \<lparr>tc_test_id = pf_path file @ '':'' @ show_nat (index + 1), tc_path = ''src/'' @ pf_path file,
        tc_name = unescaped (str_chars (butlast (tl (group_text c 1)))), tc_line = index + 1,
        tc_column = indent_of line + 1\<rparr>) (captures ts_test_line line)"

definition discover_ts_tests :: "project_file list \<Rightarrow> test_case list" where
  "discover_ts_tests files =
     concat (map (\<lambda>file. tests_from (ts_test file) 0 (split_lines (pf_source file)))
       (filter (\<lambda>file. is_test_file (pf_path file)) files))"

section \<open>TAP\<close>

definition tap_result :: rx where
  "tap_result = seqs [AtStart, Cap 1 spaces, opt (Cap 2 (lit ''not '')), lit ''ok '', digits, lit '' - '',
     Cap 3 (LazyStar (Cls any_char)),
     opt (seqs [lit '' # '', Cap 4 (alts [lit ''SKIP'', lit ''TODO'']), Star (Cls any_char)]), AtEnd]"

definition digit_or_dot :: "string \<Rightarrow> bool" where
  "digit_or_dot c \<longleftrightarrow> digit_class c \<or> c = ''.''"

definition tap_duration :: rx where
  "tap_duration = seqs [AtStart, spaces, lit ''duration_ms:'', spaces, Cap 1 (plus (Cls digit_or_dot))]"

definition tap_error :: rx where
  "tap_error = seqs [AtStart, spaces, lit ''error: |'', opt (lit ''-''), AtEnd]"

definition small_letter :: "string \<Rightarrow> bool" where
  "small_letter c \<longleftrightarrow> (case c of [b] \<Rightarrow> ascii_lower b | _ \<Rightarrow> False)"

definition tap_kind :: rx where
  "tap_kind = seqs [AtStart, spaces, lit ''type:'', spaces, lit [single_quote], Cap 1 (plus (Cls small_letter)), lit [single_quote]]"

definition blank :: "string \<Rightarrow> bool" where
  "blank line \<longleftrightarrow> trim line = []"

text \<open>\<open>line.get(i..)\<close>, on a line at least that long.\<close>

definition from_column :: "nat \<Rightarrow> string \<Rightarrow> string option" where
  "from_column i line =
     (if i = length line \<or> i < length line \<and> \<not> (128 \<le> byte (line ! i) \<and> byte (line ! i) < 192)
      then Some (drop i line) else None)"

fun error_body :: "nat \<Rightarrow> string list \<Rightarrow> string list \<Rightarrow> string list" where
  "error_body indent collected [] = collected"
| "error_body indent collected (line # lines) =
     (if blank line \<and> collected \<noteq> [] then error_body indent (collected @ [[]]) lines
      else if indent_of line < indent then collected
      else error_body indent
             (collected @ [case from_column indent line of Some t \<Rightarrow> t | None \<Rightarrow> trim_start line]) lines)"

record tap_details =
  td_ms :: millis
  td_message :: "string option"
  td_suite :: bool

text \<open>What one line below a result says; \<open>lines\<close> are the ones after it.\<close>

definition tap_detail :: "(string \<Rightarrow> millis option) \<Rightarrow> string \<Rightarrow> string list \<Rightarrow> tap_details \<Rightarrow> tap_details" where
  "tap_detail parse_ms line lines d =
     (let d1 = (case captures tap_kind line of Some c \<Rightarrow> d\<lparr>td_suite := group c 1 = Some ''suite''\<rparr> | None \<Rightarrow> d);
          d2 = (case Option.bind (captures tap_duration line) (\<lambda>c. Option.bind (group c 1) parse_ms) of
                  Some ms \<Rightarrow> d1\<lparr>td_ms := ms\<rparr> | None \<Rightarrow> d1)
      in if is_match tap_error line
         then d2\<lparr>td_message := Some (truncate_chars (trim (join_with [lf] (error_body (indent_of line + 2) [] lines))) 1200)\<rparr>
         else d2)"

fun tap_block :: "(string \<Rightarrow> millis option) \<Rightarrow> nat \<Rightarrow> string list \<Rightarrow> tap_details \<Rightarrow> tap_details" where
  "tap_block parse_ms row_indent [] d = d"
| "tap_block parse_ms row_indent (line # lines) d =
     (if \<not> blank line \<and> indent_of line \<le> row_indent \<or> trim line = ''...'' then d
      else tap_block parse_ms row_indent lines (tap_detail parse_ms line lines d))"

fun tap_results :: "(string \<Rightarrow> millis option) \<Rightarrow> string list \<Rightarrow> suite_result list" where
  "tap_results parse_ms [] = []"
| "tap_results parse_ms (line # lines) =
     (case captures tap_result line of
        None \<Rightarrow> tap_results parse_ms lines
      | Some c \<Rightarrow>
          let status = (if group c 4 \<noteq> None then Skipped else if group c 2 \<noteq> None then Failed else Passed);
              d = tap_block parse_ms (length (group_text c 1)) lines \<lparr>td_ms = 0, td_message = None, td_suite = False\<rparr>
          in if td_suite d then tap_results parse_ms lines
             else \<lparr>st_name = group_text c 3, st_status = status, st_ms = td_ms d,
                   st_message = (if status = Failed \<and> td_message d \<noteq> Some [] then td_message d else None)\<rparr>
                  # tap_results parse_ms lines)"

definition parse_tap_output :: "(string \<Rightarrow> millis option) \<Rightarrow> string \<Rightarrow> suite_result list" where
  "parse_tap_output parse_ms out = tap_results parse_ms (split_lines out)"

section \<open>The type checker\<close>

definition tsc_location :: rx where
  "tsc_location = seqs [AtStart, Cap 1 (lazy_plus (Cls any_char)), lit ''('', Cap 2 digits, lit '','', Cap 3 digits, lit ''): '',
     Cap 4 (alts [lit ''error'', lit ''warning'']), lit '' TS'', digits, lit '': '', Cap 5 (plus (Cls any_char)), AtEnd]"

definition tsc_diagnostic :: "string \<Rightarrow> app_diagnostic option" where
  "tsc_diagnostic line =
     Option.bind (captures tsc_location (trim line)) (\<lambda>c.
       let slashed_path = slashed (group_text c 1);
           normalized = (case rfind_sub slashed_path ''/src/'' of Some i \<Rightarrow> drop (i + 1) slashed_path | None \<Rightarrow> slashed_path)
       in if \<not> starts_with normalized ''src/'' then None
          else Some (basic_diagnostic (group_text c 5) (Some normalized)
                  (if group c 4 = Some ''warning'' then SevWarning else SevError)
                  (number_or_one (group c 2)) (number_or_one (group c 3)) ''tsc''))"

definition parse_tsc_diagnostics :: "string \<Rightarrow> app_diagnostic list" where
  "parse_tsc_diagnostics output = dedupe_diagnostics (List.map_filter tsc_diagnostic (split_lines output))"

section \<open>The run\<close>

record ts_world = run_input +
  tw_typecheck :: finished
  tw_suite :: "finished option"
  tw_parse_ms :: "string \<Rightarrow> millis option"

definition ts_config :: "path \<Rightarrow> instrument_config" where
  "ts_config project_root = \<lparr>ic_source_name = ''tslive-instrument'',
     ic_instruments = (\<lambda>p. is_code p \<and> \<not> is_test_file p),
     ic_command_prefix_args = [show_path (instrumenter_path project_root Ts)], ic_extra_args = (\<lambda>_. []), ic_timeout_ms = 10000\<rparr>"

definition ts_start_tests :: "ts_world \<Rightarrow> test_case list \<Rightarrow> spawn" where
  "ts_start_tests w catalog =
     (let v = run_input.truncate w in
      in_sources v (tool v ''node''
        ([''--test'', ''--test-reporter=tap''] @ test_paths v catalog)
        (process_limits_new (max (se_timeout_ms (ri_settings w) + 5000) 10000) (2 * 1024 * 1024) (512 * 1024)) []))"

definition ts_match :: "test_case list \<Rightarrow> string \<Rightarrow> test_case option" where
  "ts_match catalog name = find (\<lambda>c. tc_name c = name) catalog"

definition ts_run_tests :: "ts_world \<Rightarrow> test_case list \<Rightarrow> unit phase" where
  "ts_run_tests w catalog =
     suite_tests (run_input.truncate w) (ts_match catalog) catalog (tw_suite w) (parse_tap_output (tw_parse_ms w))
       (\<lambda>r. [OutputEvent Stderr (pr_stderr r) ErrorOutput None])"

definition node_throw :: rx where
  "node_throw = seqs [alts [lit ''generated'', lit ''src''], slash,
     Cap 1 (seqs [plus (Cls path_char), lit ''.'', alts [lit ''ts'', lit ''js'', lit ''mjs'', lit ''cjs'']]),
     lit '':'', Cap 2 digits, opt (Seq (lit '':'') (Cap 3 digits))]"

definition ts_located :: "string \<Rightarrow> app_diagnostic" where
  "ts_located stderr =
     (let location = captures node_throw stderr in
      runtime_diagnostic ''Program threw or exited abnormally'' (Option.bind location (\<lambda>c. group c 1))
        (number_or_one (Option.bind location (\<lambda>c. group c 2))) (number_or_one (Option.bind location (\<lambda>c. group c 3))))"

definition ts_typecheck :: "ts_world \<Rightarrow> spawn" where
  "ts_typecheck w =
     (let v = run_input.truncate w in
      tool v ''node'' [show_path (path_join (ri_project_root w) ''node_modules/typescript/bin/tsc''), ''-p'', at v ''tsconfig.json'',
        ''--pretty'', ''false''] (process_limits_new 60000 (2 * 1024 * 1024) (512 * 1024)) [])"

definition ts_program :: "ts_world \<Rightarrow> spawn" where
  "ts_program w =
     (let v = run_input.truncate w in
      program_spawn v ''node'' [''--import'', ''file://'' @ at v ''generated/__atomis_runtime.mjs'', at v ''generated/main.ts'']
        (program_env (ri_session w) (ri_settings w)))"

text \<open>Not as a server: the tests would start it a second time.\<close>

definition ts_catalog :: "ts_world \<Rightarrow> test_case list" where
  "ts_catalog w = (if se_serve (ri_settings w) then [] else discover_ts_tests (files_of (run_input.truncate w)))"

definition typecheck_events :: "ts_world \<Rightarrow> runner_event list" where
  "typecheck_events w =
     (let r = fn_result (tw_typecheck w) in
      if pr_cancelled r \<or> fn_cancelled (tw_typecheck w) then []
      else [DiagnosticEvent ''compiler'' (parse_tsc_diagnostics (pr_stdout r @ [lf] @ pr_stderr r))])"

definition ts_run :: "ts_world \<Rightarrow> unit phase" where
  "ts_run w =
     (let v = run_input.truncate w; catalog = ts_catalog w in
      andthen (opens v (if catalog = [] then [] else [ts_start_tests w catalog]) catalog
                 (ts_config (ri_project_root w)) ''node'')
        (\<lambda>(outcome, metrics).
      let execution = execute v (ts_program w) True outcome in
      first (emits [StateEvent Running])
      (first (starts [ts_typecheck w, ts_program w])
      (first (emits (xo_events execution))
      (first (emits (typecheck_events w))
        (concluded v (metrics\<lparr>compilation_ms := fn_ms (tw_typecheck w)\<rparr>) execution ts_located (ts_run_tests w catalog)))))))"

section \<open>What the parsers give\<close>

lemma tsc_diagnostics_wf: "list_all wf_diagnostic (parse_tsc_diagnostics output)"
  unfolding parse_tsc_diagnostics_def
  by (intro dedupe_diagnostics_wf wf_filtered)
    (auto simp: tsc_diagnostic_def bind_eq_Some_conv Let_def split: if_splits intro!: wf_basic)

lemma ts_located_wf: "wf_diagnostic (ts_located stderr)"
  unfolding ts_located_def Let_def by (rule wf_runtime) simp_all

lemma ts_match_in: "from_catalog catalog (ts_match catalog)"
  by (auto simp: from_catalog_def ts_match_def dest: find_in)

lemma ts_catalog_ids: "distinct (map pf_path files) \<Longrightarrow> distinct (map tc_test_id (discover_ts_tests files))"
  unfolding discover_ts_tests_def
  by (rule catalog_ids [where f = ts_test]) (auto simp: distinct_map_filter ts_test_def id_of_line_def)

lemma judged_ts_tests: "judged (run_input.truncate w) (map tc_test_id catalog) 3 (ts_run_tests w catalog) 4"
  unfolding ts_run_tests_def by (rule judged_suite_tests) (simp_all add: ts_match_in)

lemma ts_run_judged:
  assumes "fair (run_input.truncate w)"
  shows "judged (run_input.truncate w) (map tc_test_id (ts_catalog w)) 0 (ts_run w) 4"
proof -
  have opens: "distinct (map tc_test_id (ts_catalog w))" "reads_u32 (ri_from_str (run_input.truncate w))"
    using assms by (simp_all add: fair_def ts_catalog_def ts_catalog_ids)
  have typecheck: "judged (run_input.truncate w) ids 3 (emits (typecheck_events w)) 3" for ids
    by (rule judged_emits) (simp_all add: typecheck_events_def Let_def tsc_diagnostics_wf)
  have confined: "list_all (\<lambda>q. sq_sandbox q = policy_of (run_input.truncate w)) [ts_typecheck w, ts_program w]"
    by (simp add: ts_typecheck_def ts_program_def Let_def)
  show ?thesis
    unfolding ts_run_def Let_def
  proof (rule judged_andthen [OF judged_opens [OF opens(2,1)]], simp add: ts_start_tests_def Let_def, clarify)
    fix outcome metrics
    let ?execution = "execute (run_input.truncate w) (ts_program w) True outcome"
    show "judged (run_input.truncate w) (map tc_test_id (ts_catalog w)) 1
      (first (emits [StateEvent Running])
      (first (starts [ts_typecheck w, ts_program w])
      (first (emits (xo_events ?execution))
      (first (emits (typecheck_events w))
        (concluded (run_input.truncate w) (metrics\<lparr>compilation_ms := fn_ms (tw_typecheck w)\<rparr>) ?execution ts_located
          (ts_run_tests w (ts_catalog w))))))) 4"
    proof (rule judged_andthen [where mid = 3], rule judged_state)
      show "judged (run_input.truncate w) (map tc_test_id (ts_catalog w)) 3
        (first (starts [ts_typecheck w, ts_program w]) (first (emits (xo_events ?execution)) (first (emits (typecheck_events w))
          (concluded (run_input.truncate w) (metrics\<lparr>compilation_ms := fn_ms (tw_typecheck w)\<rparr>) ?execution ts_located
            (ts_run_tests w (ts_catalog w)))))) 4"
        by (intro judged_andthen [where mid = 3] judged_starts [OF confined] judged_plain [OF execute_plain] typecheck
            judged_concluded [OF ts_located_wf judged_ts_tests]) simp_all
    qed simp_all
  qed
qed

interpretation ts: language_run ts_run run_input.truncate ts_catalog
proof
  show "fair (run_input.truncate w) \<Longrightarrow> judged (run_input.truncate w) (map tc_test_id (ts_catalog w)) 0 (ts_run w) 4"
    for w :: ts_world by (rule ts_run_judged)
  show "outcome_of (ts_run w) \<noteq> None" for w :: ts_world
    unfolding ts_run_def Let_def by (auto intro!: outcome_andthen outcome_concluded simp del: not_None_eq)
  show "\<exists>rest. lg_events (fst (ts_run w)) = StateEvent Instrumenting # TestCatalogEvent (ts_catalog w) # rest" for w :: ts_world
    unfolding ts_run_def Let_def by (simp add: opens_events)
qed

end
