(* ===== verification/PyRunner.thy ===== *)
theory PyRunner
  imports LanguageRun
begin

text \<open>
  src/apps/server-rs/src/languages/py/run.rs: the instrumented program runs under the session's
  interpreter, and the tests run in a process that reports them on its channel.
\<close>

section \<open>Test discovery\<close>

definition is_py_test_file :: "string \<Rightarrow> bool" where
  "is_py_test_file p \<longleftrightarrow>
     (let name = last (split_on (CHR ''/'') p) in
      starts_with name ''test_'' \<and> ends_with name ''.py'' \<or> ends_with name ''_test.py'')"

definition name_byte :: "char \<Rightarrow> bool" where
  "name_byte c \<longleftrightarrow> ascii_alpha c \<or> ascii_digit c \<or> c = CHR ''_''"

definition starts_blank :: "string \<Rightarrow> bool" where
  "starts_blank line \<longleftrightarrow> (case str_chars line of [] \<Rightarrow> False | c # _ \<Rightarrow> is_ws c)"

text \<open>The name a line defines a test under, inside \<open>cls\<close>.\<close>

definition qualified_name :: "string option \<Rightarrow> string \<Rightarrow> string option" where
  "qualified_name cls line =
     (let trimmed = trim_start line; indent = length line - length trimmed in
      Option.bind (strip_prefix trimmed ''def test'') (\<lambda>rest.
        let name = takeWhile name_byte rest in
        if \<not> starts_with (trim_start (drop (length name) rest)) ''('' then None
        else if indent = 0 then (if starts_with name ''_'' then Some (''test'' @ name) else None)
        else map_option (\<lambda>c. c @ ''.test'' @ name) cls))"

definition py_case :: "project_file \<Rightarrow> nat \<Rightarrow> string \<Rightarrow> test_case" where
  "py_case file index name =
     \<lparr>tc_test_id = pf_path file @ '':'' @ show_nat (index + 1), tc_path = ''src/'' @ pf_path file,
      tc_name = name, tc_line = index + 1, tc_column = 1\<rparr>"

fun py_tests :: "project_file \<Rightarrow> string option \<Rightarrow> nat \<Rightarrow> string list \<Rightarrow> test_case list" where
  "py_tests file cls index [] = []"
| "py_tests file cls index (line # lines) =
     (case strip_prefix line ''class '' of
        Some rest \<Rightarrow>
          let name = takeWhile name_byte rest in
          py_tests file (if name = [] then None else Some name) (index + 1) lines
      | None \<Rightarrow>
          let inside = (if line \<noteq> [] \<and> \<not> starts_blank line then None else cls) in
          (case qualified_name inside line of Some name \<Rightarrow> [py_case file index name] | None \<Rightarrow> [])
            @ py_tests file inside (index + 1) lines)"

definition discover_py_tests :: "project_file list \<Rightarrow> test_case list" where
  "discover_py_tests files =
     concat (map (\<lambda>file. py_tests file None 0 (split_lines (pf_source file)))
       (filter (\<lambda>file. is_py_test_file (pf_path file)) files))"

section \<open>The test behind a reported name\<close>

definition suffix_matches :: "string \<Rightarrow> test_case \<Rightarrow> bool" where
  "suffix_matches runner_name c \<longleftrightarrow> runner_name = tc_name c
     \<or> (case strip_suffix runner_name (tc_name c) of Some head \<Rightarrow> ends_with head ''.'' | None \<Rightarrow> False)"

definition py_stem :: "test_case \<Rightarrow> string" where
  "py_stem c =
     (let inner = (case strip_prefix (tc_path c) ''src/'' of Some p \<Rightarrow> p | None \<Rightarrow> tc_path c)
      in last (split_on (CHR ''/'') (case strip_suffix inner ''.py'' of Some p \<Rightarrow> p | None \<Rightarrow> tc_path c)))"

definition match_py_test_name :: "test_case list \<Rightarrow> string \<Rightarrow> test_case option" where
  "match_py_test_name catalog runner_name =
     (case filter (suffix_matches runner_name) catalog of
        [] \<Rightarrow> None
      | [c] \<Rightarrow> Some c
      | c # cs \<Rightarrow>
          (case find (\<lambda>d. Option.bind (strip_suffix runner_name (tc_name d)) (\<lambda>head. strip_suffix head ''.'')
                   = Some (py_stem d)) (c # cs) of
             Some d \<Rightarrow> Some d | None \<Rightarrow> Some c))"

section \<open>The traceback\<close>

text \<open>\<open>Regex::replace_all\<close> with nothing.\<close>

function remove_matches :: "rx \<Rightarrow> string \<Rightarrow> string \<Rightarrow> string" where
  "remove_matches r pre rest =
     (case find_from r pre rest of
        None \<Rightarrow> rest
      | Some (pre', rest', caps) \<Rightarrow>
          take (length pre' - length (group_text caps 0) - length pre) rest
            @ (if length rest' < length rest then remove_matches r pre' rest' else rest'))"
  by pat_completeness auto
termination
  by (relation "measure (\<lambda>(r, pre, rest). length rest)") auto

declare remove_matches.simps [simp del]

definition colour_byte :: "string \<Rightarrow> bool" where
  "colour_byte c \<longleftrightarrow> digit_class c \<or> c = '';''"

definition ansi :: rx where
  "ansi = seqs [lit [CHR 0x1B, CHR ''[''], Star (Cls colour_byte), lit ''m'']"

definition frame_line :: rx where
  "frame_line = seqs [lit (''File '' @ [quote_char]), opt (Seq (Star (Cls any_char)) slash), alts [lit ''generated'', lit ''src''],
     slash, Cap 1 (Seq (plus (Cls path_char)) (lit ''.py'')), lit (quote_char # '', line ''), Cap 2 digits]"

definition last_py_location :: "string \<Rightarrow> (string \<times> nat) option" where
  "last_py_location stderr =
     (case captures_iter frame_line (remove_matches ansi [] stderr) of
        [] \<Rightarrow> None
      | cs \<Rightarrow>
          Option.bind (group (last cs) 1) (\<lambda>p.
            map_option (\<lambda>n. (p, n)) (Option.bind (group (last cs) 2) (parse_unsigned 32))))"

definition py_located :: "string \<Rightarrow> app_diagnostic" where
  "py_located stderr =
     (let location = last_py_location stderr in
      runtime_diagnostic ''Program raised or exited abnormally'' (map_option fst location)
        (case location of Some (_, line) \<Rightarrow> line | None \<Rightarrow> 1) 1)"

section \<open>Commands\<close>

definition python_command :: "bool \<Rightarrow> path \<Rightarrow> string" where
  "python_command venv root = (if venv then show_path (path_join root ''.venv/bin/python'') else ''python3'')"

definition py_env :: "path \<Rightarrow> bool \<Rightarrow> (string \<times> string) list" where
  "py_env root with_runtime =
     [(''PYTHONPYCACHEPREFIX'', show_path (path_join root ''.pycache'')), (''PYTHON_COLORS'', ''0'')]
     @ (if with_runtime then [(''PYTHONPATH'', show_path (path_join root ''generated''))] else [])"

record py_world = run_input +
  yw_venv :: bool
  yw_tests :: test_run

definition py_config :: "path \<Rightarrow> instrument_config" where
  "py_config project_root = \<lparr>ic_source_name = ''pylive-instrument'',
     ic_instruments = (\<lambda>p. ends_with p ''.py'' \<and> \<not> is_py_test_file p),
     ic_command_prefix_args = [show_path (instrumenter_path project_root Py)], ic_extra_args = (\<lambda>_. []), ic_timeout_ms = 10000\<rparr>"

definition interpreter :: "py_world \<Rightarrow> string" where
  "interpreter w = python_command (yw_venv w) (ss_root (ri_session w))"

definition py_program :: "py_world \<Rightarrow> spawn" where
  "py_program w =
     (let v = run_input.truncate w in
      program_spawn v (interpreter w) [''-u'', at v ''generated/main.py'']
        (py_env (ss_root (ri_session w)) True @ program_env (ri_session w) (ri_settings w)))"

section \<open>Tests\<close>

fun py_status :: "raw_test_status \<Rightarrow> test_status" where
  "py_status RawPassed = Passed"
| "py_status RawSkipped = Skipped"
| "py_status _ = Failed"

definition py_rules :: "test_case list \<Rightarrow> channel_rules" where
  "py_rules catalog = \<lparr>cr_match = match_py_test_name catalog, cr_status = py_status, cr_messages = True, cr_leaks = False\<rparr>"

definition py_test_spawn :: "py_world \<Rightarrow> test_case list \<Rightarrow> spawn" where
  "py_test_spawn w catalog =
     (let v = run_input.truncate w in
      test_spawn v (interpreter w)
        ([''-u'', show_path (path_join (ri_project_root w) ''python/test-runner/atomis_test_runner.py'')] @ test_paths v catalog)
        (py_env (ss_root (ri_session w)) False))"

definition py_run_tests :: "py_world \<Rightarrow> test_case list \<Rightarrow> unit phase" where
  "py_run_tests w catalog =
     (if catalog = [] \<or> ri_tests_cancelled w then gives ()
      else first (emits [StateEvent Testing])
        (channel_tests (run_input.truncate w) (py_rules catalog) True ended_error catalog (py_test_spawn w catalog) (yw_tests w)))"

section \<open>The run\<close>

definition py_catalog :: "py_world \<Rightarrow> test_case list" where
  "py_catalog w = (if se_serve (ri_settings w) then [] else discover_py_tests (files_of (run_input.truncate w)))"

definition py_run :: "py_world \<Rightarrow> unit phase" where
  "py_run w =
     (let v = run_input.truncate w; catalog = py_catalog w in
      andthen (opens v [] catalog (py_config (ri_project_root w)) (interpreter w))
        (\<lambda>(outcome, metrics).
      first (emits [StateEvent Running])
        (run_program v metrics outcome (py_program w) True py_located (py_run_tests w catalog))))"

section \<open>What the parsers give\<close>

lemma py_located_wf: "wf_diagnostic (py_located stderr)"
proof -
  have "(case last_py_location stderr of Some (_, line) \<Rightarrow> line | None \<Rightarrow> 1) < 2 ^ 32"
    by (auto simp: last_py_location_def bind_eq_Some_conv split: option.split list.splits dest!: parse_unsigned_32)
  then show ?thesis unfolding py_located_def Let_def by (intro wf_runtime) simp_all
qed

lemma match_py_in: "match_py_test_name catalog name = Some t \<Longrightarrow> t \<in> set catalog"
proof -
  assume m: "match_py_test_name catalog name = Some t"
  have "t \<in> set (filter (suffix_matches name) catalog)"
  proof (cases "filter (suffix_matches name) catalog")
    case (Cons c cs)
    with m show ?thesis
      by (cases cs) (auto simp del: find.simps simp: match_py_test_name_def split: option.splits dest!: find_in)
  qed (use m in \<open>simp add: match_py_test_name_def\<close>)
  then show ?thesis by simp
qed

lemma py_tests_ids:
  "distinct (map tc_test_id (py_tests fl cls i ls)) \<and>
   (\<forall>t \<in> set (py_tests fl cls i ls). \<exists>k \<ge> i. tc_test_id t = id_of_line (pf_path fl) k)"
proof (induction ls arbitrary: cls i)
  case (Cons line ls)
  have later: "distinct (map tc_test_id (py_tests fl cl (i + 1) ls))"
    "\<forall>t \<in> set (py_tests fl cl (i + 1) ls). \<exists>k \<ge> i. tc_test_id t = id_of_line (pf_path fl) k"
    "id_of_line (pf_path fl) i \<notin> tc_test_id ` set (py_tests fl cl (i + 1) ls)" for cl
    using Cons.IH [of cl "i + 1"] by (fastforce dest: Suc_leD)+
  have own: "tc_test_id (py_case fl i name) = id_of_line (pf_path fl) i" for name
    by (simp add: py_case_def id_of_line_def)
  show ?case
    using later by (auto simp: Let_def own split: option.split)
qed simp

lemma py_catalog_ids: "distinct (map pf_path files) \<Longrightarrow> distinct (map tc_test_id (discover_py_tests files))"
  unfolding discover_py_tests_def
proof (rule catalog_ids_by_file)
  fix fl t assume "t \<in> set (py_tests fl None 0 (split_lines (pf_source fl)))"
  with py_tests_ids [of fl None 0] show "\<exists>k. tc_test_id t = id_of_line (pf_path fl) k" by blast
qed (use py_tests_ids in \<open>auto simp: distinct_map_filter\<close>)

lemma py_rules_ok: "rules_ok catalog (py_rules catalog)"
proof -
  have "py_status s \<in> {Passed, Failed, Skipped, Leaked}" for s by (cases s) simp_all
  then show ?thesis by (simp add: rules_ok_def py_rules_def from_catalog_def match_py_in)
qed

lemma judged_py_tests: "judged (run_input.truncate w) (map tc_test_id catalog) 3 (py_run_tests w catalog) 4"
  unfolding py_run_tests_def
  by (auto simp: py_test_spawn_def Let_def intro!: judged_gives judged_andthen [where mid = 4] judged_state
      judged_channel_tests py_rules_ok)

lemma py_run_judged:
  assumes "fair (run_input.truncate w)"
  shows "judged (run_input.truncate w) (map tc_test_id (py_catalog w)) 0 (py_run w) 4"
proof -
  have opens: "distinct (map tc_test_id (py_catalog w))" "reads_u32 (ri_from_str (run_input.truncate w))"
    using assms by (simp_all add: fair_def py_catalog_def py_catalog_ids)
  show ?thesis
    unfolding py_run_def Let_def
    by (rule judged_andthen [OF judged_opens [OF opens(2,1)]], simp, clarify,
        rule judged_running [OF py_located_wf judged_py_tests]) (simp_all add: py_program_def Let_def)
qed

interpretation py: language_run py_run run_input.truncate py_catalog
proof
  show "fair (run_input.truncate w) \<Longrightarrow> judged (run_input.truncate w) (map tc_test_id (py_catalog w)) 0 (py_run w) 4"
    for w :: py_world by (rule py_run_judged)
  show "outcome_of (py_run w) \<noteq> None" for w :: py_world
    unfolding py_run_def Let_def by (auto intro!: outcome_andthen outcome_run_program simp del: not_None_eq)
  show "\<exists>rest. lg_events (fst (py_run w)) = StateEvent Instrumenting # TestCatalogEvent (py_catalog w) # rest" for w :: py_world
    unfolding py_run_def Let_def by (simp add: opens_events)
qed

end
