(* ===== verification/CFamilyRunner.thy ===== *)
theory CFamilyRunner
  imports LanguageRun
begin

text \<open>
  src/apps/server-rs/src/languages/cfamily/run.rs, for C and for C++: the runtime header is precompiled
  once, the program compiled with it and run, and the tests compiled with a generated main that calls
  each of them and reports on the test channel.
\<close>

section \<open>The two languages\<close>

record cfamily_config =
  cf_language :: language
  cf_compiler :: string
  cf_std :: string
  cf_runtime_header :: string
  cf_header_language :: string
  cf_test_main_name :: string

definition C_CONFIG :: cfamily_config where
  "C_CONFIG = \<lparr>cf_language = C, cf_compiler = ''clang'', cf_std = ''c17'', cf_runtime_header = ''atomis_runtime.h'',
     cf_header_language = ''c-header'', cf_test_main_name = ''__atomis_test_main.c''\<rparr>"

definition CPP_CONFIG :: cfamily_config where
  "CPP_CONFIG = \<lparr>cf_language = Cpp, cf_compiler = ''clang++'', cf_std = ''c++20'', cf_runtime_header = ''atomis_runtime.hpp'',
     cf_header_language = ''c++-header'', cf_test_main_name = ''__atomis_test_main.cpp''\<rparr>"

definition cf_is_code :: "cfamily_config \<Rightarrow> string \<Rightarrow> bool" where
  "cf_is_code config p \<longleftrightarrow>
     (if cf_language config = C then ends_with p ''.c'' else ends_with p ''.cpp'' \<or> ends_with p ''.cc'')"

definition cf_is_test :: "cfamily_config \<Rightarrow> string \<Rightarrow> bool" where
  "cf_is_test config p \<longleftrightarrow>
     (if cf_language config = C then ends_with p ''_test.c'' else ends_with p ''_test.cpp'' \<or> ends_with p ''_test.cc'')"

definition lang_flag :: "cfamily_config \<Rightarrow> string" where
  "lang_flag config = (if cf_language config = C then ''c'' else ''cpp'')"

definition cf_test_line :: rx where
  "cf_test_line = seqs [AtStart, spaces, lit ''void'', plus (Cls is_ws), Cap 1 (Seq (lit ''test_'') (plus (Cls word_class))), spaces,
     lit ''('', spaces, opt (lit ''void''), spaces, lit '')'']"

definition cf_test :: "project_file \<Rightarrow> nat \<Rightarrow> string \<Rightarrow> test_case option" where
  "cf_test file index line =
     map_option (\<lambda>c.
       \<lparr>tc_test_id = pf_path file @ '':'' @ show_nat (index + 1), tc_path = ''src/'' @ pf_path file,
        tc_name = group_text c 1, tc_line = index + 1, tc_column = 1\<rparr>) (captures cf_test_line line)"

definition discover_cfamily_tests :: "project_file list \<Rightarrow> cfamily_config \<Rightarrow> test_case list" where
  "discover_cfamily_tests files config =
     concat (map (\<lambda>file. tests_from (cf_test file) 0 (split_lines (pf_source file)))
       (filter (\<lambda>file. cf_is_test config (pf_path file)) files))"

section \<open>The compiler's messages\<close>

definition clang_project_path :: "string \<Rightarrow> string option" where
  "clang_project_path = mirror_path"

definition clang_location :: rx where
  "clang_location = seqs [AtStart, Cap 1 (seqs [lazy_plus (Cls any_char), lit ''.'', alts [lit ''c'', lit ''h'', lit ''cpp'', lit ''cc'', lit ''hpp'']]),
     lit '':'', Cap 2 digits, lit '':'', Cap 3 digits, lit '': '', Cap 4 (alts [lit ''error'', lit ''warning'', lit ''fatal error'']),
     lit '': '', Cap 5 (plus (Cls any_char)), AtEnd]"

definition clang_diagnostic :: "string \<Rightarrow> app_diagnostic option" where
  "clang_diagnostic line =
     map_option (\<lambda>c. basic_diagnostic (group_text c 5) (clang_project_path (group_text c 1))
         (if group c 4 = Some ''warning'' then SevWarning else SevError)
         (number_or_one (group c 2)) (number_or_one (group c 3)) ''clang'')
       (captures clang_location (trim line))"

definition parse_clang_diagnostics :: "string \<Rightarrow> app_diagnostic list" where
  "parse_clang_diagnostics stderr = dedupe_diagnostics (List.map_filter clang_diagnostic (split_lines stderr))"

section \<open>The precompiled header\<close>

text \<open>The binary's size and modification time in seconds, when PATH resolves it.\<close>

definition compiler_stamp :: "(nat \<times> nat option) option \<Rightarrow> string" where
  "compiler_stamp meta =
     (case meta of
        Some (len, modified) \<Rightarrow> show_nat len @ '':'' @ show_nat (case modified of Some t \<Rightarrow> t | None \<Rightarrow> 0)
      | None \<Rightarrow> ''unknown'')"

definition runtime_pch_stamp :: "(nat \<times> nat option) option \<Rightarrow> path \<Rightarrow> string" where
  "runtime_pch_stamp meta header = compiler_stamp meta @ [lf] @ show_path header"

text \<open>What target/ holds of it: the header, with the stamp it was completely built for (none for one
  left in part) and its time, and the stamp file.\<close>

record pch_files =
  pc_pch :: "(string option \<times> nat) option"
  pc_stamp :: "string option"

record pch_world =
  pw_target_made :: bool
  pw_header :: path
  pw_header_time :: "nat option"
  pw_compiler :: "(nat \<times> nat option) option"
  pw_stamp_removed :: bool
  pw_build :: finished
  pw_left :: "(string option \<times> nat) option"
  pw_stamp_written :: bool

definition pch_stamp :: "pch_world \<Rightarrow> string" where
  "pch_stamp p = runtime_pch_stamp (pw_compiler p) (pw_header p)"

definition runtime_pch_is_fresh :: "pch_world \<Rightarrow> pch_files \<Rightarrow> bool" where
  "runtime_pch_is_fresh p s \<longleftrightarrow>
     (case (pc_pch s, pw_header_time p) of (Some (_, built), Some source) \<Rightarrow> source \<le> built | _ \<Rightarrow> False)
     \<and> pc_stamp s = Some (pch_stamp p)"

definition pch_file :: "cfamily_config \<Rightarrow> string" where
  "pch_file config = ''target/'' @ cf_runtime_header config @ ''-runtime.pch''"

definition pch_spawn :: "run_input \<Rightarrow> cfamily_config \<Rightarrow> pch_world \<Rightarrow> spawn" where
  "pch_spawn w config p =
     tool w (cf_compiler config) [''-std='' @ cf_std config, ''-g'', ''-O0'', ''-x'', cf_header_language config,
       show_path (pw_header p), ''-o'', at w (pch_file config)] (process_limits_new 60000 (256 * 1024) (1024 * 1024)) []"

text \<open>The processes, the files afterwards, whether there is a header to use, and the time it took.\<close>

definition runtime_pch :: "run_input \<Rightarrow> cfamily_config \<Rightarrow> pch_world \<Rightarrow> pch_files \<Rightarrow> spawn list \<times> pch_files \<times> bool \<times> millis" where
  "runtime_pch w config p s =
     (if \<not> pw_target_made p then ([], s, False, 0)
      else if runtime_pch_is_fresh p s then ([], s, True, 0)
      else if \<not> pw_stamp_removed p then ([], s, False, 0)
      else
        let built = s\<lparr>pc_stamp := None, pc_pch := pw_left p\<rparr>; ms = fn_ms (pw_build p) in
        if pr_exit_code (fn_result (pw_build p)) = Some 0
        then ([pch_spawn w config p],
              built\<lparr>pc_stamp := if pw_stamp_written p then Some (pch_stamp p) else None\<rparr>, True, ms)
        else ([pch_spawn w config p], built, False, ms))"

section \<open>The generated test main\<close>

text \<open>A template's tilde is a double quote, its caret a tab, its at sign a backslash.\<close>

definition template_char :: "char \<Rightarrow> char" where
  "template_char c = (if c = CHR ''~'' then CHR 0x22 else if c = CHR ''^'' then CHR 0x09 else if c = CHR ''@'' then CHR 0x5C else c)"

definition template :: "string list \<Rightarrow> string" where
  "template lines = map template_char (join_with [lf] lines)"

definition main_head :: string where
  "main_head = template
     [''#define _POSIX_C_SOURCE 199309L'',
      ''#include <stdio.h>'',
      ''#include <string.h>'',
      ''#include <time.h>'',
      ''#include <unistd.h>'',
      '''',
      '''']"

definition main_table :: string where
  "main_table = template
     ['''',
      '''',
      ''struct __atomis_test {'',
      ''^const char *name;'',
      ''^void (*fn)(void);'',
      ''};'',
      '''',
      ''static struct __atomis_test __atomis_tests[] = {'',
      '''']"

definition main_body :: string where
  "main_body = template
     ['''',
      ''};'',
      '''',
      ''static void __atomis_write(const char *record) {'',
      ''^ssize_t written = write(3, record, strlen(record));'',
      ''^(void)written;'',
      ''}'',
      '''',
      ''static long long __atomis_now(void) {'',
      ''^struct timespec ts;'',
      ''^clock_gettime(CLOCK_MONOTONIC, &ts);'',
      ''^return (long long)ts.tv_sec * 1000000000LL + ts.tv_nsec;'',
      ''}'',
      '''',
      ''int main(void) {'',
      ''^char record[512];'',
      ''^int total = (int)(sizeof __atomis_tests / sizeof __atomis_tests[0]);'',
      ''^int passed = 0;'',
      ''^for (int index = 0; index < total; index++) {'',
      ''^^snprintf(record, sizeof record,'',
      ''^^^~{@~protocolVersion@~:1,@~kind@~:@~test_start@~,@~index@~:%d,@~name@~:@~%.300s@~}@n~,'',
      ''^^^index, __atomis_tests[index].name);'',
      ''^^__atomis_write(record);'',
      ''^^long long started = __atomis_now();'',
      ''^^__atomis_tests[index].fn();'',
      ''^^long long elapsed = __atomis_now() - started;'',
      ''^^snprintf(record, sizeof record,'',
      ''^^^~{@~protocolVersion@~:1,@~kind@~:@~test_result@~,@~index@~:%d,@~status@~:@~passed@~,@~durationNs@~:%lld,@~name@~:@~%.300s@~}@n~,'',
      ''^^^index, elapsed, __atomis_tests[index].name);'',
      ''^^__atomis_write(record);'',
      ''^^passed++;'',
      ''^}'',
      ''^snprintf(record, sizeof record,'',
      ''^^~{@~protocolVersion@~:1,@~kind@~:@~test_summary@~,@~passed@~:%d,@~failed@~:0,@~skipped@~:0,@~leaked@~:0}@n~,'',
      ''^^passed);'',
      ''^__atomis_write(record);'',
      ''^return 0;'',
      ''}'',
      '''']"

definition test_declaration :: "cfamily_config \<Rightarrow> test_case \<Rightarrow> string" where
  "test_declaration config t = ''void '' @ tc_name t @ (if cf_language config = C then ''(void);'' else ''();'')"

definition test_entry :: "test_case \<Rightarrow> string" where
  "test_entry t = [CHR 0x09, CHR ''{'', quote_char] @ tc_name t @ [quote_char] @ '', '' @ tc_name t @ ''},''"

definition build_test_main :: "test_case list \<Rightarrow> cfamily_config \<Rightarrow> string" where
  "build_test_main tests config =
     main_head @ join_with [lf] (map (test_declaration config) tests) @ main_table
       @ join_with [lf] (map test_entry tests) @ main_body"


section \<open>The program\<close>

record cf_world = run_input +
  cw_config :: cfamily_config
  cw_pch :: pch_world
  cw_pch_files :: pch_files
  cw_lld :: bool
  cw_compile :: finished
  cw_objects :: "nat \<Rightarrow> finished"
  cw_link :: finished
  cw_tests :: test_run

definition linker_args :: "bool \<Rightarrow> string list" where
  "linker_args lld = (if lld then [''-fuse-ld=lld''] else [])"

definition user_sources :: "cf_world \<Rightarrow> project_file list" where
  "user_sources w = filter (\<lambda>f. cf_is_code (cw_config w) (pf_path f) \<and> \<not> cf_is_test (cw_config w) (pf_path f))
     (files_of (run_input.truncate w))"

definition test_sources :: "cf_world \<Rightarrow> project_file list" where
  "test_sources w = filter (\<lambda>f. cf_is_test (cw_config w) (pf_path f)) (files_of (run_input.truncate w))"

definition cf_tool :: "cf_world \<Rightarrow> string list \<Rightarrow> nat \<Rightarrow> spawn" where
  "cf_tool w args stdout_bytes =
     tool (run_input.truncate w) (cf_compiler (cw_config w)) ([''-std='' @ cf_std (cw_config w), ''-g'', ''-O0''] @ args)
       (process_limits_new 60000 stdout_bytes (1024 * 1024)) []"

definition cf_executable :: "cf_world \<Rightarrow> string" where
  "cf_executable w = at (run_input.truncate w) (''target/'' @ lang_flag (cw_config w) @ ''-bin'')"

definition cf_compile_args :: "cf_world \<Rightarrow> bool \<Rightarrow> string list" where
  "cf_compile_args w pch =
     (let v = run_input.truncate w; config = cw_config w in
      (if pch then [''-include-pch'', at v (pch_file config)] else [''-include'', at v (''generated/'' @ cf_runtime_header config)])
      @ map (\<lambda>f. at v (''generated/'' @ pf_path f)) (user_sources w) @ linker_args (cw_lld w)
      @ [''-o'', cf_executable w, ''-lm''])"

text \<open>Building the header counts as compiling.\<close>

definition cf_compile :: "cf_world \<Rightarrow> finished phase" where
  "cf_compile w =
     (case runtime_pch (run_input.truncate w) (cw_config w) (cw_pch w) (cw_pch_files w) of
        (qs, _, pch, ms) \<Rightarrow>
          first (starts (qs @ [cf_tool w (cf_compile_args w pch) (512 * 1024)]))
            (gives ((cw_compile w)\<lparr>fn_ms := fn_ms (cw_compile w) + ms\<rparr>)))"

section \<open>Tests\<close>

definition cf_match :: "test_case list \<Rightarrow> string \<Rightarrow> test_case option" where
  "cf_match catalog name = find (\<lambda>c. tc_name c = name) catalog"

fun cf_status :: "raw_test_status \<Rightarrow> test_status" where
  "cf_status RawPassed = Passed"
| "cf_status RawSkipped = Skipped"
| "cf_status _ = Failed"

definition cf_rules :: "test_case list \<Rightarrow> channel_rules" where
  "cf_rules catalog = \<lparr>cr_match = cf_match catalog, cr_status = cf_status, cr_messages = False, cr_leaks = False\<rparr>"

text \<open>A part of the tests that did not build.\<close>

definition failed_build :: "finished \<Rightarrow> runner_event list" where
  "failed_build f =
     (let r = fn_result f; diagnostics = parse_clang_diagnostics (pr_stderr r) in
      [if diagnostics = [] then OutputEvent Stderr (pr_stderr r) ErrorOutput None else DiagnosticEvent ''compiler'' diagnostics,
       TestSummaryEvent 0 0 0 0 (fn_ms f)])"

definition object_file :: "cf_world \<Rightarrow> nat \<Rightarrow> string" where
  "object_file w i = at (run_input.truncate w) (''target/'' @ lang_flag (cw_config w) @ ''-obj/'' @ show_nat i @ ''.o'')"

text \<open>The sources one by one, the user's main renamed: the object files, or what is told of the
  one that stopped the tests (nothing, when cancelled).\<close>

fun cf_objects :: "cf_world \<Rightarrow> nat \<Rightarrow> project_file list \<Rightarrow> spawn list \<times> (runner_event list + string list)" where
  "cf_objects w i [] = ([], Inr [])"
| "cf_objects w i (file # files) =
     (let q = cf_tool w [''-Dmain=__atomis_user_main'', ''-c'', at (run_input.truncate w) (''src/'' @ pf_path file),
                         ''-o'', object_file w i] (256 * 1024);
          f = cw_objects w i; r = fn_result f
      in if pr_cancelled r \<or> fn_cancelled f then ([q], Inl [])
         else if pr_exit_code r \<noteq> Some 0 then ([q], Inl (failed_build f))
         else (case cf_objects w (i + 1) files of
                 (qs, Inl es) \<Rightarrow> (q # qs, Inl es)
               | (qs, Inr objects) \<Rightarrow> (q # qs, Inr (object_file w i # objects))))"

definition test_main_path :: "cf_world \<Rightarrow> string" where
  "test_main_path w = at (run_input.truncate w) (''generated/'' @ cf_test_main_name (cw_config w))"

definition cf_test_executable :: "cf_world \<Rightarrow> string" where
  "cf_test_executable w = at (run_input.truncate w) (''target/'' @ lang_flag (cw_config w) @ ''-test-bin'')"

definition cf_link_args :: "cf_world \<Rightarrow> string list \<Rightarrow> string list" where
  "cf_link_args w objects =
     objects @ map (\<lambda>f. at (run_input.truncate w) (''src/'' @ pf_path f)) (test_sources w)
       @ [test_main_path w] @ linker_args (cw_lld w) @ [''-o'', cf_test_executable w, ''-lm'']"

definition cf_link_and_run :: "cf_world \<Rightarrow> test_case list \<Rightarrow> string list \<Rightarrow> unit phase" where
  "cf_link_and_run w catalog objects =
     (let v = run_input.truncate w; link = cw_link w; r = fn_result link in
      first (starts [cf_tool w (cf_link_args w objects) (256 * 1024)])
        (if pr_cancelled r \<or> fn_cancelled link then gives ()
         else if pr_exit_code r \<noteq> Some 0 then emits (failed_build link)
         else channel_tests v (cf_rules catalog) False ended_error catalog
                (test_spawn v (cf_test_executable w) [] []) (cw_tests w)))"

definition cf_run_tests :: "cf_world \<Rightarrow> test_case list \<Rightarrow> unit phase" where
  "cf_run_tests w catalog =
     (if catalog = [] \<or> ri_tests_cancelled w then gives ()
      else first (emits [StateEvent Testing])
        (case cf_objects w 0 (user_sources w) of
           (qs, Inl es) \<Rightarrow> first (starts qs) (emits es)
         | (qs, Inr objects) \<Rightarrow> first (starts qs) (cf_link_and_run w catalog objects)))"

section \<open>The run\<close>

definition cf_instrument :: "path \<Rightarrow> cfamily_config \<Rightarrow> instrument_config" where
  "cf_instrument project_root config = \<lparr>ic_source_name = ''clive-instrument'',
     ic_instruments = (\<lambda>p. cf_is_code config p \<and> \<not> cf_is_test config p),
     ic_command_prefix_args = [show_path (instrumenter_path project_root (cf_language config)), ''--lang'', lang_flag config],
     ic_extra_args = (\<lambda>_. []), ic_timeout_ms = 15000\<rparr>"

definition crash :: rx where
  "crash = seqs [alts [lit ''generated'', lit ''src''], slash,
     Cap 1 (seqs [plus (Cls path_char), lit ''.'', alts [lit ''c'', lit ''cpp'', lit ''cc'', lit ''h'', lit ''hpp'']]),
     lit '':'', Cap 2 digits]"

definition cf_located :: "string \<Rightarrow> app_diagnostic" where
  "cf_located stderr =
     (let location = captures crash stderr in
      runtime_diagnostic ''Program crashed or exited abnormally'' (Option.bind location (\<lambda>c. group c 1))
        (number_or_one (Option.bind location (\<lambda>c. group c 2))) 1)"

definition cf_catalog :: "cf_world \<Rightarrow> test_case list" where
  "cf_catalog w = discover_cfamily_tests (files_of (run_input.truncate w)) (cw_config w)"

definition cf_run :: "cf_world \<Rightarrow> unit phase" where
  "cf_run w =
     (let v = run_input.truncate w; catalog = cf_catalog w in
      andthen (opens v [] catalog (cf_instrument (ri_project_root w) (cw_config w)) ''node'')
        (\<lambda>(outcome, metrics).
      first (emits [StateEvent Compiling])
      (andthen (cf_compile w) (\<lambda>compile.
      andthen (compiled metrics compile (parse_clang_diagnostics (pr_stderr (fn_result compile)))) (\<lambda>metrics.
      first (emits [StateEvent Running])
        (run_program v metrics outcome (program_spawn v (cf_executable w) [] (program_env (ri_session w) (ri_settings w)))
           True cf_located (cf_run_tests w catalog)))))))"

section \<open>What the parsers give\<close>

lemma clang_diagnostics_wf: "list_all wf_diagnostic (parse_clang_diagnostics stderr)"
  unfolding parse_clang_diagnostics_def
  by (intro dedupe_diagnostics_wf wf_filtered)
    (auto simp: clang_diagnostic_def clang_project_path_def intro!: wf_basic mirror_path_src split: option.split)

lemma cf_located_wf: "wf_diagnostic (cf_located stderr)"
  unfolding cf_located_def Let_def by (rule wf_runtime) simp_all

lemma cf_catalog_ids: "distinct (map pf_path files) \<Longrightarrow> distinct (map tc_test_id (discover_cfamily_tests files config))"
  unfolding discover_cfamily_tests_def
  by (rule catalog_ids [where f = cf_test]) (auto simp: distinct_map_filter cf_test_def id_of_line_def)

lemma cf_rules_ok: "rules_ok catalog (cf_rules catalog)"
proof -
  have "cf_status s \<in> {Passed, Failed, Skipped, Leaked}" for s by (cases s) simp_all
  then show ?thesis by (auto simp: rules_ok_def cf_rules_def from_catalog_def cf_match_def dest: find_in)
qed

lemma cf_tool_confined [simp]: "sq_sandbox (cf_tool w args n) = policy_of (run_input.truncate w)"
  by (simp add: cf_tool_def)

lemma failed_build_ok: "list_all (event_ok ids) (failed_build f) \<and> states_of (failed_build f) = []"
  by (simp add: failed_build_def Let_def clang_diagnostics_wf)

lemma cf_objects_ok:
  "cf_objects w i fs = (qs, r) \<Longrightarrow> list_all (\<lambda>q. sq_sandbox q = policy_of (run_input.truncate w)) qs
    \<and> (\<forall>es. r = Inl es \<longrightarrow> list_all (event_ok ids) es \<and> states_of es = [])"
proof (induction fs arbitrary: i qs r)
  case (Cons fl fs)
  obtain qs' r' where o: "cf_objects w (i + 1) fs = (qs', r')" by force
  with Cons.IH [OF o] Cons.prems failed_build_ok show ?case
    by (auto simp: Let_def split: if_splits sum.splits)
qed simp

lemma judged_cf_tests: "judged (run_input.truncate w) (map tc_test_id catalog) 3 (cf_run_tests w catalog) 4"
proof -
  have run: "judged (run_input.truncate w) (map tc_test_id catalog) 4 (cf_link_and_run w catalog objects) 4" for objects
    using failed_build_ok [of "map tc_test_id catalog"] unfolding cf_link_and_run_def Let_def
    by (auto intro!: judged_andthen [where mid = 4] judged_starts judged_gives judged_emits judged_channel_tests cf_rules_ok)
  obtain qs r where o: "cf_objects w 0 (user_sources w) = (qs, r)" by force
  note ok = cf_objects_ok [OF o, of "map tc_test_id catalog"]
  have built: "judged (run_input.truncate w) (map tc_test_id catalog) 4
      (case r of Inl es \<Rightarrow> first (starts qs) (emits es) | Inr objects \<Rightarrow> first (starts qs) (cf_link_and_run w catalog objects)) 4"
    using ok run by (auto intro!: judged_andthen [where mid = 4] judged_starts judged_emits split: sum.split)
  have "judged (run_input.truncate w) (map tc_test_id catalog) 3 (emits [StateEvent Testing]) 4"
    by (rule judged_state) simp_all
  from judged_andthen [OF this built] show ?thesis
    unfolding cf_run_tests_def o by (simp add: judged_gives)
qed

lemma runtime_pch_confined:
  "runtime_pch w config p s = (qs, s', pch, ms) \<Longrightarrow> list_all (\<lambda>q. sq_sandbox q = policy_of w) qs"
  by (auto simp: runtime_pch_def pch_spawn_def Let_def split: if_splits)

lemma judged_cf_compile: "judged (run_input.truncate w) ids lo (cf_compile w) lo"
  unfolding cf_compile_def
  by (auto intro!: judged_andthen [where mid = lo] judged_starts judged_gives dest!: runtime_pch_confined split: prod.split)

lemma cf_run_judged:
  assumes "fair (run_input.truncate w)"
  shows "judged (run_input.truncate w) (map tc_test_id (cf_catalog w)) 0 (cf_run w) 4"
proof -
  have opens: "distinct (map tc_test_id (cf_catalog w))" "reads_u32 (ri_from_str (run_input.truncate w))"
    using assms by (simp_all add: fair_def cf_catalog_def cf_catalog_ids)
  show ?thesis
    unfolding cf_run_def Let_def
  proof (rule judged_andthen [OF judged_opens [OF opens(2,1)]], simp, clarify)
    fix outcome metrics
    show "judged (run_input.truncate w) (map tc_test_id (cf_catalog w)) 1
       (first (emits [StateEvent Compiling])
        (andthen (cf_compile w) (\<lambda>compile.
         andthen (compiled metrics compile (parse_clang_diagnostics (pr_stderr (fn_result compile)))) (\<lambda>metrics.
         first (emits [StateEvent Running])
          (run_program (run_input.truncate w) metrics outcome
            (program_spawn (run_input.truncate w) (cf_executable w) [] (program_env (ri_session w) (ri_settings w)))
            True cf_located (cf_run_tests w (cf_catalog w))))))) 4"
      by (intro judged_building judged_cf_compile clang_diagnostics_wf cf_located_wf judged_cf_tests) simp
  qed
qed

interpretation cfamily: language_run cf_run run_input.truncate cf_catalog
proof
  show "fair (run_input.truncate w) \<Longrightarrow> judged (run_input.truncate w) (map tc_test_id (cf_catalog w)) 0 (cf_run w) 4"
    for w :: cf_world by (rule cf_run_judged)
  show "outcome_of (cf_run w) \<noteq> None" for w :: cf_world
    unfolding cf_run_def Let_def by (auto intro!: outcome_andthen outcome_run_program simp del: not_None_eq)
  show "\<exists>rest. lg_events (fst (cf_run w)) = StateEvent Instrumenting # TestCatalogEvent (cf_catalog w) # rest" for w :: cf_world
    unfolding cf_run_def Let_def by (simp add: opens_events)
qed

section \<open>The precompiled header is never stale\<close>

text \<open>A stamp file stands only beside a header completely built for it.\<close>

definition pch_ok :: "pch_files \<Rightarrow> bool" where
  "pch_ok s \<longleftrightarrow> (\<forall>stamp. pc_stamp s = Some stamp \<longrightarrow> (\<exists>t. pc_pch s = Some (Some stamp, t)))"

text \<open>clang that exits with 0 has written the header it was asked for.\<close>

definition clang_builds :: "pch_world \<Rightarrow> bool" where
  "clang_builds p \<longleftrightarrow> (pr_exit_code (fn_result (pw_build p)) = Some 0 \<longrightarrow> (\<exists>t. pw_left p = Some (Some (pch_stamp p), t)))"

lemma runtime_pch_ok:
  assumes "pch_ok s" "clang_builds p" "runtime_pch w config p s = (qs, s', pch, ms)"
  shows "pch_ok s' \<and> (pch \<longrightarrow> (\<exists>t. pc_pch s' = Some (Some (pch_stamp p), t)))"
  using assms unfolding runtime_pch_def Let_def
  by (auto simp: pch_ok_def clang_builds_def runtime_pch_is_fresh_def split: if_splits)

text \<open>Equal stamps are stamps of one compiler binary, as PATH resolves it, and one header.\<close>

lemma runtime_pch_stamp_inject:
  "runtime_pch_stamp meta header = runtime_pch_stamp meta' header' \<longleftrightarrow>
     compiler_stamp meta = compiler_stamp meta' \<and> show_path header = show_path header'"
proof -
  have free: "lf \<notin> set (compiler_stamp m)" for m
  proof -
    have "lf \<notin> set (show_nat n)" for n
      using show_nat_digits [of n] by (auto simp: list_all_iff lf_def ascii_digit_def byte_def)
    then show ?thesis by (auto simp: compiler_stamp_def lf_def split: option.split)
  qed
  have "x @ lf # y = x' @ lf # y' \<longleftrightarrow> x = x' \<and> y = y'" if "lf \<notin> set x" "lf \<notin> set x'" for x y x' y' :: string
  proof -
    have cut: "takeWhile (\<lambda>c. c \<noteq> lf) (z @ lf # t) = z" if "lf \<notin> set z" for z t
      using that by (induction z) auto
    have "x = x'" if "x @ lf # y = x' @ lf # y'"
      using cut [OF \<open>lf \<notin> set x\<close>, of y] cut [OF \<open>lf \<notin> set x'\<close>, of y'] that by simp
    then show ?thesis by auto
  qed
  then show ?thesis using free by (simp add: runtime_pch_stamp_def)
qed

text \<open>The runs of one session in one of the two languages: each has its own header and stamp file.\<close>

fun pch_runs :: "cfamily_config \<Rightarrow> (run_input \<times> pch_world) list \<Rightarrow> pch_files \<Rightarrow> pch_files" where
  "pch_runs config [] s = s"
| "pch_runs config ((w, p) # runs) s = pch_runs config runs (fst (snd (runtime_pch w config p s)))"

lemma pch_runs_ok: "pch_ok s \<Longrightarrow> \<forall>(w, p) \<in> set runs. clang_builds p \<Longrightarrow> pch_ok (pch_runs config runs s)"
proof (induction runs arbitrary: s)
  case (Cons run runs)
  obtain w p where run: "run = (w, p)" by (cases run)
  obtain qs s' pch ms where r: "runtime_pch w config p s = (qs, s', pch, ms)" by (metis prod_cases4)
  have "pch_ok s'" using runtime_pch_ok [OF Cons.prems(1) _ r] Cons.prems(2) run by simp
  with Cons.IH [of s'] Cons.prems(2) run r show ?case by simp
qed simp


definition demo_pch :: "int \<Rightarrow> pch_world" where
  "demo_pch code = \<lparr>pw_target_made = True, pw_header = [''h''], pw_header_time = Some 3, pw_compiler = Some (9, None),
     pw_stamp_removed = True,
     pw_build = \<lparr>fn_result = process_result_default\<lparr>pr_exit_code := Some code\<rparr>, fn_ms = 4, fn_cancelled = False\<rparr>,
     pw_left = (if code = 0 then Some (Some (runtime_pch_stamp (Some (9, None)) [''h'']), 5) else Some (None, 5)),
     pw_stamp_written = True\<rparr>"


end
