(* ===== verification/Bundle.thy ===== *)
theory Bundle
  imports Utf8 "HOL-Library.Word"
begin

text \<open>
  The binary side of src/apps/server-rs/src/languages/zig/compile_server.rs:
  little-endian words, the compiler's message framing and the rendering of its
  error bundles.  \<open>render\<close> is the code's recursion, bounded by its depth; the
  abstract view of a bundle is a list of \<open>report\<close> trees, and \<open>laid_out\<close> says
  which trees the words of a bundle hold, as the comment of
  \<open>render_error_bundle\<close> describes the layout.  Indices and line numbers are
  u32s and wrap, as the release build has them.
\<close>

section \<open>Little-endian words\<close>

fun le_value :: "string \<Rightarrow> nat" where
  "le_value [] = 0"
| "le_value (c # cs) = byte c + 256 * le_value cs"

definition from_le_bytes :: "string \<Rightarrow> 32 word" where
  "from_le_bytes bs = word_of_nat (le_value bs)"

definition to_le_bytes :: "32 word \<Rightarrow> string" where
  "to_le_bytes w = map (\<lambda>i. char_of (unat w div 256 ^ i mod 256)) [0..<4]"

lemma length_to_le_bytes [simp]: "length (to_le_bytes w) = 4"
  by (simp add: to_le_bytes_def)

lemma byte_char_of_mod [simp]: "byte (char_of n) = n mod 256"
  by (simp add: byte_def)

lemma le_value_digits: "le_value (map (\<lambda>i. char_of (n div 256 ^ i mod 256)) [0..<k]) = n mod 256 ^ k"
proof (induction k arbitrary: n)
  case (Suc k)
  have "le_value (map (\<lambda>i. char_of (n div 256 ^ i mod 256)) [0..<Suc k])
      = n mod 256 + 256 * le_value (map (\<lambda>i. char_of (n div 256 div 256 ^ i mod 256)) [0..<k])"
    by (simp add: upt_conv_Cons map_Suc_upt [symmetric] comp_def div_mult2_eq del: upt_Suc)
  also have "\<dots> = n mod 256 ^ Suc k"
    by (simp only: Suc.IH mod_mult2_eq power_Suc)
  finally show ?case .
qed simp

lemma le_value_to_le_bytes: "le_value (to_le_bytes w) = unat w"
proof -
  have "unat w < 256 ^ 4" using unsigned_less [of w, where 'a = nat] by simp
  then show ?thesis by (simp only: to_le_bytes_def le_value_digits mod_less)
qed

lemma from_to_le_bytes [simp]: "from_le_bytes (to_le_bytes w) = w"
  by (simp add: from_le_bytes_def le_value_to_le_bytes)

section \<open>Reading the compiler's messages\<close>

definition CLIENT_EXIT :: "32 word" where "CLIENT_EXIT = 0"
definition CLIENT_UPDATE :: "32 word" where "CLIENT_UPDATE = 1"
definition SERVER_ZIG_VERSION :: "32 word" where "SERVER_ZIG_VERSION = 0"
definition SERVER_ERROR_BUNDLE :: "32 word" where "SERVER_ERROR_BUNDLE = 1"
definition SERVER_EMIT_DIGEST :: "32 word" where "SERVER_EMIT_DIGEST = 2"

definition MAX_MESSAGE :: nat where "MAX_MESSAGE = 64 * 1024 * 1024"

text \<open>What the pipe has delivered so far, and whether it is closed.  A read of
  more than is there waits while the pipe is open.\<close>

datatype 'a polled = Ready "'a res" | Waiting

definition read_exact :: "nat \<Rightarrow> bool \<Rightarrow> string \<Rightarrow> (string \<times> string) polled" where
  "read_exact n eof bytes =
     (if n \<le> length bytes then Ready (Inr (take n bytes, drop n bytes))
      else if eof then Ready (Inl ''compiler stream: early eof'') else Waiting)"

definition header :: "32 word \<Rightarrow> string" where
  "header tag = to_le_bytes tag @ replicate 4 (CHR 0x00)"

definition read_message :: "bool \<Rightarrow> string \<Rightarrow> ((32 word \<times> string) \<times> string) polled" where
  "read_message eof bytes =
     (case read_exact 8 eof bytes of
        Waiting \<Rightarrow> Waiting
      | Ready (Inl e) \<Rightarrow> Ready (Inl e)
      | Ready (Inr (head, tail)) \<Rightarrow>
          let tag = from_le_bytes (take 4 head); len = unat (from_le_bytes (drop 4 head)) in
          if MAX_MESSAGE < len then Ready (Inl (''compiler message of '' @ show_nat len @ '' bytes''))
          else (case read_exact len eof tail of
                  Waiting \<Rightarrow> Waiting
                | Ready (Inl e) \<Rightarrow> Ready (Inl e)
                | Ready (Inr (body, rest)) \<Rightarrow> Ready (Inr ((tag, body), rest))))"

text \<open>The compiler's side of the framing.\<close>

definition frame :: "32 word \<Rightarrow> string \<Rightarrow> string" where
  "frame tag body = to_le_bytes tag @ to_le_bytes (word_of_nat (length body)) @ body"

lemma read_message_frame:
  assumes "length body \<le> MAX_MESSAGE"
  shows "read_message eof (frame tag body @ rest) = Ready (Inr ((tag, body), rest))"
proof -
  have "unat (word_of_nat (length body) :: 32 word) = length body"
    using assms by (simp add: MAX_MESSAGE_def unsigned_of_nat take_bit_nat_eq_self)
  then show ?thesis
    using assms by (simp add: read_message_def read_exact_def frame_def Let_def)
qed

lemma read_exact_Inr:
  "read_exact n eof bytes = Ready (Inr (x, rest)) \<longleftrightarrow> n \<le> length bytes \<and> x = take n bytes \<and> rest = drop n bytes"
  by (auto simp: read_exact_def)

lemma read_message_Inr:
  "read_message eof bytes = Ready (Inr (m, rest)) \<longleftrightarrow>
     (\<exists>head len. read_exact 8 True bytes = Ready (Inr (head, drop 8 bytes))
        \<and> len = unat (from_le_bytes (drop 4 head)) \<and> len \<le> MAX_MESSAGE
        \<and> read_exact len True (drop 8 bytes) = Ready (Inr (snd m, rest)) \<and> fst m = from_le_bytes (take 4 head))"
  unfolding read_message_def Let_def
  by (cases m; cases "8 \<le> length bytes")
    (auto simp add: read_exact_def not_less split: polled.split sum.split if_split_asm)

lemma read_message_shrinks:
  "read_message eof bytes = Ready (Inr (m, rest)) \<Longrightarrow> length rest < length bytes"
  unfolding read_message_Inr read_exact_Inr by auto

lemma read_message_later:
  assumes "read_message eof bytes = Ready (Inr (m, rest))"
  shows "read_message eof' (bytes @ later) = Ready (Inr (m, rest @ later))"
  using assms unfolding read_message_Inr read_exact_Inr by auto

section \<open>Error bundles\<close>

definition word_at :: "string \<Rightarrow> nat \<Rightarrow> 32 word option" where
  "word_at body at = (if at + 4 \<le> length body then Some (from_le_bytes (take 4 (drop at body))) else None)"

definition malformed :: string where
  "malformed = ''malformed error bundle''"

record error_bundle =
  bu_extra :: "32 word \<Rightarrow> 32 word res"
  bu_strings :: string

definition extra_word :: "string \<Rightarrow> nat \<Rightarrow> 32 word \<Rightarrow> 32 word res" where
  "extra_word body extra_len index =
     (case word_at body (8 + unat index * 4) of
        Some w \<Rightarrow> if unat index < extra_len then Inr w else Inl malformed
      | None \<Rightarrow> Inl malformed)"

definition bundle_text :: "error_bundle \<Rightarrow> 32 word \<Rightarrow> string" where
  "bundle_text b offset =
     from_utf8_lossy (takeWhile (\<lambda>c. c \<noteq> CHR 0x00) (drop (unat offset) (bu_strings b)))"

definition show_location :: "string \<Rightarrow> 32 word \<Rightarrow> 32 word \<Rightarrow> string" where
  "show_location p line column =
     p @ '':'' @ show_nat (unat (line + 1)) @ '':'' @ show_nat (unat (column + 1))"

definition bundle_location :: "error_bundle \<Rightarrow> 32 word \<Rightarrow> string res" where
  "bundle_location b loc =
     and_then (bu_extra b loc) (\<lambda>p.
     and_then (bu_extra b (loc + 1)) (\<lambda>line.
     and_then (bu_extra b (loc + 2)) (\<lambda>column.
     Inr (show_location (bundle_text b p) line column))))"

text \<open>A \<open>for\<close> loop whose body may return an error.\<close>

fun for_each :: "('x \<Rightarrow> 'a \<Rightarrow> 'a res) \<Rightarrow> 'x list \<Rightarrow> 'a \<Rightarrow> 'a res" where
  "for_each f [] a = Inr a"
| "for_each f (x # xs) a = and_then (f x a) (for_each f xs)"

lemma for_each_cong [fundef_cong]:
  assumes "xs = ys" "a = b" "\<And>x c. x \<in> set ys \<Longrightarrow> f x c = g x c"
  shows "for_each f xs a = for_each g ys b"
proof -
  have "for_each f ys b = for_each g ys b"
    using assms(3)
  proof (induction ys arbitrary: b)
    case (Cons y ys)
    have "for_each f ys = for_each g ys" using Cons by (intro ext) simp
    with Cons.prems show ?case by simp
  qed simp
  with assms(1,2) show ?thesis by simp
qed

definition newline_char :: char where
  "newline_char = CHR 0x0A"

definition render_reference :: "error_bundle \<Rightarrow> 32 word \<Rightarrow> nat \<Rightarrow> string \<Rightarrow> string res" where
  "render_reference b loc r out =
     (let entry = loc + 8 + word_of_nat r * 2 in
      and_then (bu_extra b entry) (\<lambda>name.
      and_then (bu_extra b (entry + 1)) (\<lambda>src.
      if src = 0 then Inr out
      else and_then (bundle_location b src) (\<lambda>place.
        Inr (out @ ''    '' @ bundle_text b name @ '': '' @ place @ [newline_char])))))"

definition render_trace :: "error_bundle \<Rightarrow> 32 word \<Rightarrow> string \<Rightarrow> string res" where
  "render_trace b loc out =
     (if loc = 0 then Inr out
      else and_then (bu_extra b (loc + 7)) (\<lambda>references.
        if references = 0 then Inr out
        else for_each (render_reference b loc) [0..<unat references]
               (out @ ''referenced by:'' @ [newline_char])))"

definition render_headline :: "error_bundle \<Rightarrow> string \<Rightarrow> string \<Rightarrow> 32 word \<Rightarrow> string res" where
  "render_headline b kind message loc =
     (if loc = 0 then Inr (kind @ '': '' @ message @ [newline_char])
      else and_then (bundle_location b loc) (\<lambda>place.
        Inr (place @ '': '' @ kind @ '': '' @ message @ [newline_char])))"

function render :: "error_bundle \<Rightarrow> 32 word \<Rightarrow> string \<Rightarrow> nat \<Rightarrow> string \<Rightarrow> string res" where
  "render b index kind depth out =
     (if 8 < depth then Inl ''error bundle nests too deep''
      else
        and_then (bu_extra b index) (\<lambda>message.
        and_then (bu_extra b (index + 2)) (\<lambda>loc.
        and_then (bu_extra b (index + 3)) (\<lambda>notes.
        and_then (render_headline b kind (bundle_text b message) loc) (\<lambda>line.
        and_then (for_each (\<lambda>n out.
                    and_then (bu_extra b (index + 4 + word_of_nat n)) (\<lambda>note.
                      render b note ''note'' (depth + 1) out)) [0..<unat notes] (out @ line)) (\<lambda>out.
        render_trace b loc out))))))"
  by pat_completeness auto
termination
  by (relation "measure (\<lambda>(b, index, kind, depth, out). 9 - depth)") auto

declare render.simps [simp del]

definition render_roots :: "error_bundle \<Rightarrow> string res" where
  "render_roots b =
     and_then (bu_extra b 0) (\<lambda>count.
     and_then (bu_extra b 1) (\<lambda>start.
     for_each (\<lambda>i out. and_then (bu_extra b (start + word_of_nat i)) (\<lambda>root. render b root ''error'' 0 out))
       [0..<unat count] []))"

text \<open>The header: \<open>None\<close> for the empty bundle, which says nothing.\<close>

definition read_bundle :: "string \<Rightarrow> error_bundle option res" where
  "read_bundle body =
     (case word_at body 0 of
        None \<Rightarrow> Inl malformed
      | Some extra_words \<Rightarrow>
        (case word_at body 4 of
           None \<Rightarrow> Inl malformed
         | Some string_bytes \<Rightarrow>
             let extra_len = unat extra_words; strings_len = unat string_bytes; extra_end = 8 + extra_len * 4 in
             if extra_len = 0 then Inr None
             else if length body < extra_end + strings_len then Inl malformed
             else Inr (Some \<lparr>bu_extra = extra_word body extra_len,
                    bu_strings = take strings_len (drop extra_end body)\<rparr>)))"

definition render_error_bundle :: "string \<Rightarrow> string res" where
  "render_error_bundle body =
     and_then (read_bundle body) (\<lambda>found. case found of None \<Rightarrow> Inr [] | Some b \<Rightarrow> render_roots b)"

section \<open>What a bundle says\<close>

text \<open>A report: its text, where it is (with the references that lead there) and
  its notes.  Places are zero based, as in the bundle.\<close>

datatype place = Place string "32 word" "32 word"

datatype report = Report string "(place \<times> (string \<times> place option) list) option" "report list"

fun show_place :: "place \<Rightarrow> string" where
  "show_place (Place p line column) = show_location p line column"

fun show_reference :: "string \<times> place option \<Rightarrow> string" where
  "show_reference (name, None) = []"
| "show_reference (name, Some p) = ''    '' @ name @ '': '' @ show_place p @ [newline_char]"

fun show_trace :: "(place \<times> (string \<times> place option) list) option \<Rightarrow> string" where
  "show_trace (Some (p, r # rs)) =
     ''referenced by:'' @ [newline_char] @ concat (map show_reference (r # rs))"
| "show_trace _ = []"

fun show_headline :: "string \<Rightarrow> string \<Rightarrow> (place \<times> (string \<times> place option) list) option \<Rightarrow> string" where
  "show_headline kind message None = kind @ '': '' @ message @ [newline_char]"
| "show_headline kind message (Some (p, _)) =
     show_place p @ '': '' @ kind @ '': '' @ message @ [newline_char]"

fun show_report :: "string \<Rightarrow> report \<Rightarrow> string" where
  "show_report kind (Report message at notes) =
     show_headline kind message at @ concat (map (show_report ''note'') notes) @ show_trace at"

fun nesting :: "report \<Rightarrow> nat" where
  "nesting (Report message at notes) = fold max (map (\<lambda>n. nesting n + 1) notes) 0"

definition place_at :: "error_bundle \<Rightarrow> 32 word \<Rightarrow> place \<Rightarrow> bool" where
  "place_at b loc p =
     (case (bu_extra b loc, bu_extra b (loc + 1), bu_extra b (loc + 2)) of
        (Inr s, Inr line, Inr column) \<Rightarrow> p = Place (bundle_text b s) line column
      | _ \<Rightarrow> False)"

definition reference_at :: "error_bundle \<Rightarrow> 32 word \<Rightarrow> string \<times> place option \<Rightarrow> bool" where
  "reference_at b entry r =
     (case (bu_extra b entry, bu_extra b (entry + 1)) of
        (Inr name, Inr src) \<Rightarrow> fst r = bundle_text b name \<and>
           (case snd r of None \<Rightarrow> src = 0 | Some p \<Rightarrow> src \<noteq> 0 \<and> place_at b src p)
      | _ \<Rightarrow> False)"

definition trace_at :: "error_bundle \<Rightarrow> 32 word \<Rightarrow> (string \<times> place option) list \<Rightarrow> bool" where
  "trace_at b loc rs \<longleftrightarrow> (case bu_extra b (loc + 7) of Inr n \<Rightarrow> unat n = length rs | Inl _ \<Rightarrow> False) \<and>
     list_all (\<lambda>r. reference_at b (loc + 8 + word_of_nat r * 2) (rs ! r)) [0..<length rs]"

text \<open>\<open>laid_out b index r\<close>: the words from \<open>index\<close> on hold the message \<open>r\<close>.\<close>

inductive laid_out :: "error_bundle \<Rightarrow> 32 word \<Rightarrow> report \<Rightarrow> bool" for b where
  message: "bu_extra b index = Inr m \<Longrightarrow> bu_extra b (index + 2) = Inr loc \<Longrightarrow>
     (case at of None \<Rightarrow> loc = 0 | Some (p, rs) \<Rightarrow> loc \<noteq> 0 \<and> place_at b loc p \<and> trace_at b loc rs) \<Longrightarrow>
     bu_extra b (index + 3) = Inr count \<Longrightarrow> unat count = length notes \<Longrightarrow>
     (\<And>n. n < length notes \<Longrightarrow> bu_extra b (index + 4 + word_of_nat n) = Inr (child n) \<and> laid_out b (child n) (notes ! n)) \<Longrightarrow>
     laid_out b index (Report (bundle_text b m) at notes)"

lemma for_each_append:
  assumes "\<And>x out. x \<in> set xs \<Longrightarrow> f x out = Inr (out @ g x)"
  shows "for_each f xs out = Inr (out @ concat (map g xs))"
  using assms by (induction xs arbitrary: out) simp_all

lemma concat_nth: "concat (map (\<lambda>i. f (xs ! i)) [0..<length xs]) = concat (map f xs)"
  by (rule arg_cong [where f = concat], rule nth_equalityI) simp_all

lemma bundle_location_place: "place_at b loc p \<Longrightarrow> bundle_location b loc = Inr (show_place p)"
  by (auto simp: place_at_def bundle_location_def split: sum.splits)

lemma render_reference_at:
  "reference_at b (loc + 8 + word_of_nat r * 2) ref \<Longrightarrow>
     render_reference b loc r out = Inr (out @ show_reference ref)"
  by (cases ref)
    (auto simp: reference_at_def render_reference_def bundle_location_place split: sum.splits option.splits)

lemma render_trace_at:
  assumes "case at of None \<Rightarrow> loc = 0 | Some (p, rs) \<Rightarrow> loc \<noteq> 0 \<and> place_at b loc p \<and> trace_at b loc rs"
  shows "render_trace b loc out = Inr (out @ show_trace at)"
proof (cases at)
  case None
  with assms show ?thesis by (simp add: render_trace_def)
next
  case (Some q)
  obtain p rs where q: "q = (p, rs)" by (cases q)
  have loc: "loc \<noteq> 0" and t: "trace_at b loc rs" using assms unfolding Some q by simp_all
  obtain n where n: "bu_extra b (loc + 7) = Inr n" "unat n = length rs"
    using t unfolding trace_at_def by (cases "bu_extra b (loc + 7)") simp_all
  have refs: "reference_at b (loc + 8 + word_of_nat r * 2) (rs ! r)" if "r < length rs" for r
    using t that unfolding trace_at_def list_all_iff by simp
  have "for_each (render_reference b loc) [0..<length rs] o1 = Inr (o1 @ concat (map show_reference rs))" for o1
    by (subst for_each_append [where g = "\<lambda>i. show_reference (rs ! i)"])
      (auto simp: refs render_reference_at concat_nth)
  then show ?thesis
    using loc n unfolding Some q render_trace_def by (cases rs) (simp_all add: unat_eq_zero unat_gt_0 [symmetric])
qed

lemma render_headline_at:
  assumes "case at of None \<Rightarrow> loc = 0 | Some (p, rs) \<Rightarrow> loc \<noteq> 0 \<and> place_at b loc p \<and> trace_at b loc rs"
  shows "render_headline b kind message loc = Inr (show_headline kind message at)"
  using assms by (auto simp: render_headline_def bundle_location_place split: option.splits)

lemma fold_max_mono: "(a :: nat) \<le> fold max xs a"
  by (induction xs arbitrary: a) (auto intro: le_trans [OF max.cobounded2])

lemma fold_max_ge: "x \<in> set xs \<Longrightarrow> (x :: nat) \<le> fold max xs a"
proof (induction xs arbitrary: a)
  case (Cons y ys)
  then show ?case using fold_max_mono [of "max y a" ys] by auto
qed simp

lemma nesting_note: "n \<in> set notes \<Longrightarrow> nesting n < nesting (Report m at notes)"
  using fold_max_ge [of "nesting n + 1" "map (\<lambda>n. nesting n + 1) notes" 0] by auto

lemma render_laid_out:
  "laid_out b index r \<Longrightarrow> nesting r + depth \<le> 8 \<Longrightarrow>
     render b index kind depth out = Inr (out @ show_report kind r)"
proof (induction arbitrary: kind depth out rule: laid_out.induct)
  case (message index m loc at count ns child)
  have "for_each (\<lambda>n out. and_then (bu_extra b (index + 4 + word_of_nat n)) (\<lambda>note.
          render b note ''note'' (depth + 1) out)) [0..<length ns] o1
      = Inr (o1 @ concat (map (show_report ''note'') ns))" for o1
  proof (subst for_each_append [where g = "\<lambda>i. show_report ''note'' (ns ! i)"])
    fix n o2 assume n: "n \<in> set [0..<length ns]"
    then have "nesting (ns ! n) + (depth + 1) \<le> 8"
      using message.prems nesting_note [of "ns ! n" ns "bundle_text b m" at] by simp
    with n message(6) show "and_then (bu_extra b (index + 4 + word_of_nat n))
        (\<lambda>note. render b note ''note'' (depth + 1) o2) = Inr (o2 @ show_report ''note'' (ns ! n))"
      by simp
  qed (simp add: concat_nth)
  then show ?case
    using message(1-5) message.prems
    by (subst render.simps) (simp add: render_headline_at render_trace_at)
qed

definition roots_at :: "error_bundle \<Rightarrow> report list \<Rightarrow> bool" where
  "roots_at b rs \<longleftrightarrow> (\<exists>count start. bu_extra b 0 = Inr count \<and> bu_extra b 1 = Inr start \<and> unat count = length rs \<and>
     (\<forall>i < length rs. \<exists>root. bu_extra b (start + word_of_nat i) = Inr root \<and> laid_out b root (rs ! i)))"

lemma render_roots_at:
  assumes "roots_at b rs" "list_all (\<lambda>r. nesting r \<le> 8) rs"
  shows "render_roots b = Inr (concat (map (show_report ''error'') rs))"
proof -
  obtain count start where head: "bu_extra b 0 = Inr count" "bu_extra b 1 = Inr start" "unat count = length rs"
    and roots: "\<And>i. i < length rs \<Longrightarrow> \<exists>root. bu_extra b (start + word_of_nat i) = Inr root \<and> laid_out b root (rs ! i)"
    using assms(1) unfolding roots_at_def by blast
  have "and_then (bu_extra b (start + word_of_nat i)) (\<lambda>root. render b root ''error'' 0 out)
      = Inr (out @ show_report ''error'' (rs ! i))" if i: "i < length rs" for i out
    using roots [OF i] assms(2) i by (auto simp: list_all_length render_laid_out)
  then have "for_each (\<lambda>i out. and_then (bu_extra b (start + word_of_nat i)) (\<lambda>root. render b root ''error'' 0 out))
      [0..<length rs] [] = Inr ([] @ concat (map (\<lambda>i. show_report ''error'' (rs ! i)) [0..<length rs]))"
    by (intro for_each_append) simp
  then show ?thesis
    using head by (simp add: render_roots_def concat_nth)
qed

lemma valid_plain: "plain s \<Longrightarrow> valid_utf8 s"
proof (induction s)
  case (Cons c s)
  then show ?case by (subst valid_utf8_Cons) (simp_all add: plain_def)
qed simp

lemma lossy_plain: "plain s \<Longrightarrow> from_utf8_lossy s = s"
  by (rule lossy_valid) (rule valid_plain)

section \<open>Corrupt bundles\<close>

definition too_deep :: string where
  "too_deep = ''error bundle nests too deep''"

text \<open>Message \<open>j\<close> is a note of message \<open>i\<close>.\<close>

inductive note_of :: "error_bundle \<Rightarrow> 32 word \<Rightarrow> 32 word \<Rightarrow> bool" for b where
  child: "bu_extra b (i + 3) = Inr count \<Longrightarrow> n < unat count \<Longrightarrow> bu_extra b (i + 4 + word_of_nat n) = Inr j
    \<Longrightarrow> note_of b i j"

inductive_cases note_ofE: "note_of b i j"

lemma for_each_Inr: "for_each f xs a = Inr c \<Longrightarrow> x \<in> set xs \<Longrightarrow> \<exists>d e. f x d = Inr e"
  by (induction xs arbitrary: a) (auto simp: and_then_Inr_iff)

lemma render_notes:
  assumes "render b i kind depth out = Inr out'" "note_of b i j"
  shows "\<exists>o1 o2. render b j ''note'' (depth + 1) o1 = Inr o2"
  using assms(2)
proof (rule note_ofE)
  fix count n assume c: "bu_extra b (i + 3) = Inr count" "n < unat count" "bu_extra b (i + 4 + word_of_nat n) = Inr j"
  obtain o1 o2 where "for_each (\<lambda>n out. and_then (bu_extra b (i + 4 + word_of_nat n)) (\<lambda>note.
      render b note ''note'' (depth + 1) out)) [0..<unat count] o1 = Inr o2"
    using assms(1) c(1) by (subst (asm) render.simps) (auto simp: and_then_Inr_iff split: if_splits)
  from for_each_Inr [OF this, of n] c show ?thesis by auto
qed

lemma render_depth:
  "render b i kind depth out = Inr out' \<Longrightarrow> (note_of b ^^ n) i j \<Longrightarrow> depth + n \<le> 8"
proof (induction n arbitrary: i kind depth out out')
  case 0
  then show ?case by (subst (asm) render.simps) (auto split: if_splits)
next
  case (Suc n)
  obtain k where k: "note_of b i k" "(note_of b ^^ n) k j" using Suc.prems(2) by (rule relpowp_Suc_E2)
  from render_notes [OF Suc.prems(1) k(1)] Suc.IH [OF _ k(2)] show ?case by fastforce
qed

lemma relpowp_cycle: "(R ^^ m) j j \<Longrightarrow> (R ^^ (k * m)) j j"
  by (induction k) (auto simp: relpowp_add)

lemma render_cycle:
  assumes "(note_of b)\<^sup>*\<^sup>* i j" "(note_of b)\<^sup>+\<^sup>+ j j"
  shows "render b i kind depth out \<noteq> Inr out'"
proof
  assume r: "render b i kind depth out = Inr out'"
  obtain n m where n: "(note_of b ^^ n) i j" and m: "0 < m" "(note_of b ^^ m) j j"
    using assms by (metis rtranclp_power tranclp_power)
  have "(note_of b ^^ (n + 9 * m)) i j"
    using n relpowp_cycle [OF m(2), of 9] by (auto simp: relpowp_add)
  from render_depth [OF r this] m(1) show False by simp
qed

lemma for_each_Inl: "for_each f xs a = Inl e \<Longrightarrow> \<exists>x\<in>set xs. \<exists>c. f x c = Inl e"
  by (induction xs arbitrary: a) (auto simp: and_then_Inl_iff)

definition sound_words :: "error_bundle \<Rightarrow> bool" where
  "sound_words b \<longleftrightarrow> (\<forall>i e. bu_extra b i = Inl e \<longrightarrow> e = malformed)"

lemma location_error: "sound_words b \<Longrightarrow> bundle_location b loc = Inl e \<Longrightarrow> e = malformed"
  by (auto simp: bundle_location_def and_then_Inl_iff sound_words_def)

lemma trace_error: "sound_words b \<Longrightarrow> render_trace b loc out = Inl e \<Longrightarrow> e = malformed"
  by (auto simp: render_trace_def and_then_Inl_iff sound_words_def render_reference_def Let_def
      dest!: for_each_Inl dest: location_error [unfolded sound_words_def, rotated] split: if_splits)

lemma headline_error: "sound_words b \<Longrightarrow> render_headline b kind message loc = Inl e \<Longrightarrow> e = malformed"
  by (auto simp: render_headline_def and_then_Inl_iff dest: location_error split: if_splits)

lemma render_error:
  assumes "sound_words b"
  shows "render b i kind depth out = Inl e \<Longrightarrow> e = malformed \<or> e = too_deep"
proof (induction "9 - depth" arbitrary: i kind depth out rule: less_induct)
  case less
  show ?case
  proof (cases "8 < depth")
    case True
    with less.prems show ?thesis by (subst (asm) render.simps) (simp add: too_deep_def)
  next
    case False
    have IH: "render b j k (Suc depth) o1 = Inl e \<Longrightarrow> e = malformed \<or> e = too_deep" for j k o1
      using less.hyps [of "Suc depth"] False by auto
    have "e = malformed \<or> e = too_deep"
      if "for_each (\<lambda>n out. and_then (bu_extra b (i + 4 + word_of_nat n)) (\<lambda>note.
            render b note ''note'' (Suc depth) out)) xs o1 = Inl e" for xs o1
      using for_each_Inl [OF that] IH assms by (auto simp: and_then_Inl_iff sound_words_def)
    with less.prems False assms headline_error [OF assms] trace_error [OF assms] show ?thesis
      by (subst (asm) render.simps) (auto simp: and_then_Inl_iff sound_words_def)
  qed
qed

lemma read_bundle_sound: "read_bundle body = Inr (Some b) \<Longrightarrow> sound_words b"
  by (auto simp: read_bundle_def sound_words_def extra_word_def Let_def split: option.splits if_splits)

lemma render_bundle_error:
  assumes "render_error_bundle body = Inl e"
  shows "e = malformed \<or> e = too_deep"
proof (cases "read_bundle body")
  case (Inl e')
  with assms show ?thesis
    by (auto simp: render_error_bundle_def read_bundle_def Let_def split: option.splits if_splits)
next
  case (Inr found)
  with assms obtain b where b: "found = Some b" "render_roots b = Inl e"
    by (auto simp: render_error_bundle_def split: option.splits)
  have s: "sound_words b" using read_bundle_sound Inr b(1) by simp
  from b(2) s show ?thesis
    by (auto simp: render_roots_def and_then_Inl_iff sound_words_def dest!: for_each_Inl
        dest: render_error [OF s])
qed

section \<open>Bundles as the compiler writes them\<close>

definition pack_bundle :: "32 word list \<Rightarrow> string \<Rightarrow> string" where
  "pack_bundle ws strings =
     to_le_bytes (word_of_nat (length ws)) @ to_le_bytes (word_of_nat (length strings))
       @ concat (map to_le_bytes ws) @ strings"

lemma length_packed_words [simp]: "length (concat (map to_le_bytes ws)) = length ws * 4"
  by (induction ws) simp_all

lemma packed_word:
  "i < length ws \<Longrightarrow> take 4 (drop (i * 4) (concat (map to_le_bytes ws) @ rest)) = to_le_bytes (ws ! i)"
proof (induction ws arbitrary: i)
  case (Cons w ws)
  then show ?case by (cases i) simp_all
qed simp

lemma word_at_packed:
  assumes "length h = 8"
  shows "word_at (h @ concat (map to_le_bytes ws) @ strings) (8 + i * 4) =
    (if i < length ws then Some (ws ! i)
     else word_at strings ((i - length ws) * 4))"
proof (cases "i < length ws")
  case True
  then show ?thesis
    using assms packed_word [OF True, of strings] by (simp add: word_at_def)
next
  case False
  then obtain k where k: "i = length ws + k" using le_Suc_ex not_less by blast
  then show ?thesis using assms by (simp add: word_at_def algebra_simps)
qed

definition packed :: "32 word list \<Rightarrow> string \<Rightarrow> error_bundle" where
  "packed ws strings =
     \<lparr>bu_extra = (\<lambda>i. if unat i < length ws then Inr (ws ! unat i) else Inl malformed), bu_strings = strings\<rparr>"

lemma read_pack_bundle:
  assumes "ws \<noteq> []" "length ws < 2 ^ 32" "length strings < 2 ^ 32"
  shows "read_bundle (pack_bundle ws strings) = Inr (Some (packed ws strings))"
proof -
  let ?h = "to_le_bytes (word_of_nat (length ws)) @ to_le_bytes (word_of_nat (length strings))"
  have len: "unat (word_of_nat (length ws) :: 32 word) = length ws"
      "unat (word_of_nat (length strings) :: 32 word) = length strings"
    using assms by (simp_all add: unsigned_of_nat take_bit_nat_eq_self)
  have h: "word_at (pack_bundle ws strings) 0 = Some (word_of_nat (length ws))"
      "word_at (pack_bundle ws strings) 4 = Some (word_of_nat (length strings))"
    by (simp_all add: pack_bundle_def word_at_def)
  have "extra_word (pack_bundle ws strings) (length ws) = bu_extra (packed ws strings)"
  proof
    fix i :: "32 word"
    have "word_at (pack_bundle ws strings) (8 + unat i * 4) =
        (if unat i < length ws then Some (ws ! unat i) else word_at strings ((unat i - length ws) * 4))"
      using word_at_packed [of ?h ws strings "unat i"] by (simp add: pack_bundle_def)
    then show "extra_word (pack_bundle ws strings) (length ws) i = bu_extra (packed ws strings) i"
      by (simp add: extra_word_def packed_def split: option.split)
  qed
  then show ?thesis
    using assms(1) h len by (simp add: read_bundle_def Let_def) (simp add: pack_bundle_def packed_def)
qed

section \<open>Properties\<close>

text \<open>An error bundle is rendered as the text the command line prints for the
  reports it holds: each message with its place counted from one, then its notes in
  order, then the references that lead to it, provided no notes nest deeper than
  the limit.\<close>

theorem bundle_renders_reports:
  assumes "read_bundle body = Inr (Some b)" "roots_at b rs" "list_all (\<lambda>r. nesting r \<le> 8) rs"
  shows "render_error_bundle body = Inr (concat (map (show_report ''error'') rs))"
  using assms render_roots_at by (simp add: render_error_bundle_def)

text \<open>One message at 0:0 of a file, with a note elsewhere and no reference.\<close>

definition demo_words :: "32 word list" where
  "demo_words = [1, 28, 0, 1, 0, 0, 0, 0, 0, 0, 0, 1, 3, 4, 0, 0, 0, 0, 0, 3, 1, 11, 0, 6, 1, 3, 1, 19, 23]"

definition demo_strings :: string where
  "demo_strings = CHR 0x00 # ''a'' @ CHR 0x00 # ''bc'' @ CHR 0x00 # ''d'' @ [CHR 0x00]"

definition demo_report :: report where
  "demo_report = Report ''d'' (Some (Place ''a'' 0 0, [])) [Report ''bc'' (Some (Place ''a'' 3 4, [])) []]"

lemma demo_text:
  "bundle_text (packed ws demo_strings) 1 = ''a''" "bundle_text (packed ws demo_strings) 3 = ''bc''"
  "bundle_text (packed ws demo_strings) 6 = ''d''"
  by (simp_all add: bundle_text_def packed_def demo_strings_def lossy_plain plain_def byte_def)

lemma demo_extra: "bu_extra (packed demo_words demo_strings) i =
    (if unat i < 29 then Inr (demo_words ! unat i) else Inl malformed)"
  by (simp add: packed_def demo_words_def)

lemma demo_roots: "roots_at (packed demo_words demo_strings) [demo_report]"
proof -
  let ?b = "packed demo_words demo_strings"
  note x = demo_extra place_at_def trace_at_def
  have n: "laid_out ?b 19 (Report (bundle_text ?b 3) (Some (Place (bundle_text ?b 1) 3 4, [])) [])"
    by (rule laid_out.intros [where loc = 11 and count = 0]) (simp_all add: x, simp_all add: demo_words_def)
  have "laid_out ?b 23 (Report (bundle_text ?b 6) (Some (Place (bundle_text ?b 1) 0 0, []))
      [Report (bundle_text ?b 3) (Some (Place (bundle_text ?b 1) 3 4, [])) []])"
    by (rule laid_out.intros [where loc = 3 and count = 1 and child = "\<lambda>_. 19"]) (use n in \<open>simp_all add: x, simp_all add: demo_words_def\<close>)
  then show ?thesis
    by (simp add: roots_at_def x demo_text demo_report_def, simp add: demo_words_def)
qed

theorem bundle_renders_reports_witness:
  "render_error_bundle (pack_bundle demo_words demo_strings) =
     Inr (''a:1:1: error: d'' @ [newline_char] @ ''a:4:5: note: bc'' @ [newline_char])"
proof -
  have r: "read_bundle (pack_bundle demo_words demo_strings) = Inr (Some (packed demo_words demo_strings))"
    by (rule read_pack_bundle) (simp_all add: demo_words_def demo_strings_def)
  have "show_nat 1 = ''1''" "show_nat 4 = ''4''" "show_nat 5 = ''5''" by code_simp+
  then show ?thesis
    using bundle_renders_reports [OF r demo_roots]
    by (simp add: demo_report_def show_location_def)
qed

text \<open>C38: rendering ends whatever the bytes say: a bundle one of whose messages is
  among its own notes, at any remove, is refused with one of the two errors.\<close>

theorem cyclic_notes_are_refused:
  assumes "read_bundle body = Inr (Some b)" "bu_extra b 0 = Inr count" "bu_extra b 1 = Inr start"
    "i < unat count" "bu_extra b (start + word_of_nat i) = Inr root"
    "(note_of b)\<^sup>*\<^sup>* root j" "(note_of b)\<^sup>+\<^sup>+ j j"
  shows "\<exists>e \<in> {malformed, too_deep}. render_error_bundle body = Inl e"
proof (cases "render_error_bundle body")
  case (Inr out)
  then have "for_each (\<lambda>i out. and_then (bu_extra b (start + word_of_nat i)) (\<lambda>root. render b root ''error'' 0 out))
      [0..<unat count] [] = Inr out"
    using assms(1-3) by (simp add: render_error_bundle_def render_roots_def)
  from for_each_Inr [OF this, of i] assms(4,5) render_cycle [OF assms(6,7)] show ?thesis by auto
qed (use render_bundle_error in auto)

text \<open>A message that is its own note.\<close>

theorem cyclic_notes_are_refused_witness:
  "\<exists>e \<in> {malformed, too_deep}. render_error_bundle (pack_bundle [1, 2, 3, 0, 0, 0, 1, 3] []) = Inl e"
proof -
  let ?b = "packed [1, 2, 3, 0, 0, 0, 1, 3] []"
  have r: "read_bundle (pack_bundle [1, 2, 3, 0, 0, 0, 1, 3] []) = Inr (Some ?b)"
    by (rule read_pack_bundle) simp_all
  have "note_of ?b 3 3"
    by (rule note_of.intros [where count = 1 and n = 0]) (simp_all add: packed_def)
  then show ?thesis
    using cyclic_notes_are_refused [OF r, of 1 2 0 3 3] by (simp add: packed_def tranclp.r_into_trancl)
qed

end
