(* ===== verification/Pools.thy ===== *)
theory Pools
  imports Sandbox "HOL-Library.Multiset"
begin

text \<open>
  Pools of long-lived helper processes, as compile_server.rs and
  instrument_worker.rs keep them: a map from keys to slots, each slot empty or
  holding one process confined in one way.  The map is an association list
  (the order of a HashMap is not used), processes are numbered in the order
  they start, and \<open>pl_stopped\<close> lists those told to exit or killed.
  \<open>accounted\<close> is the balance: every process started is in exactly one slot or
  was stopped.  The locale \<open>slot_pool\<close> is the contract both pools keep.
\<close>

section \<open>Processes and slots\<close>

text \<open>What a process was confined with; the code compares the Debug text of the
  policy, \<open>"none"\<close> without one and the empty string for shared workers.\<close>

datatype confinement = Shared | Unconfined | Confined sandbox_policy

definition confinement_of :: "sandbox_policy option \<Rightarrow> confinement" where
  "confinement_of sandbox = (case sandbox of None \<Rightarrow> Unconfined | Some policy \<Rightarrow> Confined policy)"

record process =
  ps_pid :: nat
  ps_confinement :: confinement
  ps_last_used :: nat

record ('k, 'v) pool =
  pl_slots :: "('k \<times> 'v option) list"
  pl_started :: nat
  pl_stopped :: "nat list"

definition pool_new :: "('k, 'v) pool" where
  "pool_new = \<lparr>pl_slots = [], pl_started = 0, pl_stopped = []\<rparr>"

definition slot_of :: "('k, 'v) pool \<Rightarrow> 'k \<Rightarrow> 'v option" where
  "slot_of p k = (case map_of (pl_slots p) k of Some x \<Rightarrow> x | None \<Rightarrow> None)"

text \<open>\<open>servers.entry(key).or_default()\<close>.\<close>

definition entry :: "'k \<Rightarrow> ('k, 'v) pool \<Rightarrow> ('k, 'v) pool" where
  "entry k p = (if k \<in> set (map fst (pl_slots p)) then p else p\<lparr>pl_slots := pl_slots p @ [(k, None)]\<rparr>)"

definition set_slot :: "'k \<Rightarrow> 'v option \<Rightarrow> ('k, 'v) pool \<Rightarrow> ('k, 'v) pool" where
  "set_slot k x p = p\<lparr>pl_slots := map (\<lambda>(k', y). (k', if k' = k then x else y)) (pl_slots p)\<rparr>"

definition stop_slot :: "'k \<Rightarrow> ('k, 'a process_scheme) pool \<Rightarrow> ('k, 'a process_scheme) pool" where
  "stop_slot k p =
     (case slot_of p k of
        None \<Rightarrow> p
      | Some v \<Rightarrow> (set_slot k None p)\<lparr>pl_stopped := pl_stopped p @ [ps_pid v]\<rparr>)"

definition pids :: "('k \<times> 'a process_scheme option) list \<Rightarrow> nat list" where
  "pids slots = concat (map (\<lambda>(k, x). case x of Some v \<Rightarrow> [ps_pid v] | None \<Rightarrow> []) slots)"

definition remove_slots ::
  "('k \<Rightarrow> bool) \<Rightarrow> ('k, 'a process_scheme) pool \<Rightarrow> ('k, 'a process_scheme) pool" where
  "remove_slots gone p =
     p\<lparr>pl_slots := filter (\<lambda>s. \<not> gone (fst s)) (pl_slots p),
       pl_stopped := pl_stopped p @ pids (filter (\<lambda>s. gone (fst s)) (pl_slots p))\<rparr>"

definition expired_slot :: "('k \<Rightarrow> 'v \<Rightarrow> bool) \<Rightarrow> 'k \<times> 'v option \<Rightarrow> bool" where
  "expired_slot expired s = (case snd s of Some v \<Rightarrow> expired (fst s) v | None \<Rightarrow> False)"

definition reap_slots ::
  "('k \<Rightarrow> 'a process_scheme \<Rightarrow> bool) \<Rightarrow> ('k, 'a process_scheme) pool \<Rightarrow> nat \<times> ('k, 'a process_scheme) pool" where
  "reap_slots expired p =
     (let old = filter (expired_slot expired) (pl_slots p)
      in (length old,
          p\<lparr>pl_slots := map (\<lambda>s. if expired_slot expired s then (fst s, None) else s) (pl_slots p),
            pl_stopped := pl_stopped p @ pids old\<rparr>))"

section \<open>Slots after an operation\<close>

lemma slot_of_new [simp]: "slot_of pool_new k = None"
  by (simp add: slot_of_def pool_new_def)

lemma slot_of_entry [simp]: "slot_of (entry k p) k' = slot_of p k'"
  by (auto simp: slot_of_def entry_def map_add_def split: option.split)

lemma map_of_set_slot:
  "map_of (map (\<lambda>(k', y). (k', if k' = k then x else y)) l) k' =
     (if k' = k then (if k \<in> set (map fst l) then Some x else None) else map_of l k')"
  by (induction l) force+

definition has_slot :: "'k \<Rightarrow> ('k, 'v) pool \<Rightarrow> bool" where
  "has_slot k p \<longleftrightarrow> k \<in> set (map fst (pl_slots p))"

lemma has_slot_entry [simp]: "has_slot k (entry k p)"
  by (simp add: has_slot_def entry_def)

lemma keys_set_slot [simp]: "map fst (pl_slots (set_slot k x p)) = map fst (pl_slots p)"
  by (simp add: set_slot_def comp_def case_prod_beta)

lemma has_slot_set_slot [simp]: "has_slot k (set_slot k' x p) = has_slot k p"
  unfolding has_slot_def by (simp only: keys_set_slot)

lemma slot_of_set_slot: "slot_of (set_slot k x p) k' = (if k' = k \<and> has_slot k p then x else slot_of p k')"
proof -
  have "slot_of p k = None" if "\<not> has_slot k p"
    using that by (force simp: slot_of_def has_slot_def dest: map_of_SomeD split: option.split)
  then show ?thesis by (simp add: slot_of_def set_slot_def map_of_set_slot has_slot_def)
qed

lemma set_slot_twice [simp]: "set_slot k x (set_slot k y p) = set_slot k x p"
  by (simp add: set_slot_def comp_def case_prod_beta cong: if_cong)

lemma slot_of_has: "slot_of p k = Some v \<Longrightarrow> has_slot k p"
  by (force simp: slot_of_def has_slot_def dest: map_of_SomeD split: option.splits)

lemma slot_of_update [simp]:
  "slot_of (p\<lparr>pl_started := n\<rparr>) k = slot_of p k" "slot_of (p\<lparr>pl_stopped := l\<rparr>) k = slot_of p k"
  "has_slot k (p\<lparr>pl_started := n\<rparr>) = has_slot k p" "has_slot k (p\<lparr>pl_stopped := l\<rparr>) = has_slot k p"
  by (simp_all add: slot_of_def has_slot_def)

lemma slot_of_stop_slot [simp]: "slot_of (stop_slot k p) k' = (if k' = k then None else slot_of p k')"
  by (auto simp: stop_slot_def slot_of_set_slot slot_of_has split: option.split)

lemma has_slot_stop_slot [simp]: "has_slot k' (stop_slot k p) = has_slot k' p"
  by (simp add: stop_slot_def split: option.split)

lemma slot_of_remove_slots [simp]: "slot_of (remove_slots gone p) k = (if gone k then None else slot_of p k)"
proof -
  have "map_of (filter (\<lambda>s. \<not> gone (fst s)) l) k = (if gone k then None else map_of l k)" for l :: "('b \<times> 'a process_scheme option) list"
    by (induction l) auto
  then show ?thesis by (simp add: slot_of_def remove_slots_def)
qed

lemma slot_of_reap_slots:
  "slot_of (snd (reap_slots expired p)) k =
     (case slot_of p k of Some v \<Rightarrow> if expired k v then None else Some v | None \<Rightarrow> None)"
proof -
  have "map_of (map (\<lambda>s. if expired_slot expired s then (fst s, None) else s) l) k =
      map_option (\<lambda>x. if expired_slot expired (k, x) then None else x) (map_of l k)"
    for l :: "('b \<times> 'a process_scheme option) list"
    by (induction l) auto
  then show ?thesis
    by (auto simp: slot_of_def reap_slots_def Let_def expired_slot_def split: option.split)
qed

section \<open>Accounting\<close>

definition accounted :: "('k, 'a process_scheme) pool \<Rightarrow> bool" where
  "accounted p \<longleftrightarrow> distinct (map fst (pl_slots p)) \<and>
     mset (pids (pl_slots p)) + mset (pl_stopped p) = mset [0..<pl_started p]"

lemma pids_simps [simp]:
  "pids [] = []" "pids ((k, None) # l) = pids l" "pids ((k, Some v) # l) = ps_pid v # pids l"
  "pids (l @ l') = pids l @ pids l'"
  by (simp_all add: pids_def)

lemma accounted_new [simp]: "accounted pool_new"
  by (simp add: accounted_def pool_new_def)

lemma accounted_entry [simp]: "accounted p \<Longrightarrow> accounted (entry k p)"
  by (auto simp: accounted_def entry_def)

lemma pids_set_slot:
  assumes "distinct (map fst l)" "k \<in> set (map fst l)"
  shows "mset (pids (map (\<lambda>(k', y). (k', if k' = k then x else y)) l)) + mset (pids [(k, the (map_of l k))])
       = mset (pids l) + mset (pids [(k, x)])"
  using assms
proof (induction l)
  case (Cons s l)
  obtain k' y where s: "s = (k', y)" by (cases s)
  show ?case
  proof (cases "k' = k")
    case True
    then have "map (\<lambda>(k', y). (k', if k' = k then x else y)) l = l"
      using Cons.prems s by (intro map_idI) force
    then show ?thesis using s True by (cases x; cases y) simp_all
  next
    case False
    then show ?thesis using Cons s by (cases y) (auto simp: add.assoc)
  qed
qed simp

lemma pids_replace:
  assumes "accounted p" "slot_of p k = old" "has_slot k p"
  shows "mset (pids (pl_slots (set_slot k x p))) + mset (pids [(k, old)]) = mset (pids (pl_slots p)) + mset (pids [(k, x)])"
proof -
  obtain y where y: "map_of (pl_slots p) k = Some y"
    using assms(3) unfolding has_slot_def by (metis map_of_eq_None_iff not_Some_eq list.set_map)
  with assms show ?thesis
    using pids_set_slot [of "pl_slots p" k x]
    by (simp add: accounted_def has_slot_def set_slot_def slot_of_def)
qed

lemma accounted_replace:
  assumes "accounted p" "slot_of p k = old" "has_slot k p"
    and "mset (pids [(k, x)]) + mset stopped + mset [0..<pl_started p] =
         mset (pids [(k, old)]) + mset (pl_stopped p) + mset [0..<started]"
  shows "accounted ((set_slot k x p)\<lparr>pl_started := started, pl_stopped := stopped\<rparr>)"
proof -
  let ?q = "(set_slot k x p)\<lparr>pl_started := started, pl_stopped := stopped\<rparr>"
  have "mset (pids (pl_slots (set_slot k x p))) + mset stopped + (mset (pids [(k, old)]) + mset [0..<pl_started p])
      = mset (pids (pl_slots p)) + (mset (pids [(k, x)]) + mset stopped + mset [0..<pl_started p])"
    using pids_replace [OF assms(1-3), of x] by (simp only: ac_simps)
  also have "\<dots> = (mset (pids (pl_slots p)) + mset (pl_stopped p)) + (mset (pids [(k, old)]) + mset [0..<started])"
    using assms(4) by (simp only: ac_simps)
  also have "\<dots> = mset [0..<started] + (mset (pids [(k, old)]) + mset [0..<pl_started p])"
    using assms(1) by (simp only: accounted_def ac_simps)
  finally have "mset (pids (pl_slots (set_slot k x p))) + mset stopped = mset [0..<started]"
    by (rule add_right_imp_eq)
  moreover have "distinct (map fst (pl_slots (set_slot k x p)))"
    using assms(1) by (simp only: keys_set_slot accounted_def)
  ultimately show ?thesis by (simp add: accounted_def)
qed

lemma accounted_touch:
  assumes "accounted p" "slot_of p k = Some v" "ps_pid v' = ps_pid v"
  shows "accounted (set_slot k (Some v') p)"
  using accounted_replace [OF assms(1,2) slot_of_has [OF assms(2)], of "Some v'" "pl_stopped p" "pl_started p"] assms(3)
  by (simp add: set_slot_def)

lemma accounted_stop [simp]:
  assumes "accounted p"
  shows "accounted (stop_slot k p)"
proof (cases "slot_of p k")
  case (Some v)
  then show ?thesis
    using accounted_replace [OF assms Some slot_of_has [OF Some], of None "pl_stopped p @ [ps_pid v]" "pl_started p"]
    by (simp add: stop_slot_def set_slot_def)
qed (use assms in \<open>simp add: stop_slot_def\<close>)

lemma accounted_install:
  assumes "accounted p" "slot_of p k = None" "has_slot k p" "ps_pid v = pl_started p"
  shows "accounted ((set_slot k (Some v) p)\<lparr>pl_started := Suc (pl_started p)\<rparr>)"
  using accounted_replace [OF assms(1-3), of "Some v" "pl_stopped p" "pl_started p + 1"] assms(4)
  by (simp add: set_slot_def)

lemma accounted_stillborn:
  "accounted p \<Longrightarrow> accounted (p\<lparr>pl_started := Suc (pl_started p), pl_stopped := pl_stopped p @ [pl_started p]\<rparr>)"
  by (simp add: accounted_def)

lemma pids_partition: "mset (pids l) = mset (pids (filter P l)) + mset (pids (filter (\<lambda>s. \<not> P s) l))"
proof (induction l)
  case (Cons s l)
  then show ?case by (cases s; cases "snd s") auto
qed simp

lemma accounted_remove [simp]: "accounted p \<Longrightarrow> accounted (remove_slots gone p)"
  using pids_partition [of "pl_slots p" "\<lambda>s. gone (fst s)"]
  unfolding accounted_def by (simp add: remove_slots_def distinct_map_filter ac_simps)

lemma accounted_reap [simp]:
  assumes "accounted p"
  shows "accounted (snd (reap_slots expired p))"
proof -
  have "mset (pids (map (\<lambda>s. if expired_slot expired s then (fst s, None) else s) l))
      = mset (pids (filter (\<lambda>s. \<not> expired_slot expired s) l))"
    for l :: "('a \<times> 'b process_scheme option) list"
  proof (induction l)
    case (Cons s l)
    then show ?case by (cases s; cases "snd s") auto
  qed simp
  moreover have "map fst (map (\<lambda>s. if expired_slot expired s then (fst s, None) else s) l) = map fst l"
    for l :: "('a \<times> 'b process_scheme option) list"
    by (induction l) auto
  ultimately show ?thesis
    using assms pids_partition [of "pl_slots p" "expired_slot expired"]
    unfolding accounted_def by (simp add: reap_slots_def Let_def ac_simps del: map_map)
qed

section \<open>The contract of a pool\<close>

text \<open>What can happen to a pool: a request for a process, the end of its owner,
  and the periodic reaping.  \<open>live\<close> observes the process at a key, \<open>target\<close> and
  \<open>wanted\<close> the key and the confinement of a request, \<open>owned\<close> the keys of an
  owner.\<close>

datatype ('r, 'x, 't) pool_op = PoolRequest 'r | PoolForget 'x | PoolReap 't

locale slot_pool =
  fixes live :: "'s \<Rightarrow> 'k \<Rightarrow> 'a process_scheme option"
    and request :: "'r \<Rightarrow> 's \<Rightarrow> 's"
    and forget :: "'x \<Rightarrow> 's \<Rightarrow> 's"
    and reap :: "'t \<Rightarrow> 's \<Rightarrow> 's"
    and target :: "'r \<Rightarrow> 'k"
    and wanted :: "'r \<Rightarrow> confinement"
    and owned :: "'x \<Rightarrow> 'k \<Rightarrow> bool"
    and balanced :: "'s \<Rightarrow> bool"
  assumes request_elsewhere: "k \<noteq> target r \<Longrightarrow> live (request r s) k = live s k"
    and request_confines: "live (request r s) (target r) = Some v \<Longrightarrow> ps_confinement v = wanted r"
    and forget_stops: "owned x k \<Longrightarrow> live (forget x s) k = None"
    and forget_elsewhere: "\<not> owned x k \<Longrightarrow> live (forget x s) k = live s k"
    and reap_keeps: "live (reap t s) k = Some v \<Longrightarrow> live s k = Some v"
    and request_balanced: "balanced s \<Longrightarrow> balanced (request r s)"
    and forget_balanced: "balanced s \<Longrightarrow> balanced (forget x s)"
    and reap_balanced: "balanced s \<Longrightarrow> balanced (reap t s)"
begin

fun apply_op :: "('r, 'x, 't) pool_op \<Rightarrow> 's \<Rightarrow> 's" where
  "apply_op (PoolRequest r) s = request r s"
| "apply_op (PoolForget x) s = forget x s"
| "apply_op (PoolReap t) s = reap t s"

definition run :: "('r, 'x, 't) pool_op list \<Rightarrow> 's \<Rightarrow> 's" where
  "run ops s = fold apply_op ops s"

fun spares :: "'k \<Rightarrow> ('r, 'x, 't) pool_op \<Rightarrow> bool" where
  "spares k (PoolRequest r) \<longleftrightarrow> target r \<noteq> k"
| "spares k (PoolForget x) \<longleftrightarrow> \<not> owned x k"
| "spares k (PoolReap t) \<longleftrightarrow> True"

lemma run_Nil [simp]: "run [] s = s"
  by (simp add: run_def)

lemma run_snoc [simp]: "run (ops @ [x]) s = apply_op x (run ops s)"
  by (simp add: run_def)

text \<open>A live process was confined for the last request of its key, and its owner
  has not been forgotten since.\<close>

lemma live_after_run:
  assumes "\<And>k. live s k = None" "live (run ops s) k = Some v"
  shows "\<exists>before r later. ops = before @ PoolRequest r # later \<and> target r = k \<and> ps_confinement v = wanted r
     \<and> list_all (spares k) later"
  using assms(2)
proof (induction ops arbitrary: v rule: rev_induct)
  case Nil
  with assms(1) show ?case by simp
next
  case (snoc x ops)
  show ?case
  proof (cases "\<exists>r. x = PoolRequest r \<and> target r = k")
    case True
    then obtain r where r: "x = PoolRequest r" "target r = k" by blast
    with snoc.prems request_confines [of r "run ops s" v] show ?thesis
      by (intro exI [of _ ops] exI [of _ r] exI [of _ "[]"]) simp
  next
    case False
    have "spares k x \<and> live (run ops s) k = Some v"
    proof (cases x)
      case (PoolRequest r)
      with False snoc.prems request_elsewhere [of k r "run ops s"] show ?thesis by auto
    next
      case (PoolForget y)
      with snoc.prems forget_stops [of y k "run ops s"] forget_elsewhere [of y k "run ops s"]
      show ?thesis by (cases "owned y k") simp_all
    next
      case (PoolReap t)
      with snoc.prems reap_keeps [of t "run ops s" k v] show ?thesis by simp
    qed
    with snoc.IH obtain before r later where
      "ops = before @ PoolRequest r # later" "target r = k" "ps_confinement v = wanted r" "list_all (spares k) later"
      "spares k x"
      by blast
    then show ?thesis
      by (intro exI [of _ before] exI [of _ r] exI [of _ "later @ [x]"]) simp
  qed
qed

lemma run_balanced: "balanced s \<Longrightarrow> balanced (run ops s)"
proof (induction ops rule: rev_induct)
  case (snoc x ops)
  then show ?case
    by (cases x) (simp_all add: request_balanced forget_balanced reap_balanced)
qed simp

end

end
