(* ===== verification/CompileServer.thy ===== *)
theory CompileServer
  imports Bundle Pools Util Supervisor
begin

text \<open>
  src/apps/server-rs/src/languages/zig/compile_server.rs: Zig compilers kept
  running between runs.  One slot per session and kind of build; a build asks
  the compiler in the slot for an update and reads its messages up to the error
  bundle.  Times are milliseconds; the pipe is the bytes it has delivered.
  The pool is an interpretation of the contract of Pools.
\<close>

section \<open>Kinds and their commands\<close>

datatype kind = Program | Tests

fun kind_name :: "kind \<Rightarrow> string" where
  "kind_name Program = ''atomis-session''"
| "kind_name Tests = ''atomis-tests''"

fun kind_debug :: "kind \<Rightarrow> string" where
  "kind_debug Program = ''Program''"
| "kind_debug Tests = ''Tests''"

definition kind_args :: "kind \<Rightarrow> path \<Rightarrow> string list" where
  "kind_args kind root =
     (let at = (\<lambda>file. show_path (path_join root file)) in
      (case kind of
         Program \<Rightarrow> [''build-exe'', ''-Mroot='' @ at ''generated/main.zig'']
       | Tests \<Rightarrow> [''test'', ''-Mroot='' @ at ''test_root.zig'', ''--test-runner'', at ''runzig_test_runner.zig''])
      @ [''-ODebug'', ''-fincremental'', ''--listen=-'', ''--cache-dir'', ''.zig-cache'', ''--name'', kind_name kind])"

definition UPDATE_TIMEOUT :: nat where "UPDATE_TIMEOUT = 30000"
definition IDLE :: nat where "IDLE = 600000"

text \<open>What \<open>spawn\<close> runs: \<open>zig\<close> with these arguments in the session's directory.\<close>

record server_command =
  sc_args :: "string list"
  sc_cwd :: path
  sc_env :: env
  sc_ruleset :: "ruleset option"

definition spawn_command :: "spawn_facts \<Rightarrow> kind \<Rightarrow> path \<Rightarrow> sandbox_policy option \<Rightarrow> server_command" where
  "spawn_command facts kind root sandbox =
     (let scrubbed = scrub_bundle_env (sf_inherited facts) in
      (case sandbox of
         None \<Rightarrow> \<lparr>sc_args = kind_args kind root, sc_cwd = root, sc_env = scrubbed, sc_ruleset = None\<rparr>
       | Some policy \<Rightarrow>
           \<lparr>sc_args = kind_args kind root, sc_cwd = root,
            sc_env = set_env (child_env (sf_cache facts) (sf_rustup facts) policy) scrubbed,
            sc_ruleset = prepare (sf_exists facts) (with_program policy (sf_resolved facts)) (sf_support facts)\<rparr>))"

text \<open>A compiler runs with the environment and the ruleset the supervisor gives the classic build.\<close>

lemma spawn_command_as_supervised:
  "sc_env (spawn_command facts kind root sandbox) = cmd_env (build_command facts sandbox [] stdin)"
  "sc_ruleset (spawn_command facts kind root sandbox) = cmd_ruleset (build_command facts sandbox [] stdin)"
  by (simp_all add: spawn_command_def build_command_def Let_def set_env_def split: option.split)

section \<open>Who may use a server\<close>

definition split_once_str :: "string \<Rightarrow> string \<Rightarrow> (string \<times> string) option" where
  "split_once_str s sep = map_option (\<lambda>i. (take i s, drop (i + length sep) s)) (find_sub s sep)"

definition declares_dependencies :: "string \<Rightarrow> bool" where
  "declares_dependencies manifest =
     (case split_once_str manifest ''.dependencies'' of
        None \<Rightarrow> False
      | Some (_, rest) \<Rightarrow> contains rest ''.url'' \<or> contains rest ''.path'' \<or> contains rest ''.hash'')"

definition wants_libc :: "string \<Rightarrow> bool" where
  "wants_libc errors \<longleftrightarrow> contains errors ''dependency on libc must be explicitly specified''
     \<or> contains errors ''requires libc''"

text \<open>\<open>linux\<close> is the target; \<open>setting\<close> the variable ATOMIS_ZIG_INCREMENTAL;
  \<open>manifest\<close> what reading build.zig.zon gave.\<close>

definition eligible :: "bool \<Rightarrow> string option \<Rightarrow> string list \<Rightarrow> string option \<Rightarrow> string \<Rightarrow> bool" where
  "eligible linux setting needs_libc manifest session =
     (if \<not> linux then False
      else if (case setting of None \<Rightarrow> False | Some value_ \<Rightarrow> trim value_ = ''0'') then False
      else if session \<in> set needs_libc then False
      else \<not> declares_dependencies (unwrap_or_default manifest))"

section \<open>One update\<close>

datatype build_answer = AnswerBuilt string | AnswerFailed string

definition finish_update :: "string \<Rightarrow> string option \<Rightarrow> build_answer res" where
  "finish_update body digest =
     and_then (render_error_bundle body) (\<lambda>errors.
       (case (errors = [], digest) of
          (True, Some d) \<Rightarrow> Inr (AnswerBuilt d)
        | (True, None) \<Rightarrow> Inl ''build finished without an executable''
        | (False, _) \<Rightarrow> Inr (AnswerFailed errors)))"

text \<open>The digest of a message, if it carries one.\<close>

definition emitted_digest :: "string \<Rightarrow> string option \<Rightarrow> string option" where
  "emitted_digest body digest =
     (if length body = 17 then Some (concat (map hex_byte (tl body))) else digest)"

function read_answer :: "bool \<Rightarrow> string option \<Rightarrow> string \<Rightarrow> (build_answer \<times> string) polled" where
  "read_answer eof digest bytes =
     (case read_message eof bytes of
        Waiting \<Rightarrow> Waiting
      | Ready (Inl e) \<Rightarrow> Ready (Inl e)
      | Ready (Inr ((tag, body), rest)) \<Rightarrow>
          if tag = SERVER_EMIT_DIGEST then read_answer eof (emitted_digest body digest) rest
          else if tag = SERVER_ERROR_BUNDLE
          then Ready (map_sum id (\<lambda>answer. (answer, rest)) (finish_update body digest))
          else read_answer eof digest rest)"
  by pat_completeness auto
termination
  by (relation "measure (\<lambda>(eof, digest, bytes). length bytes)") (auto dest: read_message_shrinks)

declare read_answer.simps [simp del]

text \<open>\<open>wrote\<close> is how writing the update request to the compiler went.\<close>

definition request_update :: "unit res \<Rightarrow> bool \<Rightarrow> string \<Rightarrow> (build_answer \<times> string) polled" where
  "request_update wrote eof bytes =
     (case wrote of Inl e \<Rightarrow> Ready (Inl e) | Inr _ \<Rightarrow> read_answer eof None bytes)"

section \<open>Servers\<close>

record server = process +
  sv_unread :: string

record compile_servers =
  cs_pool :: "(string, server) pool"
  cs_needs_libc :: "string list"

definition servers_new :: compile_servers where
  "servers_new = \<lparr>cs_pool = pool_new, cs_needs_libc = []\<rparr>"

definition slot_key :: "string \<Rightarrow> kind \<Rightarrow> string" where
  "slot_key session kind = session @ '':'' @ kind_debug kind"

text \<open>The first message of a compiler is its version.\<close>

definition greeting :: "bool \<Rightarrow> string \<Rightarrow> string res" where
  "greeting eof bytes =
     (case read_message eof bytes of
        Waiting \<Rightarrow> Inl ''no greeting from the compiler''
      | Ready (Inl e) \<Rightarrow> Inl e
      | Ready (Inr ((tag, _), rest)) \<Rightarrow>
          if tag \<noteq> SERVER_ZIG_VERSION then Inl (''unexpected greeting tag '' @ show_nat (unat tag)) else Inr rest)"

text \<open>What one build meets: the sandbox, the child if one has to start (\<open>Inl\<close> when
  the ruleset or the exec failed, otherwise what it said within ten seconds and
  whether it closed its output), the write of the request, what the compiler
  answered within \<open>UPDATE_TIMEOUT\<close>, and whether the run was cancelled first.\<close>

record build =
  bd_session :: string
  bd_kind :: kind
  bd_root :: path
  bd_sandbox :: "sandbox_policy option"
  bd_launched :: "(string \<times> bool) res"
  bd_wrote :: "unit res"
  bd_answer :: string
  bd_eof :: bool
  bd_cancelled :: bool
  bd_now :: nat

definition spawn_server :: "string \<Rightarrow> build \<Rightarrow> (string, server) pool \<Rightarrow> (string, server) pool" where
  "spawn_server key bd p =
     (case bd_launched bd of
        Inl e \<Rightarrow> p
      | Inr (bytes, eof) \<Rightarrow>
          (case greeting eof bytes of
             Inl e \<Rightarrow> p\<lparr>pl_started := pl_started p + 1, pl_stopped := pl_stopped p @ [pl_started p]\<rparr>
           | Inr unread \<Rightarrow>
               (set_slot key (Some \<lparr>ps_pid = pl_started p, ps_confinement = confinement_of (bd_sandbox bd),
                  ps_last_used = bd_now bd, sv_unread = unread\<rparr>) p)\<lparr>pl_started := pl_started p + 1\<rparr>))"

text \<open>The slot a build uses: emptied when the server in it was confined otherwise,
  filled when it is empty.\<close>

definition ready_slot :: "string \<Rightarrow> build \<Rightarrow> (string, server) pool \<Rightarrow> (string, server) pool" where
  "ready_slot key bd p =
     (let p0 = entry key p;
          p1 = (case slot_of p0 key of
                  Some sv \<Rightarrow> if ps_confinement sv \<noteq> confinement_of (bd_sandbox bd) then stop_slot key p0 else p0
                | None \<Rightarrow> p0)
      in if slot_of p1 key = None then spawn_server key bd p1 else p1)"

datatype update = Built path | Failed string

definition executable :: "build \<Rightarrow> string \<Rightarrow> path" where
  "executable bd digest =
     path_join (path_join (path_join (bd_root bd) ''.zig-cache/o'') digest) (kind_name (bd_kind bd))"

definition update_inner :: "build \<Rightarrow> compile_servers \<Rightarrow> update option \<times> compile_servers" where
  "update_inner bd st =
     (let key = slot_key (bd_session bd) (bd_kind bd); p = ready_slot key bd (cs_pool st) in
      (case slot_of p key of
         None \<Rightarrow> (None, st\<lparr>cs_pool := p\<rparr>)
       | Some idle \<Rightarrow>
           let sv = idle\<lparr>ps_last_used := bd_now bd\<rparr>; p = set_slot key (Some sv) p;
               dropped = st\<lparr>cs_pool := stop_slot key p\<rparr>;
               kept = (\<lambda>rest. st\<lparr>cs_pool := set_slot key (Some (sv\<lparr>sv_unread := rest\<rparr>)) p\<rparr>)
           in if bd_cancelled bd then (None, dropped)
              else (case request_update (bd_wrote bd) (bd_eof bd) (sv_unread sv @ bd_answer bd) of
                      Waiting \<Rightarrow> (None, dropped)
                    | Ready (Inl e) \<Rightarrow> (None, dropped)
                    | Ready (Inr (AnswerBuilt digest, rest)) \<Rightarrow> (Some (Built (executable bd digest)), kept rest)
                    | Ready (Inr (AnswerFailed errors, rest)) \<Rightarrow>
                        if wants_libc errors
                        then (None, dropped\<lparr>cs_needs_libc := List.insert (bd_session bd) (cs_needs_libc st)\<rparr>)
                        else (Some (Failed errors), kept rest))))"

definition forget :: "string \<Rightarrow> compile_servers \<Rightarrow> compile_servers" where
  "forget session st =
     (let gone = (\<lambda>kind p. remove_slots (\<lambda>k. k = slot_key session kind) p)
      in \<lparr>cs_pool = gone Tests (gone Program (cs_pool st)),
          cs_needs_libc = removeAll session (cs_needs_libc st)\<rparr>)"

text \<open>\<open>busy\<close> are the slots locked by a build.\<close>

definition reap_idle :: "(string \<Rightarrow> bool) \<Rightarrow> nat \<Rightarrow> nat \<Rightarrow> compile_servers \<Rightarrow> nat \<times> compile_servers" where
  "reap_idle busy idle now st =
     (case reap_slots (\<lambda>key sv. \<not> busy key \<and> idle \<le> now - ps_last_used sv) (cs_pool st) of
        (stopped, p) \<Rightarrow> (stopped, st\<lparr>cs_pool := p\<rparr>))"

definition live_count :: "(string \<Rightarrow> bool) \<Rightarrow> compile_servers \<Rightarrow> nat" where
  "live_count busy st =
     sum_list (map (\<lambda>(key, x). if busy key then 1 else if x \<noteq> None then 1 else 0) (pl_slots (cs_pool st)))"

section \<open>Slots\<close>

lemma slot_key_inject [simp]: "slot_key s k = slot_key s' k' \<longleftrightarrow> s = s' \<and> k = k'"
proof
  assume e: "slot_key s k = slot_key s' k'"
  then have "last (slot_key s k) = last (slot_key s' k')" by simp
  then have "k = k'" by (cases k; cases k') (simp_all add: slot_key_def)
  with e show "s = s' \<and> k = k'" by (simp add: slot_key_def)
qed simp

definition server_at :: "compile_servers \<Rightarrow> string \<Rightarrow> server option" where
  "server_at st key = slot_of (cs_pool st) key"

definition build_key :: "build \<Rightarrow> string" where
  "build_key bd = slot_key (bd_session bd) (bd_kind bd)"

lemma spawn_server_elsewhere: "k \<noteq> key \<Longrightarrow> slot_of (spawn_server key bd p) k = slot_of p k"
  by (auto simp: spawn_server_def slot_of_set_slot split: sum.split)

lemma spawn_server_confines:
  "slot_of p key = None \<Longrightarrow> slot_of (spawn_server key bd p) key = Some sv \<Longrightarrow>
     ps_confinement sv = confinement_of (bd_sandbox bd)"
  by (auto simp: spawn_server_def slot_of_set_slot split: sum.splits if_splits)

lemma ready_slot_elsewhere: "k \<noteq> key \<Longrightarrow> slot_of (ready_slot key bd p) k = slot_of p k"
  by (auto simp: ready_slot_def Let_def spawn_server_elsewhere split: option.split)

lemma ready_slot_confines:
  "slot_of (ready_slot key bd p) key = Some sv \<Longrightarrow> ps_confinement sv = confinement_of (bd_sandbox bd)"
  by (auto simp: ready_slot_def Let_def dest: spawn_server_confines [rotated] split: option.splits if_splits)

lemma has_slot_ready: "slot_of (ready_slot key bd p) key = Some sv \<Longrightarrow> has_slot key (ready_slot key bd p)"
  by (rule slot_of_has)

lemma update_elsewhere: "k \<noteq> build_key bd \<Longrightarrow> server_at (snd (update_inner bd st)) k = server_at st k"
  by (simp add: update_inner_def Let_def server_at_def build_key_def ready_slot_elsewhere slot_of_set_slot
      split: option.split polled.split sum.split build_answer.split)

lemma update_slot:
  "server_at (snd (update_inner bd st)) (build_key bd) =
     (case fst (update_inner bd st) of
        None \<Rightarrow> None
      | Some _ \<Rightarrow> server_at (snd (update_inner bd st)) (build_key bd))
   \<and> (fst (update_inner bd st) \<noteq> None \<longrightarrow>
        (\<exists>sv. server_at (snd (update_inner bd st)) (build_key bd) = Some sv
          \<and> ps_confinement sv = confinement_of (bd_sandbox bd)))"
proof (cases "slot_of (ready_slot (build_key bd) bd (cs_pool st)) (build_key bd)")
  case None
  then show ?thesis by (simp add: update_inner_def Let_def build_key_def server_at_def)
next
  case (Some idle)
  then show ?thesis
    using ready_slot_confines [OF Some] has_slot_ready [OF Some]
    by (simp add: update_inner_def Let_def server_at_def build_key_def slot_of_set_slot
        split: polled.split sum.split build_answer.split)
qed

lemma update_confines:
  "server_at (snd (update_inner bd st)) (build_key bd) = Some sv \<Longrightarrow> ps_confinement sv = confinement_of (bd_sandbox bd)"
  using update_slot [of bd st] by (cases "fst (update_inner bd st)") auto

section \<open>Every process is accounted for\<close>

lemma accounted_spawn:
  "accounted p \<Longrightarrow> slot_of p key = None \<Longrightarrow> has_slot key p \<Longrightarrow> accounted (spawn_server key bd p)"
  by (auto simp: spawn_server_def intro: accounted_stillborn accounted_install split: sum.split)

lemma accounted_ready: "accounted p \<Longrightarrow> accounted (ready_slot key bd p)"
  by (auto simp: ready_slot_def Let_def intro!: accounted_spawn split: option.split)

lemma accounted_update:
  assumes "accounted (cs_pool st)"
  shows "accounted (cs_pool (snd (update_inner bd st)))"
proof -
  let ?k = "slot_key (bd_session bd) (bd_kind bd)"
  let ?p = "ready_slot ?k bd (cs_pool st)"
  have a: "accounted ?p" using assms by (rule accounted_ready)
  show ?thesis
  proof (cases "slot_of ?p ?k")
    case None
    then show ?thesis using a by (simp add: update_inner_def Let_def)
  next
    case (Some idle)
    let ?sv = "idle\<lparr>ps_last_used := bd_now bd\<rparr>"
    have t: "accounted (set_slot ?k (Some ?sv) ?p)" using a Some by (rule accounted_touch) simp
    have u: "accounted (set_slot ?k (Some (?sv\<lparr>sv_unread := rest\<rparr>)) ?p)" for rest
      using a Some by (rule accounted_touch) simp
    show ?thesis
      using Some t u
      by (simp add: update_inner_def Let_def split: polled.split sum.split build_answer.split)
  qed
qed

lemma reaped_keeps:
  "server_at (snd (reap_idle busy idle now st)) key = Some sv \<Longrightarrow> server_at st key = Some sv"
  by (auto simp: server_at_def reap_idle_def case_prod_beta slot_of_reap_slots split: option.splits if_splits)

lemma accounted_forget: "accounted (cs_pool st) \<Longrightarrow> accounted (cs_pool (forget session st))"
  by (simp add: forget_def Let_def)

interpretation cs: slot_pool server_at "\<lambda>bd st. snd (update_inner bd st)" forget
    "\<lambda>(busy, idle, now) st. snd (reap_idle busy idle now st)" build_key "\<lambda>bd. confinement_of (bd_sandbox bd)"
    "\<lambda>session key. \<exists>kind. key = slot_key session kind" "\<lambda>st. accounted (cs_pool st)"
proof unfold_locales
  fix x k s
  show "\<exists>kind. k = slot_key x kind \<Longrightarrow> server_at (forget x s) k = None"
    by (auto simp: server_at_def forget_def Let_def) (metis kind.exhaust)
  show "\<nexists>kind. k = slot_key x kind \<Longrightarrow> server_at (forget x s) k = server_at s k"
    by (auto simp: server_at_def forget_def Let_def)
next
  fix t :: "(string \<Rightarrow> bool) \<times> nat \<times> nat" and s k v
  show "server_at ((case t of (busy, idle, now) \<Rightarrow> \<lambda>st. snd (reap_idle busy idle now st)) s) k = Some v
      \<Longrightarrow> server_at s k = Some v"
    using reaped_keeps [of "fst t" "fst (snd t)" "snd (snd t)" s k v] by (simp add: case_prod_beta)
  show "accounted (cs_pool s) \<Longrightarrow>
      accounted (cs_pool ((case t of (busy, idle, now) \<Rightarrow> \<lambda>st. snd (reap_idle busy idle now st)) s))"
    by (simp add: reap_idle_def case_prod_beta)
qed (simp_all add: update_elsewhere update_confines accounted_update accounted_forget)

section \<open>A history of builds\<close>

type_synonym server_op = "(build, string, (string \<Rightarrow> bool) \<times> nat \<times> nat) pool_op"

fun server_step :: "server_op \<Rightarrow> compile_servers \<Rightarrow> compile_servers" where
  "server_step (PoolRequest bd) st = snd (update_inner bd st)"
| "server_step (PoolForget session) st = forget session st"
| "server_step (PoolReap (busy, idle, now)) st = snd (reap_idle busy idle now st)"

definition use_servers :: "server_op list \<Rightarrow> compile_servers" where
  "use_servers ops = fold server_step ops servers_new"

text \<open>Whether an operation leaves the slot at \<open>key\<close> to the build that used it last.\<close>

fun leaves_slot :: "string \<Rightarrow> server_op \<Rightarrow> bool" where
  "leaves_slot key (PoolRequest bd) \<longleftrightarrow> build_key bd \<noteq> key"
| "leaves_slot key (PoolForget session) \<longleftrightarrow> key \<noteq> slot_key session Program \<and> key \<noteq> slot_key session Tests"
| "leaves_slot key (PoolReap _) \<longleftrightarrow> True"

lemma use_servers_run: "use_servers ops = cs.run ops servers_new"
proof -
  have "cs.apply_op = server_step"
  proof (intro ext)
    fix x st
    show "cs.apply_op x st = server_step x st"
      by (cases x) (auto simp: case_prod_beta)
  qed
  then show ?thesis by (simp add: use_servers_def cs.run_def)
qed

lemma spares_leaves: "cs.spares key x = leaves_slot key x"
  by (cases x) (auto, metis kind.exhaust)

section \<open>The compiler's answer\<close>

fun digests :: "(32 word \<times> string) list \<Rightarrow> string option \<Rightarrow> string option" where
  "digests [] d = d"
| "digests ((tag, body) # ms) d = digests ms (if tag = SERVER_EMIT_DIGEST then emitted_digest body d else d)"

definition framed :: "32 word \<times> string \<Rightarrow> bool" where
  "framed m \<longleftrightarrow> length (snd m) \<le> MAX_MESSAGE"

lemma read_answer_frames:
  assumes "list_all framed ms" "list_all (\<lambda>m. fst m \<noteq> SERVER_ERROR_BUNDLE) ms" "framed (SERVER_ERROR_BUNDLE, body)"
  shows "read_answer eof d (concat (map (\<lambda>m. frame (fst m) (snd m)) ms) @ frame SERVER_ERROR_BUNDLE body @ rest)
       = Ready (map_sum id (\<lambda>answer. (answer, rest)) (finish_update body (digests ms d)))"
  using assms
proof (induction ms arbitrary: d)
  case Nil
  then show ?case
    by (subst read_answer.simps) (simp add: read_message_frame framed_def SERVER_EMIT_DIGEST_def SERVER_ERROR_BUNDLE_def)
next
  case (Cons m ms)
  then show ?case
    by (cases m) (subst read_answer.simps, simp add: read_message_frame framed_def id_def)
qed

section \<open>Properties\<close>

text \<open>C36: whatever builds, closed sessions and idle reaps came before, a live compiler runs
  under the sandbox of the last build of its session and kind, and that session has
  not been closed since.\<close>

theorem compilers_run_confined:
  assumes "server_at (use_servers ops) key = Some sv"
  shows "\<exists>before bd later. ops = before @ PoolRequest bd # later \<and> build_key bd = key
     \<and> ps_confinement sv = confinement_of (bd_sandbox bd) \<and> list_all (leaves_slot key) later"
  using cs.live_after_run [of servers_new ops key sv] assms
  by (simp add: use_servers_run spares_leaves [abs_def] server_at_def servers_new_def)

definition demo_digest :: string where
  "demo_digest = replicate 17 (CHR 0x0F)"

definition demo_build :: build where
  "demo_build = \<lparr>bd_session = ''s'', bd_kind = Program, bd_root = [''s''], bd_sandbox = None,
     bd_launched = Inr (frame SERVER_ZIG_VERSION ''0.16'', False), bd_wrote = Inr (),
     bd_answer = frame SERVER_EMIT_DIGEST demo_digest @ frame SERVER_ERROR_BUNDLE (pack_bundle [] []),
     bd_eof = False, bd_cancelled = False, bd_now = 5\<rparr>"

lemma demo_answer:
  "read_answer False None (frame SERVER_EMIT_DIGEST demo_digest @ frame SERVER_ERROR_BUNDLE (pack_bundle [] []))
     = Ready (Inr (AnswerBuilt (concat (map hex_byte (tl demo_digest))), []))"
proof -
  have l: "length demo_digest = 17" "length (pack_bundle [] []) = 8"
    by (simp_all add: demo_digest_def pack_bundle_def)
  have e: "render_error_bundle (pack_bundle [] []) = Inr []"
    by (simp add: render_error_bundle_def read_bundle_def word_at_def pack_bundle_def)
  show ?thesis
    using read_answer_frames [of "[(SERVER_EMIT_DIGEST, demo_digest)]" "pack_bundle [] []" False None "[]"]
    by (simp add: framed_def MAX_MESSAGE_def SERVER_EMIT_DIGEST_def SERVER_ERROR_BUNDLE_def
        finish_update_def e l emitted_digest_def)
qed

lemma demo_greeting: "greeting False (frame SERVER_ZIG_VERSION ''0.16'') = Inr []"
  using read_message_frame [of "''0.16''" False SERVER_ZIG_VERSION "[]"]
  by (simp add: greeting_def MAX_MESSAGE_def)

lemma demo_ready:
  "ready_slot (slot_key ''s'' Program) demo_build pool_new =
     \<lparr>pl_slots = [(slot_key ''s'' Program,
        Some \<lparr>ps_pid = 0, ps_confinement = Unconfined, ps_last_used = 5, sv_unread = []\<rparr>)],
      pl_started = 1, pl_stopped = []\<rparr>"
proof -
  have l: "bd_launched demo_build = Inr (frame SERVER_ZIG_VERSION ''0.16'', False)" "bd_sandbox demo_build = None"
    "bd_now demo_build = 5"
    by (simp_all add: demo_build_def)
  show ?thesis
    by (simp add: ready_slot_def spawn_server_def l demo_greeting entry_def pool_new_def slot_of_def
        set_slot_def confinement_of_def)
qed

lemma demo_server:
  "server_at (use_servers [PoolRequest demo_build]) (slot_key ''s'' Program) =
     Some \<lparr>ps_pid = 0, ps_confinement = Unconfined, ps_last_used = 5, sv_unread = []\<rparr>"
proof -
  have l: "bd_session demo_build = ''s''" "bd_kind demo_build = Program" "bd_now demo_build = 5"
    "bd_cancelled demo_build = False" "bd_wrote demo_build = Inr ()" "bd_eof demo_build = False"
    "bd_answer demo_build = frame SERVER_EMIT_DIGEST demo_digest @ frame SERVER_ERROR_BUNDLE (pack_bundle [] [])"
    by (simp_all add: demo_build_def)
  show ?thesis
    by (simp add: use_servers_def servers_new_def update_inner_def l demo_ready request_update_def demo_answer
        server_at_def slot_of_def set_slot_def)
qed

theorem compilers_run_confined_witness:
  "\<exists>before bd later. [PoolRequest demo_build] = before @ PoolRequest bd # later \<and> build_key bd = slot_key ''s'' Program
     \<and> Unconfined = confinement_of (bd_sandbox bd) \<and> list_all (leaves_slot (slot_key ''s'' Program)) later"
  using compilers_run_confined [OF demo_server] by simp

text \<open>C37: every compiler ever started is in exactly one slot or was told to stop, whatever
  failed in between.\<close>

theorem compilers_are_accounted_for:
  "mset (pids (pl_slots (cs_pool (use_servers ops)))) + mset (pl_stopped (cs_pool (use_servers ops)))
     = mset [0..<pl_started (cs_pool (use_servers ops))]"
  using cs.run_balanced [of servers_new ops]
  by (simp add: use_servers_run servers_new_def accounted_def [of "cs_pool _"])

text \<open>A build that gives no answer leaves no compiler in its slot, so a stream that may be
  out of step is never read again; one that answers keeps its compiler.\<close>

theorem unanswered_build_drops_compiler:
  "(fst (update_inner bd st) = None) = (server_at (snd (update_inner bd st)) (slot_key (bd_session bd) (bd_kind bd)) = None)"
  using update_slot [of bd st] by (cases "fst (update_inner bd st)") (auto simp: build_key_def)

text \<open>Whatever messages the compiler sends first and however the pipe cuts them, an update
  ends with its error bundle: failed with the bundle's text, or built under the last digest
  announced; and what follows the bundle is left for the next update.\<close>

theorem update_ends_at_bundle:
  assumes "list_all framed ms" "list_all (\<lambda>m. fst m \<noteq> SERVER_ERROR_BUNDLE) ms" "framed (SERVER_ERROR_BUNDLE, body)"
    "render_error_bundle body = Inr errors"
  shows "request_update (Inr ()) eof (concat (map (\<lambda>m. frame (fst m) (snd m)) ms) @ frame SERVER_ERROR_BUNDLE body @ rest)
    = Ready (if errors \<noteq> [] then Inr (AnswerFailed errors, rest)
             else (case digests ms None of
                     Some digest \<Rightarrow> Inr (AnswerBuilt digest, rest)
                   | None \<Rightarrow> Inl ''build finished without an executable''))"
  using read_answer_frames [OF assms(1-3), of eof None rest] assms(4)
  by (simp add: request_update_def finish_update_def split: option.split)

theorem update_ends_at_bundle_witness:
  "request_update (Inr ()) False (frame SERVER_EMIT_DIGEST demo_digest @ frame SERVER_ERROR_BUNDLE (pack_bundle [] []) @ ''x'')
     = Ready (Inr (AnswerBuilt (concat (map hex_byte (tl demo_digest))), ''x''))"
proof -
  have l: "length demo_digest = 17" "length (pack_bundle [] []) = 8"
    by (simp_all add: demo_digest_def pack_bundle_def)
  have e: "render_error_bundle (pack_bundle [] []) = Inr []"
    by (simp add: render_error_bundle_def read_bundle_def word_at_def pack_bundle_def)
  show ?thesis
    using update_ends_at_bundle [of "[(SERVER_EMIT_DIGEST, demo_digest)]" "pack_bundle [] []" "[]" False "''x''"]
    by (simp add: framed_def MAX_MESSAGE_def SERVER_EMIT_DIGEST_def SERVER_ERROR_BUNDLE_def e l emitted_digest_def)
qed

end
