(* ===== verification/ZigDiagnostics.thy ===== *)
theory ZigDiagnostics
  imports Parsing CompileServer
begin

text \<open>
  src/apps/server-rs/src/languages/zig/diagnostics.rs: the compiler's text
  turned into diagnostics of the project's own files, the tests declared in the
  sources, and the test behind the name a test runner reports.
\<close>

section \<open>Patterns\<close>

definition compiler_location :: rx where
  "compiler_location = seqs [AtStart, Cap 1 (Seq (Star (Cls any_char)) (lit ''.zig'')), lit '':'', Cap 2 digits, lit '':'',
     Cap 3 digits, lit '': '', Cap 4 (alts [lit ''error'', lit ''warning'', lit ''note'']), lit '': '',
     Cap 5 (plus (Cls any_char)), AtEnd]"

definition not_space_colon :: "string \<Rightarrow> bool" where
  "not_space_colon c \<longleftrightarrow> \<not> is_ws c \<and> c \<noteq> '':''"

definition location_anywhere :: rx where
  "location_anywhere = seqs [Cap 1 (Seq (Star (Cls not_space_colon)) (lit ''.zig'')), lit '':'', Cap 2 digits, lit '':'', Cap 3 digits]"

definition dquote :: string where
  "dquote = [CHR 0x22]"

definition backslash :: string where
  "backslash = [CHR 0x5C]"

definition string_test :: rx where
  "string_test = seqs [AtStart, Cap 1 spaces, lit ''test'', plus (Cls is_ws), lit dquote,
     Cap 2 (Star (Alt (Cls (none_of (dquote @ backslash))) (Seq (lit backslash) (Cls any_char)))), lit dquote]"

definition ident_start :: "string \<Rightarrow> bool" where
  "ident_start c \<longleftrightarrow> word_class c \<and> \<not> digit_class c"

definition decl_test :: rx where
  "decl_test = seqs [AtStart, Cap 1 spaces, lit ''test'', plus (Cls is_ws),
     Cap 2 (Seq (Cls ident_start) (Star (Cls word_class))), spaces, lit ''{'']"

section \<open>Paths\<close>

definition dirname :: "string \<Rightarrow> string" where
  "dirname p = (case rfind_char p (CHR ''/'') of Some i \<Rightarrow> take i p | None \<Rightarrow> ''.'')"

definition generated_path_aliases :: "string \<Rightarrow> string list" where
  "generated_path_aliases generated_path =
     (let normalized = slashed generated_path; parts = split_on (CHR ''/'') normalized;
          relative = (if 2 \<le> length parts then join_with ''/'' (drop (length parts - 2) parts) else normalized)
      in if relative = normalized then [normalized] else [normalized, relative])"

definition generated_project_path :: "string \<Rightarrow> string \<Rightarrow> string option" where
  "generated_project_path p generated_path =
     (let normalized = slashed p; root = slashed (dirname generated_path) in
      case strip_prefix normalized (root @ ''/'') of
        Some rest \<Rightarrow> Some (''src/'' @ rest)
      | None \<Rightarrow>
        (case strip_prefix normalized (dirname root @ ''/src'' @ ''/'') of
           Some rest \<Rightarrow> Some (''src/'' @ rest)
         | None \<Rightarrow>
             if starts_with normalized ''src/'' \<and> \<not> contains normalized ''..'' then Some normalized
             else (case rfind_sub normalized ''generated/'' of
                     Some i \<Rightarrow> Some (''src/'' @ drop (i + length ''generated/'') normalized)
                   | None \<Rightarrow>
                       if normalized \<in> set (generated_path_aliases generated_path)
                       then Some (''src/'' @ last (split_on (CHR ''/'') normalized))
                       else None)))"

section \<open>Compiler output\<close>

record reference =
  rf_path :: string
  rf_line :: nat
  rf_column :: nat

text \<open>The first location of a line that is in the project; a number of it that does not
  fit a u32 ends the search.\<close>

fun first_reference :: "string \<Rightarrow> groups list \<Rightarrow> reference option" where
  "first_reference generated_path [] = None"
| "first_reference generated_path (c # cs) =
     (case generated_project_path (group_text c 1) generated_path of
        None \<Rightarrow> first_reference generated_path cs
      | Some project_path \<Rightarrow>
          Option.bind (parse_unsigned 32 (group_text c 2)) (\<lambda>line.
          Option.bind (parse_unsigned 32 (group_text c 3)) (\<lambda>column.
            Some \<lparr>rf_path = project_path, rf_line = line, rf_column = column\<rparr>)))"

definition generated_reference :: "string \<Rightarrow> string \<Rightarrow> reference option" where
  "generated_reference line generated_path = first_reference generated_path (captures_iter location_anywhere line)"

fun find_generated_reference :: "string list \<Rightarrow> string \<Rightarrow> reference option" where
  "find_generated_reference [] generated_path = None"
| "find_generated_reference (line # lines) generated_path =
     (if (case captures compiler_location line of
            Some c \<Rightarrow> group_text c 4 = ''error'' \<or> group_text c 4 = ''warning'' | None \<Rightarrow> False)
      then None
      else (case generated_reference line generated_path of
              Some r \<Rightarrow> Some r
            | None \<Rightarrow> find_generated_reference lines generated_path))"

definition compiler_severity :: "string \<Rightarrow> severity" where
  "compiler_severity level =
     (if level = ''error'' then SevError else if level = ''warning'' then SevWarning else SevInformation)"

definition compiler_diagnostic :: "string \<Rightarrow> string list \<Rightarrow> groups \<Rightarrow> app_diagnostic" where
  "compiler_diagnostic generated_path later c =
     (let p = group_text c 1; message = group_text c 5;
          project_path = generated_project_path p generated_path;
          reference = (if project_path \<noteq> None then None else find_generated_reference later generated_path)
      in basic_diagnostic (if project_path \<noteq> None then message else message @ '' ('' @ p @ '')'')
           (case reference of Some r \<Rightarrow> Some (rf_path r) | None \<Rightarrow> project_path)
           (compiler_severity (group_text c 4))
           (case reference of Some r \<Rightarrow> rf_line r | None \<Rightarrow> number_or_one (group c 2))
           (case reference of Some r \<Rightarrow> rf_column r | None \<Rightarrow> number_or_one (group c 3))
           ''zig'')"

fun diagnostics_of :: "string \<Rightarrow> string list \<Rightarrow> app_diagnostic list" where
  "diagnostics_of generated_path [] = []"
| "diagnostics_of generated_path (line # lines) =
     (case captures compiler_location line of
        None \<Rightarrow> diagnostics_of generated_path lines
      | Some c \<Rightarrow> compiler_diagnostic generated_path lines c # diagnostics_of generated_path lines)"

fun severity_debug :: "severity \<Rightarrow> string" where
  "severity_debug SevError = ''Error''"
| "severity_debug SevWarning = ''Warning''"
| "severity_debug SevInformation = ''Information''"
| "severity_debug SevHint = ''Hint''"

definition zig_key :: "app_diagnostic \<Rightarrow> string" where
  "zig_key d = (case ad_path d of Some p \<Rightarrow> p | None \<Rightarrow> []) @ '':'' @ show_nat (ad_line d) @ '':''
     @ show_nat (ad_column d) @ '':'' @ severity_debug (ad_severity d) @ '':'' @ ad_message d"

fun dedupe_seen :: "string list \<Rightarrow> app_diagnostic list \<Rightarrow> app_diagnostic list" where
  "dedupe_seen seen [] = []"
| "dedupe_seen seen (d # ds) =
     (if zig_key d \<in> set seen then dedupe_seen seen ds else d # dedupe_seen (zig_key d # seen) ds)"

definition dedupe :: "app_diagnostic list \<Rightarrow> app_diagnostic list" where
  "dedupe ds = dedupe_seen [] ds"

definition parse_compiler_diagnostics :: "string \<Rightarrow> string \<Rightarrow> app_diagnostic list" where
  "parse_compiler_diagnostics stderr generated_path =
     dedupe (diagnostics_of generated_path (map (trim_end_char (CHR 0x0D)) (split_lines stderr)))"

section \<open>Test discovery\<close>

fun unescape_chars :: "string list \<Rightarrow> string" where
  "unescape_chars [] = []"
| "unescape_chars (c # cs) =
     (if c = backslash then (case cs of [] \<Rightarrow> [] | d # ds \<Rightarrow> d @ unescape_chars ds)
      else c @ unescape_chars cs)"

definition unescape_title :: "string \<Rightarrow> string" where
  "unescape_title raw = unescape_chars (str_chars raw)"

definition zig_test :: "project_file \<Rightarrow> nat \<Rightarrow> string \<Rightarrow> test_case option" where
  "zig_test file index line =
     (let string_match = captures string_test line;
          capture = (case string_match of Some c \<Rightarrow> Some c | None \<Rightarrow> captures decl_test line)
      in map_option (\<lambda>c.
           \<lparr>tc_test_id = pf_path file @ '':'' @ show_nat (index + 1), tc_path = ''src/'' @ pf_path file,
            tc_name = (if string_match \<noteq> None then unescape_title (group_text c 2) else group_text c 2),
            tc_line = index + 1, tc_column = length (group_text c 1) + 1\<rparr>) capture)"

definition discover_tests :: "project_file list \<Rightarrow> test_case list" where
  "discover_tests files =
     concat (map (\<lambda>file. tests_from (zig_test file) 0 (split_lines (pf_source file)))
       (filter (\<lambda>file. ends_with (pf_path file) ''.zig'') files))"

section \<open>The test behind a reported name\<close>

definition expected_prefix :: "string \<Rightarrow> string" where
  "expected_prefix p =
     replace_char (CHR ''/'') (CHR ''.'') (case strip_suffix p ''.zig'' of Some s \<Rightarrow> s | None \<Rightarrow> p)"

definition test_marker :: string where
  "test_marker = ''.test.''"

definition find_test :: "(test_case \<Rightarrow> bool) \<Rightarrow> test_case list \<Rightarrow> test_case option" where
  "find_test P catalog = (case filter P catalog of [] \<Rightarrow> None | t # _ \<Rightarrow> Some t)"

text \<open>\<open>from\<close> is where the search for the next marker starts.\<close>

function match_marker :: "test_case list \<Rightarrow> string \<Rightarrow> nat \<Rightarrow> test_case option" where
  "match_marker catalog runner_name start =
     (case find_sub (drop start runner_name) test_marker of
        None \<Rightarrow> None
      | Some offset \<Rightarrow>
          let index = start + offset;
              pfx = take index runner_name; title = drop (index + length test_marker) runner_name
          in (case find_test (\<lambda>c. expected_prefix (tc_path c) = pfx \<and> tc_name c = title) catalog of
                Some t \<Rightarrow> Some t
              | None \<Rightarrow> match_marker catalog runner_name (index + 1)))"
  by pat_completeness auto
termination
  by (relation "measure (\<lambda>(catalog, name, start). length name - start)")
    (auto simp: test_marker_def dest: find_sub_length)

declare match_marker.simps [simp del]

definition match_runner_name :: "test_case list \<Rightarrow> string \<Rightarrow> test_case option" where
  "match_runner_name catalog runner_name =
     (case match_marker catalog runner_name 0 of
        Some t \<Rightarrow> Some t
      | None \<Rightarrow>
          let fallback = (case find_sub runner_name test_marker of
                Some i \<Rightarrow> drop (i + length test_marker) runner_name
              | None \<Rightarrow> last (split_on (CHR ''.'') runner_name))
          in find_test (\<lambda>c. tc_name c = fallback) catalog)"

section \<open>A line of the compiler\<close>

text \<open>A path the compiler can name: ASCII, ending in .zig, without a colon or a line feed.\<close>

definition zig_path :: "string \<Rightarrow> bool" where
  "zig_path p \<longleftrightarrow> plain p \<and> ends_with p ''.zig'' \<and> CHR '':'' \<notin> set p \<and> lf \<notin> set p"

definition one_line_message :: "string \<Rightarrow> bool" where
  "one_line_message m \<longleftrightarrow> plain m \<and> m \<noteq> [] \<and> lf \<notin> set m \<and> CHR 0x0D \<notin> set m \<and> \<not> contains m ''.zig:''"

fun level_name :: "severity \<Rightarrow> string" where
  "level_name SevError = ''error''"
| "level_name SevWarning = ''warning''"
| "level_name _ = ''note''"

definition compiler_line :: "string \<Rightarrow> nat \<Rightarrow> nat \<Rightarrow> severity \<Rightarrow> string \<Rightarrow> string" where
  "compiler_line p line column level m =
     p @ '':'' @ show_nat line @ '':'' @ show_nat column @ '': '' @ level_name level @ '': '' @ m"

lemma show_nat_plain [simp]: "plain (show_nat n)"
  by (rule plain_digits) (rule show_nat_digits)

lemma show_nat_digit: "c \<in> set (show_nat n) \<Longrightarrow> ascii_digit c"
  using show_nat_digits [of n] by (simp add: list_all_iff)

lemma after_number:
  assumes "plain rest" "\<not> ascii_digit c" "byte c < 128"
  shows "matches (Seq (Cap i digits) (Seq (lit (c # l)) r)) (pre, show_nat n @ c # rest, caps) =
     matches (Seq (lit (c # l)) r) (pre @ show_nat n, c # rest, (i, length pre, show_nat n) # caps)"
proof (rule matches_captured_run)
  fix k assume "0 < k" "k < length (show_nat n)"
  then obtain d ds where d: "drop k (show_nat n) = d # ds" by (cases "drop k (show_nat n)") auto
  then have "d \<in> set (show_nat n)" by (metis in_set_dropD list.set_intros(1))
  from show_nat_digit [OF this] assms(2) have "d \<noteq> c" "byte d < 128" by (auto simp: ascii_digit_def)
  with d show "matches (Seq (lit (c # l)) r) (pre @ take k (show_nat n), drop k (show_nat n) @ c # rest,
      (i, length pre, take k (show_nat n)) # caps) = []"
    by (simp add: next_char_plain)
qed (use assms show_nat_plain [of n] in \<open>auto simp: show_nat_digit plain_def\<close>)

lemma level_matches:
  "matches (Seq (Cap i (alts [lit ''error'', lit ''warning'', lit ''note''])) (Seq (lit '': '') r))
     (pre, level_name level @ '': '' @ m, caps) =
   matches r (pre @ level_name level @ '': '', m, (i, length pre, level_name level) # caps)"
  by (cases level) (simp_all add: next_char_def utf8_width_def byte_def)

lemma message_matches:
  assumes "plain m" "m \<noteq> []" "lf \<notin> set m"
  shows "matches (Seq (Cap i (plus (Cls any_char))) AtEnd) (pre, m, caps) = [(pre @ m, [], (i, length pre, m) # caps)]"
proof -
  have "matches (Seq (Cap i (plus (Cls any_char))) AtEnd) (pre, m @ [], caps) =
      matches AtEnd (pre @ m, [], (i, length pre, m) # caps)"
    by (rule matches_captured_run) (use assms in \<open>auto simp: lf_def\<close>)
  then show ?thesis by simp
qed

lemma seqs_compiler:
  "matches compiler_location p = matches (Seq AtStart (Seq (Cap 1 (Seq (Star (Cls any_char)) (lit ''.zig'')))
     (Seq (lit '':'') (Seq (Cap 2 digits) (Seq (lit '':'') (Seq (Cap 3 digits) (Seq (lit '': '')
     (Seq (Cap 4 (alts [lit ''error'', lit ''warning'', lit ''note''])) (Seq (lit '': '')
     (Seq (Cap 5 (plus (Cls any_char))) AtEnd)))))))))) p"
  by (simp add: compiler_location_def)

text \<open>The tail of the pattern, after the path.\<close>

definition after_path :: rx where
  "after_path = Seq (lit '':'') (Seq (Cap 2 digits) (Seq (lit '':'') (Seq (Cap 3 digits) (Seq (lit '': '')
     (Seq (Cap 4 (alts [lit ''error'', lit ''warning'', lit ''note''])) (Seq (lit '': '')
     (Seq (Cap 5 (plus (Cls any_char))) AtEnd)))))))"

lemma after_path_matches:
  assumes "one_line_message m"
  shows "matches after_path (pre, '':'' @ show_nat line @ '':'' @ show_nat column @ '': '' @ level_name level @ '': '' @ m, caps) =
    [(pre @ '':'' @ show_nat line @ '':'' @ show_nat column @ '': '' @ level_name level @ '': '' @ m, [],
      (5, length pre + length ('':'' @ show_nat line @ '':'' @ show_nat column @ '': '' @ level_name level @ '': ''), m)
      # (4, length pre + length ('':'' @ show_nat line @ '':'' @ show_nat column @ '': ''), level_name level)
      # (3, length pre + length ('':'' @ show_nat line @ '':''), show_nat column)
      # (2, length pre + 1, show_nat line) # caps)]"
proof -
  have lv: "plain (level_name level)" by (cases level) (simp_all add: plain_def byte_def)
  have m: "plain m" "m \<noteq> []" "lf \<notin> set m" using assms by (simp_all add: one_line_message_def)
  have c: "\<not> ascii_digit (CHR '':'')" "byte (CHR '':'') < 128" "byte (CHR '' '') < 128" by (simp_all add: ascii_digit_def byte_def)
  let ?tail = "level_name level @ '': '' @ m"
  have p1: "plain ('' '' @ ?tail)" "plain (show_nat column @ '': '' @ ?tail)"
    using lv m(1) c show_nat_plain [of column] by (simp_all add: plain_def)
  have "matches after_path (pre, '':'' @ show_nat line @ '':'' @ show_nat column @ '': '' @ ?tail, caps) =
      matches (Seq (Cap 2 digits) (Seq (lit '':'') (Seq (Cap 3 digits) (Seq (lit '': '')
     (Seq (Cap 4 (alts [lit ''error'', lit ''warning'', lit ''note''])) (Seq (lit '': '')
     (Seq (Cap 5 (plus (Cls any_char))) AtEnd)))))))
       (pre @ '':'', show_nat line @ CHR '':'' # show_nat column @ '': '' @ ?tail, caps)"
    unfolding after_path_def by (subst matches_lit_then) (simp_all add: plain_def c)
  also have "\<dots> = matches (Seq (Cap 3 digits) (Seq (lit '': '')
     (Seq (Cap 4 (alts [lit ''error'', lit ''warning'', lit ''note''])) (Seq (lit '': '')
     (Seq (Cap 5 (plus (Cls any_char))) AtEnd)))))
       (pre @ '':'' @ show_nat line @ '':'', show_nat column @ CHR '':'' # '' '' @ ?tail, (2, length pre + 1, show_nat line) # caps)"
    by (subst after_number [OF p1(2) c(1,2)], subst matches_lit_then) (simp_all add: plain_def c)
  also have "\<dots> = matches (Seq (Cap 4 (alts [lit ''error'', lit ''warning'', lit ''note''])) (Seq (lit '': '')
     (Seq (Cap 5 (plus (Cls any_char))) AtEnd)))
       (pre @ '':'' @ show_nat line @ '':'' @ show_nat column @ '': '', ?tail,
        (3, length pre + length ('':'' @ show_nat line @ '':''), show_nat column) # (2, length pre + 1, show_nat line) # caps)"
    by (subst after_number [OF p1(1) c(1,2)], subst matches_lit_then) (simp_all add: plain_def c)
  also have "\<dots> = [(pre @ '':'' @ show_nat line @ '':'' @ show_nat column @ '': '' @ level_name level @ '': '' @ m, [],
      (5, length pre + length ('':'' @ show_nat line @ '':'' @ show_nat column @ '': '' @ level_name level @ '': ''), m)
      # (4, length pre + length ('':'' @ show_nat line @ '':'' @ show_nat column @ '': ''), level_name level)
      # (3, length pre + length ('':'' @ show_nat line @ '':''), show_nat column)
      # (2, length pre + 1, show_nat line) # caps)]"
    by (subst level_matches, subst message_matches [OF m]) simp
  finally show ?thesis .
qed

text \<open>No other split of the line puts \<open>.zig:\<close> before a location.\<close>

lemma drop_beyond: "length a \<le> k \<Longrightarrow> drop k (a @ b) = drop (k - length a) b"
  by simp

lemma other_splits:
  assumes "zig_path p" "one_line_message m" "take 5 (drop k (compiler_line p line column level m)) = ''.zig:''"
  shows "k = length p - 4"
proof -
  let ?mid = "'':'' @ show_nat line @ '':'' @ show_nat column @ '': '' @ level_name level @ '': ''"
  let ?l = "compiler_line p line column level m"
  have l: "?l = p @ ?mid @ m" by (simp add: compiler_line_def)
  have zig: "length p \<ge> 4" using assms(1) by (simp add: zig_path_def ends_with_def)
  have len: "k + 5 \<le> length ?l" using arg_cong [OF assms(3), of length] by simp
  have at: "?l ! (k + j) = ''.zig:'' ! j" if "j < 5" for j
    using arg_cong [OF assms(3), of "\<lambda>s. s ! j"] that len by simp
  have nodot: "CHR ''.'' \<notin> set ?mid"
  proof -
    have "CHR ''.'' \<notin> set (level_name level)" by (cases level) simp_all
    moreover have "\<not> ascii_digit (CHR ''.'')" by (simp add: ascii_digit_def byte_def)
    ultimately show ?thesis using show_nat_digit by auto
  qed
  have colon: "?l ! i \<noteq> CHR '':''" if "i < length p" for i
    using that assms(1) unfolding l by (metis nth_append nth_mem zig_path_def)
  have c4: "?l ! (k + 4) = CHR '':''" and c0: "?l ! k = CHR ''.''" using at [of 4] at [of 0] by simp_all
  have "length p \<le> k + 4" using colon [of "k + 4"] c4 by (meson not_less)
  moreover have "\<not> length p < k + 4"
  proof
    assume far: "length p < k + 4"
    have sep: "?l ! length p = CHR '':''" unfolding l by (simp add: nth_append)
    show False
    proof (cases "k \<le> length p")
      case True
      then obtain j where j: "length p = k + j" "j < 4" using far le_Suc_ex by fastforce
      have "''.zig:'' ! j \<noteq> CHR '':''" using j(2) by (auto simp: less_Suc_eq numeral_eq_Suc)
      with at [of j] j sep show False by simp
    next
      case False
      show False
      proof (cases "k < length p + length ?mid")
        case True
        then have "?l ! k = ?mid ! (k - length p)"
          using False unfolding l by (subst nth_append, subst nth_append) (simp add: less_diff_conv2)
        moreover have "?mid ! (k - length p) \<in> set ?mid" using True False by (intro nth_mem) simp
        ultimately show False using c0 nodot by metis
      next
        case inside: False
        then have "length (p @ ?mid) \<le> k" using False by simp
        then have "drop k ?l = drop (k - length (p @ ?mid)) m"
          using drop_beyond [of "p @ ?mid" k m] l by (metis append.assoc)
        then obtain v where "drop (k - length (p @ ?mid)) m = ''.zig:'' @ v"
          using assms(3) by (metis append_take_drop_id)
        then have "m = take (k - length (p @ ?mid)) m @ ''.zig:'' @ v" by (metis append_take_drop_id)
        then have "contains m ''.zig:''" unfolding contains_iff by blast
        with assms(2) show False by (simp add: one_line_message_def)
      qed
    qed
  qed
  ultimately show ?thesis by simp
qed

lemma after_path_colon: "matches after_path (pre, s, caps) \<noteq> [] \<Longrightarrow> take 1 s = '':''"
  unfolding after_path_def by (subst (asm) matches_lit_then) (auto simp: plain_def byte_def split: if_splits)

lemma compiler_line_plain:
  "zig_path p \<Longrightarrow> one_line_message m \<Longrightarrow> plain (compiler_line p line column level m)"
  by (cases level)
    (use show_nat_plain [of line] show_nat_plain [of column] in \<open>auto simp: compiler_line_def zig_path_def one_line_message_def plain_def byte_def\<close>)

lemma compiler_line_one_line:
  assumes "zig_path p" "one_line_message m"
  shows "lf \<notin> set (compiler_line p line column level m)"
proof -
  have "lf \<notin> set (show_nat n)" for n using show_nat_digit [of lf n] by (auto simp: lf_def ascii_digit_def byte_def)
  moreover have "lf \<notin> set (level_name level)" by (cases level) (simp_all add: lf_def)
  ultimately show ?thesis using assms by (auto simp: compiler_line_def zig_path_def one_line_message_def lf_def)
qed

lemma compiler_line_captures:
  assumes "zig_path p" "one_line_message m"
  shows "\<exists>a b c d e. captures compiler_location (compiler_line p line column level m) =
    Some [(0, a), (5, b, m), (4, c, level_name level), (3, d, show_nat column), (2, e, show_nat line), (1, 0, p)]"
proof -
  let ?l = "compiler_line p line column level m"
  let ?k = "length p - 4"
  have zig: "4 \<le> length p" "drop ?k p = ''.zig''" using assms(1) by (simp_all add: zig_path_def ends_with_def numeral_eq_Suc)
  have all: "run_length any_char ?l = length ?l"
  proof -
    have "takeWhile (\<lambda>b. any_char [b]) ?l = ?l"
      using compiler_line_one_line [OF assms, of line column level] by (auto simp: takeWhile_eq_all_conv lf_def)
    then show ?thesis by (simp only: run_length_def)
  qed
  let ?f = "\<lambda>i. if take 4 (drop i ?l) = ''.zig''
      then matches after_path (take i ?l @ ''.zig'', drop 4 (drop i ?l), [(1, 0, take i ?l @ ''.zig'')]) else []"
  have "matches (Seq (Cap 1 (Seq (Star (Cls any_char)) (lit ''.zig''))) after_path) ([], ?l, [])
      = concat (map ?f (rev [0..<Suc (length ?l)]))"
  proof -
    have z: "plain ''.zig''" "length ''.zig'' = 4" by (simp_all add: plain_def byte_def)
    have "matches (Seq (Star (Cls any_char)) (lit ''.zig'')) ([], ?l, []) =
        concat (map (\<lambda>i. if take 4 (drop i ?l) = ''.zig'' then [(take i ?l @ ''.zig'', drop 4 (drop i ?l), [])] else [])
          (rev [0..<Suc (length ?l)]))"
      unfolding matches.simps(3) matches_star_class [OF compiler_line_plain [OF assms]] all
      by (simp only: map_map comp_def matches_lit [OF z(1)] z(2) append_Nil)
    then show ?thesis
      unfolding matches_cap
      by (simp only: concat_map_concat) (intro arg_cong [where f = concat] map_cong, auto)
  qed
  also have "\<dots> = ?f ?k"
  proof (rule concat_single)
    have "length p \<le> length ?l" by (simp add: compiler_line_def)
    then show "?k \<in> set (rev [0..<Suc (length ?l)])" by (simp del: upt_Suc)
    fix j assume "j \<noteq> ?k"
    then have "take 5 (drop j ?l) \<noteq> ''.zig:''" using other_splits [OF assms] by blast
    moreover have "take 5 (drop j ?l) = take 4 (drop j ?l) @ take 1 (drop 4 (drop j ?l))"
      by (metis take_add numeral_plus_one semiring_norm(5))
    ultimately show "?f j = []" using after_path_colon by (metis append.assoc append_Cons append_Nil)
  qed simp
  also have "\<dots> = matches after_path (p, drop (length p) ?l, [(1, 0, p)])"
  proof -
    have "p = take ?k p @ ''.zig''" using zig(2) by (metis append_take_drop_id)
    moreover have "take ?k ?l = take ?k p" "drop ?k ?l = drop ?k p @ drop (length p) ?l"
      by (simp_all add: compiler_line_def)
    ultimately show ?thesis using zig by simp
  qed
  finally have m: "matches compiler_location ([], ?l, []) = matches after_path (p, drop (length p) ?l, [(1, 0, p)])"
    unfolding seqs_compiler after_path_def by simp
  show ?thesis
    using m after_path_matches [OF assms(2), of p line column level "[(1, 0, p)]"]
    by (subst captures_at_start [where ps = "[]"]) (auto simp: compiler_line_def)
qed

section \<open>Text of the compiler server\<close>

text \<open>A report all of whose messages have a place in the project and no trace, as the
  list of its lines: path, line, column, level and message.\<close>

type_synonym located_line = "string \<times> nat \<times> nat \<times> severity \<times> string"

fun line_text :: "located_line \<Rightarrow> string" where
  "line_text (p, line, column, level, m) = compiler_line p line column level m"

fun line_ok :: "string \<Rightarrow> located_line \<Rightarrow> bool" where
  "line_ok g (p, line, column, level, m) \<longleftrightarrow> zig_path p \<and> one_line_message m
     \<and> generated_project_path p g \<noteq> None \<and> line < 2 ^ 32 \<and> column < 2 ^ 32 \<and> level \<noteq> SevHint"

fun line_diagnostic :: "string \<Rightarrow> located_line \<Rightarrow> app_diagnostic" where
  "line_diagnostic g (p, line, column, level, m) =
     basic_diagnostic m (generated_project_path p g) level line column ''zig''"

fun report_lines :: "severity \<Rightarrow> report \<Rightarrow> located_line list" where
  "report_lines level (Report m (Some (Place p line column, _)) ns) =
     (p, unat (line + 1), unat (column + 1), level, m) # concat (map (report_lines SevInformation) ns)"
| "report_lines level (Report m None ns) = concat (map (report_lines SevInformation) ns)"

fun located :: "report \<Rightarrow> bool" where
  "located (Report m (Some (_, refs)) ns) \<longleftrightarrow> refs = [] \<and> list_all located ns"
| "located (Report m None ns) \<longleftrightarrow> False"

lemma unlines_append [simp]: "unlines (a @ b) = unlines a @ unlines b"
  by (simp add: unlines_def)

lemma unlines_concat: "unlines (concat ls) = concat (map unlines ls)"
  by (induction ls) (simp_all add: unlines_def)

lemma show_report_lines:
  "located r \<Longrightarrow> show_report (level_name level) r = unlines (map line_text (report_lines level r))"
proof (induction level r rule: report_lines.induct)
  case (1 level m p line column refs ns)
  have eq: "map (show_report ''note'') ns = map (\<lambda>n. unlines (map line_text (report_lines SevInformation n))) ns"
    using 1 by (auto simp: list_all_iff)
  then have "concat (map (show_report ''note'') ns)
      = unlines (map line_text (concat (map (report_lines SevInformation) ns)))"
    by (simp only: eq map_concat unlines_concat map_map comp_def)
  then show ?case
    using 1(2) by (simp add: compiler_line_def show_location_def unlines_def newline_char_def lf_def)
qed simp

lemma no_location_Nil: "captures compiler_location [] = None"
  unfolding captures_def find_from.simps [of _ "[]"] match_at_def seqs_compiler matches.simps(7) by simp

lemma diagnostics_of_lines:
  "list_all (line_ok g) es \<Longrightarrow> diagnostics_of g (map line_text es @ [[]]) = map (line_diagnostic g) es"
proof (induction es)
  case Nil
  then show ?case by (simp add: no_location_Nil)
next
  case (Cons e es)
  obtain p line column level m where e: "e = (p, line, column, level, m)" by (cases e) auto
  have ok: "zig_path p" "one_line_message m" "generated_project_path p g \<noteq> None" "line < 2 ^ 32" "column < 2 ^ 32" "level \<noteq> SevHint"
    using Cons.prems e by simp_all
  obtain a b c d f where cap: "captures compiler_location (compiler_line p line column level m) =
      Some [(0, a), (5, b, m), (4, c, level_name level), (3, d, show_nat column), (2, f, show_nat line), (1, 0, p)]"
    using compiler_line_captures [OF ok(1,2)] by blast
  have "compiler_severity (level_name level) = level"
    using ok(6) by (cases level) (simp_all add: compiler_severity_def)
  then show ?case
    using Cons e ok cap parse_show_nat [of line 32] parse_show_nat [of column 32]
    by (simp add: compiler_diagnostic_def Let_def group_text_def group_def number_or_one_def)
qed

lemma no_cr_lines:
  assumes "line_ok g e"
  shows "trim_end_char (CHR 0x0D) (line_text e) = line_text e"
proof -
  obtain p line column level m where e: "e = (p, line, column, level, m)" by (cases e) auto
  with assms have m: "m \<noteq> []" "CHR 0x0D \<notin> set m" by (simp_all add: one_line_message_def)
  then have "last m \<noteq> CHR 0x0D" using last_in_set by metis
  with m(1) obtain c cs where "rev m = c # cs" "c \<noteq> CHR 0x0D" by (cases "rev m") auto
  then show ?thesis by (simp add: e trim_end_char_def compiler_line_def)
qed

lemma parse_located_lines:
  assumes "list_all (line_ok g) es"
  shows "parse_compiler_diagnostics (unlines (map line_text es)) g = dedupe (map (line_diagnostic g) es)"
proof -
  have "list_all (\<lambda>l. lf \<notin> set l) (map line_text es)"
    using assms compiler_line_one_line by (fastforce simp: list_all_iff)
  moreover have "map (trim_end_char (CHR 0x0D)) (map line_text es @ [[]]) = map line_text es @ [[]]"
  proof -
    have "\<forall>e \<in> set es. trim_end_char (CHR 0x0D) (line_text e) = line_text e"
      using assms no_cr_lines unfolding list_all_iff by blast
    then show ?thesis by (simp add: trim_end_char_def)
  qed
  ultimately show ?thesis
    unfolding parse_compiler_diagnostics_def split_lines_def
    by (simp only: split_on_unlines diagnostics_of_lines [OF assms])
qed

section \<open>Every diagnostic is well formed\<close>

lemma generated_project_path_src: "generated_project_path p g = Some q \<Longrightarrow> starts_with q ''src/''"
  by (auto simp: generated_project_path_def Let_def starts_with_def split: option.splits if_splits)

lemma first_reference_wf:
  "first_reference g cs = Some r \<Longrightarrow> starts_with (rf_path r) ''src/'' \<and> rf_line r < 2 ^ 32 \<and> rf_column r < 2 ^ 32"
proof (induction cs)
  case (Cons c cs)
  then show ?case
    by (auto simp: generated_project_path_src parse_unsigned_32 split: option.splits bind_splits)
qed simp

lemma find_reference_wf:
  "find_generated_reference ls g = Some r \<Longrightarrow> starts_with (rf_path r) ''src/'' \<and> rf_line r < 2 ^ 32 \<and> rf_column r < 2 ^ 32"
  by (induction ls) (auto simp: generated_reference_def dest: first_reference_wf split: option.splits if_splits)

lemma compiler_diagnostic_wf: "wf_diagnostic (compiler_diagnostic g later c)"
  by (auto simp: compiler_diagnostic_def wf_diagnostic_def basic_diagnostic_def Let_def number_or_one_bound
      dest: find_reference_wf generated_project_path_src split: option.split)

lemma dedupe_seen_subset: "set (dedupe_seen seen ds) \<subseteq> set ds"
  by (induction ds arbitrary: seen) auto

lemma diagnostics_of_wf: "list_all wf_diagnostic (diagnostics_of g ls)"
  by (induction g ls rule: diagnostics_of.induct) (auto simp: compiler_diagnostic_wf split: option.split)

lemma zig_diagnostics_wf: "list_all wf_diagnostic (parse_compiler_diagnostics stderr g)"
  using diagnostics_of_wf dedupe_seen_subset
  unfolding parse_compiler_diagnostics_def dedupe_def list_all_iff by (metis subsetD)

section \<open>Reported names\<close>

lemma find_test_Some: "find_test P catalog = Some t \<Longrightarrow> t \<in> set catalog \<and> P t"
  by (auto simp: find_test_def split: list.splits dest!: filter_eq_ConsD)

lemma find_test_None: "find_test P catalog = None \<Longrightarrow> t \<in> set catalog \<Longrightarrow> \<not> P t"
  by (auto simp: find_test_def filter_empty_conv split: list.splits)

definition runner_name_of :: "test_case \<Rightarrow> string" where
  "runner_name_of t = expected_prefix (tc_path t) @ test_marker @ tc_name t"

lemma match_marker_sound: "match_marker catalog n start = Some t \<Longrightarrow> t \<in> set catalog \<and> runner_name_of t = n"
proof (induction catalog n start rule: match_marker.induct)
  case (1 catalog n start)
  obtain off where off: "find_sub (drop start n) test_marker = Some off"
    using 1(2) by (subst (asm) match_marker.simps) (auto split: option.splits)
  let ?i = "start + off"
  show ?case
  proof (cases "find_test (\<lambda>c. expected_prefix (tc_path c) = take ?i n \<and> tc_name c = drop (?i + length test_marker) n) catalog")
    case None
    then show ?thesis using 1 off by (subst (asm) (2) match_marker.simps) (simp add: Let_def)
  next
    case (Some u)
    then have "t = u" using 1(2) off by (subst (asm) match_marker.simps) (simp add: Let_def)
    moreover have "take (length test_marker) (drop ?i n) = test_marker"
      using find_sub_Some [OF off] by (simp add: starts_with_def add.commute)
    then have "n = take ?i n @ test_marker @ drop (?i + length test_marker) n"
      by (metis append_take_drop_id drop_drop add.commute)
    ultimately show ?thesis using find_test_Some [OF Some] unfolding runner_name_of_def by metis
  qed
qed

lemma match_marker_complete:
  "t \<in> set catalog \<Longrightarrow> runner_name_of t = n \<Longrightarrow> start \<le> length (expected_prefix (tc_path t)) \<Longrightarrow>
     match_marker catalog n start \<noteq> None"
proof (induction catalog n start rule: match_marker.induct)
  case (1 catalog n start)
  let ?k = "length (expected_prefix (tc_path t)) - start"
  have at: "drop (start + ?k) n = test_marker @ tc_name t" "take (start + ?k) n = expected_prefix (tc_path t)"
    using 1(3,4) by (auto simp: runner_name_of_def)
  have occurs: "starts_with (drop ?k (drop start n)) test_marker"
    using at(1) by (simp add: add.commute)
  obtain off where off: "find_sub (drop start n) test_marker = Some off" "off \<le> ?k"
  proof -
    have "drop (start + ?k) n \<noteq> []" using at(1) by (simp add: test_marker_def)
    then have "?k < length (drop start n)" by simp
    with find_sub_least [OF occurs] that show thesis by blast
  qed
  show ?case
  proof (cases "find_test (\<lambda>c. expected_prefix (tc_path c) = take (start + off) n
      \<and> tc_name c = drop (start + off + length test_marker) n) catalog")
    case (Some u)
    then show ?thesis using off(1) by (subst match_marker.simps) (simp add: Let_def)
  next
    case None
    have "off \<noteq> ?k"
    proof
      assume "off = ?k"
      then have "expected_prefix (tc_path t) = take (start + off) n \<and> tc_name t = drop (start + off + length test_marker) n"
        using at by (metis append_eq_conv_conj drop_drop add.commute)
      with find_test_None [OF None 1(2)] show False by blast
    qed
    then have "Suc (start + off) \<le> length (expected_prefix (tc_path t))" using off(2) 1(4) by simp
    with 1 off(1) None show ?thesis by (subst match_marker.simps) (simp add: Let_def)
  qed
qed

section \<open>Properties\<close>


text \<open>The name a test runner reports for a catalogued test, its file's path with dots and its
  title, is matched to a test with that name.\<close>

theorem reported_test_is_found:
  assumes "t \<in> set catalog"
  shows "\<exists>t' \<in> set catalog. match_runner_name catalog (runner_name_of t) = Some t' \<and> runner_name_of t' = runner_name_of t"
proof -
  obtain t' where t': "match_marker catalog (runner_name_of t) 0 = Some t'"
    using match_marker_complete [OF assms refl, of 0] by auto
  from match_marker_sound [OF t'] t' show ?thesis by (auto simp: match_runner_name_def)
qed

lemma zig_test_id: "zig_test file i line = Some t \<Longrightarrow> tc_test_id t = id_of_line (pf_path file) i"
  by (auto simp: zig_test_def Let_def id_of_line_def)

lemma zig_catalog_ids: "distinct (map pf_path files) \<Longrightarrow> distinct (map tc_test_id (discover_tests files))"
  unfolding discover_tests_def
  by (rule catalog_ids [where f = zig_test]) (auto simp: zig_test_id distinct_map_filter)

definition demo_zig :: string where
  "demo_zig = ''/s/generated/m.zig''"

definition demo_texts :: string where
  "demo_texts = CHR 0x00 # demo_zig @ CHR 0x00 # ''bc'' @ [CHR 0x00]"

definition demo_extras :: "32 word list" where
  "demo_extras = [1, 15, 0, 1, 3, 4, 0, 0, 0, 0, 0, 20, 1, 3, 0, 11]"

lemma demo_extras_text:
  "bundle_text (packed ws demo_texts) 1 = demo_zig" "bundle_text (packed ws demo_texts) 20 = ''bc''"
  by (simp_all add: bundle_text_def packed_def demo_texts_def demo_zig_def lossy_plain plain_def byte_def)

lemma demo_extras_at: "bu_extra (packed demo_extras demo_texts) i =
    (if unat i < 16 then Inr (demo_extras ! unat i) else Inl malformed)"
  by (simp add: packed_def demo_extras_def)

lemma demo_extras_roots:
  "roots_at (packed demo_extras demo_texts) [Report ''bc'' (Some (Place demo_zig 3 4, [])) []]"
proof -
  let ?b = "packed demo_extras demo_texts"
  have "laid_out ?b 11 (Report (bundle_text ?b 20) (Some (Place (bundle_text ?b 1) 3 4, [])) [])"
    by (rule laid_out.intros [where loc = 3 and count = 0])
      (simp_all add: demo_extras_at place_at_def trace_at_def, simp_all add: demo_extras_def)
  then show ?thesis
    by (simp add: roots_at_def demo_extras_at demo_extras_text, simp add: demo_extras_def)
qed

lemma demo_zig_project: "generated_project_path demo_zig demo_zig = Some ''src/m.zig''"
  by (simp add: generated_project_path_def demo_zig_def dirname_def replace_char_def strip_prefix_def starts_with_def Let_def)

lemma demo_zig_ok: "line_ok demo_zig (demo_zig, 4, 5, SevError, ''bc'')"
proof -
  have "zig_path demo_zig" by (simp add: zig_path_def demo_zig_def plain_def byte_def ends_with_def lf_def)
  moreover have "one_line_message ''bc''"
    by (simp add: one_line_message_def plain_def byte_def lf_def contains_def starts_with_def)
  ultimately show ?thesis by (simp add: demo_zig_project)
qed


theorem reported_test_is_found_witness:
  "\<exists>t' \<in> {\<lparr>tc_test_id = ''a.zig:1'', tc_path = ''src/a.zig'', tc_name = ''x'', tc_line = 1, tc_column = 1\<rparr>}.
     match_runner_name [\<lparr>tc_test_id = ''a.zig:1'', tc_path = ''src/a.zig'', tc_name = ''x'', tc_line = 1, tc_column = 1\<rparr>]
       (runner_name_of \<lparr>tc_test_id = ''a.zig:1'', tc_path = ''src/a.zig'', tc_name = ''x'', tc_line = 1, tc_column = 1\<rparr>) = Some t'"
  using reported_test_is_found
    [of "\<lparr>tc_test_id = ''a.zig:1'', tc_path = ''src/a.zig'', tc_name = ''x'', tc_line = 1, tc_column = 1\<rparr>"
      "[\<lparr>tc_test_id = ''a.zig:1'', tc_path = ''src/a.zig'', tc_name = ''x'', tc_line = 1, tc_column = 1\<rparr>]"]
  by auto

end
