(* ===== verification/ZigRunner.thy ===== *)
theory ZigRunner
  imports LanguageRun ZigDiagnostics
begin

text \<open>
  src/apps/server-rs/src/languages/zig/run.rs: every Zig file is instrumented by the command, the
  program and the tests are built by the session's compile servers when it qualifies and by
  \<open>zig build\<close> otherwise, and the test binary reports on its channel.
\<close>

section \<open>The world of a run\<close>

record zig_world = run_input +
  zw_root_written :: bool
  zw_instrumented :: "nat \<Rightarrow> process_result \<times> bool"
  zw_linux :: bool
  zw_incremental :: "string option"
  zw_manifest :: "string option"
  zw_servers :: compile_servers
  zw_program :: build
  zw_tests_build :: build
  zw_build_ms :: millis
  zw_build_cancelled :: bool
  zw_classic :: test_run
  zw_tests :: test_run

text \<open>The shared part, with the instrumenter's answers: there is no worker.\<close>

definition zig_input :: "zig_world \<Rightarrow> run_input" where
  "zig_input w = (run_input.truncate w)
     \<lparr>ri_answer := (\<lambda>n. case zw_instrumented w n of (result, cancelled) \<Rightarrow> CliAnswer result cancelled)\<rparr>"

definition generated_main :: "zig_world \<Rightarrow> string" where
  "generated_main w = at (zig_input w) ''generated/main.zig''"

section \<open>Instrumentation\<close>

definition escape_quotes :: "string \<Rightarrow> string" where
  "escape_quotes s = concat (map (\<lambda>c. if c = quote_char then [CHR 0x5C, quote_char] else [c]) s)"

text \<open>The root of the test binary: it imports every Zig file of the project.\<close>

definition test_root :: "project_file list \<Rightarrow> string" where
  "test_root files =
     ''comptime {'' @ [lf]
     @ concat (map (\<lambda>f. ''    _ = @import('' @ [quote_char] @ ''src/'' @ escape_quotes (pf_path f) @ [quote_char] @ '');'' @ [lf])
         (filter (\<lambda>f. ends_lower (pf_path f) ''.zig'') files))
     @ ''}'' @ [lf]"

definition zig_config :: instrument_config where
  "zig_config = \<lparr>ic_source_name = ''runzig-instrument'', ic_instruments = (\<lambda>p. ends_lower p ''.zig''),
     ic_command_prefix_args = [], ic_extra_args = (\<lambda>_. []), ic_timeout_ms = 5000\<rparr>"

definition zig_catalog :: "zig_world \<Rightarrow> test_case list" where
  "zig_catalog w = discover_tests (files_of (zig_input w))"

definition zig_instrument :: "zig_world \<Rightarrow> (instrument_outcome \<times> run_result) phase" where
  "zig_instrument w =
     (let v = zig_input w in
      (case instrument_files (ri_from_str v) zig_config (ri_answer v) (ri_snapshot v) of
         (outcome, events) \<Rightarrow>
           first (starts (map (sq_env_update (\<lambda>_. []))
               (instrument_spawns v zig_config (show_path (instrumenter_path (ri_project_root w) Zig)) 0 (files_of v))))
             (first (emits events) (instrumented v run_result_default outcome))))"

section \<open>Compilation\<close>

text \<open>A build of the session, with what it met from \<open>bd\<close>.\<close>

definition build_for :: "zig_world \<Rightarrow> kind \<Rightarrow> build \<Rightarrow> build" where
  "build_for w kind bd = bd\<lparr>bd_session := ss_id (ri_session w), bd_kind := kind, bd_root := ss_root (ri_session w),
     bd_sandbox := policy_of (zig_input w)\<rparr>"

definition tests_placeholder :: "zig_world \<Rightarrow> path" where
  "tests_placeholder w = path_join (ss_root (ri_session w)) ''zig-out/bin/atomis-tests''"

definition failed_text :: "update \<Rightarrow> string" where
  "failed_text u = (case u of update.Failed errors \<Rightarrow> errors | Built _ \<Rightarrow> [])"

definition fast_compile :: "zig_world \<Rightarrow> bool \<Rightarrow> (string + path \<times> path) option \<times> compile_servers" where
  "fast_compile w has_tests =
     (let (program, servers1) = update_inner (build_for w kind.Program (zw_program w)) (zw_servers w);
          (tests, servers2) =
            (if has_tests then update_inner (build_for w Tests (zw_tests_build w)) servers1
             else (Some (Built (tests_placeholder w)), servers1))
      in ((case (program, tests) of
             (Some (Built p), Some (Built t)) \<Rightarrow> Some (Inr (p, t))
           | (Some p, Some t) \<Rightarrow> Some (Inl (failed_text p @ failed_text t))
           | _ \<Rightarrow> None), servers2))"

fun compile_output :: "callback \<Rightarrow> runner_event list" where
  "compile_output (OnStdout chunk) = [OutputEvent Stdout chunk output_category.Program None]"
| "compile_output (OnStderr chunk) = [OutputEvent Stderr chunk ErrorOutput None]"
| "compile_output _ = []"

definition classic_spawn :: "zig_world \<Rightarrow> bool \<Rightarrow> spawn" where
  "classic_spawn w has_tests =
     tool (zig_input w) ''zig'' ([''build'', ''instrumented''] @ (if has_tests then [''tests''] else []) @ [''--color'', ''off''])
       (process_limits_new 30000 (512 * 1024) (512 * 1024)) []"

text \<open>Only ASCII letters lower to the letters looked for.\<close>

definition unfetched :: "string \<Rightarrow> bool" where
  "unfetched stderr \<longleftrightarrow>
     (let lower = map to_ascii_lower stderr in
      contains lower ''unable to fetch'' \<or> contains lower ''failed to fetch''
      \<or> contains lower ''fetch'' \<and> contains lower ''connect'')"

definition em_dash :: string where
  "em_dash = [CHR 0xE2, CHR 0x80, CHR 0x94]"

definition unfetched_reason :: string where
  "unfetched_reason = ''dependency sources are not in the local cache '' @ em_dash
     @ '' add the package again from the Dependencies panel to fetch them''"

definition classic_compile :: "zig_world \<Rightarrow> bool \<Rightarrow> run_result \<Rightarrow> (path \<times> run_result) phase" where
  "classic_compile w has_tests metrics0 =
     (let q = classic_spawn w has_tests; (r, calls) = supervised q (zw_classic w);
          metrics = metrics0\<lparr>compilation_ms := tr_ms (zw_classic w)\<rparr> in
      first (starts [q])
      (first (emits (concat (map compile_output calls)))
        (if pr_cancelled r \<or> tr_cancelled (zw_classic w) then superseded metrics
         else if pr_exit_code r \<noteq> Some 0 \<or> pr_limit r \<noteq> None
         then first (emits [DiagnosticEvent ''compiler'' (parse_compiler_diagnostics (pr_stderr r) (generated_main w))])
           (ends (metrics\<lparr>rr_exit_code := pr_exit_code r, rr_signal := pr_signal r, rr_timed_out := pr_timed_out r,
                    rr_reason := Some (if unfetched (pr_stderr r) then unfetched_reason else compile_failure_reason r)\<rparr>)
              TCompileError)
         else first (emits [DiagnosticEvent ''compiler'' []])
           (gives (path_join (ss_root (ri_session w)) ''zig-out/bin/atomis-session'', metrics)))))"

definition zig_eligible :: "zig_world \<Rightarrow> bool" where
  "zig_eligible w = eligible (zw_linux w) (zw_incremental w) (cs_needs_libc (zw_servers w)) (zw_manifest w) (ss_id (ri_session w))"

definition zig_compile :: "zig_world \<Rightarrow> bool \<Rightarrow> run_result \<Rightarrow> (path \<times> path \<times> run_result) phase" where
  "zig_compile w has_tests metrics0 =
     (let fast = (if zig_eligible w then fst (fast_compile w has_tests) else None);
          metrics = metrics0\<lparr>compilation_ms := zw_build_ms w\<rparr> in
      if zw_build_cancelled w then superseded metrics
      else (case fast of
              Some (Inr (program, tests)) \<Rightarrow>
                first (emits [DiagnosticEvent ''compiler'' []]) (gives (program, tests, metrics))
            | Some (Inl errors) \<Rightarrow>
                first (emits [OutputEvent Stderr errors ErrorOutput None,
                              DiagnosticEvent ''compiler'' (parse_compiler_diagnostics errors (generated_main w))])
                  (ends (metrics\<lparr>rr_exit_code := Some 1, rr_reason := Some ''compiler error''\<rparr>) TCompileError)
            | None \<Rightarrow>
                andthen (classic_compile w has_tests metrics0)
                  (\<lambda>(program, m). gives (program, tests_placeholder w, m))))"

text \<open>The servers as a run leaves them.\<close>

definition servers_after :: "zig_world \<Rightarrow> bool \<Rightarrow> compile_servers" where
  "servers_after w has_tests = (if zig_eligible w then snd (fast_compile w has_tests) else zw_servers w)"

section \<open>Execution\<close>

definition find_runtime_location :: "string \<Rightarrow> string \<Rightarrow> (nat \<times> nat) option" where
  "find_runtime_location stderr generated_path =
     (let needle = generated_path @ '':'' in
      Option.bind (find_sub stderr needle) (\<lambda>index.
        let rest = drop (index + length needle) stderr; line = takeWhile ascii_digit rest in
        Option.bind (strip_prefix (drop (length line) rest) '':'') (\<lambda>rest2.
          Option.bind (parse_unsigned 32 line) (\<lambda>l.
            map_option (\<lambda>c. (l, c)) (parse_unsigned 32 (takeWhile ascii_digit rest2))))))"

definition zig_located :: "zig_world \<Rightarrow> string \<Rightarrow> app_diagnostic" where
  "zig_located w stderr =
     (case find_runtime_location stderr (generated_main w) of
        Some (line, column) \<Rightarrow> runtime_diagnostic ''Program panicked or exited abnormally'' None line column
      | None \<Rightarrow> runtime_diagnostic ''Program panicked or exited abnormally'' None 1 1)"

fun zig_status :: "raw_test_status \<Rightarrow> test_status" where
  "zig_status RawPassed = Passed"
| "zig_status RawFailed = test_status.Failed"
| "zig_status RawSkipped = Skipped"
| "zig_status RawLeaked = Leaked"

definition zig_rules :: "test_case list \<Rightarrow> channel_rules" where
  "zig_rules catalog = \<lparr>cr_match = match_runner_name catalog, cr_status = zig_status, cr_messages = True, cr_leaks = True\<rparr>"

text \<open>The reader is not ended: only an error met while reading is told.\<close>

definition read_error :: "raw_test_event handler \<Rightarrow> raw_test_event reader \<Rightarrow> string option" where
  "read_error h r = rd_error r"

definition zig_run_tests :: "zig_world \<Rightarrow> test_case list \<Rightarrow> path \<Rightarrow> unit phase" where
  "zig_run_tests w catalog tests =
     (let v = zig_input w in
      if catalog = [] \<or> ri_tests_cancelled w then gives ()
      else first (emits [StateEvent Testing])
        (channel_tests v (zig_rules catalog) False read_error catalog (test_spawn v (show_path tests) [] []) (zw_tests w)))"

section \<open>The run\<close>

definition run_executable ::
  "zig_world \<Rightarrow> run_result \<Rightarrow> instrument_outcome \<Rightarrow> path \<Rightarrow> path \<Rightarrow> test_case list \<Rightarrow> unit phase" where
  "run_executable w metrics outcome program tests catalog =
     first (emits [StateEvent Running])
       (run_program (zig_input w) metrics outcome
          (program_spawn (zig_input w) (show_path program) [] (program_env (ri_session w) (ri_settings w)))
          False (zig_located w) (zig_run_tests w catalog tests))"

definition zig_run :: "zig_world \<Rightarrow> unit phase" where
  "zig_run w =
     (let catalog = zig_catalog w in
      first (emits [StateEvent Instrumenting])
      (first (emits [TestCatalogEvent catalog])
      (if \<not> zw_root_written w then ends run_result_default TCompileError
       else andthen (zig_instrument w) (\<lambda>(outcome, metrics).
         first (emits [StateEvent Compiling])
         (andthen (zig_compile w (catalog \<noteq> []) metrics) (\<lambda>(program, tests, metrics).
           run_executable w metrics outcome program tests catalog))))))"

section \<open>What a run is made of\<close>

lemma match_runner_in: "match_runner_name catalog name = Some t \<Longrightarrow> t \<in> set catalog"
proof -
  assume "match_runner_name catalog name = Some t"
  then show ?thesis
    by (auto simp: match_runner_name_def Let_def split: option.splits dest: match_marker_sound find_test_Some)
qed

lemma zig_rules_ok: "rules_ok catalog (zig_rules catalog)"
proof -
  have "zig_status s \<in> {Passed, test_status.Failed, Skipped, Leaked}" for s by (cases s) simp_all
  then show ?thesis by (simp add: rules_ok_def zig_rules_def from_catalog_def match_runner_in)
qed

lemma zig_located_wf: "wf_diagnostic (zig_located w stderr)"
  by (auto simp: zig_located_def find_runtime_location_def bind_eq_Some_conv Let_def split: option.split
      intro!: wf_runtime dest!: parse_unsigned_32)

lemma zig_test_ids: "distinct (map pf_path files) \<Longrightarrow> distinct (map tc_test_id (discover_tests files))"
  unfolding discover_tests_def
  by (rule catalog_ids [where f = zig_test]) (auto simp: distinct_map_filter zig_test_def id_of_line_def Let_def)

lemma zig_input_frame [simp]: "ri_from_str (zig_input w) = ri_from_str w" "ri_session (zig_input w) = ri_session w"
  "ri_settings (zig_input w) = ri_settings w" "ri_snapshot (zig_input w) = ri_snapshot w"
  by (simp_all add: zig_input_def run_input.truncate_def)

lemma judged_zig_instrument:
  assumes "reads_u32 (ri_from_str w)"
  shows "judged (zig_input w) ids 1 (zig_instrument w) 1"
proof -
  let ?v = "zig_input w"
  obtain outcome events where i: "instrument_files (ri_from_str ?v) zig_config (ri_answer ?v) (ri_snapshot ?v) = (outcome, events)"
    by force
  have wf: "list_all wf_diagnostic (in_diagnostics outcome)" "list_all plain_event events"
    using instrument_files_wf [OF _ i] assms by simp_all
  have told: "judged ?v ids 1 (instrumented ?v run_result_default outcome) 1"
    using wf(1) by (rule judged_instrumented) simp
  have qs: "list_all (\<lambda>q. sq_sandbox q = policy_of ?v) (map (sq_env_update (\<lambda>_. [])) qs)"
    if "list_all (\<lambda>q. sq_sandbox q = policy_of ?v) qs" for qs
    using that by (simp add: list_all_iff)
  show ?thesis
    unfolding zig_instrument_def Let_def i prod.case
    by (intro judged_andthen [where mid = 1] judged_starts qs instrument_spawns_confined judged_plain wf(2) told) simp_all
qed

lemma compile_output_plain: "list_all plain_event (concat (map compile_output calls))"
proof (induction calls)
  case (Cons c calls)
  then show ?case by (cases c) simp_all
qed simp

lemma judged_if: "(c \<Longrightarrow> judged v ids lo a hi) \<Longrightarrow> (\<not> c \<Longrightarrow> judged v ids lo b hi) \<Longrightarrow> judged v ids lo (if c then a else b) hi"
  by simp

lemma judged_classic: "judged (zig_input w) ids 2 (classic_compile w has_tests metrics) 2"
proof -
  obtain r calls where s: "supervised (classic_spawn w has_tests) (zw_classic w) = (r, calls)" by force
  have confined: "list_all (\<lambda>q. sq_sandbox q = policy_of (zig_input w)) [classic_spawn w has_tests]"
    by (simp add: classic_spawn_def)
  have diagnosed: "judged (zig_input w) ids 2 (emits [DiagnosticEvent ''compiler'' (parse_compiler_diagnostics stderr main)]) 2"
    for stderr main by (rule judged_emits) (simp_all add: zig_diagnostics_wf)
  have clean: "judged (zig_input w) ids 2 (emits [DiagnosticEvent ''compiler'' []]) 2"
    by (rule judged_emits) simp_all
  show ?thesis
    unfolding classic_compile_def Let_def s prod.case
    by (intro judged_andthen [where mid = 2, OF judged_starts [OF confined]]
        judged_andthen [where mid = 2, OF judged_plain [OF compile_output_plain]]
        judged_if judged_superseded judged_andthen [OF diagnosed] judged_andthen [OF clean] judged_ends judged_gives) simp_all
qed

lemma judged_zig_compile: "judged (zig_input w) ids 2 (zig_compile w has_tests metrics) 2"
  unfolding zig_compile_def Let_def
  by (auto simp: zig_diagnostics_wf split: option.split sum.split
      intro!: judged_superseded judged_andthen [OF judged_classic] judged_andthen [where mid = 2] judged_emits judged_ends judged_gives)

lemma judged_zig_tests: "judged (zig_input w) (map tc_test_id catalog) 3 (zig_run_tests w catalog tests) 4"
proof -
  have "judged (zig_input w) (map tc_test_id catalog) 3 (emits [StateEvent Testing]) 4"
    by (rule judged_state) simp_all
  then show ?thesis
    unfolding zig_run_tests_def Let_def
    by (auto intro!: judged_gives judged_andthen judged_channel_tests zig_rules_ok)
qed

lemma zig_run_judged:
  assumes "fair (zig_input w)"
  shows "judged (zig_input w) (map tc_test_id (zig_catalog w)) 0 (zig_run w) 4"
proof -
  let ?ids = "map tc_test_id (zig_catalog w)"
  have ids: "distinct ?ids" and from_str: "reads_u32 (ri_from_str w)"
    using assms by (simp_all add: fair_def zig_catalog_def zig_test_ids)
  have st: "judged (zig_input w) ?ids (rung st) (emits [StateEvent st]) (Suc (rung st))" if "rung st < 4" for st
    using that by (intro judged_state) simp_all
  have running: "judged (zig_input w) ?ids 2 (run_executable w metrics outcome program tests (zig_catalog w)) 4"
    for metrics outcome program tests
    unfolding run_executable_def by (rule judged_running [OF zig_located_wf judged_zig_tests]) simp_all
  have compiling: "judged (zig_input w) ?ids 1
      (first (emits [StateEvent Compiling]) (andthen (zig_compile w (zig_catalog w \<noteq> []) metrics)
        (\<lambda>(program, tests, metrics). run_executable w metrics outcome program tests (zig_catalog w)))) 4" for metrics outcome
    using st [of Compiling] by (auto simp: numeral_2_eq_2 [symmetric]
        intro!: judged_andthen [OF _ judged_andthen [OF judged_zig_compile]] running)
  have catalog: "judged (zig_input w) ?ids 1 (emits [TestCatalogEvent (zig_catalog w)]) 1"
    using ids by (intro judged_emits) simp_all
  have unwritten: "judged (zig_input w) ?ids 1 (ends run_result_default TCompileError) 4"
    by (rule judged_ends) simp_all
  have "judged (zig_input w) ?ids 0 (emits [StateEvent Instrumenting]) 1" using st [of Instrumenting] by simp
  then show ?thesis
    unfolding zig_run_def Let_def
    using unwritten by (auto intro!: judged_andthen [OF _ judged_andthen [OF catalog]] judged_andthen [OF judged_zig_instrument [OF from_str]] compiling)
qed

interpretation zig: language_run zig_run zig_input zig_catalog
proof
  show "fair (zig_input w) \<Longrightarrow> judged (zig_input w) (map tc_test_id (zig_catalog w)) 0 (zig_run w) 4"
    for w :: zig_world by (rule zig_run_judged)
  show "outcome_of (zig_run w) \<noteq> None" for w :: zig_world
    unfolding zig_run_def run_executable_def Let_def by (auto intro!: outcome_andthen outcome_run_program simp del: not_None_eq)
  show "\<exists>rest. lg_events (fst (zig_run w)) = StateEvent Instrumenting # TestCatalogEvent (zig_catalog w) # rest" for w :: zig_world
    unfolding zig_run_def Let_def by simp
qed

end
