(* ===== verification/Languages.thy ===== *)
theory Languages
  imports GoRunner RustRunner TsRunner PyRunner CFamilyRunner ZigRunner Versions
begin

text \<open>
  The dispatch of a run to its language (run_language of languages/runtime.rs and the packs'
  \<open>execute\<close>, whose \<open>boxed_run\<close>s call the runners) and what holds of a run in every language.
\<close>

section \<open>The dispatch\<close>

text \<open>What a run of each language meets; C and C++ share their runner.\<close>

datatype run_world =
    ZigWorld zig_world
  | RustWorld rust_world
  | GoWorld go_world
  | TsWorld ts_world
  | PyWorld py_world
  | CWorld cf_world
  | CppWorld cf_world

definition boxed_run_c :: "cf_world \<Rightarrow> unit phase" where
  "boxed_run_c w = cf_run (w\<lparr>cw_config := C_CONFIG\<rparr>)"

definition boxed_run_cpp :: "cf_world \<Rightarrow> unit phase" where
  "boxed_run_cpp w = cf_run (w\<lparr>cw_config := CPP_CONFIG\<rparr>)"

fun run_language :: "run_world \<Rightarrow> unit phase" where
  "run_language (ZigWorld w) = zig_run w"
| "run_language (RustWorld w) = rust_run w"
| "run_language (GoWorld w) = go_run w"
| "run_language (TsWorld w) = ts_run w"
| "run_language (PyWorld w) = py_run w"
| "run_language (CWorld w) = boxed_run_c w"
| "run_language (CppWorld w) = boxed_run_cpp w"

fun language_of :: "run_world \<Rightarrow> language" where
  "language_of (ZigWorld _) = Zig"
| "language_of (RustWorld _) = Rust"
| "language_of (GoWorld _) = Go"
| "language_of (TsWorld _) = Ts"
| "language_of (PyWorld _) = Py"
| "language_of (CWorld _) = C"
| "language_of (CppWorld _) = Cpp"

fun world_input :: "run_world \<Rightarrow> run_input" where
  "world_input (ZigWorld w) = zig_input w"
| "world_input (RustWorld w) = run_input.truncate w"
| "world_input (GoWorld w) = run_input.truncate w"
| "world_input (TsWorld w) = run_input.truncate w"
| "world_input (PyWorld w) = run_input.truncate w"
| "world_input (CWorld w) = run_input.truncate w"
| "world_input (CppWorld w) = run_input.truncate w"

fun world_catalog :: "run_world \<Rightarrow> test_case list" where
  "world_catalog (ZigWorld w) = zig_catalog w"
| "world_catalog (RustWorld w) = rust_catalog w"
| "world_catalog (GoWorld w) = go_catalog w"
| "world_catalog (TsWorld w) = ts_catalog w"
| "world_catalog (PyWorld w) = py_catalog w"
| "world_catalog (CWorld w) = cf_catalog (w\<lparr>cw_config := C_CONFIG\<rparr>)"
| "world_catalog (CppWorld w) = cf_catalog (w\<lparr>cw_config := CPP_CONFIG\<rparr>)"

text \<open>The events of a run, its processes and how it ended.\<close>

definition run_events :: "run_world \<Rightarrow> runner_event list" where
  "run_events w = lg_events (fst (run_language w))"

definition run_processes :: "run_world \<Rightarrow> spawn list" where
  "run_processes w = lg_spawned (fst (run_language w))"

lemma config_frame [simp]: "run_input.truncate (w\<lparr>cw_config := c\<rparr>) = run_input.truncate w"
  by (simp add: run_input.truncate_def)

interpretation dispatch: language_run run_language world_input world_catalog
proof
  show "fair (world_input w) \<Longrightarrow> judged (world_input w) (map tc_test_id (world_catalog w)) 0 (run_language w) 4" for w
    by (cases w) (use zig.run_judged rust.run_judged go.run_judged ts.run_judged py.run_judged cfamily.run_judged config_frame in
        \<open>auto simp: boxed_run_c_def boxed_run_cpp_def, metis+\<close>)
  show "outcome_of (run_language w) \<noteq> None" for w
    by (cases w) (simp_all add: boxed_run_c_def boxed_run_cpp_def zig.run_ends rust.run_ends go.run_ends ts.run_ends py.run_ends
        cfamily.run_ends del: not_None_eq)
  show "\<exists>rest. lg_events (fst (run_language w)) = StateEvent Instrumenting # TestCatalogEvent (world_catalog w) # rest" for w
    by (cases w) (simp_all add: boxed_run_c_def boxed_run_cpp_def zig.run_announces rust.run_announces go.run_announces
        ts.run_announces py.run_announces cfamily.run_announces)
qed

section \<open>An example run\<close>

text \<open>A program that exits at once, and its session.\<close>

definition demo_poll :: "int \<Rightarrow> poll" where
  "demo_poll code = \<lparr>po_now = 5, po_cancel = False, po_stdout = Some None, po_stderr = Some None, po_probe = Some None,
     po_wait = Some (ExitCode code)\<rparr>"

definition demo_input :: "int \<Rightarrow> run_input" where
  "demo_input code = \<lparr>ri_session = demo_session, ri_snapshot = ss_snapshot demo_session,
     ri_settings = (ss_settings demo_session)\<lparr>se_sandbox := True\<rparr>,
     ri_project_root = [''p''], ri_from_str = (\<lambda>_. Inl []), ri_probe_json = (\<lambda>_. Inl []),
     ri_test_json = (\<lambda>_. Inl []), ri_json = (\<lambda>_. None), ri_answer = (\<lambda>_. CliAnswer process_result_default False),
     ri_instrument_ms = 0, ri_program = \<lparr>px_fault = None, px_polls = replicate 4 (demo_poll code), px_started = 0, px_pid = 7,
       px_ms = 5, px_cancelled = False\<rparr>, ri_tests_cancelled = False\<rparr>"

definition demo_tests :: test_run where
  "demo_tests = \<lparr>tr_fault = None, tr_polls = [], tr_begun = 0, tr_pid = 8, tr_ms = 0, tr_cancelled = False,
     tr_order = (\<lambda>_. [])\<rparr>"

definition demo_test :: test_case where
  "demo_test = \<lparr>tc_test_id = ''a.test.ts:1'', tc_path = ''src/a.test.ts'', tc_name = ''a'', tc_line = 1, tc_column = 1\<rparr>"

definition demo_py :: "int \<Rightarrow> run_world" where
  "demo_py code = PyWorld (run_input.extend (demo_input code) \<lparr>yw_venv = False, yw_tests = demo_tests\<rparr>)"

lemma world_demo [simp]: "world_input (demo_py code) = demo_input code"
  by (simp add: demo_py_def run_input.defs demo_input_def)

lemma demo_input_fair: "fair (demo_input code)"
  by (simp add: fair_def reads_u32_def demo_input_def files_of_def demo_session_def demo_files_def)

lemma demo_loop:
  assumes "5 < pl_timeout_ms l"
  shows "finish_run (snd (run_loop \<lparr>ro_limits = l, ro_started = 0, ro_pid = 7, ro_quiet = False, ro_probe_fd = True\<rparr>
      (replicate 4 (demo_poll code))
      (run_start \<lparr>ro_limits = l, ro_started = 0, ro_pid = 7, ro_quiet = False, ro_probe_fd = True\<rparr>)))
    = (process_result_default\<lparr>pr_exit_code := Some code\<rparr>, [])"
  using assms by (simp add: demo_poll_def numeral_eq_Suc run_start_def select_def branch_defs due_def wound_down_def text_pipe_new_def
      finish_run_def text_tail_def call_tail_def process_result_default_def DESCENDANT_DRAIN_MS_def finish_def carry_new_def)

lemma demo_execution:
  "execute (demo_input code) (program_spawn (demo_input code) program args env) True
     \<lparr>in_probes = [], in_diagnostics = [], in_file_ids = ids, in_cancelled = False\<rparr>
   = \<lparr>xo_result = process_result_default\<lparr>pr_exit_code := Some code\<rparr>, xo_probe_error = None, xo_events = []\<rparr>"
proof -
  have input: "ri_program (demo_input code) = \<lparr>px_fault = None, px_polls = replicate 4 (demo_poll code),
      px_started = 0, px_pid = 7, px_ms = 5, px_cancelled = False\<rparr>"
    and spawn: "sq_limits (program_spawn (demo_input code) program args env) = process_limits_new 2000 (512 * 1024) (512 * 1024)"
      "\<not> is_live (sq_stdin (program_spawn (demo_input code) program args env))"
      "sq_probe_fd (program_spawn (demo_input code) program args env)"
    by (simp_all add: program_spawn_def tool_def demo_input_def demo_session_def program_timeout_ms_def
        default_settings_def session_stdin_def)
  have quiet: "exec_finish h (exec_start [] ids) = (exec_start [] ids)\<lparr>ex_reader := end_reader h reader_new\<rparr>"
    "rd_error (end_reader h reader_new) = None" for h :: "raw_probe_event handler"
    by (simp_all add: exec_finish_def exec_start_def flush_def parser_new_def emit_text_def with_stdout_def with_stderr_def
        new_output_def end_reader_def reader_new_def finish_def carry_new_def trim_def trim_start_def trim_end_def)
  show ?thesis
    using demo_loop [of "process_limits_new 2000 (512 * 1024) (512 * 1024)"]
    by (simp del: run_loop.simps add: execute_def input spawn execute_program_def process_limits_new_def quiet)
      (simp add: exec_start_def)
qed

lemma demo_py_run:
  "run_language (demo_py code) =
     (\<lparr>lg_events = [StateEvent Instrumenting, TestCatalogEvent [], Catalog [], DiagnosticEvent ''atomis-instrumenter'' [],
         StateEvent Running, DiagnosticEvent ''runtime'' (if code = 0 then [] else [py_located []])],
       lg_spawned = [program_spawn (demo_input code) ''python3'' [''-u'', at (demo_input code) ''generated/main.py'']
         (py_env (ss_root demo_session) True @ program_env demo_session (ri_settings (demo_input code)))],
       lg_probes = [[]]\<rparr>,
      Inl \<lparr>ro_result = run_result_default\<lparr>execution_ms := 5, rr_exit_code := Some code,
          rr_reason := if code = 0 then None else Some ''abnormal exit''\<rparr>,
        ro_terminal_state = if code = 0 then TSucceeded else TRuntimeError\<rparr>)"
proof -
  define w where "w = run_input.extend (demo_input code) \<lparr>yw_venv = False, yw_tests = demo_tests\<rparr>"
  have input: "run_input.truncate w = demo_input code" by (simp add: w_def run_input.defs demo_input_def)
  have fields: "files_of (demo_input code) = demo_files" "sn_files (ri_snapshot (demo_input code)) = demo_files"
      "ri_instrument_ms (demo_input code) = 0" "px_ms (ri_program (demo_input code)) = 5"
      "\<not> px_cancelled (ri_program (demo_input code))"
    by (simp_all add: files_of_def demo_input_def demo_session_def)
  have world: "interpreter w = ''python3''" "ri_session w = demo_session"
      "ri_settings w = ri_settings (demo_input code)"
    by (simp_all add: interpreter_def python_command_def w_def run_input.defs demo_input_def)
  have catalog: "py_catalog w = []"
    by (simp add: py_catalog_def discover_py_tests_def input fields demo_files_def is_py_test_file_def starts_with_def ends_with_def)
  have skipped: "instrument_files from_str (py_config root) answer (ri_snapshot (demo_input code)) =
      (\<lparr>in_probes = [], in_diagnostics = [], in_file_ids = Map.empty, in_cancelled = False\<rparr>, [])" for from_str root answer
    by (simp add: instrument_files_def fields demo_files_def py_config_def ends_with_def)
  have spawns: "instrument_spawns (demo_input code) (py_config root) command 0 demo_files = []" for root command
    by (simp add: demo_files_def py_config_def ends_with_def)
  have "run_language (demo_py code) = py_run w" by (simp add: demo_py_def w_def)
  then show ?thesis
    unfolding py_run_def Let_def input catalog opens_def instrument_def skipped
    by (simp add: andthen_def emits_def starts_def keeps_def gives_def ends_def instrumented_def fields spawns world
        run_program_def py_program_def input demo_execution concluded_def classify_execution_def py_run_tests_def
        process_result_default_def run_result_default_def Let_def)
qed

section \<open>What holds of every run\<close>

text \<open>C7: what a run reports is well formed, in every language: its diagnostics point below src/ and
  carry 32-bit positions, whatever the instrumenter, the compiler and the program wrote; the tests
  announced are the catalog of the files, under ids of their own, and a result that is attributed
  to a test is attributed to one of them.\<close>

theorem run_reports_are_well_formed:
  assumes "fair (world_input w)" "event \<in> set (run_events w)"
  shows "case event of
      DiagnosticEvent owner ds \<Rightarrow> list_all wf_diagnostic ds
    | TestCatalogEvent catalog \<Rightarrow> map tc_test_id catalog = map tc_test_id (world_catalog w) \<and> distinct (map tc_test_id catalog)
    | TestResultEvent test name status duration message \<Rightarrow> test = None \<or> test \<in> (Some \<circ> tc_test_id) ` set (world_catalog w)
    | _ \<Rightarrow> True"
proof -
  have "event_ok (map tc_test_id (world_catalog w)) event"
    using dispatch.run_judged [OF assms(1)] assms(2) by (simp add: judged_def list_all_iff run_events_def)
  then show ?thesis by (induction "map tc_test_id (world_catalog w)" event rule: event_ok.induct) auto
qed

lemma run_reports_are_well_formed_witness:
  "list_all wf_diagnostic [py_located []]"
proof -
  have "DiagnosticEvent ''runtime'' [py_located []] \<in> set (run_events (demo_py 1))"
    by (simp add: run_events_def demo_py_run)
  from run_reports_are_well_formed [OF _ this] show ?thesis by (simp add: demo_input_fair)
qed

text \<open>C6: a run, in every language, says that it is instrumenting, then which tests there are, goes
  through instrumenting, compiling, running and testing in that order without a repetition, and
  always ends with an outcome, whatever its processes do.\<close>

theorem runs_climb_and_end:
  assumes "fair (world_input w)"
  shows "(\<exists>outcome. outcome_of (run_language w) = Some outcome)
    \<and> (\<exists>rest. run_events w = StateEvent Instrumenting # TestCatalogEvent (world_catalog w) # rest)
    \<and> sorted_wrt (\<lambda>a b. rung a < rung b) (states_of (run_events w))
    \<and> set (states_of (run_events w)) \<subseteq> {Instrumenting, Compiling, Running, Testing}"
proof -
  have "sorted_wrt (\<lambda>a b. rung a < rung b) (states_of (run_events w))"
    using dispatch.run_judged [OF assms] by (simp add: judged_def rungs_def run_events_def sorted_wrt_map)
  then show ?thesis
    using dispatch.run_ends [of w] dispatch.run_announces [of w] dispatch.run_climbs [OF assms]
    by (auto simp: run_events_def dispatch.told_def)
qed

lemma runs_climb_and_end_witness:
  "sorted_wrt (\<lambda>a b. rung a < rung b) (states_of (run_events (demo_py 0)))"
  using runs_climb_and_end [of "demo_py 0"] by (simp add: demo_input_fair)

text \<open>C8: the verdict of a run: it succeeded only when its program exited with 0, by no signal, in its
  time and uncancelled, and it is a compile error only when the program was never started.\<close>

theorem run_verdicts:
  assumes "fair (world_input w)" "outcome_of (run_language w) = Some outcome"
  shows "(ro_terminal_state outcome = TSucceeded \<longrightarrow> clean_exit (ro_result outcome))
    \<and> (ro_terminal_state outcome = TCompileError \<longrightarrow> Running \<notin> set (states_of (run_events w)))"
  using dispatch.run_success [OF assms] dispatch.run_compile_error [OF assms]
  by (simp add: run_events_def dispatch.told_def)

lemma run_verdicts_witness:
  "clean_exit (run_result_default\<lparr>execution_ms := 5, rr_exit_code := Some 0, rr_reason := None\<rparr>)"
proof -
  have "outcome_of (run_language (demo_py 0)) = Some \<lparr>ro_result = run_result_default\<lparr>execution_ms := 5,
      rr_exit_code := Some 0, rr_reason := None\<rparr>, ro_terminal_state = TSucceeded\<rparr>"
    by (simp add: demo_py_run outcome_of_def)
  from run_verdicts [OF _ this] show ?thesis by (simp add: demo_input_fair)
qed

text \<open>What go and node report about a test is that it passed, failed or was skipped.\<close>

lemma go_events_statuses: "r \<in> set (go_events ms printed events) \<Longrightarrow> st_status r \<in> {Passed, test_status.Failed, Skipped}"
  by (induction events arbitrary: printed) (auto simp: Let_def split: option.splits if_splits)

lemma tap_results_statuses: "r \<in> set (tap_results parse_ms lines) \<Longrightarrow> st_status r \<in> {Passed, test_status.Failed, Skipped}"
  by (induction lines) (auto simp: Let_def split: option.splits if_splits)

text \<open>C9: whatever go test or node --test printed, the summary told after its results counts exactly
  the results told before it, and when the suite timed out every test of the catalog has a result.\<close>

theorem test_summaries_add_up:
  assumes "events = suite_events (go_match catalog) catalog (parse_go_test_events json_of ms out) timed_out duration
    \<or> events = suite_events (ts_match catalog) catalog (parse_tap_output parse_ms out) timed_out duration"
  shows "\<exists>results passed failed skipped. events = results @ [TestSummaryEvent passed failed skipped 0 duration]
    \<and> passed = results_with (\<lambda>s. s = Passed) results
    \<and> failed = results_with (\<lambda>s. s = test_status.Failed \<or> s = TestTimedOut) results
    \<and> skipped = results_with (\<lambda>s. s = Skipped) results
    \<and> (timed_out \<longrightarrow> (\<forall>t\<in>set catalog. \<exists>name status ms message.
          TestResultEvent (Some (tc_test_id t)) name status ms message \<in> set results))"
proof -
  have "\<forall>r\<in>set (parse_go_test_events json_of ms out). st_status r \<in> {Passed, test_status.Failed, Skipped}"
    "\<forall>r\<in>set (parse_tap_output parse_ms out). st_status r \<in> {Passed, test_status.Failed, Skipped}"
    using go_events_statuses tap_results_statuses unfolding parse_go_test_events_def parse_tap_output_def by blast+
  from this [THEN suite_events_add_up] assms show ?thesis
    unfolding adds_up_def counted_failed_def by metis
qed

lemma test_summaries_add_up_witness:
  "\<exists>results failed. suite_events (ts_match [demo_test]) [demo_test] (parse_tap_output (\<lambda>_. None) []) True 9
      = results @ [TestSummaryEvent 0 failed 0 0 9]
    \<and> (\<exists>name status ms message. TestResultEvent (Some ''a.test.ts:1'') name status ms message \<in> set results)"
proof -
  have empty: "captures tap_result [] = None" by code_simp
  have id: "tc_test_id demo_test = ''a.test.ts:1''" by (simp add: demo_test_def)
  have one: "suite_events (ts_match [demo_test]) [demo_test] (parse_tap_output (\<lambda>_. None) []) True 9 =
      [TestResultEvent (Some ''a.test.ts:1'') ''a'' TestTimedOut 0 None] @ [TestSummaryEvent 0 1 0 0 9]"
    by (simp add: suite_events_def parse_tap_output_def split_lines_def empty report_timed_out_remainder_def tally_new_def
        demo_test_def)
  show ?thesis
    using test_summaries_add_up [OF disjI2 [OF refl], of "[demo_test]" "\<lambda>_. None" "[]" True 9] one
    by (simp add: id)
qed

text \<open>Every process of a run is started under the sandbox of the session and the settings of the run.\<close>

lemma run_processes_confined:
  "fair (world_input w) \<Longrightarrow> q \<in> set (run_processes w)
   \<Longrightarrow> sq_sandbox q = session_sandbox (ri_session (world_input w)) (ri_settings (world_input w))"
  using dispatch.run_confined [of w q] by (simp add: run_processes_def policy_of_def)

end
