(* ===== verification/Instrumenter.thy ===== *)
theory Instrumenter
  imports RustRunner "HOL-Library.Word"
begin

text \<open>
  src/rust/instrumenter: the program that copies a Rust source with calls spliced in after its
  \<open>let\<close> bindings and print statements.  syn is a parameter: a file is the tree of the nodes its
  visitor walks, the ones the collector does not treat of its own being plain \<open>Node\<close>s.
\<close>

unbundle bit_operations_syntax

section \<open>Data\<close>

record span_range =
  rg_start_line :: nat
  rg_start_column :: nat
  rg_end_line :: nat
  rg_end_column :: nat
  rg_start_byte :: nat
  rg_end_byte :: nat

datatype probe_kind = AutoMode | ManualMode

record probe =
  pb_id :: string
  pb_name :: string
  pb_supported :: bool
  pb_reason :: "string option"
  pb_range :: span_range
  pb_insertion_byte :: "nat option"
  pb_mode :: probe_kind

record rust_diagnostic =
  rd_message :: string
  rd_line :: nat
  rd_column :: nat

record instrumented_source =
  is_generated :: "string option"
  is_probes :: "probe list"
  is_diagnostics :: "rust_diagnostic list"

definition LOG_MACROS :: "string list" where
  "LOG_MACROS = [''println'', ''print'', ''eprintln'', ''eprint'', ''dbg'']"

definition STDERR_MACROS :: "string list" where
  "STDERR_MACROS = [''eprintln'', ''eprint'', ''dbg'']"

section \<open>Identifiers of probes\<close>

definition fnv1a64 :: "string \<Rightarrow> 64 word" where
  "fnv1a64 input = fold (\<lambda>c hash. (hash XOR of_nat (byte c)) * 0x100000001b3) input 0xcbf29ce484222325"

text \<open>\<open>{:016x}\<close>\<close>

definition hex16 :: "64 word \<Rightarrow> string" where
  "hex16 h = map (\<lambda>i. hex_lower (unat (drop_bit (4 * (15 - i)) h) mod 16)) [0..<16]"

definition make_probe_id :: "string \<Rightarrow> span_range \<Rightarrow> string \<Rightarrow> string" where
  "make_probe_id uri r name =
     (let key = ''rustlive-v1|'' @ uri @ ''|'' @ show_nat (rg_start_byte r) @ ''-'' @ show_nat (rg_end_byte r) @ ''|'' @ name
      in hex16 (fnv1a64 key) @ hex16 (fnv1a64 (key @ ''|2'')))"

section \<open>What syn gives\<close>

text \<open>A place is a line and a 1-based column.  An attribute: the last segment of its path, its path when
  that is one identifier, and the identifiers \<open>parse_nested_meta\<close> hands out.\<close>

type_synonym place = "nat \<times> nat"

record attribute =
  at_last :: "string option"
  at_ident :: "string option"
  at_metas :: "string option list"

datatype pat =
    PatIdent string span_range bool
  | PatType pat
  | PatWild
  | PatTuple
  | PatTupleStruct
  | PatStruct
  | PatOther

text \<open>Beside its children, in the order they are visited: a loop has its keyword's place and the byte
  behind its opening brace, a \<open>let\<close> its pattern with the span, whether it is initialised, and its end,
  a macro statement the last segment of its path, its place and its end.  The condition of \<open>while\<close>
  stands between the children before and after it.\<close>

datatype node =
    ItemFn "attribute list" bool "node list"
  | ImplItemFn bool "node list"
  | ItemConst "node list"
  | ItemStatic "node list"
  | ExprConst "node list"
  | ExprClosure "node list"
  | ExprAsync "node list"
  | ItemMod "attribute list" "node list"
  | ExprForLoop place pat nat "node list"
  | ExprWhile place nat "node list" node "node list"
  | ExprLoop place nat "node list"
  | ExprPath "string option" "node list"
  | LocalLet pat span_range bool nat "node list"
  | StmtMacro "string option" place nat "node list"
  | Node "node list"

section \<open>The collector\<close>

record loop_meta =
  lm_place :: place
  lm_variable :: "string option"
  lm_shadow :: string
  lm_body_start :: nat
  lm_used :: bool

record file_options =
  fo_uri :: string
  fo_file_id :: nat
  fo_auto_inspect :: bool
  fo_manual_ids :: "string list"

record collector =
  co_probes :: "probe list"
  co_insertions :: "(nat \<times> string) list"
  co_loops :: "loop_meta list"
  co_loop_counter :: nat
  co_test_depth :: nat
  co_const_depth :: nat

definition collector_new :: collector where
  "collector_new = \<lparr>co_probes = [], co_insertions = [], co_loops = [], co_loop_counter = 0,
     co_test_depth = 0, co_const_depth = 0\<rparr>"

definition is_test_attr :: "attribute list \<Rightarrow> bool" where
  "is_test_attr attrs \<longleftrightarrow>
     list_ex (\<lambda>a. at_last a = Some ''test'' \<or> at_ident a = Some ''cfg'' \<and> Some ''test'' \<in> set (at_metas a)) attrs"

fun first_ident :: "node \<Rightarrow> string option" and first_ident_in :: "node list \<Rightarrow> string option" where
  "first_ident (ItemFn _ _ ns) = first_ident_in ns"
| "first_ident (ImplItemFn _ ns) = first_ident_in ns"
| "first_ident (ItemConst ns) = first_ident_in ns"
| "first_ident (ItemStatic ns) = first_ident_in ns"
| "first_ident (ExprConst ns) = first_ident_in ns"
| "first_ident (ExprClosure ns) = first_ident_in ns"
| "first_ident (ExprAsync ns) = first_ident_in ns"
| "first_ident (ItemMod _ ns) = first_ident_in ns"
| "first_ident (ExprForLoop _ _ _ ns) = first_ident_in ns"
| "first_ident (ExprWhile _ _ ns cond ms) =
     (case first_ident_in ns of Some i \<Rightarrow> Some i
      | None \<Rightarrow> (case first_ident cond of Some i \<Rightarrow> Some i | None \<Rightarrow> first_ident_in ms))"
| "first_ident (ExprLoop _ _ ns) = first_ident_in ns"
| "first_ident (ExprPath i _) = i"
| "first_ident (LocalLet _ _ _ _ ns) = first_ident_in ns"
| "first_ident (StmtMacro _ _ _ ns) = first_ident_in ns"
| "first_ident (Node ns) = first_ident_in ns"
| "first_ident_in [] = None"
| "first_ident_in (n # ns) = (case first_ident n of Some i \<Rightarrow> Some i | None \<Rightarrow> first_ident_in ns)"

definition active :: "file_options \<Rightarrow> string \<Rightarrow> bool" where
  "active o1 id1 \<longleftrightarrow> fo_auto_inspect o1 \<or> id1 \<in> set (fo_manual_ids o1)"

text \<open>The texts that are spliced in.\<close>

definition comma_nats :: "nat list \<Rightarrow> string" where
  "comma_nats ns = join_with '', '' (map show_nat ns)"

definition probe_text :: "string \<Rightarrow> span_range \<Rightarrow> string \<Rightarrow> string" where
  "probe_text id1 r name =
     '' crate::atomis_probe!('' @ in_quotes id1 @ '', '' @ comma_nats [rg_start_line r, rg_start_column r] @ '', ''
       @ in_quotes name @ '', &'' @ name @ '');''"

definition capture_text :: "string \<Rightarrow> string \<Rightarrow> string" where
  "capture_text shadow variable = '' let '' @ shadow @ '' = crate::atomis_loop_capture!(&'' @ variable @ '');''"

definition log_text :: "nat \<Rightarrow> nat \<Rightarrow> place \<Rightarrow> string" where
  "log_text fd fl at1 = '' crate::atomis_log!('' @ comma_nats [fd, fl, fst at1, snd at1] @ '');''"

definition log_loop_text :: "nat \<Rightarrow> nat \<Rightarrow> place \<Rightarrow> place \<Rightarrow> string \<Rightarrow> string \<Rightarrow> string" where
  "log_loop_text fd fl at1 loop_at variable shadow =
     '' crate::atomis_log_loop!('' @ comma_nats [fd, fl, fst at1, snd at1, fst loop_at, snd loop_at] @ '', ''
       @ in_quotes variable @ '', captured &'' @ shadow @ '');''"

definition push_loop :: "place \<Rightarrow> string option \<Rightarrow> nat \<Rightarrow> collector \<Rightarrow> collector" where
  "push_loop at1 variable body_start c =
     (let n = co_loop_counter c + 1 in
      c\<lparr>co_loop_counter := n,
        co_loops := co_loops c @ [\<lparr>lm_place = at1, lm_variable = variable, lm_shadow = ''__atomis_loop_v'' @ show_nat n,
          lm_body_start = body_start, lm_used = False\<rparr>]\<rparr>)"

definition pop_loop :: "collector \<Rightarrow> collector" where
  "pop_loop c =
     (if co_loops c = [] then c
      else
        let meta = last (co_loops c); c1 = c\<lparr>co_loops := butlast (co_loops c)\<rparr>
        in (case (lm_used meta, lm_variable meta) of
              (True, Some variable) \<Rightarrow>
                c1\<lparr>co_insertions := co_insertions c @ [(lm_body_start meta, capture_text (lm_shadow meta) variable)]\<rparr>
            | _ \<Rightarrow> c1))"

definition with_loop_barrier :: "(collector \<Rightarrow> collector) \<Rightarrow> collector \<Rightarrow> collector" where
  "with_loop_barrier visit c = (visit (c\<lparr>co_loops := []\<rparr>))\<lparr>co_loops := co_loops c\<rparr>"

fun local_ident :: "pat \<Rightarrow> string + (string \<times> span_range) option" where
  "local_ident (PatIdent name r subpat) = (if subpat then Inl ''pattern with a @ subpattern'' else Inr (Some (name, r)))"
| "local_ident (PatType p) = local_ident p"
| "local_ident PatWild = Inr None"
| "local_ident PatTuple = Inl ''destructuring pattern''"
| "local_ident PatTupleStruct = Inl ''destructuring pattern''"
| "local_ident PatStruct = Inl ''destructuring pattern''"
| "local_ident PatOther = Inl ''unsupported pattern''"

definition unsupported :: "file_options \<Rightarrow> span_range \<Rightarrow> string \<Rightarrow> string \<Rightarrow> collector \<Rightarrow> collector" where
  "unsupported o1 r name reason c =
     c\<lparr>co_probes := co_probes c @ [\<lparr>pb_id = make_probe_id (fo_uri o1) r name, pb_name = name, pb_supported = False,
        pb_reason = Some reason, pb_range = r, pb_insertion_byte = None, pb_mode = AutoMode\<rparr>]\<rparr>"

text \<open>What a \<open>let\<close> adds, after its parts were visited.\<close>

definition take_let :: "file_options \<Rightarrow> pat \<Rightarrow> span_range \<Rightarrow> bool \<Rightarrow> nat \<Rightarrow> collector \<Rightarrow> collector" where
  "take_let o1 p pat_range init statement_end c =
     (if 0 < co_test_depth c then c
      else if 0 < co_const_depth c
      then (case local_ident p of Inr (Some (name, r)) \<Rightarrow> unsupported o1 r name ''const context'' c | _ \<Rightarrow> c)
      else (case local_ident p of
              Inr None \<Rightarrow> c
            | Inl reason \<Rightarrow> unsupported o1 pat_range ''<pattern>'' reason c
            | Inr (Some (name, r)) \<Rightarrow>
                if \<not> init then unsupported o1 r name ''declaration without initializer'' c
                else
                  let id1 = make_probe_id (fo_uri o1) r name; on = active o1 id1
                  in c\<lparr>co_insertions := co_insertions c @ (if on then [(statement_end, probe_text id1 r name)] else []),
                       co_probes := co_probes c @
                         [\<lparr>pb_id = id1, pb_name = name, pb_supported = True, pb_reason = None, pb_range = r,
                           pb_insertion_byte = if on then Some statement_end else None,
                           pb_mode = if fo_auto_inspect o1 then AutoMode else ManualMode\<rparr>]\<rparr>))"

definition take_macro :: "file_options \<Rightarrow> string option \<Rightarrow> place \<Rightarrow> nat \<Rightarrow> collector \<Rightarrow> collector" where
  "take_macro o1 name at1 stmt_end c =
     (if 0 < co_test_depth c \<or> 0 < co_const_depth c then c
      else (case name of
              None \<Rightarrow> c
            | Some macro \<Rightarrow>
                if macro \<notin> set LOG_MACROS then c
                else
                  let fd = (if macro \<in> set STDERR_MACROS then 2 else 1); fl = fo_file_id o1;
                      add = (\<lambda>insertion c1. c1\<lparr>co_insertions := co_insertions c1 @ [(stmt_end, insertion)]\<rparr>)
                  in (case (if co_loops c = [] then None else lm_variable (last (co_loops c))) of
                        None \<Rightarrow> add (log_text fd fl at1) c
                      | Some variable \<Rightarrow>
                          let meta = last (co_loops c)
                          in add (log_loop_text fd fl at1 (lm_place meta) variable (lm_shadow meta))
                               (c\<lparr>co_loops := butlast (co_loops c) @ [meta\<lparr>lm_used := True\<rparr>]\<rparr>))))"

definition in_test :: "bool \<Rightarrow> (collector \<Rightarrow> collector) \<Rightarrow> collector \<Rightarrow> collector" where
  "in_test test visit c =
     (if test then (let c1 = visit (c\<lparr>co_test_depth := co_test_depth c + 1\<rparr>) in c1\<lparr>co_test_depth := co_test_depth c1 - 1\<rparr>)
      else visit c)"

definition in_const :: "bool \<Rightarrow> (collector \<Rightarrow> collector) \<Rightarrow> collector \<Rightarrow> collector" where
  "in_const konst visit c =
     (if konst then (let c1 = visit (c\<lparr>co_const_depth := co_const_depth c + 1\<rparr>) in c1\<lparr>co_const_depth := co_const_depth c1 - 1\<rparr>)
      else visit c)"

definition loop_variable :: "pat \<Rightarrow> string option" where
  "loop_variable p = (case local_ident p of Inr (Some (name, _)) \<Rightarrow> Some name | _ \<Rightarrow> None)"

fun visit :: "file_options \<Rightarrow> node \<Rightarrow> collector \<Rightarrow> collector"
  and visit_all :: "file_options \<Rightarrow> node list \<Rightarrow> collector \<Rightarrow> collector" where
  "visit o1 (ItemFn attrs konst ns) c = in_test (is_test_attr attrs) (in_const konst (with_loop_barrier (visit_all o1 ns))) c"
| "visit o1 (ImplItemFn konst ns) c = in_const konst (with_loop_barrier (visit_all o1 ns)) c"
| "visit o1 (ItemConst ns) c = in_const True (visit_all o1 ns) c"
| "visit o1 (ItemStatic ns) c = in_const True (visit_all o1 ns) c"
| "visit o1 (ExprConst ns) c = in_const True (visit_all o1 ns) c"
| "visit o1 (ExprClosure ns) c = with_loop_barrier (visit_all o1 ns) c"
| "visit o1 (ExprAsync ns) c = with_loop_barrier (visit_all o1 ns) c"
| "visit o1 (ItemMod attrs ns) c = in_test (is_test_attr attrs) (visit_all o1 ns) c"
| "visit o1 (ExprForLoop at1 p body_start ns) c = pop_loop (visit_all o1 ns (push_loop at1 (loop_variable p) body_start c))"
| "visit o1 (ExprWhile at1 body_start ns cond ms) c =
     pop_loop (visit_all o1 ms (visit o1 cond (visit_all o1 ns (push_loop at1 (first_ident cond) body_start c))))"
| "visit o1 (ExprLoop at1 body_start ns) c = pop_loop (visit_all o1 ns (push_loop at1 None body_start c))"
| "visit o1 (ExprPath _ ns) c = visit_all o1 ns c"
| "visit o1 (LocalLet p pat_range init statement_end ns) c = take_let o1 p pat_range init statement_end (visit_all o1 ns c)"
| "visit o1 (StmtMacro name at1 stmt_end ns) c = take_macro o1 name at1 stmt_end (visit_all o1 ns c)"
| "visit o1 (Node ns) c = visit_all o1 ns c"
| "visit_all o1 [] c = c"
| "visit_all o1 (n # ns) c = visit_all o1 ns (visit o1 n c)"

section \<open>Splicing\<close>

definition char_boundary :: "string \<Rightarrow> nat \<Rightarrow> bool" where
  "char_boundary s i \<longleftrightarrow> i = 0 \<or> i = length s \<or> i < length s \<and> \<not> (128 \<le> byte (s ! i) \<and> byte (s ! i) < 192)"

definition insert_str :: "nat \<times> string \<Rightarrow> string \<Rightarrow> string" where
  "insert_str ins s = (if fst ins \<le> length s \<and> char_boundary s (fst ins) then take (fst ins) s @ snd ins @ drop (fst ins) s else s)"

definition splice :: "(nat \<times> string) list \<Rightarrow> string \<Rightarrow> string" where
  "splice insertions s = fold insert_str (sort_key (\<lambda>ins. - int (fst ins)) insertions) s"

definition runtime_module :: string where
  "runtime_module = [lf] @ ''#[path = '' @ in_quotes ''atomis_runtime.rs'' @ '']'' @ [lf] @ ''mod __atomis_runtime;'' @ [lf]"

definition without_bom :: "string \<Rightarrow> string" where
  "without_bom s = (case strip_prefix s [CHR 0xEF, CHR 0xBB, CHR 0xBF] of Some rest \<Rightarrow> rest | None \<Rightarrow> s)"

definition already_instrumented :: "string \<Rightarrow> bool" where
  "already_instrumented s \<longleftrightarrow>
     contains s ''crate::atomis_probe!('' \<or> contains s ''crate::atomis_log!('' \<or> contains s ''crate::atomis_log_loop!(''"

text \<open>\<open>parse_file\<close> gives the errors with where their spans start, lines from 1 and columns from 0.\<close>

definition instrument_source ::
  "(string \<Rightarrow> (string \<times> nat \<times> nat) list + node) \<Rightarrow> file_options \<Rightarrow> bool \<Rightarrow> string \<Rightarrow> instrumented_source" where
  "instrument_source parse_file o1 entry source0 =
     (let source = without_bom source0 in
      if already_instrumented source
      then \<lparr>is_generated = Some source, is_probes = [], is_diagnostics = []\<rparr>
      else (case parse_file source of
              Inl errors \<Rightarrow>
                \<lparr>is_generated = None, is_probes = [],
                 is_diagnostics = map (\<lambda>(message, line, column).
                   \<lparr>rd_message = message, rd_line = max line 1, rd_column = column + 1\<rparr>) errors\<rparr>
            | Inr tree \<Rightarrow>
                let c = visit o1 tree collector_new
                in \<lparr>is_generated = Some (splice (co_insertions c) source @ (if entry then runtime_module else [])),
                    is_probes = co_probes c, is_diagnostics = []\<rparr>))"

section \<open>The generated text has the lines of the source\<close>

text \<open>\<open>woven s g\<close>: g is s with characters other than newlines put in between.\<close>

inductive woven :: "string \<Rightarrow> string \<Rightarrow> bool" where
  woven_Nil [intro!, simp]: "woven [] []"
| woven_keep: "woven s g \<Longrightarrow> woven (c # s) (c # g)"
| woven_new: "woven s g \<Longrightarrow> c \<noteq> lf \<Longrightarrow> woven s (c # g)"

inductive_cases woven_ConsE: "woven s (c # g)"
inductive_cases woven_NilE [elim!]: "woven s []"

lemma woven_refl [simp]: "woven s s"
  by (induction s) (auto intro: woven.intros)

lemma woven_append: "woven s g \<Longrightarrow> woven t h \<Longrightarrow> woven (s @ t) (g @ h)"
  by (induction rule: woven.induct) (auto intro: woven.intros)

lemma woven_text: "lf \<notin> set t \<Longrightarrow> woven [] t"
  by (induction t) (auto intro: woven.intros)

lemma woven_split: "woven s (g @ h) \<Longrightarrow> \<exists>s1 s2. s = s1 @ s2 \<and> woven s1 g \<and> woven s2 h"
proof (induction g arbitrary: s)
  case (Cons c g)
  from Cons.prems have "woven s (c # (g @ h))" by simp
  then consider (keep) s' where "s = c # s'" "woven s' (g @ h)" | (new) "c \<noteq> lf" "woven s (g @ h)"
    by (auto elim: woven_ConsE)
  then show ?case
  proof cases
    case keep
    with Cons.IH [of s'] obtain s1 s2 where "s' = s1 @ s2" "woven s1 g" "woven s2 h" by blast
    with keep show ?thesis by (intro exI [of _ "c # s1"] exI [of _ s2]) (auto intro: woven_keep)
  next
    case new
    with Cons.IH [of s] obtain s1 s2 where "s = s1 @ s2" "woven s1 g" "woven s2 h" by blast
    with new show ?thesis by (intro exI [of _ s1] exI [of _ s2]) (auto intro: woven_new)
  qed
qed auto

lemma woven_insert:
  assumes "woven s g" "lf \<notin> set (snd ins)"
  shows "woven s (insert_str ins g)"
proof (cases "fst ins \<le> length g \<and> char_boundary g (fst ins)")
  case True
  obtain s1 s2 where s: "s = s1 @ s2" "woven s1 (take (fst ins) g)" "woven s2 (drop (fst ins) g)"
    using woven_split [of s "take (fst ins) g" "drop (fst ins) g"] assms(1) by auto
  have "woven (s1 @ [] @ s2) (take (fst ins) g @ snd ins @ drop (fst ins) g)"
    by (intro woven_append s(2,3) woven_text assms(2))
  with True s(1) show ?thesis by (simp add: insert_str_def)
qed (use assms in \<open>auto simp: insert_str_def\<close>)

lemma woven_splice: "\<forall>ins \<in> set insertions. lf \<notin> set (snd ins) \<Longrightarrow> woven s (splice insertions s)"
proof -
  have "\<forall>ins \<in> set is. lf \<notin> set (snd ins) \<Longrightarrow> woven s g \<Longrightarrow> woven s (fold insert_str is g)" for "is" g
    by (induction "is" arbitrary: g) (auto intro: woven_insert)
  then show "\<forall>ins \<in> set insertions. lf \<notin> set (snd ins) \<Longrightarrow> woven s (splice insertions s)"
    by (simp add: splice_def)
qed

lemma woven_lines: "woven s g \<Longrightarrow> list_all2 subseq (split_lines s) (split_lines g)"
  unfolding split_lines_def
proof (induction rule: woven.induct)
  case (woven_keep s g c)
  then show ?case by (cases "split_on lf s"; cases "split_on lf g") auto
next
  case (woven_new s g c)
  then show ?case by (cases "split_on lf s"; cases "split_on lf g") auto
qed simp

lemma woven_newlines: "woven s g \<Longrightarrow> count_list g lf = count_list s lf"
  by (induction rule: woven.induct) simp_all

text \<open>What is spliced in holds no newline: identifiers have none.\<close>

fun pat_clean :: "pat \<Rightarrow> bool" where
  "pat_clean (PatIdent name _ _) \<longleftrightarrow> lf \<notin> set name"
| "pat_clean (PatType p) \<longleftrightarrow> pat_clean p"
| "pat_clean _ \<longleftrightarrow> True"

fun clean :: "node \<Rightarrow> bool" and clean_all :: "node list \<Rightarrow> bool" where
  "clean (ItemFn _ _ ns) = clean_all ns"
| "clean (ImplItemFn _ ns) = clean_all ns"
| "clean (ItemConst ns) = clean_all ns"
| "clean (ItemStatic ns) = clean_all ns"
| "clean (ExprConst ns) = clean_all ns"
| "clean (ExprClosure ns) = clean_all ns"
| "clean (ExprAsync ns) = clean_all ns"
| "clean (ItemMod _ ns) = clean_all ns"
| "clean (ExprForLoop _ p _ ns) = (pat_clean p \<and> clean_all ns)"
| "clean (ExprWhile _ _ ns cond ms) = (clean_all ns \<and> clean cond \<and> clean_all ms)"
| "clean (ExprLoop _ _ ns) = clean_all ns"
| "clean (ExprPath i ns) = ((case i of Some name \<Rightarrow> lf \<notin> set name | None \<Rightarrow> True) \<and> clean_all ns)"
| "clean (LocalLet p _ _ _ ns) = (pat_clean p \<and> clean_all ns)"
| "clean (StmtMacro _ _ _ ns) = clean_all ns"
| "clean (Node ns) = clean_all ns"
| "clean_all [] = True"
| "clean_all (n # ns) = (clean n \<and> clean_all ns)"

definition newline_free :: "collector \<Rightarrow> bool" where
  "newline_free c \<longleftrightarrow> (\<forall>ins \<in> set (co_insertions c). lf \<notin> set (snd ins))
     \<and> (\<forall>m \<in> set (co_loops c). lf \<notin> set (lm_shadow m) \<and> (\<forall>v. lm_variable m = Some v \<longrightarrow> lf \<notin> set v))"

lemma lf_show_nat [simp]: "lf \<notin> set (show_nat n)"
  using show_nat_digits [of n] by (auto simp: list_all_iff lf_def ascii_digit_def byte_def)

lemma lf_hex16 [simp]: "lf \<notin> set (hex16 h)"
proof -
  have "hex_lower d \<noteq> lf" if "d < 16" for d
    using lower_hex_digit [OF that] by (auto simp: lower_hex_def lf_def ascii_digit_def byte_def)
  then have "hex_lower (n mod 16) \<noteq> lf" for n by simp
  then show ?thesis by (auto simp: hex16_def dest: sym)
qed

lemma lf_probe_id [simp]: "lf \<notin> set (make_probe_id uri r name)"
  by (simp add: make_probe_id_def Let_def)

lemma lf_texts [simp]:
  "lf \<notin> set (probe_text (make_probe_id uri r name) r name) \<longleftrightarrow> lf \<notin> set name"
  "lf \<notin> set (capture_text shadow variable) \<longleftrightarrow> lf \<notin> set shadow \<and> lf \<notin> set variable"
  "lf \<notin> set (log_text fd fl at1)"
  "lf \<notin> set (log_loop_text fd fl at1 loop_at variable shadow) \<longleftrightarrow> lf \<notin> set variable \<and> lf \<notin> set shadow"
proof -
  have q: "lf \<notin> set (in_quotes t) \<longleftrightarrow> lf \<notin> set t" for t by (simp add: in_quotes_def lf_def quote_char_def)
  have "lf \<notin> set (comma_nats ns)" for ns
    unfolding comma_nats_def
  proof (induction ns)
    case (Cons n ns)
    then show ?case using lf_show_nat [of n] by (cases ns) (auto simp: lf_def simp del: lf_show_nat)
  qed simp
  note this [of "[_, _]"] this [of "[_, _, _, _]"] this [of "[_, _, _, _, _, _]"]
  with q lf_probe_id [of uri r name] show
    "lf \<notin> set (probe_text (make_probe_id uri r name) r name) \<longleftrightarrow> lf \<notin> set name"
    "lf \<notin> set (capture_text shadow variable) \<longleftrightarrow> lf \<notin> set shadow \<and> lf \<notin> set variable"
    "lf \<notin> set (log_text fd fl at1)"
    "lf \<notin> set (log_loop_text fd fl at1 loop_at variable shadow) \<longleftrightarrow> lf \<notin> set variable \<and> lf \<notin> set shadow"
    unfolding probe_text_def capture_text_def log_text_def log_loop_text_def
    by (simp_all add: lf_def del: lf_probe_id lf_show_nat)
qed

lemma newline_free_frame [simp]:
  "newline_free (c\<lparr>co_test_depth := a\<rparr>) = newline_free c" "newline_free (c\<lparr>co_const_depth := b\<rparr>) = newline_free c"
  "newline_free (c\<lparr>co_probes := d\<rparr>) = newline_free c"
  by (simp_all add: newline_free_def)

lemma newline_free_test: "(\<And>c. newline_free c \<Longrightarrow> newline_free (f c)) \<Longrightarrow> newline_free c \<Longrightarrow> newline_free (in_test test f c)"
  by (simp add: in_test_def Let_def)

lemma newline_free_const: "(\<And>c. newline_free c \<Longrightarrow> newline_free (f c)) \<Longrightarrow> newline_free c \<Longrightarrow> newline_free (in_const konst f c)"
  by (simp add: in_const_def Let_def)

lemma newline_free_barrier:
  assumes "\<And>c. newline_free c \<Longrightarrow> newline_free (f c)" "newline_free c"
  shows "newline_free (with_loop_barrier f c)"
proof -
  have "newline_free (f (c\<lparr>co_loops := []\<rparr>))" by (rule assms(1)) (use assms(2) in \<open>simp add: newline_free_def\<close>)
  with assms(2) show ?thesis by (simp add: with_loop_barrier_def newline_free_def)
qed

lemma newline_free_push:
  "newline_free c \<Longrightarrow> (\<And>v. variable = Some v \<Longrightarrow> lf \<notin> set v) \<Longrightarrow> newline_free (push_loop at1 variable body_start c)"
  using lf_show_nat [of "co_loop_counter c + 1"] by (auto simp: newline_free_def push_loop_def Let_def lf_def simp del: lf_show_nat)

lemma newline_free_pop: "newline_free c \<Longrightarrow> newline_free (pop_loop c)"
  by (auto simp: newline_free_def pop_loop_def Let_def split: bool.split option.split dest!: in_set_butlastD)

lemma local_ident_clean: "pat_clean p \<Longrightarrow> local_ident p = Inr (Some (name, r)) \<Longrightarrow> lf \<notin> set name"
  by (induction p rule: local_ident.induct) (auto split: if_splits)

lemma first_ident_clean:
  "clean n \<Longrightarrow> first_ident n = Some v \<Longrightarrow> lf \<notin> set v"
  "clean_all ns \<Longrightarrow> first_ident_in ns = Some v \<Longrightarrow> lf \<notin> set v"
  by (induction n and ns rule: first_ident_first_ident_in.induct) (auto split: option.splits)

lemma newline_free_let:
  "newline_free c \<Longrightarrow> pat_clean p \<Longrightarrow> newline_free (take_let o1 p pat_range init statement_end c)"
  using local_ident_clean [of p]
  by (auto simp: take_let_def unsupported_def Let_def newline_free_def lf_texts(1) [THEN iffD2] split: sum.split option.split)

lemma newline_free_macro: "newline_free c \<Longrightarrow> newline_free (take_macro o1 name at1 stmt_end c)"
  by (auto simp: take_macro_def Let_def newline_free_def split: option.split if_splits dest!: in_set_butlastD)

lemma visit_newline_free:
  "clean n \<Longrightarrow> newline_free c \<Longrightarrow> newline_free (visit o1 n c)"
  "clean_all ns \<Longrightarrow> newline_free c \<Longrightarrow> newline_free (visit_all o1 ns c)"
proof (induction o1 n c and o1 ns c rule: visit_visit_all.induct)
  case (9 o1 at1 p body_start ns c)
  have "newline_free (push_loop at1 (loop_variable p) body_start c)"
    using 9 local_ident_clean [of p] by (intro newline_free_push) (auto simp: loop_variable_def split: sum.splits option.splits)
  with 9 show ?case by (simp add: newline_free_pop)
next
  case (10 o1 at1 body_start ns cond ms c)
  have "newline_free (push_loop at1 (first_ident cond) body_start c)"
    using 10(5) by (intro newline_free_push 10(4)) (use 10 first_ident_clean(1) [of cond] in \<open>auto\<close>)
  with 10 show ?case by (simp add: newline_free_pop)
qed (auto intro!: newline_free_test newline_free_const newline_free_barrier newline_free_pop newline_free_push newline_free_let
    newline_free_macro)

lemma splice_woven: "clean tree \<Longrightarrow> woven s (splice (co_insertions (visit o1 tree collector_new)) s)"
  using visit_newline_free(1) [of tree collector_new o1]
  by (intro woven_splice) (simp add: newline_free_def collector_new_def)

lemma split_on_at: "split_on x (s @ x # t) = split_on x s @ split_on x t"
proof (induction s)
  case (Cons c s)
  then show ?case by (cases "split_on x s") auto
qed simp

lemma generated_source:
  assumes "\<And>s tree. parse_file s = Inr tree \<Longrightarrow> clean tree"
    and "is_generated (instrument_source parse_file o1 entry source) = Some generated"
    and "\<not> already_instrumented (without_bom source)"
  shows "\<exists>g. woven (without_bom source) g \<and> generated = g @ (if entry then runtime_module else [])"
  using assms splice_woven [of _ "without_bom source" o1]
  by (auto simp: instrument_source_def Let_def split: sum.splits)


section \<open>What is spliced in is accounted for\<close>

definition captured :: "(nat \<times> string) list \<Rightarrow> loop_meta list \<Rightarrow> string \<Rightarrow> string \<Rightarrow> bool" where
  "captured ins loops shadow variable \<longleftrightarrow> (\<exists>b. (b, capture_text shadow variable) \<in> set ins)
     \<or> (\<exists>m \<in> set loops. lm_used m \<and> lm_shadow m = shadow \<and> lm_variable m = Some variable)"

definition accounted_insertion :: "probe list \<Rightarrow> (nat \<times> string) list \<Rightarrow> loop_meta list \<Rightarrow> nat \<times> string \<Rightarrow> bool" where
  "accounted_insertion probes ins loops i \<longleftrightarrow>
     (\<exists>p \<in> set probes. pb_insertion_byte p = Some (fst i) \<and> snd i = probe_text (pb_id p) (pb_range p) (pb_name p))
     \<or> (\<exists>fd fl at1. snd i = log_text fd fl at1)
     \<or> (\<exists>shadow variable. snd i = capture_text shadow variable)
     \<or> (\<exists>fd fl at1 loop_at variable shadow. snd i = log_loop_text fd fl at1 loop_at variable shadow
          \<and> captured ins loops shadow variable)"

definition selected :: "file_options \<Rightarrow> (nat \<times> string) list \<Rightarrow> probe \<Rightarrow> bool" where
  "selected o1 ins p \<longleftrightarrow> pb_id p = make_probe_id (fo_uri o1) (pb_range p) (pb_name p)
     \<and> (pb_insertion_byte p \<noteq> None \<longleftrightarrow> pb_supported p \<and> active o1 (pb_id p))
     \<and> (\<forall>b. pb_insertion_byte p = Some b \<longrightarrow> (b, probe_text (pb_id p) (pb_range p) (pb_name p)) \<in> set ins)"

definition same_loop :: "loop_meta \<Rightarrow> loop_meta \<Rightarrow> bool" where
  "same_loop m m' \<longleftrightarrow> m' = m\<lparr>lm_used := lm_used m'\<rparr> \<and> (lm_used m \<longrightarrow> lm_used m')"

text \<open>\<open>grows o1 c c'\<close>: c' has what c has, the same loops, and more that is accounted for.\<close>

definition grows :: "file_options \<Rightarrow> collector \<Rightarrow> collector \<Rightarrow> bool" where
  "grows o1 c c' \<longleftrightarrow> (\<exists>ins probes. co_insertions c' = co_insertions c @ ins \<and> co_probes c' = co_probes c @ probes
     \<and> list_all2 same_loop (co_loops c) (co_loops c')
     \<and> (\<forall>i \<in> set ins. accounted_insertion probes ins (co_loops c') i) \<and> (\<forall>p \<in> set probes. selected o1 ins p))"

lemma same_loop_refl [simp]: "same_loop m m"
  by (simp add: same_loop_def)

lemma same_loop_trans: "same_loop a b \<Longrightarrow> same_loop b c \<Longrightarrow> same_loop a c"
  by (cases a; cases b; cases c) (auto simp: same_loop_def)

lemma same_loops_refl [simp]: "list_all2 same_loop ms ms"
  by (simp add: list_all2_refl)

lemma same_loops_used:
  assumes "list_all2 same_loop ms ms'" "m \<in> set ms" "lm_used m"
  shows "\<exists>m' \<in> set ms'. lm_used m' \<and> lm_shadow m' = lm_shadow m \<and> lm_variable m' = lm_variable m"
proof -
  obtain i where "i < length ms" "ms ! i = m" using assms(2) by (auto simp: in_set_conv_nth)
  with assms(1,3) have "same_loop m (ms' ! i)" "i < length ms'" by (auto simp: list_all2_conv_all_nth)
  moreover from this assms(3) have "lm_used (ms' ! i) \<and> lm_shadow (ms' ! i) = lm_shadow m \<and> lm_variable (ms' ! i) = lm_variable m"
    by (cases m; cases "ms' ! i") (simp add: same_loop_def)
  ultimately show ?thesis by (intro bexI [of _ "ms' ! i"]) simp_all
qed

lemma captured_mono:
  assumes "captured ins loops shadow variable" "set ins \<subseteq> set ins'"
    and "\<And>m. m \<in> set loops \<Longrightarrow> lm_used m \<Longrightarrow> lm_variable m \<noteq> None \<Longrightarrow> captured ins' loops' (lm_shadow m) (the (lm_variable m))"
  shows "captured ins' loops' shadow variable"
  using assms(1) unfolding captured_def [of ins]
proof (elim disjE exE bexE conjE)
  fix b assume "(b, capture_text shadow variable) \<in> set ins"
  with assms(2) show ?thesis by (auto simp: captured_def)
next
  fix m assume "m \<in> set loops" "lm_used m" "lm_shadow m = shadow" "lm_variable m = Some variable"
  with assms(3) [of m] show ?thesis by simp
qed

lemma accounted_mono:
  assumes "accounted_insertion probes ins loops i" "set probes \<subseteq> set probes'" "set ins \<subseteq> set ins'"
    and "\<And>m. m \<in> set loops \<Longrightarrow> lm_used m \<Longrightarrow> lm_variable m \<noteq> None \<Longrightarrow> captured ins' loops' (lm_shadow m) (the (lm_variable m))"
  shows "accounted_insertion probes' ins' loops' i"
  using assms(1,2) captured_mono [OF _ assms(3,4)] unfolding accounted_insertion_def by blast

lemma captured_used: "m \<in> set loops \<Longrightarrow> lm_used m \<Longrightarrow> lm_variable m = Some v \<Longrightarrow> captured ins loops (lm_shadow m) v"
  by (auto simp: captured_def)

lemma captured_same:
  assumes "list_all2 same_loop loops loops'" "m \<in> set loops" "lm_used m" "lm_variable m \<noteq> None"
  shows "captured ins loops' (lm_shadow m) (the (lm_variable m))"
  using same_loops_used [OF assms(1-3)] assms(4) by (auto simp: captured_def)

lemma selected_mono: "selected o1 ins p \<Longrightarrow> set ins \<subseteq> set ins' \<Longrightarrow> selected o1 ins' p"
  unfolding selected_def by blast

lemma grows_refl [simp]: "grows o1 c c"
  by (simp add: grows_def)

lemma grows_trans:
  assumes "grows o1 c c'" "grows o1 c' c''"
  shows "grows o1 c c''"
proof -
  obtain i p where a: "co_insertions c' = co_insertions c @ i" "co_probes c' = co_probes c @ p"
    "list_all2 same_loop (co_loops c) (co_loops c')" "\<forall>x \<in> set i. accounted_insertion p i (co_loops c') x"
    "\<forall>q \<in> set p. selected o1 i q"
    using assms(1) by (auto simp: grows_def)
  obtain i' p' where b: "co_insertions c'' = co_insertions c' @ i'" "co_probes c'' = co_probes c' @ p'"
    "list_all2 same_loop (co_loops c') (co_loops c'')" "\<forall>x \<in> set i'. accounted_insertion p' i' (co_loops c'') x"
    "\<forall>q \<in> set p'. selected o1 i' q"
    using assms(2) by (auto simp: grows_def)
  have "list_all2 same_loop (co_loops c) (co_loops c'')"
    by (rule list_all2_trans [OF _ a(3) b(3)]) (rule same_loop_trans)
  moreover have "accounted_insertion (p @ p') (i @ i') (co_loops c'') x" if "x \<in> set (i @ i')" for x
    using that a(4) b(4) accounted_mono [of p i "co_loops c'" x "p @ p'" "i @ i'" "co_loops c''"]
      accounted_mono [of p' i' "co_loops c''" x "p @ p'" "i @ i'" "co_loops c''"] captured_same [OF b(3)] captured_same [of "co_loops c''" "co_loops c''"]
    by auto
  moreover have "selected o1 (i @ i') q" if "q \<in> set (p @ p')" for q
    using that a(5) b(5) selected_mono [of o1 i q "i @ i'"] selected_mono [of o1 i' q "i @ i'"] by auto
  ultimately show ?thesis
    using a(1,2) b(1,2) by (auto simp: grows_def)
qed

lemma grows_frame [simp]:
  "grows o1 (c\<lparr>co_test_depth := a\<rparr>) c' = grows o1 c c'" "grows o1 c (c'\<lparr>co_test_depth := a\<rparr>) = grows o1 c c'"
  "grows o1 (c\<lparr>co_const_depth := a\<rparr>) c' = grows o1 c c'" "grows o1 c (c'\<lparr>co_const_depth := a\<rparr>) = grows o1 c c'"
  by (simp_all add: grows_def)

lemma grows_test:
  assumes "\<And>c. grows o1 c (f c)"
  shows "grows o1 c (in_test test f c)"
  using assms [of c] assms [of "c\<lparr>co_test_depth := co_test_depth c + 1\<rparr>"] by (simp add: in_test_def Let_def)

lemma grows_const:
  assumes "\<And>c. grows o1 c (f c)"
  shows "grows o1 c (in_const konst f c)"
  using assms [of c] assms [of "c\<lparr>co_const_depth := co_const_depth c + 1\<rparr>"] by (simp add: in_const_def Let_def)

lemma grows_barrier:
  assumes "\<And>c. grows o1 c (f c)"
  shows "grows o1 c (with_loop_barrier f c)"
proof -
  let ?c = "c\<lparr>co_loops := []\<rparr>"
  obtain i p where f: "co_insertions (f ?c) = co_insertions c @ i" "co_probes (f ?c) = co_probes c @ p" "co_loops (f ?c) = []"
    "\<forall>x \<in> set i. accounted_insertion p i [] x" "\<forall>q \<in> set p. selected o1 i q"
    using assms [of ?c] by (auto simp: grows_def)
  have "accounted_insertion p i (co_loops c) x" if "x \<in> set i" for x
    by (rule accounted_mono [of p i "[]"]) (use f that in auto)
  with f show ?thesis by (simp add: grows_def with_loop_barrier_def)
qed

lemma grows_loop:
  assumes "grows o1 (push_loop at1 variable body_start c) c'"
  shows "grows o1 c (pop_loop c')"
proof -
  obtain m where push: "co_loops (push_loop at1 variable body_start c) = co_loops c @ [m]"
    "co_insertions (push_loop at1 variable body_start c) = co_insertions c" "co_probes (push_loop at1 variable body_start c) = co_probes c"
    by (simp add: push_loop_def Let_def)
  obtain i p where f: "co_insertions c' = co_insertions c @ i" "co_probes c' = co_probes c @ p"
    "list_all2 same_loop (co_loops c @ [m]) (co_loops c')"
    "\<forall>x \<in> set i. accounted_insertion p i (co_loops c') x" "\<forall>q \<in> set p. selected o1 i q"
    using assms push by (auto simp: grows_def)
  obtain ms m' where loops: "co_loops c' = ms @ [m']" "list_all2 same_loop (co_loops c) ms"
    using f(3) by (auto simp: list_all2_append1 list_all2_Cons1)
  let ?more = "(case (lm_used m', lm_variable m') of (True, Some v) \<Rightarrow> [(lm_body_start m', capture_text (lm_shadow m') v)] | _ \<Rightarrow> [])"
  have pop: "co_insertions (pop_loop c') = co_insertions c @ i @ ?more" "co_probes (pop_loop c') = co_probes c @ p"
    "co_loops (pop_loop c') = ms"
    using f loops by (auto simp: pop_loop_def Let_def split: bool.split option.split)
  have "accounted_insertion p (i @ ?more) ms x" if "x \<in> set (i @ ?more)" for x
  proof (cases "x \<in> set i")
    case True
    show ?thesis
    proof (rule accounted_mono [of p i "co_loops c'"])
      fix l assume "l \<in> set (co_loops c')" "lm_used l" "lm_variable l \<noteq> None"
      then consider "l \<in> set ms" | "l = m'" using loops by auto
      then show "captured (i @ ?more) ms (lm_shadow l) (the (lm_variable l))"
        by cases (use \<open>lm_used l\<close> \<open>lm_variable l \<noteq> None\<close> in \<open>auto simp: captured_def\<close>)
    qed (use f True in auto)
  next
    case False
    with that obtain v where "snd x = capture_text (lm_shadow m') v" by (auto split: bool.splits option.splits)
    then show ?thesis unfolding accounted_insertion_def by blast
  qed
  moreover have "\<forall>q \<in> set p. selected o1 (i @ ?more) q" using f(5) selected_mono [of o1 i _ "i @ ?more"] by auto
  ultimately show ?thesis using pop loops by (auto simp: grows_def)
qed

lemma grows_unsupported: "grows o1 c (unsupported o1 r name reason c)"
  by (simp add: grows_def unsupported_def selected_def)

lemma grows_let: "grows o1 c (take_let o1 p pat_range init statement_end c)"
  by (auto simp: take_let_def Let_def grows_unsupported split: sum.split option.split)
    (auto simp: grows_def selected_def accounted_insertion_def)

lemma accounted_log: "snd i = log_text fd fl at1 \<Longrightarrow> accounted_insertion probes ins loops i"
  unfolding accounted_insertion_def by blast

lemma accounted_marker:
  "snd i = log_loop_text fd fl at1 loop_at v shadow \<Longrightarrow> captured ins loops shadow v \<Longrightarrow> accounted_insertion probes ins loops i"
  unfolding accounted_insertion_def by blast

lemma grows_macro: "grows o1 c (take_macro o1 name at1 stmt_end c)"
proof -
  have plain: "grows o1 c (c\<lparr>co_insertions := co_insertions c @ [(stmt_end, log_text fd fl at1)]\<rparr>)" for fd fl
    using accounted_log [of "(stmt_end, log_text fd fl at1)"] by (simp add: grows_def)
  have marked: "grows o1 c (c\<lparr>co_loops := butlast (co_loops c) @ [(last (co_loops c))\<lparr>lm_used := True\<rparr>],
      co_insertions := co_insertions c @ [(stmt_end, log_loop_text fd fl at1 loop_at v (lm_shadow (last (co_loops c))))]\<rparr>)"
    if "co_loops c \<noteq> []" "lm_variable (last (co_loops c)) = Some v" for fd fl loop_at v
  proof -
    have "list_all2 same_loop (butlast (co_loops c) @ [last (co_loops c)]) (butlast (co_loops c) @ [(last (co_loops c))\<lparr>lm_used := True\<rparr>])"
      by (intro list_all2_appendI) (simp_all add: same_loop_def)
    then have "list_all2 same_loop (co_loops c) (butlast (co_loops c) @ [(last (co_loops c))\<lparr>lm_used := True\<rparr>])"
      using that by simp
    with that show ?thesis by (auto simp: grows_def captured_def intro!: accounted_marker)
  qed
  show ?thesis
    by (auto simp: take_macro_def Let_def plain marked split: option.split if_splits)
qed

lemma visit_grows: "grows o1 c (visit o1 n c)" "grows o1 c (visit_all o1 ns c)"
proof (induction o1 n c and o1 ns c rule: visit_visit_all.induct)
  case (9 o1 at1 p body_start ns c)
  then show ?case by (simp add: grows_loop)
next
  case (10 o1 at1 body_start ns cond ms c)
  then show ?case by (auto intro: grows_loop grows_trans)
next
  case (11 o1 at1 body_start ns c)
  then show ?case by (simp add: grows_loop)
next
  case (13 o1 p pat_range init statement_end ns c)
  then show ?case using grows_trans [OF _ grows_let] by simp
next
  case (14 o1 name at1 stmt_end ns c)
  then show ?case using grows_trans [OF _ grows_macro] by simp
next
  case (17 o1 n ns c)
  then show ?case using grows_trans by simp
qed (auto intro!: grows_test grows_const grows_barrier)


text \<open>C13: in a fresh walk over any file, a call that is spliced in belongs to a listed probe and stands where
  the probe says, is a marker, or is a capture; a marker in a loop names a capture that is spliced in as
  well.  A probe is given a call exactly when it is supported and selected, and every loop and test
  the walk entered it has left.\<close>

theorem spliced_calls_are_accounted_for:
  "\<forall>c. c = visit o1 tree collector_new \<longrightarrow> co_loops c = []
     \<and> (\<forall>i \<in> set (co_insertions c).
          (\<exists>p \<in> set (co_probes c). pb_insertion_byte p = Some (fst i) \<and> snd i = probe_text (pb_id p) (pb_range p) (pb_name p))
          \<or> (\<exists>fd fl at1. snd i = log_text fd fl at1) \<or> (\<exists>shadow variable. snd i = capture_text shadow variable)
          \<or> (\<exists>fd fl at1 loop_at variable shadow b. snd i = log_loop_text fd fl at1 loop_at variable shadow
               \<and> (b, capture_text shadow variable) \<in> set (co_insertions c)))
     \<and> (\<forall>p \<in> set (co_probes c). pb_id p = make_probe_id (fo_uri o1) (pb_range p) (pb_name p)
          \<and> (if pb_supported p \<and> (fo_auto_inspect o1 \<or> pb_id p \<in> set (fo_manual_ids o1))
              then \<exists>b. pb_insertion_byte p = Some b \<and> (b, probe_text (pb_id p) (pb_range p) (pb_name p)) \<in> set (co_insertions c)
              else pb_insertion_byte p = None))"
proof (intro allI impI)
  fix c assume "c = visit o1 tree collector_new"
  with visit_grows(1) [of o1 collector_new tree] have
    loops: "co_loops c = []" and ins: "\<forall>i \<in> set (co_insertions c). accounted_insertion (co_probes c) (co_insertions c) [] i"
    and probes: "\<forall>p \<in> set (co_probes c). selected o1 (co_insertions c) p"
    by (auto simp: grows_def collector_new_def)
  show "co_loops c = []
     \<and> (\<forall>i \<in> set (co_insertions c).
          (\<exists>p \<in> set (co_probes c). pb_insertion_byte p = Some (fst i) \<and> snd i = probe_text (pb_id p) (pb_range p) (pb_name p))
          \<or> (\<exists>fd fl at1. snd i = log_text fd fl at1) \<or> (\<exists>shadow variable. snd i = capture_text shadow variable)
          \<or> (\<exists>fd fl at1 loop_at variable shadow b. snd i = log_loop_text fd fl at1 loop_at variable shadow
               \<and> (b, capture_text shadow variable) \<in> set (co_insertions c)))
     \<and> (\<forall>p \<in> set (co_probes c). pb_id p = make_probe_id (fo_uri o1) (pb_range p) (pb_name p)
          \<and> (if pb_supported p \<and> (fo_auto_inspect o1 \<or> pb_id p \<in> set (fo_manual_ids o1))
              then \<exists>b. pb_insertion_byte p = Some b \<and> (b, probe_text (pb_id p) (pb_range p) (pb_name p)) \<in> set (co_insertions c)
              else pb_insertion_byte p = None))"
  proof (intro conjI ballI loops)
    fix i assume "i \<in> set (co_insertions c)"
    with ins have "accounted_insertion (co_probes c) (co_insertions c) [] i" by blast
    then show "(\<exists>p \<in> set (co_probes c). pb_insertion_byte p = Some (fst i) \<and> snd i = probe_text (pb_id p) (pb_range p) (pb_name p))
          \<or> (\<exists>fd fl at1. snd i = log_text fd fl at1) \<or> (\<exists>shadow variable. snd i = capture_text shadow variable)
          \<or> (\<exists>fd fl at1 loop_at variable shadow b. snd i = log_loop_text fd fl at1 loop_at variable shadow
               \<and> (b, capture_text shadow variable) \<in> set (co_insertions c))"
      unfolding accounted_insertion_def captured_def by (auto simp del: split_paired_All split_paired_Ex)
  next
    fix p assume "p \<in> set (co_probes c)"
    with probes have p: "selected o1 (co_insertions c) p" by blast
    show "pb_id p = make_probe_id (fo_uri o1) (pb_range p) (pb_name p)" using p by (simp add: selected_def)
    show "if pb_supported p \<and> (fo_auto_inspect o1 \<or> pb_id p \<in> set (fo_manual_ids o1))
        then \<exists>b. pb_insertion_byte p = Some b \<and> (b, probe_text (pb_id p) (pb_range p) (pb_name p)) \<in> set (co_insertions c)
        else pb_insertion_byte p = None"
      using p by (auto simp: selected_def active_def)
  qed
qed

section \<open>Test code and constants are left alone\<close>

definition quiet :: "collector \<Rightarrow> collector \<Rightarrow> bool" where
  "quiet c c' \<longleftrightarrow> (0 < co_test_depth c \<or> 0 < co_const_depth c \<longrightarrow>
     co_insertions c' = co_insertions c \<and> co_loops c' = co_loops c)
     \<and> co_test_depth c' = co_test_depth c \<and> co_const_depth c' = co_const_depth c
     \<and> (\<exists>ps. co_probes c' = co_probes c @ ps \<and> (0 < co_test_depth c \<longrightarrow> ps = [])
          \<and> (0 < co_const_depth c \<longrightarrow> (\<forall>p \<in> set ps. \<not> pb_supported p \<and> pb_insertion_byte p = None)))"

lemma quiet_refl [simp]: "quiet c c"
  by (simp add: quiet_def)

lemma quiet_trans: "quiet a b \<Longrightarrow> quiet b c \<Longrightarrow> quiet a c"
proof -
  assume "quiet a b" "quiet b c"
  then obtain ps qs where "co_probes b = co_probes a @ ps" "co_probes c = co_probes b @ qs"
    "0 < co_test_depth a \<longrightarrow> ps = []" "0 < co_test_depth b \<longrightarrow> qs = []"
    "0 < co_const_depth a \<longrightarrow> (\<forall>p \<in> set ps. \<not> pb_supported p \<and> pb_insertion_byte p = None)"
    "0 < co_const_depth b \<longrightarrow> (\<forall>p \<in> set qs. \<not> pb_supported p \<and> pb_insertion_byte p = None)"
    "co_test_depth b = co_test_depth a" "co_const_depth b = co_const_depth a"
    by (auto simp: quiet_def)
  then have "\<exists>rs. co_probes c = co_probes a @ rs \<and> (0 < co_test_depth a \<longrightarrow> rs = [])
      \<and> (0 < co_const_depth a \<longrightarrow> (\<forall>p \<in> set rs. \<not> pb_supported p \<and> pb_insertion_byte p = None))"
    by (intro exI [of _ "ps @ qs"]) auto
  with \<open>quiet a b\<close> \<open>quiet b c\<close> show ?thesis by (simp add: quiet_def)
qed

lemma quiet_test:
  assumes "\<And>c. quiet c (f c)"
  shows "quiet c (in_test test f c)"
  using assms [of c] assms [of "c\<lparr>co_test_depth := co_test_depth c + 1\<rparr>"] by (auto simp: in_test_def Let_def quiet_def)

lemma quiet_const:
  assumes "\<And>c. quiet c (f c)"
  shows "quiet c (in_const konst f c)"
  using assms [of c] assms [of "c\<lparr>co_const_depth := co_const_depth c + 1\<rparr>"] by (auto simp: in_const_def Let_def quiet_def)

lemma quiet_barrier:
  assumes "\<And>c. quiet c (f c)"
  shows "quiet c (with_loop_barrier f c)"
  using assms [of "c\<lparr>co_loops := []\<rparr>"] by (auto simp: with_loop_barrier_def quiet_def)

lemma quiet_loop:
  assumes "quiet (push_loop at1 variable body_start c) c'"
  shows "quiet c (pop_loop c')"
  using assms by (auto simp: quiet_def push_loop_def pop_loop_def Let_def split: bool.split option.split)

lemma quiet_let: "quiet c (take_let o1 p pat_range init statement_end c)"
  by (auto simp: take_let_def quiet_def unsupported_def Let_def split: sum.split option.split)

lemma quiet_macro: "quiet c (take_macro o1 name at1 stmt_end c)"
  by (auto simp: take_macro_def quiet_def Let_def split: option.split)

lemma visit_quiet: "quiet c (visit o1 n c)" "quiet c (visit_all o1 ns c)"
proof (induction o1 n c and o1 ns c rule: visit_visit_all.induct)
  case (10 o1 at1 body_start ns cond ms c)
  then show ?case by (auto intro: quiet_loop quiet_trans)
next
  case (13 o1 p pat_range init statement_end ns c)
  then show ?case using quiet_trans [OF _ quiet_let] by simp
next
  case (14 o1 name at1 stmt_end ns c)
  then show ?case using quiet_trans [OF _ quiet_macro] by simp
next
  case (17 o1 n ns c)
  then show ?case using quiet_trans by simp
qed (auto intro!: quiet_test quiet_const quiet_barrier quiet_loop)

lemma test_untouched:
  assumes "\<And>c. quiet c (f c)"
  shows "co_insertions (in_test True f c) = co_insertions c" "co_loops (in_test True f c) = co_loops c"
    "co_probes (in_test True f c) = co_probes c"
  using assms [of "c\<lparr>co_test_depth := co_test_depth c + 1\<rparr>"] by (auto simp: in_test_def Let_def quiet_def)

lemma const_untouched:
  assumes "\<And>c. quiet c (f c)"
  shows "co_insertions (in_const True f c) = co_insertions c \<and> co_loops (in_const True f c) = co_loops c
    \<and> (\<exists>ps. co_probes (in_const True f c) = co_probes c @ ps \<and> (\<forall>p \<in> set ps. \<not> pb_supported p \<and> pb_insertion_byte p = None))"
  using assms [of "c\<lparr>co_const_depth := co_const_depth c + 1\<rparr>"] by (auto simp: in_const_def Let_def quiet_def)

text \<open>C14: nothing is spliced into a test, a test module, a \<open>const fn\<close>, a constant, a static or a \<open>const\<close>
  block, in a loop or not: tests are not even listed, bindings in constant code only as unsupported.\<close>

theorem test_and_const_code_is_left_alone:
  assumes "n \<in> {ItemFn attrs konst ns, ItemMod attrs ns} \<and> is_test_attr attrs \<or> n = ItemFn attrs konst ns \<and> konst
    \<or> n \<in> {ImplItemFn True ns, ItemConst ns, ItemStatic ns, ExprConst ns}"
  shows "\<exists>ps. co_insertions (visit o1 n c) = co_insertions c \<and> co_loops (visit o1 n c) = co_loops c
    \<and> co_probes (visit o1 n c) = co_probes c @ ps \<and> (\<forall>p \<in> set ps. \<not> pb_supported p \<and> pb_insertion_byte p = None)
    \<and> (n \<in> {ItemFn attrs konst ns, ItemMod attrs ns} \<and> is_test_attr attrs \<longrightarrow> ps = [])"
proof -
  have all: "quiet c (visit_all o1 ns c)" "quiet c (with_loop_barrier (visit_all o1 ns) c)"
    "quiet c (in_const konst (with_loop_barrier (visit_all o1 ns)) c)" for c
    by (intro visit_quiet quiet_barrier quiet_const)+
  show ?thesis
  proof (cases "n \<in> {ItemFn attrs konst ns, ItemMod attrs ns} \<and> is_test_attr attrs")
    case True
    then show ?thesis
      using test_untouched [of "with_loop_barrier (visit_all o1 ns)" c] test_untouched [of "visit_all o1 ns" c] all
        test_untouched [of "in_const konst (with_loop_barrier (visit_all o1 ns))" c]
      by auto
  next
    case False
    with assms have "n = ItemFn attrs konst ns \<and> konst \<and> \<not> is_test_attr attrs
      \<or> n \<in> {ImplItemFn True ns, ItemConst ns, ItemStatic ns, ExprConst ns}" by blast
    then show ?thesis
      using const_untouched [of "with_loop_barrier (visit_all o1 ns)" c] const_untouched [of "visit_all o1 ns" c] all False
      by (auto simp: in_test_def)
  qed
qed


section \<open>An example file\<close>

text \<open>The program of the crate's own tests, with the tree \<open>syn\<close> gives for it.\<close>

definition demo_rust :: string where
  "demo_rust = concat (map (\<lambda>l. l @ [lf])
     [''fn main() {'', ''    let price: i32 = 40;'', ''    let (a, b) = (1, 2);'', ''    for i in 0..3 {'',
      ''        println!('' @ in_quotes ''iter {i}'' @ '');'', ''    }'', ''    eprintln!('' @ in_quotes ''done'' @ '');'', ''}''])"

definition span_at :: "nat \<Rightarrow> nat \<Rightarrow> nat \<Rightarrow> nat \<Rightarrow> span_range" where
  "span_at line column begins len = \<lparr>rg_start_line = line, rg_start_column = column, rg_end_line = line,
     rg_end_column = column + len, rg_start_byte = begins, rg_end_byte = begins + len\<rparr>"

definition demo_rust_tree :: node where
  "demo_rust_tree = Node [ItemFn [] False
     [LocalLet (PatType (PatIdent ''price'' (span_at 2 9 20 5) False)) (span_at 2 9 20 10) True 36 [],
      LocalLet PatTuple (span_at 3 9 45 6) True 61 [],
      ExprForLoop (4, 5) (PatIdent ''i'' (span_at 4 9 70 1) False) 81 [StmtMacro (Some ''println'') (5, 9) 111 []],
      StmtMacro (Some ''eprintln'') (7, 5) 140 []]]"

definition demo_rust_options :: file_options where
  "demo_rust_options = \<lparr>fo_uri = ''file:///main.rs'', fo_file_id = 7, fo_auto_inspect = True, fo_manual_ids = []\<rparr>"

definition demo_rust_walk :: collector where
  "demo_rust_walk = visit demo_rust_options demo_rust_tree collector_new"

lemma demo_rust_clean: "clean demo_rust_tree"
  by (simp add: demo_rust_tree_def lf_def)

lemma first_shadow: "show_nat (Suc 0) = ''1''"
  by code_simp

definition demo_rust_marker :: "nat \<times> string" where
  "demo_rust_marker = (111, log_loop_text 1 7 (5, 9) (4, 5) ''i'' ''__atomis_loop_v1'')"

lemma demo_rust_marked: "demo_rust_marker \<in> set (co_insertions demo_rust_walk)"
  by (simp add: demo_rust_marker_def demo_rust_walk_def demo_rust_tree_def demo_rust_options_def collector_new_def in_test_def in_const_def
      is_test_attr_def with_loop_barrier_def take_let_def take_macro_def push_loop_def pop_loop_def loop_variable_def
      LOG_MACROS_def STDERR_MACROS_def unsupported_def active_def Let_def first_shadow)

lemma demo_rust_fresh: "\<not> already_instrumented (without_bom demo_rust)"
  by code_simp


lemma spliced_calls_are_accounted_for_witness:
  "co_loops demo_rust_walk = [] \<and> demo_rust_marker \<in> set (co_insertions demo_rust_walk)
     \<and> ((\<exists>p \<in> set (co_probes demo_rust_walk). pb_insertion_byte p = Some (fst demo_rust_marker)
            \<and> snd demo_rust_marker = probe_text (pb_id p) (pb_range p) (pb_name p))
        \<or> (\<exists>fd fl at1. snd demo_rust_marker = log_text fd fl at1) \<or> (\<exists>shadow variable. snd demo_rust_marker = capture_text shadow variable)
        \<or> (\<exists>fd fl at1 loop_at variable shadow b. snd demo_rust_marker = log_loop_text fd fl at1 loop_at variable shadow
             \<and> (b, capture_text shadow variable) \<in> set (co_insertions demo_rust_walk)))"
proof -
  note walk = spliced_calls_are_accounted_for [THEN spec, THEN mp, OF demo_rust_walk_def]
  show ?thesis
    by (intro conjI walk [THEN conjunct1] demo_rust_marked walk [THEN conjunct2, THEN conjunct1, THEN bspec, OF demo_rust_marked])
qed

lemma test_and_const_code_is_left_alone_witness:
  "\<exists>ps. co_insertions (visit demo_rust_options (ImplItemFn True [demo_rust_tree]) collector_new) = []
     \<and> co_probes (visit demo_rust_options (ImplItemFn True [demo_rust_tree]) collector_new) = ps
     \<and> (\<forall>p \<in> set ps. \<not> pb_supported p)"
  using test_and_const_code_is_left_alone [of "ImplItemFn True [demo_rust_tree]" "[]" False "[demo_rust_tree]" demo_rust_options collector_new]
  by (auto simp: collector_new_def)

end
