(* ===== verification/RustRuntime.thy ===== *)
theory RustRuntime
  imports Instrumenter
begin

text \<open>
  src/rust/runtime/atomis_runtime.rs: what an instrumented Rust program writes: probe records on
  descriptor 3 and log markers in its own output.  The bytes handed to \<open>write_all\<close> are logged by
  descriptor.  What a value's \<open>Debug\<close> prints and the names of types are the compiler's: arguments.
\<close>

section \<open>JSON strings\<close>

definition json_escape :: "char \<Rightarrow> string" where
  "json_escape c =
     (if c = quote_char then [CHR 0x5C, quote_char]
      else if c = CHR 0x5C then [CHR 0x5C, CHR 0x5C]
      else if c = CHR 0x0A then [CHR 0x5C, CHR ''n'']
      else if c = CHR 0x0D then [CHR 0x5C, CHR ''r'']
      else if c = CHR 0x09 then [CHR 0x5C, CHR ''t'']
      else if byte c < 32 then [CHR 0x5C] @ ''u00'' @ [hex_lower (byte c div 16), hex_lower (byte c mod 16)]
      else [c])"

definition push_json_escaped :: "string \<Rightarrow> string" where
  "push_json_escaped value = concat (map json_escape value)"

section \<open>Previews\<close>

definition MAX_PREVIEW :: nat where "MAX_PREVIEW = 512"

definition last_segment :: "string \<Rightarrow> string" where
  "last_segment segment = (case rfind_sub segment ''::'' of Some i \<Rightarrow> drop (i + 2) segment | None \<Rightarrow> segment)"

fun short_type_from :: "(string \<Rightarrow> bool) \<Rightarrow> string \<Rightarrow> string list \<Rightarrow> string" where
  "short_type_from alphanumeric segment [] = last_segment segment"
| "short_type_from alphanumeric segment (ch # chs) =
     (if alphanumeric ch \<or> ch = ''_'' \<or> ch = '':'' then short_type_from alphanumeric (segment @ ch) chs
      else last_segment segment @ ch @ short_type_from alphanumeric [] chs)"

definition short_type :: "(string \<Rightarrow> bool) \<Rightarrow> string \<Rightarrow> string" where
  "short_type alphanumeric name = short_type_from alphanumeric [] (str_chars name)"

fun floor_boundary :: "string \<Rightarrow> nat \<Rightarrow> nat" where
  "floor_boundary s 0 = 0"
| "floor_boundary s (Suc n) = (if char_boundary s (Suc n) then Suc n else floor_boundary s n)"

definition truncate_preview :: "string \<Rightarrow> string \<times> bool" where
  "truncate_preview preview =
     (if length preview \<le> MAX_PREVIEW then (preview, False)
      else (take (floor_boundary preview MAX_PREVIEW) preview @ [CHR 0xE2, CHR 0x80, CHR 0xA6], True))"

text \<open>\<open>debug\<close> is what \<open>Debug\<close> prints, of a type that has it.\<close>

definition atomis_preview :: "(string \<Rightarrow> bool) \<Rightarrow> string option \<Rightarrow> string \<Rightarrow> string \<times> string" where
  "atomis_preview alphanumeric debug type_name =
     (let name = short_type alphanumeric type_name
      in (case debug of Some text \<Rightarrow> text | None \<Rightarrow> ''<no Debug: '' @ name @ ''>'', name))"

section \<open>What is written\<close>

record runtime =
  rt_sequence :: "64 word"
  rt_written :: "(nat \<times> string) list"

definition write_fd :: "nat \<Rightarrow> string \<Rightarrow> runtime \<Rightarrow> runtime" where
  "write_fd fd bytes rt = rt\<lparr>rt_written := rt_written rt @ [(fd, bytes)]\<rparr>"

definition probe_record ::
  "string \<Rightarrow> string \<Rightarrow> nat \<Rightarrow> nat \<Rightarrow> string \<Rightarrow> string \<Rightarrow> nat \<Rightarrow> nat \<Rightarrow> 64 word \<Rightarrow> string" where
  "probe_record probe_id name line column preview0 type_name size1 align sequence =
     (let (preview, truncated) = truncate_preview preview0;
          field = (\<lambda>key. '','' @ in_quotes key @ '':'');
          text = (\<lambda>key t. field key @ [quote_char] @ push_json_escaped t @ [quote_char]);
          number = (\<lambda>key n. field key @ show_nat n)
      in ''{'' @ in_quotes ''protocolVersion'' @ '':1'' @ field ''kind'' @ in_quotes ''probe_value''
         @ text ''probeId'' probe_id @ text ''name'' name @ number ''line'' line @ number ''column'' column
         @ text ''typeName'' type_name @ text ''preview'' preview
         @ number ''sizeBytes'' size1 @ number ''alignBytes'' align
         @ field ''truncated'' @ (if truncated then ''true'' else ''false'')
         @ number ''sequence'' (unat sequence) @ ''}'' @ [lf])"

definition emit_probe ::
  "string \<Rightarrow> string \<Rightarrow> nat \<Rightarrow> nat \<Rightarrow> string \<Rightarrow> string \<Rightarrow> nat \<Rightarrow> nat \<Rightarrow> runtime \<Rightarrow> runtime" where
  "emit_probe probe_id name line column preview type_name size1 align rt =
     write_fd 3 (probe_record probe_id name line column preview type_name size1 align (rt_sequence rt))
       (rt\<lparr>rt_sequence := rt_sequence rt + 1\<rparr>)"

definition colons :: "nat list \<Rightarrow> string" where
  "colons ns = join_with '':'' (map show_nat ns)"

definition log_marker :: "nat \<Rightarrow> nat \<Rightarrow> nat \<Rightarrow> string" where
  "log_marker file_id line column = [CHR 0x1E] @ ''ATOMIS_LOG:'' @ colons [file_id, line, column] @ [CHR 0x1F]"

definition emit_log :: "nat \<Rightarrow> nat \<Rightarrow> nat \<Rightarrow> nat \<Rightarrow> runtime \<Rightarrow> runtime" where
  "emit_log fd file_id line column rt = write_fd fd (log_marker file_id line column) rt"

definition in_band :: "string \<Rightarrow> string" where
  "in_band preview =
     concat (map (\<lambda>c. if c = CHR 0x1E \<or> c = CHR 0x1F then ''?'' else if c = lf then [CHR 0x5C, CHR ''n''] else [c]) preview)"

definition loop_marker :: "nat \<Rightarrow> nat \<Rightarrow> nat \<Rightarrow> nat \<Rightarrow> nat \<Rightarrow> string \<Rightarrow> string \<Rightarrow> string" where
  "loop_marker file_id line column loop_line loop_column variable value_preview =
     [CHR 0x1E] @ ''ATOMIS_LOG:'' @ colons [file_id, line, column, loop_line, loop_column] @ '':'' @ variable @ '':''
       @ in_band (fst (truncate_preview value_preview)) @ [CHR 0x1F]"

definition emit_log_loop :: "nat \<Rightarrow> nat \<Rightarrow> nat \<Rightarrow> nat \<Rightarrow> nat \<Rightarrow> nat \<Rightarrow> string \<Rightarrow> string \<Rightarrow> runtime \<Rightarrow> runtime" where
  "emit_log_loop fd file_id line column loop_line loop_column variable value_preview rt =
     write_fd fd (loop_marker file_id line column loop_line loop_column variable value_preview) rt"

section \<open>JSON strings are read back\<close>

text \<open>Reading a JSON string behind its opening quote, for the escapes up to U+007F.\<close>

definition hex_digit_val :: "char \<Rightarrow> nat option" where
  "hex_digit_val c = (if ascii_digit c then Some (byte c - 48)
     else if 97 \<le> byte c \<and> byte c \<le> 102 then Some (byte c - 87)
     else if 65 \<le> byte c \<and> byte c \<le> 70 then Some (byte c - 55) else None)"

definition simple_escape :: "char \<Rightarrow> char option" where
  "simple_escape e = (if e = quote_char \<or> e = CHR 0x5C \<or> e = CHR ''/'' then Some e
     else if e = CHR ''b'' then Some (CHR 0x08) else if e = CHR ''f'' then Some (CHR 0x0C)
     else if e = CHR ''n'' then Some (CHR 0x0A) else if e = CHR ''r'' then Some (CHR 0x0D)
     else if e = CHR ''t'' then Some (CHR 0x09) else None)"

definition push_char :: "char \<Rightarrow> (string \<times> string) option \<Rightarrow> (string \<times> string) option" where
  "push_char c = map_option (\<lambda>(s, rest). (c # s, rest))"

definition unicode_escape :: "char \<Rightarrow> char \<Rightarrow> char \<Rightarrow> char \<Rightarrow> char option" where
  "unicode_escape a b c d = (case (hex_digit_val c, hex_digit_val d) of
     (Some h, Some l) \<Rightarrow> if a = CHR ''0'' \<and> b = CHR ''0'' \<and> h < 8 then Some (char_of (16 * h + l)) else None | _ \<Rightarrow> None)"

fun read_json_string :: "string \<Rightarrow> (string \<times> string) option" where
  "read_json_string [] = None"
| "read_json_string (c # cs) =
     (if c = quote_char then Some ([], cs)
      else if byte c < 32 then None
      else if c \<noteq> CHR 0x5C then push_char c (read_json_string cs)
      else (case cs of
              [] \<Rightarrow> None
            | e # es \<Rightarrow>
                if e = CHR ''u''
                then (case es of
                        h1 # h2 # h3 # h4 # rest \<Rightarrow>
                          (case unicode_escape h1 h2 h3 h4 of Some u \<Rightarrow> push_char u (read_json_string rest) | None \<Rightarrow> None)
                      | _ \<Rightarrow> None)
                else (case simple_escape e of Some x \<Rightarrow> push_char x (read_json_string es) | None \<Rightarrow> None)))"

lemma hex_digit_lower: "d < 16 \<Longrightarrow> hex_digit_val (hex_lower d) = Some d"
  by (simp add: hex_digit_val_def hex_lower_def ascii_digit_def)

lemma control_char_back:
  "byte c < 32 \<Longrightarrow> unicode_escape (CHR ''0'') (CHR ''0'') (hex_lower (byte c div 16)) (hex_lower (byte c mod 16)) = Some c"
  using hex_digit_lower [of "byte c div 16"] hex_digit_lower [of "byte c mod 16"]
  by (simp add: unicode_escape_def char_of_byte)

lemma read_plain: "c \<noteq> quote_char \<Longrightarrow> c \<noteq> CHR 0x5C \<Longrightarrow> 32 \<le> byte c \<Longrightarrow> read_json_string (c # cs) = push_char c (read_json_string cs)"
  by simp

lemma read_simple:
  "e \<noteq> CHR ''u'' \<Longrightarrow> simple_escape e = Some x \<Longrightarrow> read_json_string (CHR 0x5C # e # es) = push_char x (read_json_string es)"
  by (simp add: quote_char_def byte_def)

lemma read_unicode:
  "unicode_escape a b c d = Some x \<Longrightarrow> read_json_string (CHR 0x5C # CHR ''u'' # a # b # c # d # es) = push_char x (read_json_string es)"
  by (simp add: quote_char_def byte_def)

declare read_json_string.simps(2) [simp del]

lemma read_escape: "read_json_string (json_escape c @ rest) = push_char c (read_json_string rest)"
  unfolding json_escape_def
  using read_simple [of _ _ rest] read_unicode [OF control_char_back, of c rest] read_plain [of c rest]
  by (simp add: simple_escape_def quote_char_def)

lemma read_escaped: "read_json_string (push_json_escaped s @ quote_char # rest) = Some (s, rest)"
proof (induction s)
  case Nil
  then show ?case by (simp add: push_json_escaped_def read_json_string.simps(2))
next
  case (Cons c s)
  have "read_json_string (json_escape c @ push_json_escaped s @ quote_char # rest) = Some (c # s, rest)"
    by (simp only: read_escape Cons.IH) (simp add: push_char_def)
  then show ?case by (simp add: push_json_escaped_def)
qed


section \<open>Markers are found\<close>

lemma find_sub_behind: "m \<notin> set pre \<Longrightarrow> find_sub (pre @ (m # p) @ s) (m # p) = Some (length pre)"
  by (induction pre) (auto simp: starts_with_def)

lemma find_char_behind: "x \<notin> set body \<Longrightarrow> find_char (body @ x # s) (\<lambda>c. c = x) = Some (length body)"
  by (induction body) auto

lemma find_marker_behind:
  assumes "MARKER_START \<notin> set pre" "MARKER_END \<notin> set body"
    and "parse_body body (length pre) (length pre + length MARKER_PREFIX + length body + 1) = Some m"
  shows "find_marker (pre @ MARKER_PREFIX @ body @ MARKER_END # post) = Some m"
proof -
  have "find_sub (pre @ MARKER_PREFIX @ body @ MARKER_END # post) MARKER_PREFIX = Some (length pre)"
    using find_sub_behind [of MARKER_START pre "''ATOMIS_LOG:''" "body @ MARKER_END # post"] assms(1)
    by (simp add: MARKER_PREFIX_def MARKER_START_def)
  then show ?thesis
    using assms(3) find_char_behind [OF assms(2), of post]
    by (simp add: find_marker_def find_marker_from.simps [of 0] add.assoc)
qed

lemma take_shown:
  assumes "n < 4294967296" "\<not> ascii_digit x"
  shows "take_number (show_nat n @ x # rest) = Some (n, x # rest)"
proof -
  have "takeWhile ascii_digit (show_nat n @ x # rest) = show_nat n"
    using show_nat_digits [of n] assms(2) by (simp add: takeWhile_append2 list_all_iff)
  then show ?thesis
    using parse_show_nat [of n 32] assms(1) by (simp add: take_number_def)
qed

lemma take_shown_end: "n < 4294967296 \<Longrightarrow> take_number (show_nat n) = Some (n, [])"
  using parse_show_nat [of n 32] show_nat_digits [of n] show_nat_nonempty [of n]
  by (simp add: take_number_def list_all_iff takeWhile_eq_all_conv [THEN iffD2])

lemma colon_no_digit [simp]: "\<not> ascii_digit (CHR '':'')" "\<not> word_char (CHR '':'')"
  by (simp_all add: ascii_digit_def word_char_def ascii_alpha_def ascii_upper_def ascii_lower_def byte_def)

lemma after_colon_simp [simp]: "after_colon (CHR '':'' # rest) = Some rest"
  by (simp add: after_colon_def strip_prefix_def starts_with_def)

definition marker_name :: "string \<Rightarrow> bool" where
  "marker_name v \<longleftrightarrow> v \<noteq> [] \<and> list_all word_char v \<and> (ascii_alpha (hd v) \<or> hd v = CHR ''_'')"

lemma parse_loop_shown:
  assumes "loop_line < 4294967296" "loop_column < 4294967296" "marker_name variable"
  shows "parse_loop (show_nat loop_line @ CHR '':'' # show_nat loop_column @ CHR '':'' # variable @ CHR '':'' # val)
    = Some \<lparr>li_line = loop_line, li_column = loop_column, li_variable = variable, li_value = val\<rparr>"
proof -
  have "takeWhile word_char (variable @ CHR '':'' # val) = variable"
    using assms(3) by (simp add: marker_name_def takeWhile_append2 list_all_iff)
  then show ?thesis
    using assms by (simp add: parse_loop_def take_shown marker_name_def Let_def)
qed

lemma end_not_shown: "MARKER_END \<notin> set (show_nat n)"
  using show_nat_digits [of n] by (auto simp: list_all_iff MARKER_END_def ascii_digit_def byte_def)

lemma end_not_word: "list_all word_char v \<Longrightarrow> MARKER_END \<notin> set v"
  by (auto simp: list_all_iff MARKER_END_def word_char_def ascii_alpha_def ascii_upper_def ascii_lower_def ascii_digit_def byte_def)

lemma end_not_in_band: "MARKER_END \<notin> set (in_band s)"
  by (auto simp: in_band_def MARKER_END_def lf_def)

lemma floor_boundary_le: "floor_boundary s n \<le> n"
  by (induction n) auto

lemma in_band_length: "length (in_band s) \<le> 2 * length s"
  unfolding in_band_def by (induction s) auto

lemma preview_length: "length (fst (truncate_preview s)) \<le> 515"
  using floor_boundary_le [of s MAX_PREVIEW] by (auto simp: truncate_preview_def MAX_PREVIEW_def)

text \<open>C15: a marker the runtime writes is found in the output, whole and with what it says, behind any
  text that has no marker start and before any text, when its loop variable is an ASCII identifier;
  and it is shorter than what the parser of the output holds back.\<close>

theorem runtime_markers_are_found:
  assumes "MARKER_START \<notin> set pre" "\<forall>n \<in> {file_id, line, column, loop_line, loop_column}. n < 2 ^ 32"
  shows "find_marker (pre @ log_marker file_id line column @ post) =
      Some \<lparr>pm_start = length pre, pm_end = length pre + length (log_marker file_id line column),
        pm_file_id = file_id, pm_line = line, pm_column = column, pm_loop_info = None\<rparr>
    \<and> (v \<noteq> [] \<and> list_all word_char v \<and> (ascii_alpha (hd v) \<or> hd v = CHR ''_'') \<longrightarrow>
        find_marker (pre @ loop_marker file_id line column loop_line loop_column v preview @ post) =
          Some \<lparr>pm_start = length pre,
            pm_end = length pre + length (loop_marker file_id line column loop_line loop_column v preview),
            pm_file_id = file_id, pm_line = line, pm_column = column,
            pm_loop_info = Some \<lparr>li_line = loop_line, li_column = loop_column, li_variable = v,
              li_value = in_band (fst (truncate_preview preview))\<rparr>\<rparr>
        \<and> (length v \<le> 2048 \<longrightarrow> length (loop_marker file_id line column loop_line loop_column v preview) \<le> MAX_PENDING_MARKER))"
proof (intro conjI impI)
  have small: "file_id < 4294967296" "line < 4294967296" "column < 4294967296" "loop_line < 4294967296" "loop_column < 4294967296"
    using assms(2) by simp_all
  let ?at = "show_nat file_id @ CHR '':'' # show_nat line @ CHR '':'' # show_nat column"
  have log: "log_marker file_id line column = MARKER_PREFIX @ ?at @ [MARKER_END]"
    by (simp add: log_marker_def colons_def MARKER_PREFIX_def MARKER_END_def)
  have "parse_body ?at (length pre) (length pre + length MARKER_PREFIX + length ?at + 1) =
      Some \<lparr>pm_start = length pre, pm_end = length pre + length MARKER_PREFIX + length ?at + 1,
        pm_file_id = file_id, pm_line = line, pm_column = column, pm_loop_info = None\<rparr>"
    using small by (simp add: parse_body_def take_shown take_shown_end Let_def after_colon_def strip_prefix_def starts_with_def)
  from find_marker_behind [OF assms(1) _ this, of post]
  show "find_marker (pre @ log_marker file_id line column @ post) =
      Some \<lparr>pm_start = length pre, pm_end = length pre + length (log_marker file_id line column),
        pm_file_id = file_id, pm_line = line, pm_column = column, pm_loop_info = None\<rparr>"
    using end_not_shown by (simp add: log MARKER_END_def add.assoc)
  assume v: "v \<noteq> [] \<and> list_all word_char v \<and> (ascii_alpha (hd v) \<or> hd v = CHR ''_'')"
  let ?shown = "in_band (fst (truncate_preview preview))"
  let ?body = "?at @ CHR '':'' # show_nat loop_line @ CHR '':'' # show_nat loop_column @ CHR '':'' # v @ CHR '':'' # ?shown"
  have loop: "loop_marker file_id line column loop_line loop_column v preview = MARKER_PREFIX @ ?body @ [MARKER_END]"
    by (simp add: loop_marker_def colons_def MARKER_PREFIX_def MARKER_END_def)
  have "parse_body ?body (length pre) (length pre + length MARKER_PREFIX + length ?body + 1) =
      Some \<lparr>pm_start = length pre, pm_end = length pre + length MARKER_PREFIX + length ?body + 1,
        pm_file_id = file_id, pm_line = line, pm_column = column,
        pm_loop_info = Some \<lparr>li_line = loop_line, li_column = loop_column, li_variable = v, li_value = ?shown\<rparr>\<rparr>"
    using small v by (simp add: parse_body_def take_shown parse_loop_shown marker_name_def Let_def)
  moreover have "MARKER_END \<notin> set ?body"
    using v end_not_word [of v] by (simp add: end_not_shown end_not_in_band) (simp add: MARKER_END_def)
  ultimately show "find_marker (pre @ loop_marker file_id line column loop_line loop_column v preview @ post) =
          Some \<lparr>pm_start = length pre,
            pm_end = length pre + length (loop_marker file_id line column loop_line loop_column v preview),
            pm_file_id = file_id, pm_line = line, pm_column = column,
            pm_loop_info = Some \<lparr>li_line = loop_line, li_column = loop_column, li_variable = v,
              li_value = in_band (fst (truncate_preview preview))\<rparr>\<rparr>"
    using find_marker_behind [OF assms(1), of ?body] by (simp add: loop)
  assume "length v \<le> 2048"
  moreover have "length ?shown \<le> 1030"
    using in_band_length [of "fst (truncate_preview preview)"] preview_length [of preview] by linarith
  moreover have "length (show_nat n) \<le> 10" if "n < 4294967296" for n
    using that by (intro show_nat_length) simp_all
  note this [OF small(1)] this [OF small(2)] this [OF small(3)] this [OF small(4)] this [OF small(5)]
  ultimately show "length (loop_marker file_id line column loop_line loop_column v preview) \<le> MAX_PENDING_MARKER"
    by (simp add: loop MARKER_PREFIX_def MAX_PENDING_MARKER_def)
qed


section \<open>Probe records are lines of JSON\<close>

definition printable :: "string \<Rightarrow> bool" where
  "printable s \<longleftrightarrow> (\<forall>c \<in> set s. 32 \<le> byte c)"

lemma printable_simps [simp]:
  "printable []" "printable (c # s) \<longleftrightarrow> 32 \<le> byte c \<and> printable s" "printable (s @ t) \<longleftrightarrow> printable s \<and> printable t"
  by (auto simp: printable_def)

lemma printable_nat [simp]: "printable (show_nat n)"
  using show_nat_digits [of n] by (auto simp: printable_def list_all_iff ascii_digit_def)

lemma printable_hex: "d < 16 \<Longrightarrow> 32 \<le> byte (hex_lower d)"
  using lower_hex_digit [of d] by (auto simp: lower_hex_def ascii_digit_def)

lemma printable_escape: "printable (json_escape c)"
proof -
  have "byte c div 16 < 16" using byte_less_256 [of c] by linarith
  then show ?thesis
    using printable_hex [of "byte c div 16"] printable_hex [of "byte c mod 16"]
    by (simp add: json_escape_def quote_char_def) (simp add: byte_def)
qed

lemma printable_escaped [simp]: "printable (push_json_escaped s)"
  using printable_escape by (auto simp: printable_def push_json_escaped_def)

text \<open>\<open>reads_field r key v\<close>: behind \<open>key\<close> in r stands a JSON string that is read as v.\<close>

definition reads_field :: "string \<Rightarrow> string \<Rightarrow> string \<Rightarrow> bool" where
  "reads_field r key v \<longleftrightarrow> (\<exists>before after rest. r = before @ in_quotes key @ '':'' @ [quote_char] @ after
     \<and> read_json_string after = Some (v, rest))"

lemma reads_here: "reads_field (in_quotes key @ '':'' @ [quote_char] @ push_json_escaped v @ quote_char # rest) key v"
  unfolding reads_field_def using read_escaped [of v rest] by (metis append_Nil append.assoc)

lemma reads_behind: "reads_field r key v \<Longrightarrow> reads_field (s @ r) key v"
  unfolding reads_field_def by (metis append.assoc)

text \<open>A probe record is one line, and the four texts in it are read back from the JSON: quotes,
  newlines and control characters in a name or a preview neither end the record nor change it.\<close>

theorem probe_records_are_read_back:
  "\<exists>line1. probe_record probe_id name line column preview type_name size1 align sequence = line1 @ [lf]
     \<and> (\<forall>c \<in> set line1. 32 \<le> byte c)
     \<and> reads_field line1 ''probeId'' probe_id \<and> reads_field line1 ''name'' name
     \<and> reads_field line1 ''typeName'' type_name \<and> reads_field line1 ''preview'' (fst (truncate_preview preview))"
proof -
  obtain shown truncated where preview: "truncate_preview preview = (shown, truncated)" by fastforce
  let ?f = "\<lambda>key. '','' @ in_quotes key @ '':''"
  let ?q = "\<lambda>t. push_json_escaped t @ [quote_char]"
  let ?head = "''{'' @ in_quotes ''protocolVersion'' @ '':1'' @ ?f ''kind'' @ in_quotes ''probe_value'' @ '',''"
  let ?tail = "?f ''sizeBytes'' @ show_nat size1 @ ?f ''alignBytes'' @ show_nat align
    @ ?f ''truncated'' @ (if truncated then ''true'' else ''false'') @ ?f ''sequence'' @ show_nat (unat sequence) @ ''}''"
  let ?preview = "in_quotes ''preview'' @ '':'' @ [quote_char] @ push_json_escaped shown @ quote_char # ?tail"
  let ?type = "in_quotes ''typeName'' @ '':'' @ [quote_char] @ push_json_escaped type_name @ quote_char # '','' @ ?preview"
  let ?at = "?f ''line'' @ show_nat line @ ?f ''column'' @ show_nat column @ '','' @ ?type"
  let ?name = "in_quotes ''name'' @ '':'' @ [quote_char] @ push_json_escaped name @ quote_char # ?at"
  let ?id = "in_quotes ''probeId'' @ '':'' @ [quote_char] @ push_json_escaped probe_id @ quote_char # '','' @ ?name"
  let ?line = "?head @ ?id"
  have "probe_record probe_id name line column preview type_name size1 align sequence = ?line @ [lf]"
    by (simp add: probe_record_def preview Let_def)
  moreover have "printable ?line"
    by (simp add: in_quotes_def quote_char_def) (simp add: byte_def)
  moreover have preview_at: "reads_field ?preview ''preview'' shown" by (rule reads_here)
  have type_at: "reads_field ?type key v" if "reads_field ?preview key v \<or> key = ''typeName'' \<and> v = type_name" for key v
    using that reads_here [of "''typeName''" type_name "'','' @ ?preview"]
      reads_behind [of ?preview key v "in_quotes ''typeName'' @ '':'' @ [quote_char] @ push_json_escaped type_name @ quote_char # '',''"] by auto
  have name_at: "reads_field ?name key v" if "reads_field ?type key v \<or> key = ''name'' \<and> v = name" for key v
    using that reads_here [of "''name''" name ?at]
      reads_behind [of ?type key v "in_quotes ''name'' @ '':'' @ [quote_char] @ push_json_escaped name @ quote_char
        # ?f ''line'' @ show_nat line @ ?f ''column'' @ show_nat column @ '',''"] by auto
  have line_at: "reads_field ?line key v" if "reads_field ?name key v \<or> key = ''probeId'' \<and> v = probe_id" for key v
    using that reads_behind [OF reads_here [of "''probeId''" probe_id "'','' @ ?name"], of ?head]
      reads_behind [of ?name key v "?head @ in_quotes ''probeId'' @ '':'' @ [quote_char] @ push_json_escaped probe_id @ quote_char # '',''"] by auto
  ultimately show ?thesis
    using preview_at type_at name_at line_at preview by (intro exI [of _ ?line]) (simp add: printable_def)
qed


section \<open>Examples\<close>

lemma runtime_markers_are_found_witness:
  "find_marker (''iter 0'' @ loop_marker 7 5 9 4 5 ''i'' ''0'' @ ''x'') =
     Some \<lparr>pm_start = 6, pm_end = 6 + length (loop_marker 7 5 9 4 5 ''i'' ''0''), pm_file_id = 7, pm_line = 5, pm_column = 9,
       pm_loop_info = Some \<lparr>li_line = 4, li_column = 5, li_variable = ''i'', li_value = ''0''\<rparr>\<rparr>"
  using runtime_markers_are_found [of "''iter 0''" 7 5 9 4 5 "''x''" "''i''" "''0''"]
  by (simp add: MARKER_START_def word_char_def ascii_alpha_def ascii_upper_def ascii_lower_def byte_def
      truncate_preview_def MAX_PREVIEW_def in_band_def lf_def)

lemma probe_records_are_read_back_witness:
  "\<exists>line1. probe_record ''id'' ''price'' 2 9 [CHR 0x22, CHR 0x0A] ''i32'' 4 4 0 = line1 @ [lf]
     \<and> reads_field line1 ''preview'' [CHR 0x22, CHR 0x0A]"
  using probe_records_are_read_back [of "''id''" "''price''" 2 9 "[CHR 0x22, CHR 0x0A]" "''i32''" 4 4 0]
  by (auto simp: truncate_preview_def MAX_PREVIEW_def)


text \<open>Rust has identifiers that are not ASCII or begin with \<open>r#\<close>; their markers are not found and stay in
  what the user is shown.\<close>

lemma raw_identifier_marker_is_lost: "find_marker (loop_marker 7 5 9 4 5 ''r#type'' ''0'') = None"
proof -
  have digits: "show_nat 7 = ''7''" "show_nat 5 = ''5''" "show_nat 9 = ''9''" "show_nat 4 = ''4''"
    by code_simp+
  have "in_band (fst (truncate_preview ''0'')) = ''0''"
    by (simp add: truncate_preview_def MAX_PREVIEW_def in_band_def lf_def)
  then have marker: "loop_marker 7 5 9 4 5 ''r#type'' ''0'' = MARKER_PREFIX @ ''7:5:9:4:5:r#type:0'' @ [MARKER_END]"
    by (simp add: loop_marker_def colons_def digits MARKER_PREFIX_def MARKER_END_def)
  have "find_sub (drop 12 (MARKER_PREFIX @ ''7:5:9:4:5:r#type:0'' @ [MARKER_END])) MARKER_PREFIX = None"
    by (simp add: MARKER_PREFIX_def MARKER_END_def starts_with_def)
  then have later: "find_marker_from 12 (MARKER_PREFIX @ ''7:5:9:4:5:r#type:0'' @ [MARKER_END]) = None"
    by (simp add: find_marker_from.simps [of 12])
  have body: "parse_body ''7:5:9:4:5:r#type:0'' 0 stop = None" for stop
    by (simp add: parse_body_def take_number_def parse_unsigned_def ascii_digit_def byte_def digit_val_def parse_loop_def
        word_char_def ascii_alpha_def ascii_upper_def ascii_lower_def after_colon_def strip_prefix_def starts_with_def)
  have "find_sub (MARKER_PREFIX @ ''7:5:9:4:5:r#type:0'' @ [MARKER_END]) MARKER_PREFIX = Some 0"
    by (simp add: MARKER_PREFIX_def starts_with_def)
  moreover have "find_char (''7:5:9:4:5:r#type:0'' @ [MARKER_END]) (\<lambda>c. c = MARKER_END) = Some (length ''7:5:9:4:5:r#type:0'')"
    by (rule find_char_behind) (simp add: MARKER_END_def)
  moreover have "length MARKER_PREFIX = 12"
    by (simp add: MARKER_PREFIX_def)
  ultimately show ?thesis
    unfolding marker find_marker_def find_marker_from.simps [of 0] by (simp add: later body del: append_Cons)
qed

end
