(* ===== verification/InstrumenterCli.thy ===== *)
theory InstrumenterCli
  imports RustRuntime
begin

text \<open>
  src/rust/instrumenter/src/main.rs: the command line of the instrumenter, the JSON it answers with, and
  what it reads and writes.  The file system answers by functions: the length of a file or the error,
  its contents or the error, the error of a write.
\<close>

section \<open>Options\<close>

definition MAX_SOURCE_BYTES :: nat where "MAX_SOURCE_BYTES = 1024 * 1024"

record cli_options =
  cl_input :: "string option"
  cl_output :: "string option"
  cl_source_map :: "string option"
  cl_uri :: string
  cl_version :: nat
  cl_file_id :: nat
  cl_auto_inspect :: bool
  cl_entry :: bool
  cl_manual_ids :: "string list"

definition cli_default :: cli_options where
  "cli_default = \<lparr>cl_input = None, cl_output = None, cl_source_map = None, cl_uri = ''file:///main.rs'', cl_version = 1,
     cl_file_id = 0, cl_auto_inspect = True, cl_entry = False, cl_manual_ids = []\<rparr>"

text \<open>\<open>value_for\<close>, and what is done with the value; it takes the next argument, whatever it is.\<close>

definition value_for ::
  "string \<Rightarrow> string list \<Rightarrow> (string \<Rightarrow> string + cli_options) \<Rightarrow> string + cli_options" where
  "value_for name args f = (case args of [] \<Rightarrow> Inl (''missing value for '' @ name) | v # _ \<Rightarrow> f v)"

definition number_for ::
  "nat \<Rightarrow> string \<Rightarrow> string list \<Rightarrow> (nat \<Rightarrow> string + cli_options) \<Rightarrow> string + cli_options" where
  "number_for w name args f =
     value_for name args (\<lambda>v. case parse_unsigned w v of Some n \<Rightarrow> f n | None \<Rightarrow> Inl (''invalid '' @ name))"

function take_args :: "string list \<Rightarrow> cli_options \<Rightarrow> string + cli_options" where
  "take_args [] o1 = Inr o1"
| "take_args (arg # args) o1 =
     (if arg = ''--no-auto-inspect'' then take_args args (o1\<lparr>cl_auto_inspect := False\<rparr>)
      else if arg = ''--entry'' then take_args args (o1\<lparr>cl_entry := True\<rparr>)
      else if arg = ''--input'' then value_for arg args (\<lambda>v. take_args (tl args) (o1\<lparr>cl_input := Some v\<rparr>))
      else if arg = ''--output'' then value_for arg args (\<lambda>v. take_args (tl args) (o1\<lparr>cl_output := Some v\<rparr>))
      else if arg = ''--source-map'' then value_for arg args (\<lambda>v. take_args (tl args) (o1\<lparr>cl_source_map := Some v\<rparr>))
      else if arg = ''--uri'' then value_for arg args (\<lambda>v. take_args (tl args) (o1\<lparr>cl_uri := v\<rparr>))
      else if arg = ''--version'' then number_for 64 arg args (\<lambda>n. take_args (tl args) (o1\<lparr>cl_version := n\<rparr>))
      else if arg = ''--file-id'' then number_for 32 arg args (\<lambda>n. take_args (tl args) (o1\<lparr>cl_file_id := n\<rparr>))
      else if arg = ''--manual''
      then value_for arg args (\<lambda>v. take_args (tl args) (o1\<lparr>cl_manual_ids := cl_manual_ids o1 @ [v]\<rparr>))
      else Inl (''invalid argument: '' @ arg))"
  by pat_completeness auto
termination
  by (relation "measure (\<lambda>(args, _). length args)") simp_all

definition parse_args :: "string list \<Rightarrow> string + cli_options" where
  "parse_args args =
     (case take_args args cli_default of
        Inl message \<Rightarrow> Inl message
      | Inr o1 \<Rightarrow>
          if cl_input o1 = None then Inl ''missing --input''
          else if cl_output o1 = None then Inl ''missing --output''
          else if cl_source_map o1 = None then Inl ''missing --source-map''
          else Inr o1)"

section \<open>The answer\<close>

definition push_json_string :: "string \<Rightarrow> string" where
  "push_json_string value = [quote_char] @ push_json_escaped value @ [quote_char]"

definition json_field :: "string \<Rightarrow> string \<Rightarrow> string" where
  "json_field key value = in_quotes key @ '':'' @ value"

definition json_object :: "string list \<Rightarrow> string" where
  "json_object members = ''{'' @ join_with '','' members @ ''}''"

definition json_array :: "string list \<Rightarrow> string" where
  "json_array items = ''['' @ join_with '','' items @ '']''"

definition render_range :: "span_range \<Rightarrow> string" where
  "render_range r = json_object
     [json_field ''startLine'' (show_nat (rg_start_line r)), json_field ''startColumn'' (show_nat (rg_start_column r)),
      json_field ''endLine'' (show_nat (rg_end_line r)), json_field ''endColumn'' (show_nat (rg_end_column r)),
      json_field ''startByte'' (show_nat (rg_start_byte r)), json_field ''endByte'' (show_nat (rg_end_byte r))]"

definition render_probe :: "probe \<Rightarrow> string" where
  "render_probe p = json_object
     ([json_field ''probeId'' (push_json_string (pb_id p)), json_field ''name'' (push_json_string (pb_name p)),
       json_field ''supported'' (if pb_supported p then ''true'' else ''false'')]
      @ (case pb_reason p of Some reason \<Rightarrow> [json_field ''reason'' (push_json_string reason)] | None \<Rightarrow> [])
      @ [json_field ''originalRange'' (render_range (pb_range p))]
      @ (case pb_insertion_byte p of Some b \<Rightarrow> [json_field ''insertionByte'' (show_nat b)] | None \<Rightarrow> [])
      @ [json_field ''mode'' (in_quotes (case pb_mode p of AutoMode \<Rightarrow> ''auto'' | ManualMode \<Rightarrow> ''manual''))])"

definition render_diagnostic :: "rust_diagnostic \<Rightarrow> string" where
  "render_diagnostic d = json_object
     [json_field ''message'' (push_json_string (rd_message d)), json_field ''severity'' (in_quotes ''error''),
      json_field ''line'' (show_nat (rd_line d)), json_field ''column'' (show_nat (rd_column d))]"

definition or_empty :: "string option \<Rightarrow> string" where
  "or_empty s = (case s of Some t \<Rightarrow> t | None \<Rightarrow> [])"

definition render :: "instrumented_source \<Rightarrow> cli_options \<Rightarrow> string" where
  "render result o1 = json_object
     ([json_field ''protocolVersion'' ''1'', json_field ''documentVersion'' (show_nat (cl_version o1))]
      @ (if is_generated result = None then []
         else [json_field ''generatedPath'' (push_json_string (or_empty (cl_output o1))),
               json_field ''sourceMapPath'' (push_json_string (or_empty (cl_source_map o1)))])
      @ [json_field ''probes'' (json_array (map render_probe (is_probes result))),
         json_field ''parseDiagnostics'' (json_array (map render_diagnostic (is_diagnostics result)))])"

section \<open>main\<close>

record file_system =
  fs_metadata :: "string \<Rightarrow> string + nat"
  fs_read :: "string \<Rightarrow> string + string"
  fs_write_error :: "string \<Rightarrow> string option"

record cli_result =
  cr_written :: "(string \<times> string) list"
  cr_stdout :: string
  cr_stderr :: string
  cr_success :: bool

definition cli_refused :: "(string \<times> string) list \<Rightarrow> string \<Rightarrow> cli_result" where
  "cli_refused written message =
     \<lparr>cr_written = written, cr_stdout = [], cr_stderr = ''rustlive-instrument: '' @ message @ [lf], cr_success = False\<rparr>"

definition answered :: "(string \<times> string) list \<Rightarrow> string \<Rightarrow> cli_result" where
  "answered written json = \<lparr>cr_written = written, cr_stdout = json @ [lf], cr_stderr = [], cr_success = True\<rparr>"

definition options_for :: "cli_options \<Rightarrow> file_options" where
  "options_for o1 = \<lparr>fo_uri = cl_uri o1, fo_file_id = cl_file_id o1, fo_auto_inspect = cl_auto_inspect o1,
     fo_manual_ids = cl_manual_ids o1\<rparr>"

definition write_outputs :: "file_system \<Rightarrow> cli_options \<Rightarrow> instrumented_source \<Rightarrow> cli_result" where
  "write_outputs fs o1 result =
     (let json = render result o1; output = or_empty (cl_output o1); source_map = or_empty (cl_source_map o1)
      in (case is_generated result of
            None \<Rightarrow> answered [] json
          | Some generated \<Rightarrow>
              (case fs_write_error fs output of
                 Some error \<Rightarrow> cli_refused [] (''cannot write output: '' @ error)
               | None \<Rightarrow>
                   (case fs_write_error fs source_map of
                      Some error \<Rightarrow> cli_refused [(output, generated)] (''cannot write source map: '' @ error)
                    | None \<Rightarrow> answered [(output, generated), (source_map, json)] json))))"

definition instrument_main ::
  "(string \<Rightarrow> (string \<times> nat \<times> nat) list + node) \<Rightarrow> file_system \<Rightarrow> string list \<Rightarrow> cli_result" where
  "instrument_main parse_file fs args =
     (case parse_args args of
        Inl message \<Rightarrow> cli_refused [] message
      | Inr o1 \<Rightarrow>
          let input = or_empty (cl_input o1) in
          (case fs_metadata fs input of
             Inl error \<Rightarrow> cli_refused [] (''cannot read '' @ input @ '': '' @ error)
           | Inr len \<Rightarrow>
               if MAX_SOURCE_BYTES < len then cli_refused [] (input @ '' exceeds 1 MiB'')
               else
                 (case fs_read fs input of
                    Inl error \<Rightarrow> cli_refused [] (''cannot read '' @ input @ '': '' @ error)
                  | Inr source \<Rightarrow>
                      write_outputs fs o1 (instrument_source parse_file (options_for o1) (cl_entry o1) source))))"

section \<open>The server's command line is understood\<close>

lemma take_manual:
  "take_args (concat (map (\<lambda>i. [''--manual'', i]) ids)) o1 = Inr (o1\<lparr>cl_manual_ids := cl_manual_ids o1 @ ids\<rparr>)"
proof (induction ids arbitrary: o1)
  case (Cons i ids)
  then show ?case by (simp add: value_for_def)
qed simp

definition server_options :: "session \<Rightarrow> session_settings \<Rightarrow> nat \<Rightarrow> project_file \<Rightarrow> nat \<Rightarrow> cli_options" where
  "server_options s se version file file_id =
     (let at = (\<lambda>rel. show_path (path_join (ss_root s) rel))
      in \<lparr>cl_input = Some (at (''src/'' @ pf_path file)), cl_output = Some (at (''generated/'' @ pf_path file)),
          cl_source_map = Some (at (''generated/.atomis-'' @ show_nat file_id @ ''.json'')),
          cl_uri = pf_uri file, cl_version = version, cl_file_id = file_id, cl_auto_inspect = se_auto_inspect se,
          cl_entry = (pf_path file = ''main.rs''), cl_manual_ids = se_manual_probe_ids se\<rparr>)"

lemma parse_server_args:
  assumes "version < 2 ^ 64" "file_id < 2 ^ 32"
  shows "parse_args (instrument_args rust_config s se version file file_id) = Inr (server_options s se version file file_id)"
  using assms parse_show_nat [of version 64] parse_show_nat [of file_id 32]
  by (simp add: parse_args_def instrument_args_def rust_config_def Let_def take_manual value_for_def number_for_def
      cli_default_def server_options_def)

lemma main_for_server:
  assumes "version < 2 ^ 64" "file_id < 2 ^ 32"
  shows "instrument_main parse_file fs (instrument_args rust_config s se version file file_id) =
    (let input = show_path (path_join (ss_root s) (''src/'' @ pf_path file)) in
     case fs_metadata fs input of
        Inl error \<Rightarrow> cli_refused [] (''cannot read '' @ input @ '': '' @ error)
      | Inr len \<Rightarrow> if MAX_SOURCE_BYTES < len then cli_refused [] (input @ '' exceeds 1 MiB'')
          else (case fs_read fs input of
              Inl error \<Rightarrow> cli_refused [] (''cannot read '' @ input @ '': '' @ error)
            | Inr source \<Rightarrow> write_outputs fs (server_options s se version file file_id)
                (instrument_source parse_file \<lparr>fo_uri = pf_uri file, fo_file_id = file_id, fo_auto_inspect = se_auto_inspect se,
                   fo_manual_ids = se_manual_probe_ids se\<rparr> (pf_path file = ''main.rs'') source)))"
  unfolding instrument_main_def parse_server_args [OF assms]
  by (simp add: or_empty_def server_options_def options_for_def Let_def split: sum.split)

text \<open>C16: started as the server starts it, the instrumenter writes at most the generated copy and its
  source map in the session; it succeeds exactly when the source can be read, is at most 1 MiB long
  and the copy, if there is one, and its map can be written.  Then its answer is the report on that
  file with the server's options, which the source map holds as well; otherwise it says why and answers nothing.\<close>

theorem instrumenter_serves_the_server:
  assumes "version < 2 ^ 64" "file_id < 2 ^ 32"
    and "r = instrument_main parse_file fs (instrument_args rust_config s se version file file_id)"
    and "input = show_path (path_join (ss_root s) (''src/'' @ pf_path file))"
    and "output = show_path (path_join (ss_root s) (''generated/'' @ pf_path file))"
    and "source_map = show_path (path_join (ss_root s) (''generated/.atomis-'' @ show_nat file_id @ ''.json''))"
    and "report = (\<lambda>source. instrument_source parse_file \<lparr>fo_uri = pf_uri file, fo_file_id = file_id,
      fo_auto_inspect = se_auto_inspect se, fo_manual_ids = se_manual_probe_ids se\<rparr> (pf_path file = ''main.rs'') source)"
  shows "fst ` set (cr_written r) \<subseteq> {output, source_map}
    \<and> (cr_success r \<longleftrightarrow> (\<exists>len source. fs_metadata fs input = Inr len \<and> len \<le> 1048576 \<and> fs_read fs input = Inr source
      \<and> (is_generated (report source) \<noteq> None \<longrightarrow> fs_write_error fs output = None \<and> fs_write_error fs source_map = None)))
    \<and> (if cr_success r
      then \<exists>source json. fs_read fs input = Inr source \<and> cr_stdout r = json @ [lf] \<and> cr_stderr r = []
        \<and> json = render (report source) (server_options s se version file file_id)
        \<and> cr_written r = (case is_generated (report source) of Some generated \<Rightarrow> [(output, generated), (source_map, json)] | None \<Rightarrow> [])
      else cr_stdout r = [] \<and> cr_stderr r \<noteq> [])"
proof (intro conjI)
  let ?o = "server_options s se version file file_id"
  have fields: "or_empty (cl_output ?o) = output" "or_empty (cl_source_map ?o) = source_map"
    using assms(5,6) by (simp_all add: or_empty_def server_options_def Let_def)
  have main: "r = (case fs_metadata fs input of
        Inl error \<Rightarrow> cli_refused [] (''cannot read '' @ input @ '': '' @ error)
      | Inr len \<Rightarrow> if MAX_SOURCE_BYTES < len then cli_refused [] (input @ '' exceeds 1 MiB'')
          else (case fs_read fs input of
              Inl error \<Rightarrow> cli_refused [] (''cannot read '' @ input @ '': '' @ error)
            | Inr source \<Rightarrow> write_outputs fs ?o (report source)))"
    unfolding assms(3,4,7) main_for_server [OF assms(1,2)] Let_def ..
  note cases = main write_outputs_def fields Let_def cli_refused_def answered_def MAX_SOURCE_BYTES_def
  show "fst ` set (cr_written r) \<subseteq> {output, source_map}"
    unfolding cases by (simp split: sum.split option.split)
  show "cr_success r \<longleftrightarrow> (\<exists>len source. fs_metadata fs input = Inr len \<and> len \<le> 1048576 \<and> fs_read fs input = Inr source
      \<and> (is_generated (report source) \<noteq> None \<longrightarrow> fs_write_error fs output = None \<and> fs_write_error fs source_map = None))"
    unfolding cases by (auto split: sum.split option.split)
  show "if cr_success r
      then \<exists>source json. fs_read fs input = Inr source \<and> cr_stdout r = json @ [lf] \<and> cr_stderr r = []
        \<and> json = render (report source) ?o
        \<and> cr_written r = (case is_generated (report source) of Some generated \<Rightarrow> [(output, generated), (source_map, json)] | None \<Rightarrow> [])
      else cr_stdout r = [] \<and> cr_stderr r \<noteq> []"
    unfolding cases by (auto split: sum.split option.split)
qed


lemma instrumenter_serves_the_server_witness:
  "\<forall>s. cr_success (instrument_main (\<lambda>_. Inr demo_rust_tree)
     \<lparr>fs_metadata = (\<lambda>_. Inr (length demo_rust)), fs_read = (\<lambda>_. Inr demo_rust), fs_write_error = (\<lambda>_. None)\<rparr>
     (instrument_args rust_config s (default_settings Unsupported) 1
        \<lparr>pf_path = ''main.rs'', pf_uri = ''file:///main.rs'', pf_source = demo_rust\<rparr> 1))"
proof
  fix s
  have "length demo_rust \<le> 1048576" by (simp add: demo_rust_def in_quotes_def)
  then show "cr_success (instrument_main (\<lambda>_. Inr demo_rust_tree)
     \<lparr>fs_metadata = (\<lambda>_. Inr (length demo_rust)), fs_read = (\<lambda>_. Inr demo_rust), fs_write_error = (\<lambda>_. None)\<rparr>
     (instrument_args rust_config s (default_settings Unsupported) 1
        \<lparr>pf_path = ''main.rs'', pf_uri = ''file:///main.rs'', pf_source = demo_rust\<rparr> 1))"
    by (intro instrumenter_serves_the_server [OF _ _ refl refl refl refl refl, THEN conjunct2, THEN conjunct1, THEN iffD2]) simp_all
qed

end
