(* ===== verification/Workers.thy ===== *)
theory Workers
  imports Utf8 Pools Util Supervisor "HOL-Library.Word"
begin

text \<open>
  src/apps/server-rs/src/languages/instrument_worker.rs: instrumenter
  processes that answer JSON lines.  A worker is shared by every session, or
  belongs to one session and runs in its sandbox.  Requests are numbered and
  an answer must carry its request's number.  \<open>from_str\<close> is serde's reading of
  an answer; the pipe is the bytes it has delivered.  The pool is an
  interpretation of the contract of Pools.
\<close>

record worker_spec =
  wp_program :: string
  wp_script :: path
  wp_per_session :: bool
  wp_lang :: "string option"

record worker = process +
  wk_next_id :: "64 word"
  wk_unread :: string

type_synonym worker_key = "string \<times> path \<times> string"

type_synonym workers = "(worker_key, worker) pool"

record answer =
  an_json :: string
  an_generated :: "string option"

record wire =
  wi_id :: "64 word option"
  wi_json :: "string option"
  wi_generated :: "string option"
  wi_error :: "string option"

definition ANSWER_TIMEOUT :: nat where "ANSWER_TIMEOUT = 10000"
definition WORKER_IDLE :: nat where "WORKER_IDLE = 600000"

section \<open>The exchange\<close>

text \<open>\<open>read_line\<close>: a whole line with its line feed, the rest of a closed pipe, or
  nothing yet.\<close>

definition line_feed :: char where
  "line_feed = CHR 0x0A"

definition read_line :: "bool \<Rightarrow> string \<Rightarrow> (string \<times> string) option" where
  "read_line eof bytes =
     (case find_char bytes (\<lambda>c. c = line_feed) of
        Some i \<Rightarrow> Some (take (i + 1) bytes, drop (i + 1) bytes)
      | None \<Rightarrow> if eof then Some (bytes, []) else None)"

definition show_id :: "64 word option \<Rightarrow> string" where
  "show_id i = (case i of None \<Rightarrow> ''None'' | Some n \<Rightarrow> ''Some('' @ show_nat (unat n) @ '')'')"

definition check_wire :: "64 word \<Rightarrow> wire \<Rightarrow> answer res" where
  "check_wire expected wire =
     (if wi_id wire \<noteq> Some expected
      then Inl (''answer for '' @ show_id (wi_id wire) @ '', expected '' @ show_nat (unat expected))
      else (case wi_error wire of
              Some e \<Rightarrow> Inl e
            | None \<Rightarrow> (case wi_json wire of
                Some json \<Rightarrow> Inr \<lparr>an_json = json, an_generated = wi_generated wire\<rparr>
              | None \<Rightarrow> Inl ''answer without json'')))"

text \<open>One request: \<open>wrote\<close> is how writing it went, \<open>bytes\<close> what the worker said
  since.  The answer, and the worker as it is afterwards; \<open>None\<close> while nothing came.\<close>

definition exchange ::
  "(string \<Rightarrow> wire res) \<Rightarrow> unit res \<Rightarrow> bool \<Rightarrow> string \<Rightarrow> worker \<Rightarrow> (answer \<times> worker) res option" where
  "exchange from_str wrote eof bytes worker =
     (let expected = wk_next_id worker + 1; worker = worker\<lparr>wk_next_id := expected\<rparr> in
      (case wrote of
         Inl e \<Rightarrow> Some (Inl e)
       | Inr _ \<Rightarrow>
           (case read_line eof (wk_unread worker @ bytes) of
              None \<Rightarrow> None
            | Some (line, rest) \<Rightarrow>
                if line = [] then Some (Inl ''worker exited'')
                else if \<not> valid_utf8 line then Some (Inl ''stream did not contain valid UTF-8'')
                else Some (and_then (from_str line) (\<lambda>wire.
                       and_then (check_wire expected wire) (\<lambda>answer. Inr (answer, worker\<lparr>wk_unread := rest\<rparr>)))))))"

section \<open>The pool\<close>

text \<open>What one request meets: its session and sandbox, whether a worker starts when
  one has to, the write, the worker's output within \<open>ANSWER_TIMEOUT\<close>, the time,
  and the variable ATOMIS_INSTRUMENT_WORKERS.\<close>

record job =
  jb_spec :: worker_spec
  jb_session :: string
  jb_sandbox :: "sandbox_policy option"
  jb_launched :: "unit res"
  jb_wrote :: "unit res"
  jb_answer :: string
  jb_eof :: bool
  jb_now :: nat
  jb_setting :: "string option"

definition job_scope :: "job \<Rightarrow> string" where
  "job_scope jb = (if wp_per_session (jb_spec jb) then jb_session jb else [])"

definition job_key :: "job \<Rightarrow> worker_key" where
  "job_key jb = (wp_program (jb_spec jb), wp_script (jb_spec jb), job_scope jb)"

definition job_confinement :: "job \<Rightarrow> confinement" where
  "job_confinement jb = (if wp_per_session (jb_spec jb) then confinement_of (jb_sandbox jb) else Shared)"

text \<open>The command \<open>spawn\<close> runs, in the directory of the script.\<close>

record worker_command =
  wc_program :: string
  wc_script :: path
  wc_cwd :: path
  wc_env :: env
  wc_ruleset :: "ruleset option"

definition spawn_worker_command :: "spawn_facts \<Rightarrow> job \<Rightarrow> worker_command" where
  "spawn_worker_command facts jb =
     (let spec = jb_spec jb; confine = (if wp_per_session spec then jb_sandbox jb else None);
          scrubbed = scrub_bundle_env (sf_inherited facts)
      in \<lparr>wc_program = wp_program spec, wc_script = wp_script spec,
          wc_cwd = (case path_parent (wp_script spec) of Some d \<Rightarrow> d | None \<Rightarrow> []),
          wc_env = (case confine of
             None \<Rightarrow> scrubbed | Some policy \<Rightarrow> set_env (child_env (sf_cache facts) (sf_rustup facts) policy) scrubbed),
          wc_ruleset = (case confine of
             None \<Rightarrow> None
           | Some policy \<Rightarrow> prepare (sf_exists facts) (with_program policy (sf_resolved facts)) (sf_support facts))\<rparr>)"

definition spawn_worker :: "job \<Rightarrow> workers \<Rightarrow> workers" where
  "spawn_worker jb p =
     (case jb_launched jb of
        Inl e \<Rightarrow> p
      | Inr _ \<Rightarrow>
          (set_slot (job_key jb) (Some \<lparr>ps_pid = pl_started p, ps_confinement = job_confinement jb,
             ps_last_used = jb_now jb, wk_next_id = 0, wk_unread = []\<rparr>) p)\<lparr>pl_started := pl_started p + 1\<rparr>)"

definition ready_worker :: "job \<Rightarrow> workers \<Rightarrow> workers" where
  "ready_worker jb p =
     (let key = job_key jb; p0 = entry key p;
          p1 = (case slot_of p0 key of
                  Some w \<Rightarrow> if ps_confinement w \<noteq> job_confinement jb then stop_slot key p0 else p0
                | None \<Rightarrow> p0)
      in if slot_of p1 key = None then spawn_worker jb p1 else p1)"

definition workers_off :: "string option \<Rightarrow> bool" where
  "workers_off setting = (case setting of None \<Rightarrow> False | Some v \<Rightarrow> trim v = ''0'')"

definition instrument_inner :: "(string \<Rightarrow> wire res) \<Rightarrow> job \<Rightarrow> workers \<Rightarrow> answer option \<times> workers" where
  "instrument_inner from_str jb p =
     (if workers_off (jb_setting jb) then (None, p)
      else
        let key = job_key jb; p = ready_worker jb p in
        (case slot_of p key of
           None \<Rightarrow> (None, p)
         | Some idle \<Rightarrow>
             let worker = idle\<lparr>ps_last_used := jb_now jb\<rparr> in
             (case exchange from_str (jb_wrote jb) (jb_eof jb) (jb_answer jb) worker of
                Some (Inr (answer, worker)) \<Rightarrow> (Some answer, set_slot key (Some worker) p)
              | Some (Inl e) \<Rightarrow> (None, stop_slot key p)
              | None \<Rightarrow> (None, stop_slot key p))))"

definition forget_workers :: "string \<Rightarrow> workers \<Rightarrow> workers" where
  "forget_workers session p = remove_slots (\<lambda>(program, script, scope). scope = session) p"

definition reap_idle_workers :: "(worker_key \<Rightarrow> bool) \<Rightarrow> nat \<Rightarrow> nat \<Rightarrow> workers \<Rightarrow> nat \<times> workers" where
  "reap_idle_workers busy idle now p =
     reap_slots (\<lambda>(program, script, scope) worker.
       scope \<noteq> [] \<and> \<not> busy (program, script, scope) \<and> idle \<le> now - ps_last_used worker) p"

section \<open>What a request does to the pool\<close>

lemma spawn_worker_elsewhere: "k \<noteq> job_key jb \<Longrightarrow> slot_of (spawn_worker jb p) k = slot_of p k"
  by (auto simp: spawn_worker_def slot_of_set_slot split: sum.split)

lemma ready_worker_elsewhere: "k \<noteq> job_key jb \<Longrightarrow> slot_of (ready_worker jb p) k = slot_of p k"
  by (auto simp: ready_worker_def Let_def spawn_worker_elsewhere split: option.split)

lemma spawn_worker_confines:
  "slot_of p (job_key jb) = None \<Longrightarrow> slot_of (spawn_worker jb p) (job_key jb) = Some w \<Longrightarrow>
     ps_confinement w = job_confinement jb"
  by (auto simp: spawn_worker_def slot_of_set_slot split: sum.splits if_splits)

lemma ready_worker_confines:
  "slot_of (ready_worker jb p) (job_key jb) = Some w \<Longrightarrow> ps_confinement w = job_confinement jb"
  by (auto simp: ready_worker_def Let_def dest: spawn_worker_confines [rotated] split: option.splits if_splits)

lemma read_line_split: "read_line eof bytes = Some (line, rest) \<Longrightarrow> line @ rest = bytes"
  by (auto simp: read_line_def split: option.splits if_splits)

lemma exchange_answer:
  assumes "exchange from_str wrote eof bytes w = Some (Inr (answer, w'))"
  shows "\<exists>line wire. line @ wk_unread w' = wk_unread w @ bytes \<and> from_str line = Inr wire
     \<and> wi_id wire = Some (wk_next_id w') \<and> wi_error wire = None
     \<and> wi_json wire = Some (an_json answer) \<and> wi_generated wire = an_generated answer"
proof -
  obtain line rest wire where l: "read_line eof (wk_unread w @ bytes) = Some (line, rest)" "from_str line = Inr wire"
    "check_wire (wk_next_id w + 1) wire = Inr answer"
    and w': "w' = w\<lparr>wk_next_id := wk_next_id w + 1, wk_unread := rest\<rparr>"
    using assms by (auto simp: exchange_def Let_def and_then_Inr_iff split: sum.splits option.splits if_splits)
  have "wi_id wire = Some (wk_next_id w + 1) \<and> wi_error wire = None
     \<and> wi_json wire = Some (an_json answer) \<and> wi_generated wire = an_generated answer"
    using l(3) by (auto simp: check_wire_def split: option.splits if_splits)
  with l(2) read_line_split [OF l(1)] w' show ?thesis by auto
qed

lemma exchange_keeps:
  "exchange from_str wrote eof bytes w = Some (Inr (answer, w')) \<Longrightarrow>
     ps_pid w' = ps_pid w \<and> ps_confinement w' = ps_confinement w \<and> wk_next_id w' = wk_next_id w + 1"
  by (auto simp: exchange_def Let_def and_then_Inr_iff split: sum.splits option.splits if_splits)

lemma accounted_spawn_worker:
  "accounted p \<Longrightarrow> slot_of p (job_key jb) = None \<Longrightarrow> has_slot (job_key jb) p \<Longrightarrow> accounted (spawn_worker jb p)"
  by (auto simp: spawn_worker_def intro: accounted_install split: sum.split)

lemma accounted_ready_worker: "accounted p \<Longrightarrow> accounted (ready_worker jb p)"
  by (auto simp: ready_worker_def Let_def intro!: accounted_spawn_worker split: option.split)

text \<open>The process a request reaches: the one in its slot, updated.\<close>

lemma instrument_cases:
  assumes "\<not> workers_off (jb_setting jb)"
  obtains (refused) p' where "instrument_inner from_str jb p = (None, p')" "slot_of p' (job_key jb) = None"
      "p' = ready_worker jb p \<or> p' = stop_slot (job_key jb) (ready_worker jb p)"
    | (answered) idle answer w where "slot_of (ready_worker jb p) (job_key jb) = Some idle"
      "exchange from_str (jb_wrote jb) (jb_eof jb) (jb_answer jb) (idle\<lparr>ps_last_used := jb_now jb\<rparr>) = Some (Inr (answer, w))"
      "instrument_inner from_str jb p = (Some answer, set_slot (job_key jb) (Some w) (ready_worker jb p))"
proof (cases "slot_of (ready_worker jb p) (job_key jb)")
  case None
  with assms show thesis by (intro refused [of "ready_worker jb p"]) (simp_all add: instrument_inner_def Let_def)
next
  case (Some idle)
  let ?x = "exchange from_str (jb_wrote jb) (jb_eof jb) (jb_answer jb) (idle\<lparr>ps_last_used := jb_now jb\<rparr>)"
  show thesis
  proof (cases "\<exists>answer w. ?x = Some (Inr (answer, w))")
    case True
    with Some assms show thesis by (auto intro!: answered simp: instrument_inner_def Let_def)
  next
    case False
    with Some assms show thesis
      by (intro refused [of "stop_slot (job_key jb) (ready_worker jb p)"])
        (auto simp: instrument_inner_def Let_def split: option.split sum.split)
  qed
qed

lemma instrument_elsewhere: "k \<noteq> job_key jb \<Longrightarrow> slot_of (snd (instrument_inner from_str jb p)) k = slot_of p k"
proof (cases "workers_off (jb_setting jb)")
  case False
  assume k: "k \<noteq> job_key jb"
  from False show ?thesis
    by (rule instrument_cases [of jb from_str p]) (use k in \<open>auto simp: ready_worker_elsewhere slot_of_set_slot\<close>)
qed (simp add: instrument_inner_def)

lemma instrument_confines:
  assumes "\<not> workers_off (jb_setting jb)" "slot_of (snd (instrument_inner from_str jb p)) (job_key jb) = Some w"
  shows "ps_confinement w = job_confinement jb"
  using assms(1)
proof (rule instrument_cases [of jb from_str p])
  fix idle answer w'
  assume x: "slot_of (ready_worker jb p) (job_key jb) = Some idle"
    "exchange from_str (jb_wrote jb) (jb_eof jb) (jb_answer jb) (idle\<lparr>ps_last_used := jb_now jb\<rparr>) = Some (Inr (answer, w'))"
    "instrument_inner from_str jb p = (Some answer, set_slot (job_key jb) (Some w') (ready_worker jb p))"
  then show ?thesis
    using exchange_keeps [OF x(2)] ready_worker_confines [OF x(1)] slot_of_has [OF x(1)] assms(2)
    by (simp add: slot_of_set_slot)
qed (use assms(2) in auto)

lemma accounted_instrument: "accounted p \<Longrightarrow> accounted (snd (instrument_inner from_str jb p))"
proof (cases "workers_off (jb_setting jb)")
  case False
  assume p: "accounted p"
  from False show ?thesis
  proof (rule instrument_cases [of jb from_str p])
    fix idle answer w
    assume x: "slot_of (ready_worker jb p) (job_key jb) = Some idle"
      "exchange from_str (jb_wrote jb) (jb_eof jb) (jb_answer jb) (idle\<lparr>ps_last_used := jb_now jb\<rparr>) = Some (Inr (answer, w))"
      "instrument_inner from_str jb p = (Some answer, set_slot (job_key jb) (Some w) (ready_worker jb p))"
    then show ?thesis
      using accounted_touch [OF accounted_ready_worker [OF p] x(1), of w] exchange_keeps [OF x(2)] by simp
  qed (use p in \<open>auto simp: accounted_ready_worker\<close>)
qed (simp add: instrument_inner_def)

lemma reaped_worker_keeps:
  "slot_of (snd (reap_idle_workers busy idle now p)) k = Some w \<Longrightarrow> slot_of p k = Some w"
  by (auto simp: reap_idle_workers_def slot_of_reap_slots split: option.splits if_splits)

lemma accounted_reap_workers: "accounted p \<Longrightarrow> accounted (snd (reap_idle_workers busy idle now p))"
  by (simp add: reap_idle_workers_def)

lemma accounted_forget_workers: "accounted p \<Longrightarrow> accounted (forget_workers session p)"
  by (simp add: forget_workers_def)

text \<open>The escape hatch is a variable of the server's own environment: it is fixed for its
  life, so a request is a job that met it off, with serde's reading of its answer.\<close>

definition request_worker :: "(string \<Rightarrow> wire res) \<times> job \<Rightarrow> workers \<Rightarrow> workers" where
  "request_worker r p = snd (instrument_inner (fst r) ((snd r)\<lparr>jb_setting := None\<rparr>) p)"

lemma job_without_setting [simp]:
  "job_key (jb\<lparr>jb_setting := x\<rparr>) = job_key jb" "job_confinement (jb\<lparr>jb_setting := x\<rparr>) = job_confinement jb"
  by (simp_all add: job_key_def job_scope_def job_confinement_def)

interpretation wk: slot_pool slot_of request_worker forget_workers
    "\<lambda>(busy, idle, now) p. snd (reap_idle_workers busy idle now p)" "\<lambda>r. job_key (snd r)"
    "\<lambda>r. job_confinement (snd r)" "\<lambda>session (program, script, scope). scope = session" accounted
proof unfold_locales
  fix r :: "(string \<Rightarrow> wire res) \<times> job" and s k v
  show "slot_of (request_worker r s) (job_key (snd r)) = Some v \<Longrightarrow> ps_confinement v = job_confinement (snd r)"
    using instrument_confines [of "(snd r)\<lparr>jb_setting := None\<rparr>" "fst r" s v]
    by (simp add: request_worker_def workers_off_def)
  show "k \<noteq> job_key (snd r) \<Longrightarrow> slot_of (request_worker r s) k = slot_of s k"
    using instrument_elsewhere [of k "(snd r)\<lparr>jb_setting := None\<rparr>" "fst r" s] by (simp add: request_worker_def)
next
  fix t :: "(worker_key \<Rightarrow> bool) \<times> nat \<times> nat" and s k v
  show "slot_of ((case t of (busy, idle, now) \<Rightarrow> \<lambda>p. snd (reap_idle_workers busy idle now p)) s) k = Some v
      \<Longrightarrow> slot_of s k = Some v"
    using reaped_worker_keeps [of "fst t" "fst (snd t)" "snd (snd t)" s k v] by (simp add: case_prod_beta)
  show "accounted s \<Longrightarrow> accounted ((case t of (busy, idle, now) \<Rightarrow> \<lambda>p. snd (reap_idle_workers busy idle now p)) s)"
    by (simp add: accounted_reap_workers case_prod_beta)
next
  fix x k s
  show "(case k of (program, script, scope) \<Rightarrow> scope = x) \<Longrightarrow> slot_of (forget_workers x s) k = None"
    by (simp add: forget_workers_def)
  show "\<not> (case k of (program, script, scope) \<Rightarrow> scope = x) \<Longrightarrow> slot_of (forget_workers x s) k = slot_of s k"
    by (simp add: forget_workers_def)
qed (simp_all add: request_worker_def accounted_instrument accounted_forget_workers)

section \<open>A history of requests\<close>

type_synonym worker_op = "((string \<Rightarrow> wire res) \<times> job, string, (worker_key \<Rightarrow> bool) \<times> nat \<times> nat) pool_op"

fun worker_step :: "worker_op \<Rightarrow> workers \<Rightarrow> workers" where
  "worker_step (PoolRequest r) p = request_worker r p"
| "worker_step (PoolForget session) p = forget_workers session p"
| "worker_step (PoolReap (busy, idle, now)) p = snd (reap_idle_workers busy idle now p)"

definition use_workers :: "worker_op list \<Rightarrow> workers" where
  "use_workers ops = fold worker_step ops pool_new"

fun leaves_worker :: "worker_key \<Rightarrow> worker_op \<Rightarrow> bool" where
  "leaves_worker key (PoolRequest r) \<longleftrightarrow> job_key (snd r) \<noteq> key"
| "leaves_worker key (PoolForget session) \<longleftrightarrow> snd (snd key) \<noteq> session"
| "leaves_worker key (PoolReap _) \<longleftrightarrow> True"

lemma use_workers_run: "use_workers ops = wk.run ops pool_new"
proof -
  have "wk.apply_op = worker_step"
  proof (intro ext)
    fix x p
    show "wk.apply_op x p = worker_step x p" by (cases x) (auto simp: case_prod_beta)
  qed
  then show ?thesis by (simp add: use_workers_def wk.run_def)
qed

lemma spares_leaves_worker: "wk.spares key x = leaves_worker key x"
  by (cases x; cases key) auto

lemma shared_survives_step:
  assumes "case x of PoolRequest r \<Rightarrow> job_key (snd r) \<noteq> (program, script, []) | PoolForget session \<Rightarrow> session \<noteq> [] | PoolReap _ \<Rightarrow> True"
  shows "slot_of (worker_step x p) (program, script, []) = slot_of p (program, script, [])"
proof (cases x)
  case (PoolRequest r)
  with assms wk.request_elsewhere [of "(program, script, [])" r p] show ?thesis by simp
next
  case (PoolForget session)
  with assms show ?thesis by (simp add: forget_workers_def)
next
  case (PoolReap t)
  then show ?thesis
    by (cases t) (auto simp: reap_idle_workers_def slot_of_reap_slots split: option.split)
qed

section \<open>Properties\<close>

text \<open>Whatever requests, closed sessions and idle reaps came before, a live worker has the
  confinement of the last request to its key: none for a shared one, the session's own
  sandbox otherwise, and that session has not been closed since.\<close>

theorem workers_run_confined:
  assumes "slot_of (use_workers ops) key = Some w"
  shows "\<exists>before r later. ops = before @ PoolRequest r # later \<and> job_key (snd r) = key
     \<and> ps_confinement w = job_confinement (snd r) \<and> list_all (leaves_worker key) later"
  using wk.live_after_run [of pool_new ops key w] assms
  by (simp add: use_workers_run spares_leaves_worker [abs_def])

definition demo_job :: job where
  "demo_job = \<lparr>jb_spec = \<lparr>wp_program = ''node'', wp_script = [''w''], wp_per_session = False, wp_lang = None\<rparr>,
     jb_session = ''s'', jb_sandbox = None, jb_launched = Inr (), jb_wrote = Inr (),
     jb_answer = ''a'' @ [line_feed], jb_eof = False, jb_now = 7, jb_setting = None\<rparr>"

definition demo_from_str :: "string \<Rightarrow> wire res" where
  "demo_from_str line = Inr \<lparr>wi_id = Some 1, wi_json = Some line, wi_generated = None, wi_error = None\<rparr>"

lemma demo_valid: "valid_utf8 [CHR ''a'', CHR 0x0A]"
  by (simp add: valid_utf8_Cons valid_utf8_def from_utf8.simps byte_def)

lemma demo_worker:
  "slot_of (use_workers [PoolRequest (demo_from_str, demo_job)]) (''node'', [''w''], []) =
     Some \<lparr>ps_pid = 0, ps_confinement = Shared, ps_last_used = 7, wk_next_id = 1, wk_unread = []\<rparr>"
  by (simp add: use_workers_def request_worker_def instrument_inner_def demo_job_def demo_from_str_def workers_off_def demo_valid
      ready_worker_def spawn_worker_def job_key_def job_scope_def job_confinement_def entry_def pool_new_def
      slot_of_def set_slot_def exchange_def read_line_def check_wire_def line_feed_def)

theorem workers_run_confined_witness:
  "\<exists>before r later. [PoolRequest (demo_from_str, demo_job)] = before @ PoolRequest r # later
     \<and> job_key (snd r) = (''node'', [''w''], []) \<and> Shared = job_confinement (snd r)
     \<and> list_all (leaves_worker (''node'', [''w''], [])) later"
  using workers_run_confined [OF demo_worker] by simp

text \<open>An answer handed back carries the number of its own request, and is what that line of
  the worker's output says; a line left over from an abandoned request is never taken for it.\<close>

theorem answers_match_requests:
  assumes "instrument_inner from_str jb p = (Some answer, p')"
  shows "\<exists>before w line wire. slot_of (ready_worker jb p) (job_key jb) = Some before
     \<and> slot_of p' (job_key jb) = Some w \<and> ps_pid w = ps_pid before \<and> wk_next_id w = wk_next_id before + 1
     \<and> line @ wk_unread w = wk_unread before @ jb_answer jb \<and> from_str line = Inr wire
     \<and> wi_id wire = Some (wk_next_id w) \<and> wi_error wire = None
     \<and> wi_json wire = Some (an_json answer) \<and> wi_generated wire = an_generated answer"
proof -
  have on: "\<not> workers_off (jb_setting jb)" using assms by (auto simp: instrument_inner_def)
  from on show ?thesis
  proof (rule instrument_cases [of jb from_str p])
    fix idle answer' w
    assume x: "slot_of (ready_worker jb p) (job_key jb) = Some idle"
      "exchange from_str (jb_wrote jb) (jb_eof jb) (jb_answer jb) (idle\<lparr>ps_last_used := jb_now jb\<rparr>) = Some (Inr (answer', w))"
      "instrument_inner from_str jb p = (Some answer', set_slot (job_key jb) (Some w) (ready_worker jb p))"
    have "answer' = answer" "slot_of p' (job_key jb) = Some w"
      using x(3) assms slot_of_has [OF x(1)] by (auto simp: slot_of_set_slot)
    with x(1) exchange_keeps [OF x(2)] exchange_answer [OF x(2)] show ?thesis by auto
  qed (use assms in auto)
qed

text \<open>Closing sessions, reaping and the requests to other workers leave a shared worker as it is.\<close>

theorem shared_workers_survive:
  assumes "list_all (\<lambda>x. case x of PoolRequest r \<Rightarrow> job_key (snd r) \<noteq> (program, script, [])
      | PoolForget session \<Rightarrow> session \<noteq> [] | PoolReap _ \<Rightarrow> True) ops"
  shows "slot_of (fold worker_step ops p) (program, script, []) = slot_of p (program, script, [])"
  using assms by (induction ops arbitrary: p) (simp_all add: shared_survives_step)

theorem answers_match_requests_witness:
  "\<exists>(answer :: answer) (p' :: workers) before w line wire. slot_of (ready_worker demo_job pool_new) (job_key demo_job) = Some before
     \<and> slot_of p' (job_key demo_job) = Some w \<and> ps_pid w = ps_pid before \<and> wk_next_id w = wk_next_id before + 1
     \<and> line @ wk_unread w = wk_unread before @ jb_answer demo_job \<and> demo_from_str line = Inr wire
     \<and> wi_id wire = Some (wk_next_id w) \<and> wi_error wire = None
     \<and> wi_json wire = Some (an_json answer) \<and> wi_generated wire = an_generated answer"
proof -
  obtain answer p' where "instrument_inner demo_from_str demo_job pool_new = (Some answer, p')"
    by (simp add: instrument_inner_def demo_job_def demo_from_str_def workers_off_def demo_valid
      ready_worker_def spawn_worker_def job_key_def job_scope_def job_confinement_def entry_def pool_new_def
      slot_of_def set_slot_def exchange_def read_line_def check_wire_def line_feed_def)
  from answers_match_requests [OF this] show ?thesis by - (rule exI, rule exI, assumption)
qed

theorem shared_workers_survive_witness:
  "slot_of (fold worker_step [PoolForget ''s'', PoolReap (\<lambda>_. False, 0, 9)] (use_workers [PoolRequest (demo_from_str, demo_job)]))
     (''node'', [''w''], [])
   = Some \<lparr>ps_pid = 0, ps_confinement = Shared, ps_last_used = 7, wk_next_id = 1, wk_unread = []\<rparr>"
  using shared_workers_survive [of "''node''" "[''w'']" "[PoolForget ''s'', PoolReap (\<lambda>_. False, 0, 9)]"
      "use_workers [PoolRequest (demo_from_str, demo_job)]"] demo_worker
  by simp

end
