(* ===== verification/Mirror.thy ===== *)
theory Mirror
  imports InstrumenterCli Workers
begin

text \<open>
  The files \<open>instrument_files\<close> of src/apps/server-rs/src/languages/common.rs reads and writes: the mirror
  of a session's sources under generated/.  A file that is not instrumented is copied; of an instrumented
  one the worker's answer is written, or the command writes.  What is on disk is a map from full paths.
  \<open>Runner.instrument_files\<close> is what the run makes of the answers given here.
\<close>

section \<open>One file\<close>

text \<open>\<open>writable\<close>: whether a file can be created at a path, whose directory was made if that was possible.\<close>

definition copy_file :: "(string \<Rightarrow> bool) \<Rightarrow> string \<Rightarrow> string \<Rightarrow> files \<Rightarrow> files" where
  "copy_file writable source output disk =
     (case disk source of Some text \<Rightarrow> if writable output then disk(output \<mapsto> text) else disk | None \<Rightarrow> disk)"

definition read_to_string :: "files \<Rightarrow> string \<Rightarrow> string option" where
  "read_to_string disk p = Option.bind (disk p) (\<lambda>text. if valid_utf8 text then Some text else None)"

text \<open>\<open>ask\<close> is the pool's \<open>instrument\<close> for the source.\<close>

definition instrument_with_worker ::
  "(string \<Rightarrow> bool) \<Rightarrow> (string \<Rightarrow> answer option) \<Rightarrow> string \<Rightarrow> string \<Rightarrow> string \<Rightarrow> files \<Rightarrow> string option \<times> files" where
  "instrument_with_worker writable ask source_path output source_map disk =
     (case read_to_string disk source_path of
        None \<Rightarrow> (None, disk)
      | Some source \<Rightarrow>
          if 1024 * 1024 < length source then (None, disk)
          else (case ask source of
                  None \<Rightarrow> (None, disk)
                | Some a \<Rightarrow>
                    (case an_generated a of
                       None \<Rightarrow> (Some (an_json a), disk)
                     | Some generated \<Rightarrow>
                         if \<not> writable output then (None, disk)
                         else if \<not> writable source_map then (None, disk(output \<mapsto> generated))
                         else (Some (an_json a), disk(output \<mapsto> generated, source_map \<mapsto> an_json a)))))"

text \<open>\<open>mw_worker\<close> is there when the language has one; \<open>mw_command\<close> is the command, on its arguments
  and the disk; \<open>mw_cancelled\<close> what the token says after a file.\<close>

record mirror_world =
  mw_session :: session
  mw_settings :: session_settings
  mw_version :: nat
  mw_writable :: "string \<Rightarrow> bool"
  mw_worker :: "(nat \<Rightarrow> string \<Rightarrow> answer option) option"
  mw_command :: "string list \<Rightarrow> files \<Rightarrow> process_result \<times> files"
  mw_cancelled :: "nat \<Rightarrow> bool"

definition under :: "session \<Rightarrow> string \<Rightarrow> string \<Rightarrow> string" where
  "under s dir p = show_path (path_join (ss_root s) (dir @ ''/'' @ p))"

definition source_map_name :: "nat \<Rightarrow> string" where
  "source_map_name file_id = ''.atomis-'' @ show_nat file_id @ ''.json''"

definition mirror_file ::
  "mirror_world \<Rightarrow> instrument_config \<Rightarrow> nat \<Rightarrow> project_file \<Rightarrow> files \<Rightarrow> instrument_answer \<times> files" where
  "mirror_file w config file_id file disk =
     (let s = mw_session w
      in case (case mw_worker w of
                 None \<Rightarrow> (None, disk)
               | Some ask \<Rightarrow> instrument_with_worker (mw_writable w) (ask file_id) (under s ''src'' (pf_path file))
                   (under s ''generated'' (pf_path file)) (under s ''generated'' (source_map_name file_id)) disk) of
           (Some json, disk1) \<Rightarrow> (WorkerAnswer json (mw_cancelled w file_id), disk1)
         | (None, disk1) \<Rightarrow>
             (case mw_command w (instrument_args config s (mw_settings w) (mw_version w) file file_id) disk1 of
                (result, disk2) \<Rightarrow> (CliAnswer result (mw_cancelled w file_id), disk2)))"

fun stops :: "instrument_answer \<Rightarrow> bool" where
  "stops (WorkerAnswer json cancelled) = cancelled"
| "stops (CliAnswer result cancelled) = (pr_cancelled result \<or> cancelled)"

section \<open>All files\<close>

fun mirror_loop ::
  "mirror_world \<Rightarrow> instrument_config \<Rightarrow> nat \<Rightarrow> project_file list \<Rightarrow> files \<Rightarrow> instrument_answer list \<times> files" where
  "mirror_loop w config n [] disk = ([], disk)"
| "mirror_loop w config n (file # files) disk =
     (if \<not> ic_instruments config (pf_path file)
      then mirror_loop w config n files
             (copy_file (mw_writable w) (under (mw_session w) ''src'' (pf_path file))
                (under (mw_session w) ''generated'' (pf_path file)) disk)
      else (case mirror_file w config (n + 1) file disk of
              (answer, disk1) \<Rightarrow>
                if stops answer then ([answer], disk1)
                else (case mirror_loop w config (n + 1) files disk1 of (answers, disk2) \<Rightarrow> (answer # answers, disk2))))"

text \<open>The loop with both sides of it: the outcome and events of the run, and the disk.\<close>

definition instrument_and_mirror ::
  "(string \<Rightarrow> instrumentation_output res) \<Rightarrow> mirror_world \<Rightarrow> instrument_config \<Rightarrow> snapshot \<Rightarrow> files
   \<Rightarrow> (instrument_outcome \<times> runner_event list) \<times> files" where
  "instrument_and_mirror from_str w config snap disk =
     (case mirror_loop w config 0 (sn_files snap) disk of
        (answers, disk1) \<Rightarrow> (instrument_files from_str config (\<lambda>file_id. answers ! (file_id - 1)) snap, disk1))"

section \<open>The instrumenter of Rust as the command\<close>

definition fs_of :: "(string \<Rightarrow> bool) \<Rightarrow> string \<Rightarrow> files \<Rightarrow> file_system" where
  "fs_of writable error disk = \<lparr>fs_metadata = (\<lambda>p. case disk p of Some text \<Rightarrow> Inr (length text) | None \<Rightarrow> Inl error),
     fs_read = (\<lambda>p. case read_to_string disk p of Some text \<Rightarrow> Inr text | None \<Rightarrow> Inl error),
     fs_write_error = (\<lambda>p. if writable p then None else Some error)\<rparr>"

definition rust_command ::
  "(string \<Rightarrow> (string \<times> nat \<times> nat) list + node) \<Rightarrow> (string \<Rightarrow> bool) \<Rightarrow> string \<Rightarrow> string list \<Rightarrow> files
   \<Rightarrow> process_result \<times> files" where
  "rust_command parse_file writable error args disk =
     (let r = instrument_main parse_file (fs_of writable error disk) args
      in (process_result_default\<lparr>pr_stdout := cr_stdout r, pr_stderr := cr_stderr r,
            pr_exit_code := Some (if cr_success r then 0 else 1)\<rparr>,
          fold (\<lambda>(p, text) d. d(p \<mapsto> text)) (cr_written r) disk))"

section \<open>Paths\<close>

definition plain_path :: "string \<Rightarrow> bool" where
  "plain_path p \<longleftrightarrow> list_all (\<lambda>c. c \<noteq> [] \<and> c \<noteq> ''.'') (split_on (CHR ''/'') p)"

lemma split_on_whole: "x \<notin> set s \<Longrightarrow> split_on x s = [s]"
  by (induction s) auto

lemma show_components: "p \<noteq> [] \<Longrightarrow> show_path p = ''/'' @ join_with ''/'' p"
  by (induction p rule: induct_list012) (auto simp: show_path_def)

lemma path_of_plain: "plain_path p \<Longrightarrow> path_of p = split_on (CHR ''/'') p"
  by (simp add: plain_path_def path_of_def list_all_iff filter_id_conv)

lemma plain_under_dir:
  assumes "plain_path p" "CHR ''/'' \<notin> set dir" "dir \<noteq> []" "dir \<noteq> ''.''"
  shows "under s dir p = concat (map (\<lambda>c. ''/'' @ c) (ss_root s)) @ ''/'' @ dir @ ''/'' @ p"
proof -
  have "split_on (CHR ''/'') (dir @ ''/'' @ p) = dir # split_on (CHR ''/'') p"
    using split_on_at [of "CHR ''/''" dir p] assms(2) by (simp add: split_on_whole)
  then have "path_of (dir @ ''/'' @ p) = dir # path_of p"
    using assms(3,4) by (simp add: path_of_def)
  then have "path_of (dir @ ''/'' @ p) = dir # split_on (CHR ''/'') p"
    by (simp only: path_of_plain [OF assms(1)])
  moreover have "\<not> starts_with (dir @ ''/'' @ p) ''/''"
    using assms(2,3) by (cases dir) (auto simp: starts_with_def)
  moreover have cons: "(@) ''/'' = (#) (CHR ''/'')" by (simp add: fun_eq_iff)
  moreover have "concat (map (\<lambda>c. ''/'' @ c) ps) = ''/'' @ join_with ''/'' ps" if "ps \<noteq> []" for ps
    using show_components [OF that] that cons by (simp add: show_path_def)
  ultimately show ?thesis
    using join_split_on [of "CHR ''/''" p] by (simp add: under_def path_join_def show_path_def)
qed


lemma source_map_plain: "plain_path (source_map_name i)"
proof -
  have "CHR ''/'' \<notin> set (source_map_name i)"
    using show_nat_digits [of i] by (auto simp: source_map_name_def list_all_iff ascii_digit_def byte_def)
  then have "split_on (CHR ''/'') (source_map_name i) = [source_map_name i]" by (rule split_on_whole)
  then show ?thesis by (simp only: plain_path_def) (simp add: source_map_name_def)
qed

lemma valid_plain_path: "valid_project_path p = Inr () \<Longrightarrow> plain_path p"
  using valid_project_path_parts [of p] by (auto simp: plain_path_def list_all_iff)

lemma under_inject: "plain_path p \<Longrightarrow> plain_path q \<Longrightarrow> under s ''generated'' p = under s ''generated'' q \<longleftrightarrow> p = q"
  by (simp add: plain_under_dir)

lemma source_not_generated: "plain_path p \<Longrightarrow> plain_path q \<Longrightarrow> under s ''src'' p \<noteq> under s ''generated'' q"
  by (simp add: plain_under_dir)

section \<open>The mirror of a Rust project\<close>

lemma rust_command_writes:
  assumes "version < 2 ^ 64" "file_id < 2 ^ 32"
    and "q \<noteq> under s ''generated'' (pf_path file)" "q \<noteq> under s ''generated'' (source_map_name file_id)"
  shows "snd (rust_command parse_file writable error (instrument_args rust_config s se version file file_id) disk) q = disk q"
  using assms(3,4)
  by (simp add: rust_command_def main_for_server [OF assms(1,2)] Let_def write_outputs_def cli_refused_def answered_def or_empty_def
      server_options_def under_def source_map_name_def split: sum.split option.split)

text \<open>\<open>mirrors\<close>: what stands in generated/ for a file, unless it cannot be instrumented.\<close>

definition mirrors :: "(string \<Rightarrow> (string \<times> nat \<times> nat) list + node) \<Rightarrow> project_file \<Rightarrow> string option \<Rightarrow> bool" where
  "mirrors parse_file file copy \<longleftrightarrow>
     (let source = pf_source file; lines = split_lines (without_bom source) in
      if \<not> ends_lower (pf_path file) ''.rs'' then copy = Some source
      else valid_utf8 source \<and> length source \<le> 1048576 \<and> \<not> already_instrumented (without_bom source)
           \<and> (\<exists>tree. parse_file (without_bom source) = Inr tree)
        \<longrightarrow> (\<exists>g. copy = Some g \<and> list_all2 subseq lines (take (length lines) (split_lines g))))"

lemma generated_lines:
  assumes "\<And>s tree. parse_file s = Inr tree \<Longrightarrow> clean tree"
    and "is_generated (instrument_source parse_file o1 main1 source) = Some g" "\<not> already_instrumented (without_bom source)"
  shows "list_all2 subseq (split_lines (without_bom source)) (take (length (split_lines (without_bom source))) (split_lines g))"
proof -
  obtain h where h: "woven (without_bom source) h" "g = h @ (if main1 then runtime_module else [])"
    using generated_source [OF _ assms(2,3)] assms(1) by blast
  have "\<exists>ms. split_lines g = split_lines h @ ms"
    using split_on_at [of lf h] by (auto simp: h(2) split_lines_def runtime_module_def)
  then obtain ms where "split_lines g = split_lines h @ ms" by blast
  with woven_lines [OF h(1)] show ?thesis
    using list_all2_lengthD [OF woven_lines [OF h(1)]] by simp
qed

lemma rust_command_mirrors:
  assumes parse: "\<And>s tree. parse_file s = Inr tree \<Longrightarrow> clean tree"
    and "version < 2 ^ 64" "file_id < 2 ^ 32" "ends_lower (pf_path file) ''.rs''"
    and "plain_path (pf_path file)" "\<not> starts_with (pf_path file) ''.atomis-''"
    and disk: "disk (under s ''src'' (pf_path file)) = Some (pf_source file)"
  shows "mirrors parse_file file (snd (rust_command parse_file (\<lambda>_. True) error
    (instrument_args rust_config s se version file file_id) disk) (under s ''generated'' (pf_path file)))"
proof -
  have other: "under s ''generated'' (pf_path file) \<noteq> under s ''generated'' (source_map_name file_id)"
    using assms(5,6) under_inject [OF _ source_map_plain, of "pf_path file" s file_id] by (auto simp: source_map_name_def starts_with_def)
  let ?o = "\<lparr>fo_uri = pf_uri file, fo_file_id = file_id, fo_auto_inspect = se_auto_inspect se, fo_manual_ids = se_manual_probe_ids se\<rparr>"
  let ?report = "instrument_source parse_file ?o (pf_path file = ''main.rs'') (pf_source file)"
  let ?copy = "snd (rust_command parse_file (\<lambda>_. True) error
    (instrument_args rust_config s se version file file_id) disk) (under s ''generated'' (pf_path file))"
  have copy: "?copy = Some g" if "is_generated ?report = Some g" "valid_utf8 (pf_source file)" "length (pf_source file) \<le> 1048576" for g
    using disk that other
    by (simp add: rust_command_def main_for_server [OF assms(2,3)] Let_def write_outputs_def answered_def or_empty_def
        server_options_def under_def source_map_name_def fs_of_def read_to_string_def MAX_SOURCE_BYTES_def)
  have report: "\<exists>g. is_generated ?report = Some g"
    if "\<not> already_instrumented (without_bom (pf_source file))" "parse_file (without_bom (pf_source file)) = Inr tree" for tree
    using that by (simp add: instrument_source_def Let_def)
  have "\<exists>g. ?copy = Some g \<and> list_all2 subseq (split_lines (without_bom (pf_source file)))
      (take (length (split_lines (without_bom (pf_source file)))) (split_lines g))"
    if "valid_utf8 (pf_source file)" "length (pf_source file) \<le> 1048576"
      and fresh: "\<not> already_instrumented (without_bom (pf_source file))"
      and tree: "parse_file (without_bom (pf_source file)) = Inr tree" for tree
  proof -
    obtain g where g: "is_generated ?report = Some g" using report [OF fresh tree] by blast
    have "list_all2 subseq (split_lines (without_bom (pf_source file)))
        (take (length (split_lines (without_bom (pf_source file)))) (split_lines g))"
      by (rule generated_lines [OF _ g fresh]) (rule parse)
    with copy [OF g that(1,2)] show ?thesis by blast
  qed
  with assms(4) show ?thesis unfolding mirrors_def Let_def by auto
qed


text \<open>\<open>rust_world\<close>: a Rust session, whose instrumenter is the command of this model, on a disk where files
  can be created, and in a run that is not cancelled.\<close>

definition rust_world ::
  "(string \<Rightarrow> (string \<times> nat \<times> nat) list + node) \<Rightarrow> string \<Rightarrow> mirror_world \<Rightarrow> bool" where
  "rust_world parse_file error w \<longleftrightarrow> mw_worker w = None \<and> mw_command w = rust_command parse_file (\<lambda>_. True) error
     \<and> mw_writable w = (\<lambda>_. True) \<and> mw_cancelled w = (\<lambda>_. False) \<and> mw_version w < 2 ^ 64"

lemma rust_step:
  assumes "rust_world parse_file error w"
  shows "mirror_loop w rust_config n (file # files) disk =
    (if \<not> ends_lower (pf_path file) ''.rs''
     then mirror_loop w rust_config n files (copy_file (\<lambda>_. True) (under (mw_session w) ''src'' (pf_path file))
            (under (mw_session w) ''generated'' (pf_path file)) disk)
     else case rust_command parse_file (\<lambda>_. True) error
            (instrument_args rust_config (mw_session w) (mw_settings w) (mw_version w) file (n + 1)) disk of
        (result, disk1) \<Rightarrow> (case mirror_loop w rust_config (n + 1) files disk1 of
           (answers, disk2) \<Rightarrow> (CliAnswer result False # answers, disk2)))"
proof -
  have "\<not> pr_cancelled (fst (rust_command parse_file (\<lambda>_. True) error args d))" for args d
    by (simp add: rust_command_def Let_def process_result_default_def)
  then have "pr_cancelled r = False" if "rust_command parse_file (\<lambda>_. True) error args d = (r, e)" for args d r e
    using that by (metis fst_conv)
  with assms show ?thesis
    by (simp add: mirror_loop.simps rust_world_def mirror_file_def Let_def rust_config_def split: prod.split)
qed

declare mirror_loop.simps(2) [simp del]

lemma mirror_loop_writes:
  assumes "rust_world parse_file error w" "n + length files < 2 ^ 32"
    and "\<forall>f \<in> set files. q \<noteq> under (mw_session w) ''generated'' (pf_path f)"
    and "\<forall>i. q \<noteq> under (mw_session w) ''generated'' (source_map_name i)"
  shows "snd (mirror_loop w rust_config n files disk) q = disk q"
  using assms(2,3)
proof (induction files arbitrary: n disk)
  case (Cons f fs)
  let ?s = "mw_session w"
  let ?run = "rust_command parse_file (\<lambda>_. True) error (instrument_args rust_config ?s (mw_settings w) (mw_version w) f (n + 1)) disk"
  have version: "mw_version w < 2 ^ 64" using assms(1) by (simp add: rust_world_def)
  show ?case
  proof (cases "ends_lower (pf_path f) ''.rs''")
    case True
    obtain result disk1 where run: "?run = (result, disk1)" by fastforce
    have "disk1 q = disk q"
      using rust_command_writes [OF version, of "n + 1" q ?s f parse_file "\<lambda>_. True" error "mw_settings w" disk] Cons.prems assms(4) run
      by simp
    moreover have "snd (mirror_loop w rust_config (n + 1) fs disk1) q = disk1 q"
      using Cons.prems by (intro Cons.IH) auto
    ultimately show ?thesis
      using True run by (cases "mirror_loop w rust_config (n + 1) fs disk1") (simp add: rust_step [OF assms(1)])
  next
    case False
    have "copy_file (\<lambda>_. True) p (under ?s ''generated'' (pf_path f)) disk q = disk q" for p
      using Cons.prems(2) by (auto simp: copy_file_def split: option.split)
    with False Cons.IH [of n] Cons.prems show ?thesis by (simp add: rust_step [OF assms(1)])
  qed
qed simp

lemma mirror_loop_mirrors:
  assumes world: "rust_world parse_file error w" and parse: "\<And>s tree. parse_file s = Inr tree \<Longrightarrow> clean tree"
    and "n + length files < 2 ^ 32" "distinct (map pf_path files)"
    and "\<forall>f \<in> set files. plain_path (pf_path f) \<and> \<not> starts_with (pf_path f) ''.atomis-''
      \<and> disk (under (mw_session w) ''src'' (pf_path f)) = Some (pf_source f)"
    and "f \<in> set files"
  shows "mirrors parse_file f (snd (mirror_loop w rust_config n files disk) (under (mw_session w) ''generated'' (pf_path f)))"
  using assms(3-6)
proof (induction files arbitrary: n disk)
  case (Cons g gs)
  let ?s = "mw_session w" let ?gen = "under (mw_session w) ''generated''"
  let ?rs = "ends_lower (pf_path g) ''.rs''"
  let ?run = "rust_command parse_file (\<lambda>_. True) error (instrument_args rust_config ?s (mw_settings w) (mw_version w) g (n + 1)) disk"
  let ?disk = "if ?rs then snd ?run else copy_file (\<lambda>_. True) (under ?s ''src'' (pf_path g)) (?gen (pf_path g)) disk"
  let ?n = "if ?rs then n + 1 else n"
  have version: "mw_version w < 2 ^ 64" using world by (simp add: rust_world_def)
  have loop: "snd (mirror_loop w rust_config n (g # gs) disk) = snd (mirror_loop w rust_config ?n gs ?disk)"
    by (simp add: rust_step [OF world] split: prod.split)
  have elsewhere: "?disk q = disk q" if "q \<noteq> ?gen (pf_path g)" "q \<noteq> ?gen (source_map_name (n + 1))" for q
    using that Cons.prems(1) rust_command_writes [OF version, of "n + 1" q ?s g parse_file "\<lambda>_. True" error "mw_settings w" disk]
    by (auto simp: copy_file_def split: option.split)
  have sources: "?disk (under ?s ''src'' (pf_path h)) = disk (under ?s ''src'' (pf_path h))" if "h \<in> set (g # gs)" for h
    using that Cons.prems(3) source_map_plain by (intro elsewhere source_not_generated) auto
  show ?case
  proof (cases "f = g")
    case True
    have "mirrors parse_file g (?disk (?gen (pf_path g)))"
    proof (cases ?rs)
      case True
      with Cons.prems show ?thesis by (auto intro!: rust_command_mirrors parse version)
    next
      case False
      with Cons.prems(3) show ?thesis by (simp add: mirrors_def copy_file_def)
    qed
    moreover have "snd (mirror_loop w rust_config ?n gs ?disk) (?gen (pf_path g)) = ?disk (?gen (pf_path g))"
      using Cons.prems under_inject source_map_plain
      by (intro mirror_loop_writes [OF world]) (auto simp: source_map_name_def starts_with_def)
    ultimately show ?thesis using True loop by simp
  next
    case False
    have "mirrors parse_file f (snd (mirror_loop w rust_config ?n gs ?disk) (?gen (pf_path f)))"
      using Cons.prems False sources by (intro Cons.IH) auto
    then show ?thesis using loop by simp
  qed
qed simp

text \<open>C11: after the files of a Rust session were instrumented, generated/ holds every file of the project:
  one that is not Rust as it is, one that is Rust and parses line by line the source with calls
  spliced in; and the sources themselves are as they were.\<close>

theorem rust_mirror_has_the_project:
  assumes "rust_world parse_file error w" "\<And>s tree. parse_file s = Inr tree \<Longrightarrow> clean tree"
    and "length (sn_files snap) < 2 ^ 32" "distinct (map pf_path (sn_files snap))"
    and "\<forall>f \<in> set (sn_files snap). valid_project_path (pf_path f) = Inr () \<and> \<not> starts_with (pf_path f) ''.atomis-''
      \<and> disk (show_path (path_join (ss_root (mw_session w)) (''src/'' @ pf_path f))) = Some (pf_source f)"
    and "f \<in> set (sn_files snap)" "disk1 = snd (instrument_and_mirror from_str w rust_config snap disk)"
  shows "mirrors parse_file f (disk1 (show_path (path_join (ss_root (mw_session w)) (''generated/'' @ pf_path f))))
    \<and> disk1 (show_path (path_join (ss_root (mw_session w)) (''src/'' @ pf_path f))) = Some (pf_source f)"
proof -
  have at: "show_path (path_join (ss_root (mw_session w)) (''src/'' @ p)) = under (mw_session w) ''src'' p"
    "show_path (path_join (ss_root (mw_session w)) (''generated/'' @ p)) = under (mw_session w) ''generated'' p" for p
    by (simp_all add: under_def)
  have disk1: "disk1 = snd (mirror_loop w rust_config 0 (sn_files snap) disk)"
    by (simp add: assms(7) instrument_and_mirror_def split: prod.split)
  have "mirrors parse_file f (disk1 (under (mw_session w) ''generated'' (pf_path f)))"
    unfolding disk1
    by (rule mirror_loop_mirrors [OF assms(1)]) (use assms(2-4,6) assms(5) [unfolded at] valid_plain_path in auto)
  moreover have "disk1 (under (mw_session w) ''src'' (pf_path f)) = disk (under (mw_session w) ''src'' (pf_path f))"
    unfolding disk1
    by (rule mirror_loop_writes [OF assms(1)])
      (use assms(3,5,6) valid_plain_path source_map_plain source_not_generated in auto)
  ultimately show ?thesis
    unfolding at using assms(5) [unfolded at] assms(6) by simp
qed


definition demo_rust_world :: "session \<Rightarrow> mirror_world" where
  "demo_rust_world s = \<lparr>mw_session = s, mw_settings = default_settings Unsupported, mw_version = 1, mw_writable = (\<lambda>_. True),
     mw_worker = None, mw_command = rust_command (\<lambda>_. Inr demo_rust_tree) (\<lambda>_. True) ''error'', mw_cancelled = (\<lambda>_. False)\<rparr>"

definition demo_rust_snapshot :: snapshot where
  "demo_rust_snapshot = \<lparr>sn_version = 1, sn_uri = [], sn_source = demo_rust,
     sn_files = [\<lparr>pf_path = ''main.rs'', pf_uri = [], pf_source = demo_rust\<rparr>], sn_updated_at = 0\<rparr>"

lemma demo_rust_read: "valid_utf8 demo_rust" "length demo_rust \<le> 1048576" "without_bom demo_rust = demo_rust"
proof -
  show "valid_utf8 demo_rust"
    by (simp add: demo_rust_def in_quotes_def quote_char_def lf_def valid_utf8_Cons byte_def)
  show "length demo_rust \<le> 1048576" by (simp add: demo_rust_def in_quotes_def)
  show "without_bom demo_rust = demo_rust" by code_simp
qed

lemma demo_main_valid: "valid_project_path ''main.rs'' = Inr ()"
  by code_simp

lemma rust_mirror_has_the_project_witness:
  "\<forall>s. \<exists>g. snd (instrument_and_mirror (\<lambda>_. Inl []) (demo_rust_world s) rust_config demo_rust_snapshot (\<lambda>_. Some demo_rust))
      (show_path (path_join (ss_root s) ''generated/main.rs'')) = Some g
    \<and> list_all2 subseq (split_lines demo_rust) (take (length (split_lines demo_rust)) (split_lines g))"
proof
  fix s
  have readable: "valid_utf8 demo_rust" "length demo_rust \<le> 1048576" "without_bom demo_rust = demo_rust" "\<not> already_instrumented demo_rust"
    using demo_rust_read demo_rust_fresh by simp_all
  have "mirrors (\<lambda>_. Inr demo_rust_tree) \<lparr>pf_path = ''main.rs'', pf_uri = [], pf_source = demo_rust\<rparr>
      (snd (instrument_and_mirror (\<lambda>_. Inl []) (demo_rust_world s) rust_config demo_rust_snapshot (\<lambda>_. Some demo_rust))
        (show_path (path_join (ss_root (mw_session (demo_rust_world s))) (''generated/'' @ ''main.rs''))))"
    using rust_mirror_has_the_project [of "\<lambda>_. Inr demo_rust_tree" "''error''" "demo_rust_world s" demo_rust_snapshot "\<lambda>_. Some demo_rust"
        "\<lparr>pf_path = ''main.rs'', pf_uri = [], pf_source = demo_rust\<rparr>" _ "\<lambda>_. Inl []", OF _ _ _ _ _ _ refl]
    using demo_rust_clean demo_main_valid by (simp add: rust_world_def demo_rust_world_def demo_rust_snapshot_def starts_with_def)
  then show "\<exists>g. snd (instrument_and_mirror (\<lambda>_. Inl []) (demo_rust_world s) rust_config demo_rust_snapshot (\<lambda>_. Some demo_rust))
      (show_path (path_join (ss_root s) ''generated/main.rs'')) = Some g
    \<and> list_all2 subseq (split_lines demo_rust) (take (length (split_lines demo_rust)) (split_lines g))"
    using readable by (simp add: mirrors_def Let_def demo_rust_world_def ends_lower_def ends_with_def to_ascii_lower_def ascii_upper_def byte_def)
qed

end
