(* ===== verification/Metrics.thy ===== *)
theory Metrics
  imports Deps Runner "HOL-Library.Word" "HOL-Library.Multiset"
begin

text \<open>
  src/apps/server-rs/src/metrics.rs: counters of finished runs, gauges, and the text of a scrape.  Each
  counter is one atomic word: what runs add to them interleaves in any order.  The specification is
  the list of the runs there were.  Times are milliseconds; how a quotient prints is an argument.
\<close>

section \<open>Counters\<close>

text \<open>Upper bounds in milliseconds, as they print in seconds.\<close>

definition BUCKETS :: "(int \<times> string) list" where
  "BUCKETS = [(50, ''0.05''), (100, ''0.1''), (250, ''0.25''), (500, ''0.5''), (1000, ''1''), (2500, ''2.5''),
     (5000, ''5''), (10000, ''10''), (30000, ''30'')]"

definition OUTCOMES :: "(terminal_state \<times> string) list" where
  "OUTCOMES = [(TSucceeded, ''succeeded''), (TCompileError, ''compile_error''), (TRuntimeError, ''runtime_error''),
     (TTimedOut, ''timed_out''), (TCancelled, ''cancelled'')]"

definition PHASES :: "string list" where
  "PHASES = [''instrument'', ''compile'', ''execute'']"

datatype counter =
    OutcomeOf language terminal_state
  | BucketOf language int
  | CountOf language
  | WallMicros language
  | PhaseMicros language nat
  | RunsInFlight
  | RunsQueued

type_synonym metrics = "counter \<Rightarrow> 64 word"

type_synonym addition = "counter \<times> 64 word"

definition metrics_zero :: metrics where
  "metrics_zero = (\<lambda>_. 0)"

fun fetch_add :: "addition \<Rightarrow> metrics \<Rightarrow> metrics" where
  "fetch_add (k, v) m = m(k := m k + v)"

text \<open>\<open>as u64\<close> saturates.\<close>

definition micros :: "millis \<Rightarrow> 64 word" where
  "micros ms = of_nat (min (nat (max 0 ms * 1000)) (2 ^ 64 - 1))"

definition run_queued :: "addition list" where "run_queued = [(RunsQueued, 1)]"
definition drop_queued :: "addition list" where "drop_queued = [(RunsQueued, -1)]"
definition run_started :: "addition list" where "run_started = [(RunsInFlight, 1)]"
definition drop_in_flight :: "addition list" where "drop_in_flight = [(RunsInFlight, -1)]"

definition run_finished :: "language \<Rightarrow> terminal_state \<Rightarrow> millis \<Rightarrow> run_result \<Rightarrow> addition list" where
  "run_finished lang state1 wall result =
     [(OutcomeOf lang state1, 1)]
     @ map (\<lambda>b. (BucketOf lang b, 1)) (filter (\<lambda>b. wall \<le> b) (map fst BUCKETS))
     @ [(CountOf lang, 1), (WallMicros lang, micros wall)]
     @ map (\<lambda>(phase, ms). (PhaseMicros lang phase, micros ms))
         (enumerate 0 [instrumentation_ms result, compilation_ms result, execution_ms result])"

section \<open>The runs of the scheduler\<close>

text \<open>What the task of one run adds, in its order: it waits for a slot, which it may not get, runs, and
  is counted if the runner gave an outcome.\<close>

record finished_run =
  fr_language :: language
  fr_wall :: millis
  fr_got_slot :: bool
  fr_outcome :: "(terminal_state \<times> run_result) option"

definition counted :: "finished_run \<Rightarrow> addition list" where
  "counted r = (if fr_got_slot r
     then (case fr_outcome r of Some (state1, result) \<Rightarrow> run_finished (fr_language r) state1 (fr_wall r) result | None \<Rightarrow> [])
     else [])"

definition task_additions :: "finished_run \<Rightarrow> addition list" where
  "task_additions r = run_queued @ drop_queued @ (if fr_got_slot r then run_started @ drop_in_flight else []) @ counted r"

section \<open>The text\<close>

definition header_lines :: "string \<Rightarrow> string \<Rightarrow> string \<Rightarrow> string list" where
  "header_lines name kind help1 = [''# HELP '' @ name @ '' '' @ help1, ''# TYPE '' @ name @ '' '' @ kind]"

definition label :: "string \<Rightarrow> string \<Rightarrow> string" where
  "label key v = key @ ''='' @ [CHR 0x22] @ v @ [CHR 0x22]"

definition sample :: "string \<Rightarrow> string list \<Rightarrow> string \<Rightarrow> string" where
  "sample name labels v = name @ (if labels = [] then [] else ''{'' @ join_with '','' labels @ ''}'') @ '' '' @ v"

definition show_word :: "64 word \<Rightarrow> string" where
  "show_word v = show_nat (unat v)"

text \<open>The gauges are signed.\<close>

definition show_signed :: "64 word \<Rightarrow> string" where
  "show_signed v = (if sint v < 0 then ''-'' @ show_nat (nat (- sint v)) else show_nat (nat (sint v)))"

definition outcome_lines :: "metrics \<Rightarrow> string list" where
  "outcome_lines m = concat (map (\<lambda>lang. concat (map (\<lambda>(state1, outcome).
     if 0 < m (OutcomeOf lang state1)
     then [sample ''atomis_runs_total'' [label ''language'' (as_str_language lang), label ''outcome'' outcome]
             (show_word (m (OutcomeOf lang state1)))]
     else []) OUTCOMES)) languages)"

definition histogram_lines :: "(nat \<Rightarrow> string) \<Rightarrow> metrics \<Rightarrow> string list" where
  "histogram_lines show_seconds m = concat (map (\<lambda>lang.
     if m (CountOf lang) = 0 then []
     else
       let name = ''atomis_run_duration_seconds''; l = label ''language'' (as_str_language lang);
           count = show_word (m (CountOf lang))
       in map (\<lambda>(b, text). sample (name @ ''_bucket'') [l, label ''le'' text] (show_word (m (BucketOf lang b)))) BUCKETS
          @ [sample (name @ ''_bucket'') [l, label ''le'' ''+Inf''] count,
             sample (name @ ''_sum'') [l] (show_seconds (unat (m (WallMicros lang)))), sample (name @ ''_count'') [l] count]) languages)"

definition phase_lines :: "(nat \<Rightarrow> string) \<Rightarrow> metrics \<Rightarrow> string list" where
  "phase_lines show_seconds m = concat (map (\<lambda>lang.
     if m (CountOf lang) = 0 then []
     else map (\<lambda>(i, phase). sample ''atomis_run_phase_seconds_total''
            [label ''language'' (as_str_language lang), label ''phase'' phase] (show_seconds (unat (m (PhaseMicros lang i)))))
          (enumerate 0 PHASES)) languages)"

text \<open>What the scrape reads elsewhere: sessions, compilers, language servers, and the files of /proc and
  /sys.  \<open>sr_ratio\<close> prints a quotient.\<close>

record scrape =
  sr_sessions :: nat
  sr_compile_servers :: nat
  sr_lsp_servers :: "(string \<times> nat) list"
  sr_read :: "string \<Rightarrow> string option"
  sr_hertz :: int
  sr_ratio :: "nat \<Rightarrow> nat \<Rightarrow> string"

text \<open>\<open>cgroup\<close>: microseconds of CPU and bytes.\<close>

definition first_with :: "string \<Rightarrow> string \<Rightarrow> string option" where
  "first_with prefix1 text = find_map (\<lambda>line. strip_prefix line prefix1) (str_lines text)"

definition cgroup :: "scrape \<Rightarrow> (nat \<times> nat) option" where
  "cgroup sr =
     Option.bind (sr_read sr ''/proc/self/cgroup'') (\<lambda>own.
     Option.bind (first_with ''0::'' own) (\<lambda>raw.
       let dir = path_join [''sys'', ''fs'', ''cgroup''] (dropWhile (\<lambda>c. c = CHR ''/'') (trim raw)) in
     Option.bind (sr_read sr (show_path (path_join dir ''cpu.stat''))) (\<lambda>cpu.
     Option.bind (Option.bind (first_with ''usage_usec '' cpu) (\<lambda>v. parse_unsigned 64 (trim v))) (\<lambda>usage.
     Option.bind (sr_read sr (show_path (path_join dir ''memory.current''))) (\<lambda>text.
     map_option (\<lambda>memory. (usage, memory)) (parse_unsigned 64 (trim text)))))))"

definition ticks :: "string list \<Rightarrow> nat \<Rightarrow> 64 word" where
  "ticks parts i = (if i < length parts then (case parse_unsigned 64 (parts ! i) of Some n \<Rightarrow> of_nat n | None \<Rightarrow> 0) else 0)"

text \<open>\<open>trim_end_matches\<close> of a text.\<close>

function trim_end_text :: "string \<Rightarrow> string \<Rightarrow> string" where
  "trim_end_text suffix1 s =
     (if suffix1 \<noteq> [] \<and> ends_with s suffix1 then trim_end_text suffix1 (take (length s - length suffix1) s) else s)"
  by pat_completeness auto
termination
  by (relation "measure (\<lambda>(suffix1, s). length s)") (auto simp: ends_with_def neq_Nil_conv)

declare trim_end_text.simps [simp del]

text \<open>\<open>process\<close>: clock ticks and bytes.\<close>

definition process_usage :: "scrape \<Rightarrow> (64 word \<times> 64 word) option" where
  "process_usage sr =
     Option.bind (sr_read sr ''/proc/self/stat'') (\<lambda>stat.
     Option.bind (rsplit_once (CHR '')'') stat) (\<lambda>(_, rest).
       let parts = split_whitespace rest; cpu_ticks = ticks parts 11 + ticks parts 12 + ticks parts 13 + ticks parts 14 in
     map_option (\<lambda>status.
       let rss_kb = (case Option.bind (first_with ''VmRSS:'' status)
                            (\<lambda>v. parse_unsigned 64 (trim (trim_end_text ''kB'' (trim v)))) of Some n \<Rightarrow> of_nat n | None \<Rightarrow> 0)
       in (cpu_ticks, rss_kb * 1024)) (sr_read sr ''/proc/self/status'')))"

definition gauge_lines :: "scrape \<Rightarrow> metrics \<Rightarrow> string list" where
  "gauge_lines sr m =
     header_lines ''atomis_runs_in_flight'' ''gauge'' ''Runs currently compiling or executing.''
     @ [sample ''atomis_runs_in_flight'' [] (show_signed (m RunsInFlight))]
     @ header_lines ''atomis_runs_queued'' ''gauge'' ''Runs waiting for a free slot, when ATOMIS_MAX_CONCURRENT_RUNS sets a ceiling.''
     @ [sample ''atomis_runs_queued'' [] (show_signed (m RunsQueued))]
     @ header_lines ''atomis_sessions'' ''gauge'' ''Live sessions, including those in their reconnect grace.''
     @ [sample ''atomis_sessions'' [] (show_nat (sr_sessions sr))]
     @ header_lines ''atomis_zig_compile_servers'' ''gauge'' ''Zig compilers kept running for incremental builds.''
     @ [sample ''atomis_zig_compile_servers'' [] (show_nat (sr_compile_servers sr))]
     @ header_lines ''atomis_lsp_servers'' ''gauge'' ''Running language servers by language.''
     @ map (\<lambda>(lang, count). sample ''atomis_lsp_servers'' [label ''language'' lang] (show_nat count)) (sr_lsp_servers sr)"

definition process_lines :: "scrape \<Rightarrow> string list" where
  "process_lines sr =
     (case process_usage sr of
        None \<Rightarrow> []
      | Some (cpu, rss) \<Rightarrow>
          header_lines ''atomis_process_cpu_seconds_total'' ''counter'' ''CPU of the server plus its reaped children.''
          @ [sample ''atomis_process_cpu_seconds_total'' [] (sr_ratio sr (unat cpu) (nat (max (sr_hertz sr) 1)))]
          @ header_lines ''atomis_process_resident_bytes'' ''gauge'' ''Resident memory of the server process alone.''
          @ [sample ''atomis_process_resident_bytes'' [] (show_word rss)])"

definition cgroup_lines :: "scrape \<Rightarrow> string list" where
  "cgroup_lines sr =
     (case cgroup sr of
        None \<Rightarrow> []
      | Some (cpu, memory) \<Rightarrow>
          header_lines ''atomis_cgroup_cpu_seconds_total'' ''counter'' ''CPU of the whole container, as the host bills it.''
          @ [sample ''atomis_cgroup_cpu_seconds_total'' [] (sr_ratio sr cpu 1000000)]
          @ header_lines ''atomis_cgroup_memory_bytes'' ''gauge'' ''Memory of the whole container, as the host bills it.''
          @ [sample ''atomis_cgroup_memory_bytes'' [] (show_nat memory)])"

definition render_metrics :: "scrape \<Rightarrow> metrics \<Rightarrow> string" where
  "render_metrics sr m =
     (let show_seconds = (\<lambda>us. sr_ratio sr us 1000000) in
      unlines
        (header_lines ''atomis_runs_total'' ''counter'' ''Finished runs by language and outcome.'' @ outcome_lines m
         @ header_lines ''atomis_run_duration_seconds'' ''histogram'' ''Wall time of a run, request to result.''
         @ histogram_lines show_seconds m
         @ header_lines ''atomis_run_phase_seconds_total'' ''counter'' ''Time spent per run phase, as the runner reports it.''
         @ phase_lines show_seconds m @ gauge_lines sr m @ process_lines sr @ cgroup_lines sr))"


section \<open>The counters tell the runs\<close>

definition total :: "counter \<Rightarrow> addition list \<Rightarrow> 64 word" where
  "total k bs = sum_list (map (\<lambda>(c, v). if c = k then v else 0) bs)"

lemma total_simps [simp]:
  "total k [] = 0" "total k ((c, v) # bs) = (if c = k then v else 0) + total k bs" "total k (as @ bs) = total k as + total k bs"
  by (simp_all add: total_def)

lemma fetch_adds: "fold fetch_add bs m k = m k + total k bs"
  by (induction bs arbitrary: m) (auto simp: add.assoc)

lemma total_interleaved: "mset bs = mset cs \<Longrightarrow> total k bs = total k cs"
proof -
  have "total k as = sum_mset (image_mset (\<lambda>(c, v). if c = k then v else 0) (mset as))" for as
    by (induction as) (auto simp: total_def)
  then show "mset bs = mset cs \<Longrightarrow> total k bs = total k cs" by simp
qed

lemma total_concat: "total k (concat bss) = sum_list (map (total k) bss)"
  by (induction bss) simp_all

lemma sum_of_ones: "sum_list (map (\<lambda>x. if P x then 1 else 0) xs) = (of_nat (length (filter P xs)) :: 64 word)"
  by (induction xs) simp_all

lemma total_absent: "k \<notin> fst ` set bs \<Longrightarrow> total k bs = 0"
  by (induction bs) auto

definition is_counted :: "language \<Rightarrow> finished_run \<Rightarrow> bool" where
  "is_counted lang r \<longleftrightarrow> fr_got_slot r \<and> fr_outcome r \<noteq> None \<and> fr_language r = lang"

lemma buckets_once: "b \<in> fst ` set BUCKETS \<Longrightarrow> total (BucketOf lang b) (map (\<lambda>b. (BucketOf lang b, 1)) (filter (\<lambda>b. wall \<le> b) (map fst BUCKETS)))
    = (if wall \<le> b then 1 else 0)"
proof -
  have once: "total (BucketOf lang b) (map (\<lambda>b. (BucketOf lang b, 1)) bs) = (if b \<in> set bs then 1 else 0)" if "distinct bs" for bs
    using that by (induction bs) auto
  have "distinct (map fst BUCKETS)" by (simp add: BUCKETS_def)
  then show "b \<in> fst ` set BUCKETS \<Longrightarrow> ?thesis" by (subst once) auto
qed

lemma finished_adds:
  "total (OutcomeOf lang st) (run_finished l s wall result) = (if l = lang \<and> s = st then 1 else 0)"
  "total (CountOf lang) (run_finished l s wall result) = (if l = lang then 1 else 0)"
  "b \<in> fst ` set BUCKETS \<Longrightarrow> total (BucketOf lang b) (run_finished l s wall result) = (if l = lang \<and> wall \<le> b then 1 else 0)"
  "total RunsInFlight (run_finished l s wall result) = 0" "total RunsQueued (run_finished l s wall result) = 0"
proof -
  have other: "total k (map (\<lambda>b. (BucketOf l b, 1)) bs) = 0" if "k \<notin> range (BucketOf l)" for k bs
    using that by (intro total_absent) auto
  show "total (OutcomeOf lang st) (run_finished l s wall result) = (if l = lang \<and> s = st then 1 else 0)"
    "total (CountOf lang) (run_finished l s wall result) = (if l = lang then 1 else 0)"
    "total RunsInFlight (run_finished l s wall result) = 0" "total RunsQueued (run_finished l s wall result) = 0"
    by (auto simp: run_finished_def other image_iff)
  assume b: "b \<in> fst ` set BUCKETS"
  show "total (BucketOf lang b) (run_finished l s wall result) = (if l = lang \<and> wall \<le> b then 1 else 0)"
  proof (cases "l = lang")
    case True
    then show ?thesis using buckets_once [OF b, of lang wall] by (simp add: run_finished_def)
  next
    case False
    then have "BucketOf lang b \<notin> range (BucketOf l)" by auto
    with False show ?thesis by (simp add: run_finished_def other)
  qed
qed

lemma counted_adds:
  "total (OutcomeOf lang st) (counted r) = (if is_counted lang r \<and> fst (the (fr_outcome r)) = st then 1 else 0)"
  "total (CountOf lang) (counted r) = (if is_counted lang r then 1 else 0)"
  "b \<in> fst ` set BUCKETS \<Longrightarrow> total (BucketOf lang b) (counted r) = (if is_counted lang r \<and> fr_wall r \<le> b then 1 else 0)"
  "total RunsInFlight (counted r) = 0" "total RunsQueued (counted r) = 0"
  by (auto simp: counted_def is_counted_def finished_adds split: option.split)

lemma total_take_zero: "(\<forall>a \<in> set bs. fst a \<noteq> k) \<Longrightarrow> total k (take n bs) = 0"
  by (intro total_absent) (auto dest: in_set_takeD)

lemma finished_no_gauge: "a \<in> set (run_finished l s wall result) \<Longrightarrow> fst a \<noteq> RunsInFlight \<and> fst a \<noteq> RunsQueued"
  by (auto simp: run_finished_def)

lemma counted_no_gauge: "a \<in> set (counted r) \<Longrightarrow> fst a \<noteq> RunsInFlight \<and> fst a \<noteq> RunsQueued"
  using finished_no_gauge by (cases "fr_got_slot r"; cases "fr_outcome r") (simp_all add: counted_def case_prod_unfold)

lemmas task_parts = task_additions_def run_queued_def drop_queued_def run_started_def drop_in_flight_def

lemma task_gauges:
  "total RunsQueued (take k (task_additions r)) = (if k = 1 then 1 else 0)"
  "total RunsInFlight (take k (task_additions r)) = (if fr_got_slot r \<and> k = 3 then 1 else 0)"
proof -
  have none: "total RunsQueued (take n (counted r)) = 0" "total RunsInFlight (take n (counted r)) = 0" for n
    using counted_no_gauge by (auto intro!: total_take_zero)
  have cases: "k = 0 \<or> k = 1 \<or> k = 2 \<or> k = 3 \<or> (\<exists>n. k = Suc (Suc (Suc (Suc n))))"
  proof (cases "k < 4")
    case False
    then have "k = Suc (Suc (Suc (Suc (k - 4))))" by simp
    then show ?thesis by blast
  qed auto
  have gauges: "take (Suc 0) (task_additions r) = [(RunsQueued, 1)]" "take 2 (task_additions r) = [(RunsQueued, 1), (RunsQueued, - 1)]"
    "take 3 (task_additions r) = [(RunsQueued, 1), (RunsQueued, - 1)] @ (if fr_got_slot r then [(RunsInFlight, 1)] else [])"
    "take (Suc (Suc (Suc (Suc n)))) (task_additions r) = [(RunsQueued, 1), (RunsQueued, - 1)]
       @ (if fr_got_slot r then [(RunsInFlight, 1), (RunsInFlight, - 1)] @ take n (counted r) else [])" for n
    by (simp_all add: task_parts counted_def numeral_2_eq_2 numeral_3_eq_3)
  show "total RunsQueued (take k (task_additions r)) = (if k = 1 then 1 else 0)"
    using cases by (elim disjE exE) (simp_all add: gauges none)
  show "total RunsInFlight (take k (task_additions r)) = (if fr_got_slot r \<and> k = 3 then 1 else 0)"
    using cases by (elim disjE exE) (simp_all add: gauges none)
qed

text \<open>C40: whatever order the additions of concurrent runs fall in, the gauges count the runs that wait and
  the runs that have a slot; and once no run is under way the counters of finished runs are the
  numbers of the runs with an outcome, in all, by outcome, and by the bound their time is within.\<close>

theorem metrics_tell_the_runs:
  assumes "mset bs = mset (concat (map (\<lambda>(r, k). take k (task_additions r)) runs))"
    and "m = fold fetch_add bs metrics_zero"
  shows "m RunsQueued = of_nat (length (filter (\<lambda>(r, k). k = 1) runs))
    \<and> m RunsInFlight = of_nat (length (filter (\<lambda>(r, k). fr_got_slot r \<and> k = 3) runs))
    \<and> ((\<forall>(r, k) \<in> set runs. length (task_additions r) \<le> k) \<longrightarrow> (\<forall>lang.
          m (CountOf lang) = of_nat (length (filter (is_counted lang) (map fst runs)))
        \<and> (\<forall>st. m (OutcomeOf lang st) =
             of_nat (length (filter (\<lambda>r. is_counted lang r \<and> fst (the (fr_outcome r)) = st) (map fst runs))))
        \<and> (\<forall>b \<in> fst ` set BUCKETS. m (BucketOf lang b) =
             of_nat (length (filter (\<lambda>r. is_counted lang r \<and> fr_wall r \<le> b) (map fst runs))))))"
proof -
  have m: "m k = sum_list (map (\<lambda>(r, n). total k (take n (task_additions r))) runs)" for k
    using total_interleaved [OF assms(1), of k]
    by (simp add: assms(2) fetch_adds metrics_zero_def total_concat comp_def case_prod_unfold)
  have whole: "m k = of_nat (length (filter P (map fst runs)))"
    if "\<forall>(r, n) \<in> set runs. length (task_additions r) \<le> n" "\<And>r. total k (task_additions r) = (if P r then 1 else 0)" for k P
  proof -
    have "m k = sum_list (map (\<lambda>(r, n). total k (task_additions r)) runs)"
      unfolding m using that(1) by (intro arg_cong [of _ _ sum_list] map_cong) auto
    also have "\<dots> = sum_list (map (\<lambda>r. if P r then 1 else 0) (map fst runs))"
      by (simp add: that(2) comp_def case_prod_unfold)
    finally show ?thesis by (simp only: sum_of_ones)
  qed
  have parts: "total (CountOf lang) (task_additions r) = total (CountOf lang) (counted r)"
    "total (OutcomeOf lang st) (task_additions r) = total (OutcomeOf lang st) (counted r)"
    "total (BucketOf lang b) (task_additions r) = total (BucketOf lang b) (counted r)" for lang st b r
    by (simp_all add: task_parts)
  have "m RunsQueued = of_nat (length (filter (\<lambda>(r, k). k = 1) runs))"
    "m RunsInFlight = of_nat (length (filter (\<lambda>(r, k). fr_got_slot r \<and> k = 3) runs))"
    by (simp_all add: m task_gauges case_prod_unfold sum_of_ones)
  then show ?thesis
    by (intro conjI impI allI ballI whole; simp add: parts counted_adds)
qed


definition demo_finished :: finished_run where
  "demo_finished = \<lparr>fr_language = Py, fr_wall = 200, fr_got_slot = True,
     fr_outcome = Some (TSucceeded, run_result_default\<lparr>instrumentation_ms := 10, execution_ms := 5\<rparr>)\<rparr>"

lemma demo_finished_length: "length (task_additions demo_finished) = 17"
  by (simp add: task_parts counted_def demo_finished_def run_finished_def BUCKETS_def)

lemma metrics_tell_the_runs_witness:
  "\<exists>m. m = fold fetch_add (rev (task_additions demo_finished)) metrics_zero
     \<and> m (CountOf Py) = 1 \<and> m (BucketOf Py 250) = 1 \<and> m (BucketOf Py 100) = 0 \<and> m RunsQueued = 0"
proof -
  have "mset (rev (task_additions demo_finished)) = mset (concat (map (\<lambda>(r, k). take k (task_additions r)) [(demo_finished, 17)]))"
    by (simp add: demo_finished_length)
  from metrics_tell_the_runs [OF this refl] show ?thesis
    by (simp add: demo_finished_length is_counted_def BUCKETS_def) (simp add: demo_finished_def)
qed

end
