(* ===== verification/Doctor.thy ===== *)
theory Doctor
  imports Util Sandbox Deps
begin

text \<open>
  src/apps/server-rs/src/languages/doctor.rs: the report of /api/doctor.  What commands answer, the
  kernel's support, the random bytes of the directory's name and the outcome of the supervised
  script are arguments.
\<close>

record doctor_check =
  dc_name :: string
  dc_ok :: bool
  dc_detected :: string
  dc_expected :: string
  dc_command :: string
  dc_help :: "string option"

record command_answer =
  ca_code :: "int option"
  ca_stdout :: string
  ca_stderr :: string

text \<open>\<open>do_run\<close>: \<open>command\<close> on a program, its arguments and directory.  \<open>do_debug\<close> is the \<open>Debug\<close> of a text.\<close>

record doctor_world =
  do_run :: "string \<Rightarrow> string list \<Rightarrow> path option \<Rightarrow> command_answer"
  do_support :: sandbox_support
  do_temp_dir :: path
  do_random :: string
  do_writable :: bool
  do_fd3 :: "int option \<times> string"
  do_debug :: "string \<Rightarrow> string"

definition dash :: string where "dash = [CHR 0xE2, CHR 0x80, CHR 0x94]"
definition en_dash :: string where "en_dash = [CHR 0xE2, CHR 0x80, CHR 0x93]"
definition arrow :: string where "arrow = [CHR 0xE2, CHR 0x86, CHR 0x92]"

text \<open>What was written on standard output or else on standard error.\<close>

definition detected_text :: "string \<Rightarrow> string \<Rightarrow> string" where
  "detected_text out err = (if out \<noteq> [] then out else if trim err \<noteq> [] then trim err else ''not found'')"

definition trim_v :: "string \<Rightarrow> string" where
  "trim_v s = dropWhile (\<lambda>c. c = CHR ''v'') s"

definition major_of :: "string \<Rightarrow> nat" where
  "major_of detected = (case parse_unsigned 32 (hd (split_on (CHR ''.'') (trim_v detected))) of Some n \<Rightarrow> n | None \<Rightarrow> 0)"

definition node_check :: "doctor_world \<Rightarrow> doctor_check" where
  "node_check w =
     (let a = do_run w ''node'' [''--version''] None; detected = detected_text (trim (ca_stdout a)) (ca_stderr a)
      in \<lparr>dc_name = ''Node.js'', dc_ok = (ca_code a = Some 0 \<and> major_of detected \<in> {22..<25}), dc_detected = trim_v detected,
          dc_expected = ''22.x production baseline (22'' @ en_dash @ ''24 accepted for development)'',
          dc_command = ''node --version'', dc_help = Some ''Install Node 22, then run: corepack enable && pnpm run doctor''\<rparr>)"

definition sandbox_check :: "doctor_world \<Rightarrow> doctor_check" where
  "sandbox_check w =
     \<lparr>dc_name = ''Sandbox'', dc_ok = True,
      dc_detected = (case do_support w of
           FilesAndNetwork \<Rightarrow> ''Landlock: workspace-only files, no TCP (UDP not covered)''
         | FilesOnly \<Rightarrow> ''Landlock: workspace-only files (kernel < 6.7: TCP not confined)''
         | Unsupported \<Rightarrow> ''unavailable '' @ dash @ '' code runs with your permissions''),
      dc_expected = ''Linux 6.7+ with Landlock (optional, enables Settings '' @ arrow @ '' Sandbox)'',
      dc_command = ''landlock_create_ruleset(ABI)'',
      dc_help = (if available (do_support w) then None
                 else Some ''Enable CONFIG_SECURITY_LANDLOCK and add landlock to lsm= on the kernel command line'')\<rparr>"

definition zig_check :: "doctor_world \<Rightarrow> string \<Rightarrow> doctor_check" where
  "zig_check w tool =
     (let args = (if tool = ''zig'' then [''version''] else [''--version'']); a = do_run w tool args None;
          detected = detected_text (trim (ca_stdout a)) (ca_stderr a)
      in \<lparr>dc_name = (if tool = ''zig'' then ''Zig compiler'' else ''ZLS language server''),
          dc_ok = (ca_code a = Some 0 \<and> starts_with detected ''0.16.''), dc_detected = detected, dc_expected = ''0.16.x'',
          dc_command = tool @ '' '' @ join_with '' '' args,
          dc_help = Some (''Install '' @ tool @ '' 0.16.x on PATH. Atomis never downloads it automatically.'')\<rparr>)"

definition optional_tools :: "(string \<times> string \<times> string) list" where
  "optional_tools =
     [(''Rust'', ''rustc'', ''1.75+ (optional, enables Rust sessions)''),
      (''Rust'', ''cargo'', ''1.75+ (optional, enables Rust sessions)''),
      (''Rust'', ''rust-analyzer'', ''any (optional, enables Rust editor features)''),
      (''Go'', ''go'', ''1.22+ (optional, enables Go sessions)''),
      (''Go'', ''gopls'', ''any (optional, enables Go editor features)''),
      (''TS'', ''typescript-language-server'', ''any (optional, enables TS/JS editor features)''),
      (''Python'', ''python3'', ''3.9+ (optional, enables Python sessions)''),
      (''Python'', ''pyright'', ''any (optional, enables Python editor features)''),
      (''C/C++'', ''clang'', ''15+ (optional, enables C sessions)''),
      (''C/C++'', ''clang++'', ''15+ (optional, enables C++ sessions)''),
      (''C/C++'', ''clangd'', ''any (optional, enables C/C++ editor features)'')]"

definition optional_check :: "doctor_world \<Rightarrow> string \<times> string \<times> string \<Rightarrow> doctor_check" where
  "optional_check w tool1 =
     (case tool1 of (group1, tool, expected) \<Rightarrow>
        let args = (if tool = ''go'' then [''version''] else [''--version'']); a = do_run w tool args None;
            lines1 = str_lines (trim (ca_stdout a));
            detected = detected_text (if lines1 = [] then [] else hd lines1) (ca_stderr a)
        in \<lparr>dc_name = group1 @ '' '' @ tool, dc_ok = True,
            dc_detected = (if ca_code a = Some 0 then detected
                           else detected @ '' '' @ dash @ '' '' @ group1 @ '' support degraded''),
            dc_expected = expected, dc_command = tool @ '' '' @ join_with '' '' args, dc_help = None\<rparr>)"

definition doctor_directory :: "doctor_world \<Rightarrow> path" where
  "doctor_directory w = path_join (do_temp_dir w) (''atomis-doctor-'' @ random_hex (do_random w))"

definition show_int :: "int \<Rightarrow> string" where
  "show_int i = (if i < 0 then ''-'' @ show_nat (nat (- i)) else show_nat (nat i))"

definition native_check :: "doctor_world \<Rightarrow> doctor_check" where
  "native_check w =
     (let dir = doctor_directory w;
          compile = do_run w ''zig'' [''build-exe'', ''main.zig'', ''-femit-bin=doctor-bin''] (Some dir);
          execute = (if ca_code compile = Some 0 then ca_code (do_run w (show_path (path_join dir ''doctor-bin'')) [] (Some dir)) else None)
      in \<lparr>dc_name = ''Native compile/run'', dc_ok = (ca_code compile = Some 0 \<and> execute = Some 0),
          dc_detected = (if ca_code compile = Some 0 then ''exit '' @ show_int (case execute of Some c \<Rightarrow> c | None \<Rightarrow> - 1)
                         else trim (ca_stderr compile)),
          dc_expected = ''temporary binary exits 0'', dc_command = ''zig build-exe main.zig -femit-bin=doctor-bin'',
          dc_help = Some ''Check compiler/linker availability and executable temp mounts.''\<rparr>)"

definition storage_check :: "doctor_world \<Rightarrow> doctor_check" where
  "storage_check w =
     (let dir = show_path (doctor_directory w)
      in \<lparr>dc_name = ''Temporary storage'', dc_ok = do_writable w, dc_detected = dir, dc_expected = ''writable'',
          dc_command = ''test -w '' @ dir, dc_help = None\<rparr>)"

definition fd3_check :: "doctor_world \<Rightarrow> doctor_check" where
  "fd3_check w =
     (case do_fd3 w of (code, probe) \<Rightarrow>
        \<lparr>dc_name = ''Probe descriptor fd 3'', dc_ok = (code = Some 0 \<and> probe = ''probe'' @ [lf]),
         dc_detected = ''{'' @ [quote_char] @ ''code'' @ [quote_char] @ '':'' @
           (case code of Some c \<Rightarrow> ''Some('' @ show_int c @ '')'' | None \<Rightarrow> ''None'') @ '',''
           @ [quote_char] @ ''probe'' @ [quote_char] @ '':'' @ do_debug w probe @ ''}'',
         dc_expected = ''separate inherited pipe'', dc_command = ''sh fd3.sh (fd 3 = pipe)'', dc_help = None\<rparr>)"

definition run_doctor :: "doctor_world \<Rightarrow> doctor_check list" where
  "run_doctor w = [node_check w, sandbox_check w, zig_check w ''zig'', zig_check w ''zls''] @ map (optional_check w) optional_tools
     @ [native_check w, storage_check w, fd3_check w]"

text \<open>Only what a server without optional languages needs can fail the report: a tool of another language
  that is missing is said to degrade it.\<close>

lemma doctor_passes_without_optional_tools:
  "list_all dc_ok (run_doctor w) \<longleftrightarrow>
     ca_code (do_run w ''node'' [''--version''] None) = Some 0 \<and> dc_ok (node_check w)
     \<and> list_all (\<lambda>tool. dc_ok (zig_check w tool)) [''zig'', ''zls'']
     \<and> dc_ok (native_check w) \<and> do_writable w \<and> do_fd3 w = (Some 0, ''probe'' @ [lf])"
  by (auto simp: run_doctor_def optional_tools_def optional_check_def sandbox_check_def storage_check_def fd3_check_def
      node_check_def Let_def split: prod.split)

end
