(* ===== verification/Spec2Isabelle.thy ===== *)
theory Spec2Isabelle
  imports Supersession RuntimeWs Lsp Http Languages Mirror Metrics Doctor
begin

text \<open>
  Atomis is a code playground that a browser talks to on the loopback interface: a Rust server
  (src/apps/server-rs) keeps sessions with files, runs them in seven languages under a sandbox,
  and sends back output, observed values and diagnostics.  This development models that server, and
  the instrumenter and runtime (src/rust) by which it observes Rust programs.

  \<^bold>\<open>The parts and how they interact.\<close>  An HTTP request passes the guards and reaches a route
  (\<open>Http\<close>), which creates a session in the manager (\<open>Sessions\<close>) or works on workspaces and
  preferences (\<open>Workspace\<close>, \<open>Preferences\<close>).  A socket then attaches (\<open>RuntimeWs\<close>): its messages
  (\<open>Protocol\<close>) edit the session's store (\<open>Store\<close>, \<open>Versions\<close>), are recorded in the hub that sockets
  of one workspace share (\<open>Collab\<close>), install packages (\<open>Deps\<close>), or ask the scheduler for a run
  (\<open>Scheduler\<close>, \<open>Supersession\<close>).  A run spawns processes (\<open>Supervisor\<close>, \<open>Utf8\<close>) under a policy
  (\<open>Sandbox\<close>) and turns what they print and report into events (\<open>Markers\<close>, \<open>Ndjson\<close>, \<open>Runner\<close>); how it
  instruments, builds, executes and tests is its language's runner (\<open>Languages\<close> and the runners),
  which for Zig may build with a compiler that stays up (\<open>CompileServer\<close>).  A second socket bridges
  the editor to a language server (\<open>Lsp\<close>).

  \<^bold>\<open>Theories and sources\<close> (below src/apps/server-rs/src; a definition has the name of the
  function or type it models unless that clashes):

  \<^item> \<open>Prelude\<close>: Rust's \<open>str\<close> as its UTF-8 bytes, \<open>Result\<close> as a sum, the string functions of the
    standard library, numbers as text, ASCII text.
  \<^item> \<open>Utf8\<close>, \<open>Order\<close>, \<open>Util\<close>: util.rs.  Chunked decoding, the total order of file names, origin,
    host and token checks, file URLs, random ids.
  \<^item> \<open>Protocol\<close>, \<open>Defaults\<close>: protocol.rs.  Messages and events as datatypes, validation, limits, the
    default programs.
  \<^item> \<open>Collab\<close>: domain/collab.rs, with the log of accepted writes as its specification.
  \<^item> \<open>Sandbox\<close>, \<open>Supervisor\<close>: exec/sandbox.rs and exec/supervisor.rs.  The policy and the ruleset
    it becomes; the select loop of a child's pipes, deadlines and exit over a list of polls.
  \<^item> \<open>Packs\<close>, \<open>Workspace\<close>, \<open>Preferences\<close>: languages/packs.rs, domain/workspace.rs,
    domain/preferences.rs.  The file system is a map with the faults a system call may give.
  \<^item> \<open>Store\<close>, \<open>Versions\<close>, \<open>Sessions\<close>: domain/session.rs.  The file operations of a session on its
    snapshot and disk, their refinement of edits of a map, and the session manager.
  \<^item> \<open>Markers\<close>, \<open>Ndjson\<close>, \<open>Runner\<close>: languages/markers.rs, ndjson.rs, runtime.rs and common.rs.
  \<^item> \<open>Scheduler\<close>, \<open>Supersession\<close>: domain/scheduler.rs.  Operations split where the code gives up
    its lock, a step relation over them, and what holds in every interleaving.
  \<^item> \<open>Deps\<close>, \<open>RuntimeWs\<close>, \<open>Lsp\<close>, \<open>Http\<close>: languages/deps.rs, ws/runtime.rs, ws/lsp.rs, http/*.rs
    with the cache headers and port of main.rs.
  \<^item> \<open>Regex\<close>, \<open>Parsing\<close>: the regular expressions of the parsers as patterns with the regex crate's
    leftmost-first matching, and what the parsers of compiler output share.
  \<^item> \<open>Pools\<close>, \<open>Bundle\<close>, \<open>CompileServer\<close>, \<open>ZigDiagnostics\<close>: languages/zig/compile_server.rs (slots,
    error bundles, messages) and languages/zig/diagnostics.rs.  \<open>Workers\<close>: languages/instrument_worker.rs.
  \<^item> \<open>LanguageRun\<close>: the phases that the \<open>run\<close> and \<open>run_tests\<close> functions of all languages have in
    common, over a log of events, processes and probe lists; the judgement of a phase; the locale
    \<open>language_run\<close> of what every run keeps.
  \<^item> \<open>GoDirect\<close>, \<open>GoRunner\<close>, \<open>RustRunner\<close>, \<open>TsRunner\<close>, \<open>PyRunner\<close>, \<open>CFamilyRunner\<close>, \<open>ZigRunner\<close>:
    languages/go/direct.rs and languages/{go,rust,ts,py,cfamily,zig}/run.rs, each with its
    interpretation of the locale.  \<open>Languages\<close>: run_language of languages/runtime.rs, an
    interpretation of the same locale by cases, and what holds of a run in every language.
  \<^item> \<open>Instrumenter\<close>, \<open>InstrumenterCli\<close>: src/rust/instrumenter, instrument.rs and main.rs; a file is the tree
    its visitor walks.  \<open>RustRuntime\<close>: src/rust/runtime/atomis_runtime.rs, what an instrumented program
    writes and how the server reads it.  \<open>Mirror\<close>: what instrument_files of languages/common.rs does to
    generated/, with worker or command, and the mirror of a Rust project.
  \<^item> \<open>Metrics\<close>, \<open>Doctor\<close>: metrics.rs, its counters against the list of runs, and languages/doctor.rs.
  \<^item> this theory: properties that span components.

  \<^bold>\<open>What the lemmas show.\<close>  Invariants are kept by every operation (\<open>store_inv\<close>, \<open>live_ok\<close>,
  \<open>sup_inv\<close>, \<open>proxy_inv\<close>, the scheduler's) and by every sequence of them.  Streams: what is decoded,
  parsed or framed does not depend on how reads cut the bytes (\<open>Utf8\<close>, \<open>Markers\<close>, \<open>Ndjson\<close>, \<open>Lsp\<close>).
  Refinements: the store against a map of sources, the hub against a log, a run's output against the
  text its program wrote. Safety: confinement of every process of a run, supersession, credentials
  at the proxy, refusal of foreign requests, sweeping. Runs: in every language they climb from
  instrumenting to testing, end with an outcome, report well-formed diagnostics and attributed
  tests, and succeed only after a clean exit. Instrumentation: the copy has the lines of the source,
  and what is spliced in is accounted for, outside tests and constant code. Errors are values, and
  what a failed operation leaves is part of the statements.

  \<^bold>\<open>Conventions and bounds.\<close>  Counters and sizes are naturals, bounded where the code checks them;
  arithmetic that wraps is on words (\<open>Lsp\<close>, \<open>Util\<close>).  There is no fuel: recursive functions
  terminate by structure or by a measure, and loops that wait on the outside run over the list
  of what they meet, so a statement that they end names the events it needs.  Times are
  milliseconds and are arguments, as are randomness, the clock and the faults of system calls.

  \<^bold>\<open>Parameters.\<close>  Code not in the repository's own sources is an argument:
  serde's reading and writing, the http crate's URI parser and header text, the kernel's sandbox
  (its support level is a datum, its ruleset a value), processes (what they write and when they
  exit), the toolchains' version output, directory listings, the parser syn (its tree is a datum). A
  run is a function of its world: a record with the session, the snapshot, the settings, the answers
  of the processes and the moments the run's token was looked at. \<open>fair\<close> says of such a
  world what serde and the store guarantee: positions read as u32 are below 2^32, and the files of a
  snapshot have distinct paths. The patterns' classes for digits and word characters are the ASCII
  ones; lower-casing is ASCII's, for suffixes of letters that nothing else lowers to.

  \<^bold>\<open>Not modelled.\<close>  The trace export, a layer of the crate tracing; the wiring of routes, timers and
  signals in main.rs; the system calls behind the sandbox.
  Outside the Rust code: the web client, the desktop shell, the instrumenters and runtimes in other
  languages.  Locks are modelled as the atomicity of what runs under them; the lossy broadcast of
  the hub as the list of its changes; the two compile-server updates of a Zig run, and a test suite
  that runs beside its program, as one after the other.
\<close>

section \<open>Properties that span components\<close>

lemma with_program_frame:
  "sp_network (with_program policy r) = sp_network policy" "sp_listen (with_program policy r) = sp_listen policy"
  "sp_read_write (with_program policy r) = sp_read_write policy"
  by (auto simp: with_program_def Let_def split: option.split)

text \<open>A program run with the sandbox on, on a kernel that confines files and network:
  it may write only its workspace, the shared compiler cache when that was made, and, when
  network access was asked for, the resolver's sockets; it may listen only as a server and
  only on the session's own port; it may connect anywhere exactly when network access was
  asked for, and nowhere otherwise.\<close>

lemma program_is_confined:
  assumes "ss_sandbox_policy s = policy_for cache made ws project_root home" "se_sandbox settings"
    and "sf_support facts = FilesAndNetwork"
  shows "\<exists>rs. cmd_ruleset (build_command facts (session_sandbox s settings) env stdin) = Some rs
    \<and> BindTcp \<in> set (rs_handled_net rs)
    \<and> (\<forall>p. (p, BindTcp) \<in> set (rs_net_rules rs) \<longleftrightarrow> se_serve settings \<and> p = ss_http_port s)
    \<and> (ConnectTcp \<in> set (rs_handled_net rs) \<longleftrightarrow> \<not> se_network settings)
    \<and> (\<forall>p. (p, ConnectTcp) \<notin> set (rs_net_rules rs))
    \<and> (\<forall>d. (d, AllFs) \<in> set (rs_fs_rules rs) \<longrightarrow>
          d = ws \<or> made \<and> d = cache \<or> se_network settings \<and> d \<in> path_of ` set resolver_paths)"
proof -
  obtain policy where p: "session_sandbox s settings = Some policy"
    and net: "sp_network policy = (if se_network settings then Outbound else NoNetwork)"
    and listen: "sp_listen policy = (if se_serve settings then Some (ss_http_port s) else None)"
    and rw: "set (sp_read_write policy) = {ws} \<union> (if made then {cache} else {})
               \<union> (if se_network settings then path_of ` set resolver_paths else {})"
    using assms(1,2) by (auto simp: session_sandbox_def Let_def policy_for_def with_outbound_network_def
        with_resolver_def with_listen_port_def split: if_splits)
  have "prepare (sf_exists facts) (with_program policy (sf_resolved facts)) FilesAndNetwork \<noteq> None"
    by (cases "sp_network (with_program policy (sf_resolved facts))")
      (simp_all add: prepare_def available_def Let_def)
  then obtain rs where rs: "prepare (sf_exists facts) (with_program policy (sf_resolved facts)) FilesAndNetwork = Some rs"
    by blast
  show ?thesis
    using prepare_bind [OF rs] prepare_connect [OF rs] prepare_fs(1) [OF rs] rs p net listen rw assms(3)
    by (intro exI [of _ rs]) (auto simp: build_command_def with_program_frame split: if_splits)
qed



text \<open>A path that passed validation, resolved against any directory the way the file
  system does, stays strictly below that directory: each of its parts is one component and
  none goes up.\<close>

theorem validated_path_stays_inside:
  assumes "valid_project_path p = Inr ()"
  shows "\<exists>parts. parts \<noteq> [] \<and> walk dir (split_on (CHR ''/'') p) = dir @ parts \<and> ''..'' \<notin> set parts"
proof -
  have parts: "list_all (\<lambda>part. part \<noteq> [] \<and> part \<noteq> ''.'' \<and> part \<noteq> ''..'') (split_on (CHR ''/'') p)"
    using valid_project_path_parts [OF assms] .
  then have "''..'' \<notin> set (split_on (CHR ''/'') p)" by (auto simp: list_all_iff)
  moreover have "split_on (CHR ''/'') p \<noteq> []" by simp
  ultimately show ?thesis using walk_plain [OF parts] by blast
qed

lemma validated_path_stays_inside_witness:
  "\<exists>parts. parts \<noteq> [] \<and> walk [''w''] (split_on (CHR ''/'') ''a/b.py'') = ''w'' # parts \<and> ''..'' \<notin> set parts"
proof -
  have "valid_project_path ''a/b.py'' = Inr ()" by code_simp
  from validated_path_stays_inside [OF this, of "[''w'']"] show ?thesis by simp
qed

text \<open>What \<open>validate_source_files\<close> accepts: between one and 64 files, each path valid
  and each source at most 1 MiB, no path twice, at most 8 MiB together, and no path that is
  also a directory of another.\<close>

theorem validated_sources:
  "validate_source_files fs = Inr () \<longleftrightarrow>
     fs \<noteq> [] \<and> length fs \<le> 64
     \<and> (\<forall>f. f \<in> set fs \<longrightarrow> valid_project_path (sf_path f) = Inr () \<and> length (sf_source f) \<le> 1024 * 1024)
     \<and> distinct (map sf_path fs) \<and> (\<Sum>f\<leftarrow>fs. length (sf_source f)) \<le> 8 * 1024 * 1024
     \<and> (\<forall>f g. f \<in> set fs \<and> g \<in> set fs \<longrightarrow> \<not> starts_with (sf_path g) (sf_path f @ ''/''))"
  unfolding validate_source_files_Inr
  by (auto simp: max_project_files_def max_project_bytes_def max_source_bytes_def list_all_iff comp_def)

lemma validated_sources_witness:
  "distinct (map sf_path [\<lparr>sf_path = ''a'', sf_source = []\<rparr>])"
proof -
  have "valid_project_path ''a'' = Inr ()" by code_simp
  then have "validate_source_files [\<lparr>sf_path = ''a'', sf_source = []\<rparr>] = Inr ()"
    by (simp add: validate_source_files_def max_source_bytes_def max_project_files_def max_project_bytes_def
        starts_with_def)
  from validated_sources [THEN iffD1, OF this] show ?thesis by (elim conjE)
qed

text \<open>C26: the collaboration hub against its specification, the log of accepted writes per
  workspace: after any operations of any connections, an edit based on revision \<open>b\<close> is
  accepted exactly when every write after \<open>b\<close> was the writer's own, it then gets the next
  revision, and a refused one is told the current revision.\<close>

theorem writes_conflict_when_others_wrote:
  "fst (record_edit w origin path source base (collab_run ops)) =
     (if log_ok (log_run ops w) origin base then Inr (length (log_run ops w) + 1)
      else Inl (Conflict (length (log_run ops w))))"
proof -
  obtain r s' where adv: "advance w origin base (collab_run ops) = (r, s')" by force
  show ?thesis
    using advance_inv [OF collab_run_inv adv] adv by (auto simp: record_edit_def)
qed

text \<open>Bytes that arrive in any chunks are decoded to text that is well formed, and when
  the stream is well formed the text is the stream, whatever the chunk boundaries.\<close>

theorem chunked_text_is_whole:
  assumes "valid_utf8 (concat cs)"
  shows "fst (decode_all decode carry_new cs) @ fst (finish (snd (decode_all decode carry_new cs))) = concat cs"
  using assms by (rule carry.whole_stream)

lemma chunked_text_is_whole_witness:
  "fst (decode_all decode carry_new [[CHR 0xC3], [CHR 0xA9]])
     @ fst (finish (snd (decode_all decode carry_new [[CHR 0xC3], [CHR 0xA9]]))) = [CHR 0xC3, CHR 0xA9]"
  using chunked_text_is_whole [of "[[CHR 0xC3], [CHR 0xA9]]"]
  by (simp add: valid_utf8_Cons tail2_def cont_def byte_def)

text \<open>The order files are listed in is a total order on text (two paths compare equal only
  when they are the same), and sorting by it gives a sorted list of the same files.\<close>

theorem files_are_ordered:
  assumes "\<And>f. f \<in> set fs \<Longrightarrow> valid_utf8 (pf_path f)"
  shows "set (sort_files fs) = set fs
     \<and> sorted_wrt (\<lambda>f g. locale_compare (pf_path f) (pf_path g) \<noteq> Greater) (sort_files fs)
     \<and> (\<forall>f g. f \<in> set fs \<and> g \<in> set fs \<longrightarrow>
          (locale_compare (pf_path f) (pf_path g) = Equal \<longleftrightarrow> pf_path f = pf_path g))"
  using assms locale_compare_Equal path_order.sort_by_sorted [of pf_path fs]
  by (auto simp: sort_files_def)

lemma files_are_ordered_witness:
  "sorted_wrt (\<lambda>f g. locale_compare (pf_path f) (pf_path g) \<noteq> Greater) (sort_files demo_files)"
  using files_are_ordered [of demo_files]
  by (simp add: demo_files_def valid_utf8_Cons byte_def)

text \<open>In production the origin guard admits exactly the server's own loopback origins and
  the non-blank entries of the allowlist, whatever the development variables hold; a request
  with no origin is refused.\<close>

theorem production_origins:
  "valid_origin \<lparr>node_env = Some ''production'', allowed_origins = allow, dev_origin = dev\<rparr> origin port \<longleftrightarrow>
     (\<exists>o1. origin = Some o1 \<and>
        (o1 \<in> (\<lambda>host. ''http://'' @ host @ '':'' @ show_nat port) ` {''127.0.0.1'', ''localhost'', ''[::1]''}
         \<or> o1 \<noteq> [] \<and> (\<exists>list. allow = Some list \<and> o1 \<in> set (map trim (split_on (CHR '','') list)))))"
  by (cases origin; cases allow)
    (auto simp: valid_origin_def valid_origin_with_def unwrap_or_default_def listed_iff local_origin_def loopback_hosts_def)

text \<open>With an access token configured, a request passes exactly when it presents that
  token: in its bearer header when it has one, in the query only otherwise.  A token of
  blanks counts as none.\<close>

theorem access_token_is_required:
  assumes "configured_access_token var = Some token"
  shows "token \<noteq> [] \<and> token_ok (configured_access_token var) authorization query =
     (case Option.bind authorization (\<lambda>value. strip_prefix value ''Bearer '') of
        Some bearer \<Rightarrow> bearer = token | None \<Rightarrow> query = Some token)"
  using assms by (auto simp: token_ok_def configured_access_token_def split: option.splits if_splits)

lemma access_token_is_required_witness:
  "token_ok (configured_access_token (Some '' s '')) (Some ''Bearer s'') None \<and> \<not> token_ok (Some ''s'') None None"
proof -
  have "trim '' s '' = ''s''" using trim_plain [of "'' s ''"] by (simp add: plain_def ascii_ws_def byte_def)
  then have c: "configured_access_token (Some '' s '') = Some ''s''" by (simp add: configured_access_token_def)
  show ?thesis
    using access_token_is_required [OF c, of "Some ''Bearer s''" None] access_token_is_required [OF c, of None None] c
    by (simp add: strip_prefix_def starts_with_def)
qed

text \<open>File URLs identify paths: decoding the percent escapes gives the path back, so two
  files of a session never share a URL.\<close>

theorem file_urls_identify_paths:
  "url_decode (drop (length ''file://'') (path_to_file_url p)) = p"
  by (simp add: path_to_file_url_def url_decode_path)

end
